(* ===== verification/Prelude.thy ===== *)
theory Prelude
  imports Main "HOL-Library.Word"
begin

text \<open>
  Shared vocabulary of the development: byte strings (a \<open>Uint8Array\<close> is a list of 8-bit
  words), thrown JavaScript errors as values, JavaScript's slicing and integer division,
  big-endian numbers and hexadecimal text (\<open>Number.prototype.toString(16)\<close>,
  \<open>BigInt.prototype.toString(16)\<close>, \<open>parseInt(s, 16)\<close>), and the lemmas on them that
  several components use. Nothing here models a file under \<^verbatim>\<open>src/\<close>; the language and its
  standard library only.
\<close>

section \<open>Names\<close>

type_synonym bytes = "8 word list"

named_theorems res_simps \<open>rules for results: \<open>Inl\<close> is a thrown error\<close>
named_theorems hex_simps \<open>rules for hexadecimal text\<close>

text \<open>
  Errors the modelled code throws. The text is the source's message, cut before the first
  interpolated value.
\<close>

datatype js_error =
    EthereumJSError string
  | PlainError string
  | TypeError
  | RangeError
  | SyntaxError
  | OutOfFuel

type_synonym 'a res = "js_error + 'a"

section \<open>Results\<close>

fun and_then :: "'e + 'a \<Rightarrow> ('a \<Rightarrow> 'e + 'b) \<Rightarrow> 'e + 'b" where
  "and_then (Inl e) f = Inl e"
| "and_then (Inr x) f = f x"

lemma and_then_Inr_iff [res_simps]:
  "and_then m f = Inr y \<longleftrightarrow> (\<exists>x. m = Inr x \<and> f x = Inr y)"
  by (cases m) auto

lemma and_then_Inl_iff [res_simps]:
  "and_then m f = Inl e \<longleftrightarrow> m = Inl e \<or> (\<exists>x. m = Inr x \<and> f x = Inl e)"
  by (cases m) auto

lemma and_then_assoc: "and_then (and_then m f) g = and_then m (\<lambda>x. and_then (f x) g)"
  by (cases m) auto

section \<open>Slices\<close>

text \<open>
  \<open>a.slice(s, e)\<close> and \<open>a.subarray(s, e)\<close> for non-negative bounds: both clamp to the
  length, and an end before the start gives the empty array.
\<close>

definition js_slice :: "'a list \<Rightarrow> nat \<Rightarrow> nat \<Rightarrow> 'a list" where
  "js_slice xs s e = take (e - s) (drop s xs)"

lemma length_js_slice: "length (js_slice xs s e) = min (e - s) (length xs - s)"
  by (simp add: js_slice_def)

lemma js_slice_inside: "e \<le> length xs \<Longrightarrow> length (js_slice xs s e) = e - s"
  by (simp add: js_slice_def)

lemma js_slice_all [simp]: "js_slice xs 0 (length xs) = xs"
  by (simp add: js_slice_def)

lemma js_slice_append:
  "s = length xs \<Longrightarrow> e = length xs + length ys \<Longrightarrow> js_slice (xs @ ys @ zs) s e = ys"
  by (simp add: js_slice_def)

lemma js_slice_drop: "s \<le> e \<Longrightarrow> e \<le> length xs \<Longrightarrow> js_slice xs s e @ drop e xs = drop s xs"
  by (metis add_diff_cancel_left' append_take_drop_id drop_drop js_slice_def le_Suc_ex add.commute)

text \<open>\<open>xs.findIndex(p)\<close> (\<open>-1\<close> when no element satisfies \<open>p\<close>), and reading \<open>xs[i]\<close>.\<close>

definition js_findIndex :: "('a \<Rightarrow> bool) \<Rightarrow> 'a list \<Rightarrow> int" where
  "js_findIndex p xs = (let n = length (takeWhile (\<lambda>x. \<not> p x) xs) in
     if n < length xs then int n else - 1)"

definition atIndex :: "'a list \<Rightarrow> int \<Rightarrow> 'a option" where
  "atIndex xs i = (if 0 \<le> i \<and> i < int (length xs) then Some (xs ! nat i) else None)"

section \<open>BigInt division\<close>

text \<open>\<open>/\<close> on BigInts truncates towards zero and \<open>%\<close> takes the sign of the dividend.\<close>

definition js_div :: "int \<Rightarrow> int \<Rightarrow> int" where
  "js_div a b = (if (a < 0) = (b < 0) then \<bar>a\<bar> div \<bar>b\<bar> else - (\<bar>a\<bar> div \<bar>b\<bar>))"

definition js_rem :: "int \<Rightarrow> int \<Rightarrow> int" where
  "js_rem a b = (if a < 0 then - (\<bar>a\<bar> mod \<bar>b\<bar>) else \<bar>a\<bar> mod \<bar>b\<bar>)"

lemma js_div_nonneg: "0 \<le> a \<Longrightarrow> 0 \<le> b \<Longrightarrow> js_div a b = a div b"
  by (auto simp: js_div_def)

lemma js_rem_nonneg: "0 \<le> a \<Longrightarrow> 0 \<le> b \<Longrightarrow> js_rem a b = a mod b"
  by (auto simp: js_rem_def)

lemma js_div_rem: "js_div a b * b + js_rem a b = a"
  by (auto simp: js_div_def js_rem_def abs_if algebra_simps minus_mult_div_eq_mod [symmetric])

section \<open>Big-endian numbers\<close>

text \<open>The number a byte string denotes, most significant byte first.\<close>

definition be_nat :: "bytes \<Rightarrow> nat" where
  "be_nat bs = foldl (\<lambda>a b. a * 256 + unat b) 0 bs"

text \<open>The shortest byte string of a number; zero is one zero byte.\<close>

fun nat_be :: "nat \<Rightarrow> bytes" where
  "nat_be n = (if n < 256 then [word_of_nat n] else nat_be (n div 256) @ [word_of_nat (n mod 256)])"

declare nat_be.simps [simp del]

lemma be_nat_Nil [simp]: "be_nat [] = 0"
  by (simp add: be_nat_def)

lemma be_nat_snoc [simp]: "be_nat (bs @ [b]) = be_nat bs * 256 + unat b"
  by (simp add: be_nat_def)

lemma be_nat_single [simp]: "be_nat [b] = unat b"
  by (simp add: be_nat_def)

lemma be_nat_append: "be_nat (xs @ ys) = be_nat xs * 256 ^ length ys + be_nat ys"
  by (induction ys rule: rev_induct) (simp_all add: algebra_simps flip: append_assoc)

lemma be_nat_Cons: "be_nat (b # bs) = unat b * 256 ^ length bs + be_nat bs"
  using be_nat_append [of "[b]" bs] by simp

lemma unat_byte_less [simp]: "unat (b :: 8 word) < 256"
  using unsigned_less [where 'a = nat and w = b] by simp

lemma be_nat_less: "be_nat bs < 256 ^ length bs"
proof (induction bs)
  case (Cons b bs)
  have "be_nat (b # bs) < (unat b + 1) * 256 ^ length bs"
    using Cons by (simp add: be_nat_Cons)
  also have "\<dots> \<le> 256 * 256 ^ length bs"
    using unat_byte_less [of b] by (intro mult_right_mono) (simp_all add: Suc_le_eq)
  finally show ?case by simp
qed simp

lemma be_nat_replicate_0 [simp]: "be_nat (replicate n 0 @ bs) = be_nat bs"
  by (induction n) (simp_all add: be_nat_Cons)

lemma unat_byte_of_nat [simp]: "n < 256 \<Longrightarrow> unat (word_of_nat n :: 8 word) = n"
  by (simp add: unat_of_nat)

lemma byte_of_nat_unat [simp]: "word_of_nat (unat (b :: 8 word)) = b"
  by simp

lemma be_nat_nat_be [simp]: "be_nat (nat_be n) = n"
proof (induction n rule: nat_be.induct)
  case (1 n)
  then show ?case by (cases "n < 256") (simp_all add: nat_be.simps [of n])
qed

lemma nat_be_not_Nil [simp]: "nat_be n \<noteq> []"
  by (simp add: nat_be.simps [of n])

lemma nat_be_snoc:
  assumes "m \<noteq> 0"
  shows "nat_be (m * 256 + unat b) = nat_be m @ [b]"
proof -
  have "256 \<le> m * 256 + unat b" using assms by simp
  moreover have "(m * 256 + unat b) div 256 = m" "(m * 256 + unat b) mod 256 = unat b"
    by simp_all
  ultimately show ?thesis by (simp add: nat_be.simps [of "m * 256 + unat b"])
qed

lemma be_nat_eq_0_iff: "be_nat bs = 0 \<longleftrightarrow> (\<forall>b \<in> set bs. b = 0)"
  by (induction bs) (auto simp: be_nat_Cons unat_eq_zero)

lemma nat_be_be_nat:
  assumes "bs \<noteq> []" and "hd bs \<noteq> 0"
  shows "nat_be (be_nat bs) = bs"
  using assms
proof (induction bs rule: rev_induct)
  case (snoc b bs)
  show ?case
  proof (cases bs)
    case Nil
    then show ?thesis by (simp add: nat_be.simps [of "unat b"])
  next
    case (Cons c cs)
    with snoc.prems have hd: "hd bs \<noteq> 0" and "bs \<noteq> []" by auto
    with snoc.IH have ih: "nat_be (be_nat bs) = bs" by blast
    moreover have "be_nat bs \<noteq> 0"
      using hd \<open>bs \<noteq> []\<close> by (auto simp: be_nat_eq_0_iff)
    ultimately show ?thesis by (simp add: nat_be_snoc)
  qed
qed simp

lemma hd_nat_be: "n \<noteq> 0 \<Longrightarrow> hd (nat_be n) \<noteq> 0"
proof (induction n rule: nat_be.induct)
  case (1 n)
  show ?case
  proof (cases "n < 256")
    case True
    with "1.prems" show ?thesis
      by (auto simp: nat_be.simps [of n] word_of_nat_eq_0_iff dest: dvd_imp_le)
  next
    case False
    then have "n div 256 \<noteq> 0" by auto
    with "1.IH" False have "hd (nat_be (n div 256)) \<noteq> 0" by blast
    with False show ?thesis by (simp add: nat_be.simps [of n])
  qed
qed

lemma length_nat_be_le: "n < 256 ^ k \<Longrightarrow> 0 < k \<Longrightarrow> length (nat_be n) \<le> k"
proof (induction k arbitrary: n)
  case (Suc k)
  show ?case
  proof (cases "n < 256")
    case True
    then show ?thesis by (simp add: nat_be.simps [of n])
  next
    case False
    with Suc.prems have "k \<noteq> 0" by (cases k) auto
    moreover have "n div 256 < 256 ^ k"
      using Suc.prems by (simp add: div_less_iff_less_mult mult.commute)
    ultimately have "length (nat_be (n div 256)) \<le> k" using Suc.IH by simp
    with False show ?thesis by (simp add: nat_be.simps [of n])
  qed
qed simp

lemma length_nat_be_pos [simp]: "0 < length (nat_be n)"
  by (simp add: nat_be.simps [of n])

section \<open>Hexadecimal text\<close>

text \<open>A digit as \<open>toString(16)\<close> prints it, and the value of a digit of either case.\<close>

definition hex_digit :: "nat \<Rightarrow> char" where
  "hex_digit n = (if n < 10 then char_of (48 + n) else char_of (87 + n))"

definition hex_value :: "char \<Rightarrow> nat option" where
  "hex_value c = (let n = of_char c in
     if 48 \<le> n \<and> n \<le> 57 then Some (n - 48)
     else if 65 \<le> n \<and> n \<le> 70 then Some (n - 55)
     else if 97 \<le> n \<and> n \<le> 102 then Some (n - 87)
     else None)"

definition is_hex_digit :: "char \<Rightarrow> bool" where
  "is_hex_digit c = (hex_value c \<noteq> None)"

text \<open>\<open>n.toString(16)\<close> of a non-negative integer.\<close>

fun to_hex :: "nat \<Rightarrow> string" where
  "to_hex n = (if n < 16 then [hex_digit n] else to_hex (n div 16) @ [hex_digit (n mod 16)])"

declare to_hex.simps [simp del]

text \<open>The number a string of hexadecimal digits denotes.\<close>

definition of_hex :: "string \<Rightarrow> nat" where
  "of_hex s = foldl (\<lambda>a c. a * 16 + (case hex_value c of Some d \<Rightarrow> d | None \<Rightarrow> 0)) 0 s"

text \<open>
  \<open>parseInt(s, 16)\<close> on a string without white space, sign or \<open>0x\<close> prefix: the longest
  prefix of digits, \<open>NaN\<close> (here \<open>None\<close>) when it is empty.
\<close>

definition parseInt16 :: "string \<Rightarrow> nat option" where
  "parseInt16 s = (let ds = takeWhile is_hex_digit s in
     if ds = [] then None else Some (of_hex ds))"

text \<open>\<open>BigInt(s)\<close> on a string with a \<open>0x\<close> prefix.\<close>

definition js_BigInt_hex :: "string \<Rightarrow> int res" where
  "js_BigInt_hex s =
     (if take 2 s = ''0x'' \<and> drop 2 s \<noteq> [] \<and> list_all is_hex_digit (drop 2 s)
      then Inr (int (of_hex (drop 2 s))) else Inl SyntaxError)"

text \<open>\<open>n.toString(16)\<close> of an integer of either sign.\<close>

definition int_to_hex :: "int \<Rightarrow> string" where
  "int_to_hex i = (if i < 0 then CHR ''-'' # to_hex (nat (- i)) else to_hex (nat i))"

text \<open>Two digits per byte.\<close>

definition hex2 :: "8 word \<Rightarrow> string" where
  "hex2 b = [hex_digit (unat b div 16), hex_digit (unat b mod 16)]"

definition bytes_hex :: "bytes \<Rightarrow> string" where
  "bytes_hex bs = concat (map hex2 bs)"

lemma hex_digit_0 [simp]: "hex_digit 0 = CHR ''0''"
  by code_simp

lemma hex_value_hex_digit [simp]: "n < 16 \<Longrightarrow> hex_value (hex_digit n) = Some n"
  by (auto simp: hex_value_def hex_digit_def Let_def)

lemma is_hex_digit_hex_digit [simp]: "n < 16 \<Longrightarrow> is_hex_digit (hex_digit n)"
  by (simp add: is_hex_digit_def)

lemma hex_value_less: "hex_value c = Some d \<Longrightarrow> d < 16"
  by (auto simp: hex_value_def Let_def split: if_splits)

lemma of_hex_Nil [simp]: "of_hex [] = 0"
  by (simp add: of_hex_def)

lemma of_hex_snoc: "hex_value c = Some d \<Longrightarrow> of_hex (s @ [c]) = of_hex s * 16 + d"
  by (simp add: of_hex_def)

lemma of_hex_to_hex [simp]: "of_hex (to_hex n) = n"
proof (induction n rule: to_hex.induct)
  case (1 n)
  then show ?case
    by (cases "n < 16")
      (simp_all add: to_hex.simps [of n] of_hex_snoc of_hex_snoc [where s = "[]", simplified])
qed

lemma to_hex_not_Nil [simp]: "to_hex n \<noteq> []"
  by (simp add: to_hex.simps [of n])

lemma set_to_hex: "c \<in> set (to_hex n) \<Longrightarrow> is_hex_digit c"
proof (induction n rule: to_hex.induct)
  case (1 n)
  then show ?case by (cases "n < 16") (auto simp: to_hex.simps [of n])
qed

lemma bytes_hex_Nil [simp]: "bytes_hex [] = []"
  by (simp add: bytes_hex_def)

lemma bytes_hex_Cons [simp]: "bytes_hex (b # bs) = hex2 b @ bytes_hex bs"
  by (simp add: bytes_hex_def)

lemma bytes_hex_append [simp]: "bytes_hex (xs @ ys) = bytes_hex xs @ bytes_hex ys"
  by (simp add: bytes_hex_def)

lemma length_hex2 [simp]: "length (hex2 b) = 2"
  by (simp add: hex2_def)

lemma length_bytes_hex [simp]: "length (bytes_hex bs) = 2 * length bs"
  by (induction bs) simp_all

lemma bytes_hex_eq_Nil_iff [simp]: "bytes_hex bs = [] \<longleftrightarrow> bs = []"
  by (cases bs) (simp_all add: hex2_def)

lemma nibble_div [simp]: "unat (b :: 8 word) div 16 < 16"
  using unat_byte_less [of b] by (simp add: div_less_iff_less_mult)

lemma set_bytes_hex: "c \<in> set (bytes_hex bs) \<Longrightarrow> is_hex_digit c"
  by (induction bs) (auto simp: hex2_def)

lemma of_hex_bytes_hex [simp]: "of_hex (bytes_hex bs) = be_nat bs"
proof (induction bs rule: rev_induct)
  case (snoc b bs)
  have "of_hex (bytes_hex bs @ [hex_digit (unat b div 16)] @ [hex_digit (unat b mod 16)])
    = (be_nat bs * 16 + unat b div 16) * 16 + unat b mod 16"
    using snoc.IH
    by (simp add: of_hex_snoc [of _ _ "_ @ [_]", simplified] of_hex_snoc)
  also have "\<dots> = be_nat bs * 256 + unat b" by (simp add: algebra_simps)
  finally show ?case by (simp add: hex2_def)
qed simp

lemma to_hex_step: "256 \<le> n \<Longrightarrow>
  to_hex n = to_hex (n div 256) @ hex2 (word_of_nat (n mod 256))"
proof -
  assume n: "256 \<le> n"
  have "to_hex n = to_hex (n div 16) @ [hex_digit (n mod 16)]"
    using n by (simp add: to_hex.simps [of n])
  also have "to_hex (n div 16) = to_hex (n div 256) @ [hex_digit (n div 16 mod 16)]"
    using n by (simp add: to_hex.simps [of "n div 16"] div_mult2_eq [symmetric])
  moreover have "n mod 256 div 16 = n div 16 mod 16" "n mod 256 mod 16 = n mod 16"
    using mod_mult2_eq [of n 16 16] by (simp_all add: mod_mod_cancel)
  ultimately show ?thesis by (simp add: hex2_def)
qed

lemma to_hex_even:
  "(if odd (length (to_hex n)) then CHR ''0'' # to_hex n else to_hex n) = bytes_hex (nat_be n)"
proof (induction n rule: nat_be.induct)
  case (1 n)
  show ?case
  proof (cases "n < 256")
    case True
    then have "n div 16 < 16" by (simp add: div_less_iff_less_mult)
    then show ?thesis using True
      by (simp add: nat_be.simps [of n] hex2_def to_hex.simps [of n] to_hex.simps [of "n div 16"])
  next
    case False
    with 1 show ?thesis
      by (auto simp: to_hex_step [of n] nat_be.simps [of n] split: if_splits)
  qed
qed

lemma parseInt16_bytes_hex:
  "parseInt16 (bytes_hex bs) = (if bs = [] then None else Some (be_nat bs))"
proof -
  have "takeWhile is_hex_digit (bytes_hex bs) = bytes_hex bs"
    by (simp add: takeWhile_eq_all_conv set_bytes_hex)
  then show ?thesis by (simp only: parseInt16_def Let_def) simp
qed

section \<open>Maps and sets in insertion order\<close>

text \<open>
  A \<open>Map\<close>, a \<open>Set\<close> or an object used as a dictionary, as JavaScript iterates over them: a new
  key goes to the end, an existing one keeps its place.
\<close>

fun obj_set :: "'k \<Rightarrow> 'v \<Rightarrow> ('k \<times> 'v) list \<Rightarrow> ('k \<times> 'v) list" where
  "obj_set k v [] = [(k, v)]"
| "obj_set k v ((k', v') # kvs) = (if k = k' then (k, v) # kvs else (k', v') # obj_set k v kvs)"

definition obj_delete :: "'k \<Rightarrow> ('k \<times> 'v) list \<Rightarrow> ('k \<times> 'v) list" where
  "obj_delete k m = filter (\<lambda>kv. fst kv \<noteq> k) m"

definition set_add :: "'a \<Rightarrow> 'a list \<Rightarrow> 'a list" where
  "set_add x xs = (if x \<in> set xs then xs else xs @ [x])"

definition set_delete :: "'a \<Rightarrow> 'a list \<Rightarrow> 'a list" where
  "set_delete x xs = filter (\<lambda>y. y \<noteq> x) xs"

lemma map_of_obj_set [simp]: "map_of (obj_set k v m) = (map_of m)(k \<mapsto> v)"
  by (induction m) (auto simp: fun_eq_iff)

lemma map_of_obj_delete [simp]: "map_of (obj_delete k m) = (map_of m)(k := None)"
  by (induction m) (auto simp: obj_delete_def fun_eq_iff)

lemma set_set_add [simp]: "set (set_add x xs) = insert x (set xs)"
  by (auto simp: set_add_def)

lemma set_set_delete [simp]: "set (set_delete x xs) = set xs - {x}"
  by (auto simp: set_delete_def)

end
