(* ===== verification/Rlp.thy ===== *)
theory Rlp
  imports Prelude
begin

text \<open>
  Recursive Length Prefix encoding, \<^verbatim>\<open>packages/rlp/src/index.ts\<close>: the package's own
  hexadecimal helpers, \<open>toBytes\<close>, \<open>encode\<close>, the recursive decoder \<open>_decode\<close> and its
  entry point \<open>decode\<close>. Lengths are natural numbers: the code's \<open>Number\<close> lengths are exact
  up to \<open>2^53\<close>, and a decoded length above the input's own length is refused whether or not
  it was rounded. Strings are lists of Latin-1 code points. The recursion of \<open>_decode\<close> is
  driven by fuel; \<open>decodeF_total\<close> shows that one more than twice the input's length is
  enough for every input, so no result depends on it (the limit of the engine's call stack is
  not modelled).
\<close>

section \<open>Data\<close>

text \<open>\<open>Input\<close>: what \<open>encode\<close> and \<open>decode\<close> accept. Numbers are integers.\<close>

datatype rlp_input =
    InString string
  | InNumber int
  | InBigint int
  | InBytes bytes
  | InArray "rlp_input list"
  | InNull
  | InUndefined

text \<open>\<open>Uint8Array | NestedUint8Array\<close>\<close>

datatype nested = NBytes bytes | NArray "nested list"

text \<open>What \<open>decode\<close> returns: the data, or in stream mode the data and the remainder.\<close>

datatype decode_out = Data nested | Decoded nested bytes

section \<open>Hexadecimal helpers\<close>

definition cachedHexes :: "8 word \<Rightarrow> string" where
  "cachedHexes b = (let h = to_hex (unat b) in
     if length h < 2 then replicate (2 - length h) (CHR ''0'') @ h else h)"

fun bytesToHex :: "bytes \<Rightarrow> string" where
  "bytesToHex [] = []"
| "bytesToHex (b # bs) = cachedHexes b @ bytesToHex bs"

definition parseHexByte :: "string \<Rightarrow> nat res" where
  "parseHexByte hexByte = (case parseInt16 hexByte of
     None \<Rightarrow> Inl (EthereumJSError ''Invalid byte sequence'')
   | Some byte \<Rightarrow> Inr byte)"

definition asciiToBase16 :: "char \<Rightarrow> nat option" where
  "asciiToBase16 c = (let char = of_char c in
     if char \<ge> 48 \<and> char \<le> 57 then Some (char - 48)
     else if char \<ge> 65 \<and> char \<le> 70 then Some (char - (65 - 10))
     else if char \<ge> 97 \<and> char \<le> 102 then Some (char - (97 - 10))
     else None)"

fun hexPairs :: "string \<Rightarrow> bytes res" where
  "hexPairs [] = Inr []"
| "hexPairs [c] = Inr []"
| "hexPairs (c1 # c2 # cs) = (case (asciiToBase16 c1, asciiToBase16 c2) of
     (Some n1, Some n2) \<Rightarrow>
       and_then (hexPairs cs) (\<lambda>bs. Inr (word_of_nat (n1 * 16 + n2) # bs))
   | _ \<Rightarrow> Inl (EthereumJSError ''hex string expected, got non-hex character ''))"

definition hexToBytes :: "string \<Rightarrow> bytes res" where
  "hexToBytes hex =
     (let hex = (if take 2 hex = ''0x'' then drop 2 hex else hex) in
      if length hex mod 2 \<noteq> 0
      then Inl (EthereumJSError ''padded hex string expected, got unpadded hex of length '')
      else hexPairs hex)"

definition concatBytes :: "bytes list \<Rightarrow> bytes" where
  "concatBytes arrays = concat arrays"

fun utf8ToBytes :: "string \<Rightarrow> bytes" where
  "utf8ToBytes [] = []"
| "utf8ToBytes (c # cs) = (let n = of_char c :: nat in
     if n < 128 then word_of_nat n # utf8ToBytes cs
     else word_of_nat (192 + n div 64) # word_of_nat (128 + n mod 64) # utf8ToBytes cs)"

definition numberToHex :: "int \<Rightarrow> string res" where
  "numberToHex integer =
     (if integer < 0
      then Inl (EthereumJSError ''Invalid integer as argument, must be unsigned!'')
      else let hex = to_hex (nat integer) in
        Inr (if length hex mod 2 \<noteq> 0 then CHR ''0'' # hex else hex))"

definition padToEven :: "string \<Rightarrow> string" where
  "padToEven a = (if length a mod 2 \<noteq> 0 then CHR ''0'' # a else a)"

definition isHexString :: "string \<Rightarrow> bool" where
  "isHexString str = (length str \<ge> 2 \<and> str ! 0 = CHR ''0'' \<and> str ! 1 = CHR ''x'')"

definition stripHexPrefix :: "string \<Rightarrow> string" where
  "stripHexPrefix str = (if isHexString str then drop 2 str else str)"

fun toBytes :: "rlp_input \<Rightarrow> bytes res" where
  "toBytes (InBytes v) = Inr v"
| "toBytes (InString v) =
     (if isHexString v then hexToBytes (padToEven (stripHexPrefix v)) else Inr (utf8ToBytes v))"
| "toBytes (InNumber v) = (if v = 0 then Inr [] else and_then (numberToHex v) hexToBytes)"
| "toBytes (InBigint v) = (if v = 0 then Inr [] else and_then (numberToHex v) hexToBytes)"
| "toBytes InNull = Inr []"
| "toBytes InUndefined = Inr []"
| "toBytes (InArray v) = Inl (EthereumJSError ''toBytes: received unsupported type '')"

section \<open>Encoding\<close>

definition encodeLength :: "nat \<Rightarrow> nat \<Rightarrow> bytes res" where
  "encodeLength len offset =
     (if len < 56 then Inr [word_of_nat (len + offset)]
      else and_then (numberToHex (int len)) (\<lambda>hexLength.
        let lLength = length hexLength div 2 in
        and_then (numberToHex (int (offset + 55 + lLength))) (\<lambda>firstByte.
          hexToBytes (firstByte @ hexLength))))"

fun encode :: "rlp_input \<Rightarrow> bytes res"
  and encodeAll :: "rlp_input list \<Rightarrow> bytes list res"
where
  "encode (InArray input) = and_then (encodeAll input) (\<lambda>out.
     and_then (encodeLength (sum_list (map length out)) 192) (\<lambda>prefix.
       Inr (concatBytes (prefix # out))))"
| "encode input = and_then (toBytes input) (\<lambda>inputBuf.
     if length inputBuf = 1 \<and> inputBuf ! 0 < 128 then Inr inputBuf
     else and_then (encodeLength (length inputBuf) 128) (\<lambda>prefix.
       Inr (concatBytes [prefix, inputBuf])))"
| "encodeAll [] = Inr []"
| "encodeAll (i # is) = and_then (encode i) (\<lambda>e.
     and_then (encodeAll is) (\<lambda>es. Inr (e # es)))"

section \<open>Decoding\<close>

definition decodeLength :: "bytes \<Rightarrow> nat res" where
  "decodeLength v =
     (if v \<noteq> [] \<and> v ! 0 = 0 then Inl (EthereumJSError ''invalid RLP: extra zeros'')
      else parseHexByte (bytesToHex v))"

definition safeSlice :: "bytes \<Rightarrow> nat \<Rightarrow> nat \<Rightarrow> bytes res" where
  "safeSlice input start end' =
     (if end' > length input
      then Inl (EthereumJSError ''invalid RLP (safeSlice): end slice of Uint8Array out-of-bounds'')
      else Inr (js_slice input start end'))"

text \<open>
  \<open>_decode\<close> and its loop over the items of a list. On the empty array \<open>input[0]\<close> is
  \<open>undefined\<close>, every comparison fails and the last branch parses the empty string: the error
  is \<open>parseHexByte\<close>'s.
\<close>

fun decodeF :: "nat \<Rightarrow> bytes \<Rightarrow> (nested \<times> bytes) res option"
  and decodeItemsF :: "nat \<Rightarrow> bytes \<Rightarrow> nested list res option"
where
  "decodeF 0 input = None"
| "decodeF (Suc fuel) [] = Some (and_then (decodeLength []) (\<lambda>_. Inl TypeError))"
| "decodeF (Suc fuel) (b # rest) =
     (let input = b # rest; firstByte = unat b in
      if firstByte \<le> 0x7f then
        Some (Inr (NBytes (js_slice input 0 1), drop 1 input))
      else if firstByte \<le> 0xb7 then
        Some (let len = firstByte - 0x7f in
          and_then (if firstByte = 0x80 then Inr [] else safeSlice input 1 len) (\<lambda>data.
            if len = 2 \<and> data ! 0 < 0x80
            then Inl (EthereumJSError ''invalid RLP encoding: invalid prefix, single byte < 0x80 are not prefixed'')
            else Inr (NBytes data, drop len input)))
      else if firstByte \<le> 0xbf then
        Some (let lLength = firstByte - 0xb6 in
          if length input - 1 < lLength
          then Inl (EthereumJSError ''invalid RLP: not enough bytes for string length'')
          else and_then (safeSlice input 1 lLength) (\<lambda>lenBytes.
            and_then (decodeLength lenBytes) (\<lambda>len.
            if len \<le> 55
            then Inl (EthereumJSError ''invalid RLP: expected string length to be greater than 55'')
            else and_then (safeSlice input lLength (len + lLength)) (\<lambda>data.
              Inr (NBytes data, drop (len + lLength) input)))))
      else if firstByte \<le> 0xf7 then
        (let len = firstByte - 0xbf in
         case safeSlice input 1 len of
           Inl e \<Rightarrow> Some (Inl e)
         | Inr innerRemainder \<Rightarrow>
             map_option (\<lambda>r. and_then r (\<lambda>decoded. Inr (NArray decoded, drop len input)))
               (decodeItemsF fuel innerRemainder))
      else
        (let lLength = firstByte - 0xf6 in
         case and_then (safeSlice input 1 lLength) decodeLength of
           Inl e \<Rightarrow> Some (Inl e)
         | Inr len \<Rightarrow>
             if len < 56 then Some (Inl (EthereumJSError ''invalid RLP: encoded list too short''))
             else let totalLength = lLength + len in
               if totalLength > length input
               then Some (Inl (EthereumJSError ''invalid RLP: total length is larger than the data''))
               else case safeSlice input lLength totalLength of
                 Inl e \<Rightarrow> Some (Inl e)
               | Inr innerRemainder \<Rightarrow>
                   map_option (\<lambda>r. and_then r (\<lambda>decoded.
                       Inr (NArray decoded, drop totalLength input)))
                     (decodeItemsF fuel innerRemainder)))"
| "decodeItemsF 0 innerRemainder = None"
| "decodeItemsF (Suc fuel) innerRemainder =
     (if innerRemainder = [] then Some (Inr [])
      else case decodeF fuel innerRemainder of
        None \<Rightarrow> None
      | Some (Inl e) \<Rightarrow> Some (Inl e)
      | Some (Inr (data, remainder)) \<Rightarrow>
          map_option (\<lambda>r. and_then r (\<lambda>ds. Inr (data # ds))) (decodeItemsF fuel remainder))"

text \<open>Twice the length and one more: \<open>decodeF\<close> and \<open>decodeItemsF\<close> alternate.\<close>

definition decode1 :: "bytes \<Rightarrow> (nested \<times> bytes) res" where
  "decode1 input = (case decodeF (2 * length input + 1) input of
     Some r \<Rightarrow> r | None \<Rightarrow> Inl RangeError)"

fun inputLengthZero :: "rlp_input \<Rightarrow> bool" where
  "inputLengthZero InUndefined = True"
| "inputLengthZero InNull = True"
| "inputLengthZero (InString v) = (length v = 0)"
| "inputLengthZero (InBytes v) = (length v = 0)"
| "inputLengthZero (InArray v) = (length v = 0)"
| "inputLengthZero (InNumber v) = False"
| "inputLengthZero (InBigint v) = False"

definition decode :: "rlp_input \<Rightarrow> bool \<Rightarrow> decode_out res" where
  "decode input stream =
     (if inputLengthZero input then Inr (Data (NBytes []))
      else and_then (toBytes input) (\<lambda>inputBytes.
        and_then (decode1 inputBytes) (\<lambda>(data, remainder).
          if stream then Inr (Decoded data remainder)
          else if length remainder \<noteq> 0
          then Inl (EthereumJSError ''invalid RLP: remainder must be zero'')
          else Inr (Data data))))"

section \<open>The helpers on the byte strings the codec meets\<close>

lemma asciiToBase16_eq: "asciiToBase16 c = hex_value c"
  by (simp add: asciiToBase16_def hex_value_def Let_def)

lemma cachedHexes_hex2: "cachedHexes b = hex2 b"
proof (cases "unat b < 16")
  case True
  then show ?thesis
    by (simp add: cachedHexes_def hex2_def to_hex.simps [of "unat b"] Let_def)
next
  case False
  then show ?thesis
    by (simp add: cachedHexes_def hex2_def to_hex.simps [of "unat b"]
        to_hex.simps [of "unat b div 16"])
qed

lemma bytesToHex_bytes_hex [hex_simps]: "bytesToHex bs = bytes_hex bs"
  by (induction bs) (simp_all add: cachedHexes_hex2)

lemma hexPairs_bytes_hex: "hexPairs (bytes_hex bs) = Inr bs"
  by (induction bs) (simp_all add: hex2_def asciiToBase16_eq)

lemma not_hex_x: "\<not> is_hex_digit (CHR ''x'')"
  by (simp add: is_hex_digit_def hex_value_def)

lemma bytes_hex_no_0x: "take 2 (bytes_hex bs) \<noteq> ''0x''"
proof
  assume "take 2 (bytes_hex bs) = ''0x''"
  then have "CHR ''x'' \<in> set (take 2 (bytes_hex bs))" by simp
  then have "CHR ''x'' \<in> set (bytes_hex bs)" by (rule in_set_takeD)
  then show False using set_bytes_hex not_hex_x by blast
qed

lemma hexToBytes_bytes_hex [hex_simps]: "hexToBytes (bytes_hex bs) = Inr bs"
  by (simp add: hexToBytes_def bytes_hex_no_0x hexPairs_bytes_hex)

lemma numberToHex_eq [hex_simps]: "numberToHex (int n) = Inr (bytes_hex (nat_be n))"
  by (simp add: numberToHex_def Let_def odd_iff_mod_2_eq_one flip: to_hex_even)

lemma parseHexByte_bytesToHex:
  "parseHexByte (bytesToHex v) =
     (if v = [] then Inl (EthereumJSError ''Invalid byte sequence'') else Inr (be_nat v))"
  by (simp add: parseHexByte_def hex_simps parseInt16_bytes_hex)

lemma decodeLength_eq: "v \<noteq> [] \<Longrightarrow> decodeLength v =
  (if hd v = 0 then Inl (EthereumJSError ''invalid RLP: extra zeros'') else Inr (be_nat v))"
  by (simp add: decodeLength_def parseHexByte_bytesToHex hd_conv_nth)

lemma decodeLength_Nil: "decodeLength [] = Inl (EthereumJSError ''Invalid byte sequence'')"
  by (simp add: decodeLength_def parseHexByte_def parseInt16_def)

lemma encodeLength_short: "len < 56 \<Longrightarrow> encodeLength len offset = Inr [word_of_nat (len + offset)]"
  by (simp add: encodeLength_def)

lemma encodeLength_long:
  assumes "56 \<le> len" and "offset + 55 + length (nat_be len) < 256"
  shows "encodeLength len offset =
    Inr (word_of_nat (offset + 55 + length (nat_be len)) # nat_be len)"
proof -
  let ?l = "offset + 55 + length (nat_be len)"
  have "nat_be ?l = [word_of_nat ?l]" using assms(2) by (simp add: nat_be.simps [of ?l])
  then have "numberToHex (int ?l) = Inr (bytes_hex [word_of_nat ?l])"
    using numberToHex_eq [of ?l] by simp
  moreover have "hexToBytes (bytes_hex [word_of_nat ?l] @ bytes_hex (nat_be len)) =
      Inr (word_of_nat ?l # nat_be len)"
    using hexToBytes_bytes_hex [of "word_of_nat ?l # nat_be len"] by simp
  ultimately show ?thesis using assms(1)
    by (simp add: encodeLength_def numberToHex_eq Let_def del: bytes_hex_Cons of_nat_add)
qed

section \<open>Reference encoding\<close>

text \<open>The encoding as the Ethereum specification states it, on decoded data.\<close>

definition rlp_prefix :: "nat \<Rightarrow> nat \<Rightarrow> bytes" where
  "rlp_prefix offset len =
     (if len < 56 then [word_of_nat (offset + len)]
      else word_of_nat (offset + 55 + length (nat_be len)) # nat_be len)"

fun rlp :: "nested \<Rightarrow> bytes" where
  "rlp (NBytes b) = (if length b = 1 \<and> hd b < 128 then b else rlp_prefix 128 (length b) @ b)"
| "rlp (NArray xs) = (let p = concat (map rlp xs) in rlp_prefix 192 (length p) @ p)"

fun payload :: "nested \<Rightarrow> bytes" where
  "payload (NBytes b) = b"
| "payload (NArray xs) = concat (map rlp xs)"

text \<open>Lengths an eight-byte length prefix can hold.\<close>

definition encodable :: "nested \<Rightarrow> bool" where
  "encodable x \<longleftrightarrow> length (payload x) < 256 ^ 8"

fun inputOf :: "nested \<Rightarrow> rlp_input" where
  "inputOf (NBytes b) = InBytes b"
| "inputOf (NArray xs) = InArray (map inputOf xs)"

lemma rlp_prefix_not_Nil [simp]: "rlp_prefix offset len \<noteq> []"
  by (simp add: rlp_prefix_def)

lemma rlp_not_Nil [simp]: "rlp x \<noteq> []"
  by (cases x) (auto simp: Let_def)

lemma length_payload_le: "length (payload x) \<le> length (rlp x)"
  by (cases x) (auto simp: Let_def)

lemma length_rlp_le_payload: "y \<in> set xs \<Longrightarrow> length (rlp y) \<le> length (payload (NArray xs))"
  by (induction xs) auto

lemma encodable_child: "encodable (NArray xs) \<Longrightarrow> y \<in> set xs \<Longrightarrow> encodable y"
  using length_rlp_le_payload [of y xs] length_payload_le [of y] by (simp add: encodable_def)

lemma length_nat_be_8: "len < 256 ^ 8 \<Longrightarrow> length (nat_be len) \<le> 8"
  using length_nat_be_le [of len 8] by simp

lemma encodeLength_prefix:
  assumes "len < 256 ^ 8" and "offset \<le> 192"
  shows "encodeLength len offset = Inr (rlp_prefix offset len)"
proof (cases "len < 56")
  case True
  then show ?thesis by (simp add: encodeLength_short rlp_prefix_def add.commute)
next
  case False
  then show ?thesis using encodeLength_long [of len offset] length_nat_be_8 [OF assms(1)] assms(2)
    by (simp add: rlp_prefix_def)
qed

lemma encodeAll_Inr: "(\<And>y. y \<in> set xs \<Longrightarrow> encode (inputOf y) = Inr (rlp y)) \<Longrightarrow>
  encodeAll (map inputOf xs) = Inr (map rlp xs)"
  by (induction xs) simp_all

lemma encode_rlp: "encodable x \<Longrightarrow> encode (inputOf x) = Inr (rlp x)"
proof (induction x)
  case (NBytes b)
  then have "encodeLength (length b) 128 = Inr (rlp_prefix 128 (length b))"
    by (intro encodeLength_prefix) (simp_all add: encodable_def)
  then show ?case by (cases b) (auto simp: concatBytes_def)
next
  case (NArray xs)
  have "encodeAll (map inputOf xs) = Inr (map rlp xs)"
    using NArray.IH encodable_child [OF NArray.prems] by (intro encodeAll_Inr) blast
  moreover have "encodeLength (length (concat (map rlp xs))) 192 =
      Inr (rlp_prefix 192 (length (concat (map rlp xs))))"
    using NArray.prems by (intro encodeLength_prefix) (simp_all add: encodable_def)
  ultimately show ?case by (simp add: concatBytes_def Let_def length_concat comp_def)
qed

section \<open>The decoder against the reference encoding\<close>

lemma safeSlice_Inr_iff [res_simps]:
  "safeSlice input s e = Inr v \<longleftrightarrow> e \<le> length input \<and> v = js_slice input s e"
  by (auto simp: safeSlice_def)

text \<open>
  The case analysis of \<open>_decode\<close> on the first byte: a result, or the bytes of a list's items
  and the length of the whole list.
\<close>

definition rlp_head :: "bytes \<Rightarrow> (nested \<times> bytes) res + (bytes \<times> nat)" where
  "rlp_head input = (case input of
     [] \<Rightarrow> Inl (and_then (decodeLength []) (\<lambda>_. Inl TypeError))
   | b # rest \<Rightarrow> (let firstByte = unat b in
      if firstByte \<le> 0x7f then Inl (Inr (NBytes [b], rest))
      else if firstByte \<le> 0xbf then
        Inl (case decodeF 1 input of Some r \<Rightarrow> r | None \<Rightarrow> Inl TypeError)
      else if firstByte \<le> 0xf7 then
        (case safeSlice input 1 (firstByte - 0xbf) of
           Inl e \<Rightarrow> Inl (Inl e) | Inr inner \<Rightarrow> Inr (inner, firstByte - 0xbf))
      else
        (let lLength = firstByte - 0xf6 in
         case and_then (safeSlice input 1 lLength) decodeLength of
           Inl e \<Rightarrow> Inl (Inl e)
         | Inr len \<Rightarrow>
             if len < 56 then Inl (Inl (EthereumJSError ''invalid RLP: encoded list too short''))
             else if lLength + len > length input
             then Inl (Inl (EthereumJSError ''invalid RLP: total length is larger than the data''))
             else Inr (js_slice input lLength (lLength + len), lLength + len))))"

lemma decodeF_Suc: "decodeF (Suc fuel) input = (case rlp_head input of
    Inl r \<Rightarrow> Some r
  | Inr (inner, n) \<Rightarrow> map_option (\<lambda>r. and_then r (\<lambda>ds. Inr (NArray ds, drop n input)))
      (decodeItemsF fuel inner))"
  by (cases input)
    (auto simp: rlp_head_def Let_def safeSlice_def js_slice_def split: sum.splits if_splits)

lemma decodeLength_InrD:
  assumes "decodeLength v = Inr len" and "v \<noteq> []"
  shows "nat_be len = v"
  using assms by (auto simp: decodeLength_eq nat_be_be_nat split: if_splits)

lemma long_prefix:
  assumes "decodeLength (js_slice (b # rest) (Suc 0) l) = Inr len"
    and "2 \<le> l" and "l + len \<le> Suc (length rest)" and "56 \<le> len"
    and "unat b = offset + 54 + l"
  shows "take (l + len) (b # rest) = rlp_prefix offset len @ js_slice (b # rest) l (l + len)"
    and "l \<le> 9 \<Longrightarrow> len < 256 ^ 8"
proof -
  have "js_slice (b # rest) (Suc 0) l = take (l - 1) rest" by (simp add: js_slice_def)
  moreover have "take (l - 1) rest \<noteq> []" using assms(2,3) by auto
  ultimately have nb: "nat_be len = take (l - 1) rest"
    using decodeLength_InrD assms(1) by metis
  have "length (nat_be len) = l - 1" unfolding nb using assms(2,3) by simp
  from this have "offset + 55 + length (nat_be len) = unat b" using assms(2,5) by simp
  then have "word_of_nat (offset + 55 + length (nat_be len)) = b" by (simp only: byte_of_nat_unat)
  then have "rlp_prefix offset len = b # take (l - 1) rest"
    using assms(4) nb by (simp only: rlp_prefix_def) simp
  moreover have "take (l + len) (b # rest) = take l (b # rest) @ take len (drop l (b # rest))"
    by (rule take_add)
  ultimately show "take (l + len) (b # rest) = rlp_prefix offset len @ js_slice (b # rest) l (l + len)"
    using assms(2) by (simp add: js_slice_def take_Cons')
  assume "l \<le> 9"
  then have "(256 :: nat) ^ length (nat_be len) \<le> 256 ^ 8"
    using \<open>length (nat_be len) = l - 1\<close> by (intro power_increasing) auto
  then show "len < 256 ^ 8" using be_nat_less [of "nat_be len"] by simp
qed

lemma rlp_head_list: "rlp_head input = Inr (inner, n) \<Longrightarrow>
  0 < n \<and> n \<le> length input \<and> length inner < n \<and>
    length inner < 256 ^ 8 \<and> take n input = rlp_prefix 192 (length inner) @ inner"
proof (cases input)
  case (Cons b rest)
  assume h: "rlp_head input = Inr (inner, n)"
  show ?thesis
  proof (cases "unat b \<le> 0xf7")
    case True
    with h Cons have "0xbf < unat b" and n: "n = unat b - 0xbf" and "n \<le> Suc (length rest)"
      and "inner = js_slice input 1 n"
      by (auto simp: rlp_head_def Let_def safeSlice_def split: if_splits)
    moreover from this have "length inner = n - 1" "192 + (n - 1) = unat b" "n - 1 < 56"
      using True Cons by (auto simp: js_slice_def)
    ultimately show ?thesis using Cons
      by (auto simp: rlp_prefix_def js_slice_def take_Cons' intro: less_trans [of _ 56])
  next
    case False
    let ?l = "unat b - 0xf6"
    from False h Cons obtain len where
      len: "decodeLength (js_slice (b # rest) (Suc 0) ?l) = Inr len" "56 \<le> len"
        "?l + len \<le> Suc (length rest)" and n: "n = ?l + len"
        and inner: "inner = js_slice (b # rest) ?l (?l + len)"
      by (auto simp: rlp_head_def Let_def res_simps split: if_splits sum.splits)
    have "length inner = len" using inner len(3) by (simp add: js_slice_def)
    moreover have "len < 256 ^ 8"
      using len(2,3) False unat_byte_less [of b]
      by (intro long_prefix(2) [where offset = 192, OF len(1)]) linarith+
    moreover have "take n (b # rest) = rlp_prefix 192 len @ inner"
      unfolding n inner using len False by (intro long_prefix(1)) auto
    ultimately show ?thesis using n len(2,3) Cons False by simp
  qed
qed (simp add: rlp_head_def decodeLength_Nil)

lemma rlp_head_bytes: "rlp_head input = Inl (Inr (x, rest)) \<Longrightarrow>
    input = rlp x @ rest \<and> encodable x"
proof (cases input)
  case (Cons b bs)
  assume h: "rlp_head input = Inl (Inr (x, rest))"
  consider "unat b \<le> 0x7f" | "0x7f < unat b" "unat b \<le> 0xb7" | "0xb7 < unat b" "unat b \<le> 0xbf"
    | "0xbf < unat b" by linarith
  then show ?thesis
  proof cases
    case 1
    then have "b < 128" by (simp add: word_less_nat_alt)
    with 1 h Cons show ?thesis by (auto simp: rlp_head_def encodable_def)
  next
    case 2
    let ?len = "unat b - 0x7f"
    have eq: "128 + (?len - 1) = unat b" using 2 by simp
    have b: "word_of_nat (128 + (?len - 1)) = b" unfolding eq by simp
    from 2 h Cons have le: "?len \<le> Suc (length bs)" and x: "x = NBytes (take (?len - 1) bs)"
      and rest: "rest = drop ?len (b # bs)" and c: "?len = 2 \<longrightarrow> \<not> bs ! 0 < 128"
      by (auto simp: rlp_head_def Let_def res_simps js_slice_def split: if_splits sum.splits)
    let ?d = "take (?len - 1) bs"
    have "length ?d = ?len - 1" using le 2 by auto
    moreover from this c 2 have "\<not> (length ?d = 1 \<and> hd ?d < 128)" by (cases bs) auto
    ultimately have "rlp (NBytes ?d) = b # ?d" using 2 b by (simp add: rlp_prefix_def del: of_nat_add)
    moreover have "drop ?len (b # bs) = drop (?len - 1) bs" using 2 by (simp add: drop_Cons')
    ultimately show ?thesis using Cons x rest 2 by (simp add: encodable_def)
  next
    case 3
    let ?l = "unat b - 0xb6"
    from 3 h Cons obtain len where
      len: "decodeLength (js_slice (b # bs) (Suc 0) ?l) = Inr len" "56 \<le> len"
        "?l + len \<le> Suc (length bs)" and x: "x = NBytes (js_slice (b # bs) ?l (?l + len))"
        and rest: "rest = drop (?l + len) (b # bs)"
      by (auto simp: rlp_head_def Let_def res_simps add.commute split: if_splits sum.splits)
    have "take (?l + len) (b # bs) = rlp_prefix 128 len @ js_slice (b # bs) ?l (?l + len)"
      using len 3 by (intro long_prefix(1)) auto
    then have "b # bs = rlp_prefix 128 len @ js_slice (b # bs) ?l (?l + len) @ rest"
      unfolding rest by (metis append_assoc append_take_drop_id)
    moreover have "len < 256 ^ 8" using len(2,3) 3
      by (intro long_prefix(2) [where offset = 128, OF len(1)]) linarith+
    ultimately show ?thesis using x len Cons by (simp add: js_slice_def encodable_def)
  next
    case 4
    with h Cons show ?thesis
      by (auto simp: rlp_head_def Let_def split: if_splits sum.splits)
  qed
qed (simp add: rlp_head_def decodeLength_Nil)

lemma decode_canonical_aux:
  "decodeF fuel input = Some (Inr (x, rest)) \<Longrightarrow> input = rlp x @ rest \<and> encodable x"
  "decodeItemsF fuel inner = Some (Inr xs) \<Longrightarrow> inner = concat (map rlp xs)"
proof (induction fuel arbitrary: input inner x rest xs)
  case (Suc fuel)
  {
    case 1
    then show ?case 
    proof (cases "rlp_head input")
      case (Inl a)
      then show ?thesis using 1 rlp_head_bytes[of input x rest] by (simp add: decodeF_Suc)
    next
      case (Inr p)
      obtain inner n where p: "p = (inner, n)" by (cases p)
      with 1 Inr obtain ds where "decodeItemsF fuel inner = Some (Inr ds)" and
        x: "x = NArray ds" and rest: "rest = drop n input"
        by (auto simp: decodeF_Suc res_simps)
      with Suc.IH(2) have "inner = concat (map rlp ds)" by blast
      then show ?thesis using rlp_head_list [of input inner n] Inr p x rest
        by (metis append_take_drop_id encodable_def payload.simps(2) rlp.simps(2))
    qed
  next
    case 2
    then show ?case 
      by (auto simp: res_simps split: if_splits option.splits sum.splits prod.splits dest!: Suc.IH)
  }
qed simp_all
   
lemma decodeF_total_aux:
  "(\<forall>input. 2 * length input < fuel \<longrightarrow> decodeF fuel input \<noteq> None) \<and>
   (\<forall>inner. 2 * length inner + 1 < fuel \<longrightarrow> decodeItemsF fuel inner \<noteq> None)"
proof (induction fuel)
  case (Suc fuel)
  have "decodeF (Suc fuel) input \<noteq> None" if "2 * length input < Suc fuel" for input
    using Suc.IH that by (auto simp: decodeF_Suc dest!: rlp_head_list split: sum.splits)
  moreover have "decodeItemsF (Suc fuel) inner \<noteq> None" if "2 * length inner + 1 < Suc fuel" for inner
  proof (cases "inner = []")
    case False
    have "length rest < length inner" if "decodeF fuel inner = Some (Inr (x, rest))" for x rest
      using decode_canonical_aux(1) [OF that] rlp_not_Nil [of x] by (cases "rlp x") auto
    then show ?thesis using that Suc.IH by (fastforce split: sum.splits)
  qed simp
  ultimately show ?case by blast
qed simp


lemma decodeLength_nat_be: "len \<noteq> 0 \<Longrightarrow> decodeLength (nat_be len) = Inr len"
  by (simp add: decodeLength_eq hd_nat_be)

lemma rlp_prefix_short: "len < 56 \<Longrightarrow> offset \<le> 192 \<Longrightarrow>
  \<exists>b. rlp_prefix offset len = [b] \<and> unat b = offset + len"
  by (simp add: rlp_prefix_def del: of_nat_add)

lemma rlp_prefix_long: "56 \<le> len \<Longrightarrow> len < 256 ^ 8 \<Longrightarrow> offset \<le> 192 \<Longrightarrow>
  \<exists>b. rlp_prefix offset len = b # nat_be len \<and> unat b = offset + 55 + length (nat_be len)
    \<and> length (nat_be len) \<le> 8 \<and> 0 < length (nat_be len)"
  using length_nat_be_8 [of len] by (simp add: rlp_prefix_def del: of_nat_add)

lemma rlp_head_NBytes:
  assumes "encodable (NBytes d)"
  shows "rlp_head (rlp (NBytes d) @ rest) = Inl (Inr (NBytes d, rest))"
proof (cases "length d = 1 \<and> hd d < 128")
  case True
  then obtain b where "d = [b]" "b < 128" by (cases d) auto
  moreover from this have "unat b \<le> 127" by (simp add: word_less_nat_alt)
  ultimately show ?thesis by (simp add: rlp_head_def)
next
  case single: False
  show ?thesis
  proof (cases "length d < 56")
    case True
    then obtain b where b: "rlp_prefix 128 (length d) = [b]" "unat b = 128 + length d"
      using rlp_prefix_short [of "length d" 128] by auto
    have "\<not> (length d = 1 \<and> d ! 0 < 128)" using single by (cases d) auto
    with single b True show ?thesis
      by (auto simp: rlp_head_def Let_def safeSlice_def js_slice_def)
  next
    case False
    then obtain b where b: "rlp_prefix 128 (length d) = b # nat_be (length d)"
      "unat b = 183 + length (nat_be (length d))" "length (nat_be (length d)) \<le> 8"
      "0 < length (nat_be (length d))"
      using rlp_prefix_long [of "length d" 128] assms by (auto simp: encodable_def)
    have "length d \<noteq> 0" using False by auto
    with single b False show ?thesis
      by (auto simp: rlp_head_def Let_def safeSlice_def js_slice_def decodeLength_nat_be)
  qed
qed

lemma rlp_head_NArray:
  assumes "encodable (NArray xs)"
  shows "rlp_head (rlp (NArray xs) @ rest) =
    Inr (concat (map rlp xs), length (rlp (NArray xs)))"
proof -
  let ?p = "concat (map rlp xs)"
  show ?thesis
  proof (cases "length ?p < 56")
    case True
    then obtain b where b: "rlp_prefix 192 (length ?p) = [b]" "unat b = 192 + length ?p"
      using rlp_prefix_short [of "length ?p" 192] by auto
    with True show ?thesis
      by (auto simp: rlp_head_def Let_def safeSlice_def js_slice_def)
  next
    case False
    then obtain b where b: "rlp_prefix 192 (length ?p) = b # nat_be (length ?p)"
      "unat b = 247 + length (nat_be (length ?p))" "length (nat_be (length ?p)) \<le> 8"
      "0 < length (nat_be (length ?p))"
      using rlp_prefix_long [of "length ?p" 192] assms by (auto simp: encodable_def)
    have "length ?p \<noteq> 0" using False by auto
    with b False show ?thesis
      by (auto simp: rlp_head_def Let_def safeSlice_def js_slice_def decodeLength_nat_be)
  qed
qed

lemma decodeItemsF_rlp:
  assumes "\<And>y rest fuel. y \<in> set xs \<Longrightarrow> 2 * length (rlp y) < fuel \<Longrightarrow>
      decodeF fuel (rlp y @ rest) = Some (Inr (y, rest))"
    and "2 * length (concat (map rlp xs)) + 1 < fuel"
  shows "decodeItemsF fuel (concat (map rlp xs)) = Some (Inr xs)"
  using assms
proof (induction xs arbitrary: fuel)
  case Nil
  then show ?case by (cases fuel) auto
next
  case (Cons x xs)
  then obtain f where f: "fuel = Suc f" by (cases fuel) auto
  have "decodeF f (rlp x @ concat (map rlp xs)) = Some (Inr (x, concat (map rlp xs)))"
    using Cons.prems f by auto
  moreover have "decodeItemsF f (concat (map rlp xs)) = Some (Inr xs)"
  proof (intro Cons.IH Cons.prems(1))
    have "1 \<le> length (rlp x)" using rlp_not_Nil [of x] by (cases "rlp x") simp_all
    moreover have "2 * (length (rlp x) + length (concat (map rlp xs))) + 1 < Suc f"
      using Cons.prems(2) f by simp
    moreover have "1 \<le> m \<Longrightarrow> 2 * (m + n) + 1 < Suc f \<Longrightarrow> 2 * n + 1 < f" for m n :: nat
      by arith
    ultimately show "2 * length (concat (map rlp xs)) + 1 < f" by blast
  qed auto
  ultimately show ?case by (simp add: f)
qed

lemma decodeF_rlp:
  "encodable x \<Longrightarrow> 2 * length (rlp x) < fuel \<Longrightarrow>
    decodeF fuel (rlp x @ rest) = Some (Inr (x, rest))"
proof (induction x arbitrary: fuel rest)
  case (NBytes d)
  then obtain f where "fuel = Suc f" by (cases fuel) auto
  with NBytes show ?case by (simp add: decodeF_Suc rlp_head_NBytes del: rlp.simps)
next
  case (NArray xs)
  then obtain f where f: "fuel = Suc f" by (cases fuel) auto
  have "length (concat (map rlp xs)) < length (rlp (NArray xs))"
    by (simp add: Let_def)
  with NArray.prems f have "2 * length (concat (map rlp xs)) + 1 < f" by linarith
  moreover have "decodeF fuel' (rlp y @ rest') = Some (Inr (y, rest'))"
    if "y \<in> set xs" "2 * length (rlp y) < fuel'" for y rest' fuel'
    using NArray.IH [OF that(1)] encodable_child [OF NArray.prems(1) that(1)] that(2) by blast
  ultimately have "decodeItemsF f (concat (map rlp xs)) = Some (Inr xs)"
    by (intro decodeItemsF_rlp)
  with f NArray.prems(1) show ?case by (simp add: decodeF_Suc rlp_head_NArray del: rlp.simps)
qed


text \<open>More fuel never changes a result.\<close>

lemma decodeF_mono:
  "(\<forall>input r. decodeF fuel input = Some r \<longrightarrow> decodeF (Suc fuel) input = Some r) \<and>
   (\<forall>inner r. decodeItemsF fuel inner = Some r \<longrightarrow> decodeItemsF (Suc fuel) inner = Some r)"
proof (induction fuel)
  case (Suc fuel)
  have items: "decodeItemsF fuel inner = Some q \<Longrightarrow> decodeItemsF (Suc fuel) inner = Some q" for inner q
    using Suc.IH by blast
  have "decodeF (Suc (Suc fuel)) input = Some r" if "decodeF (Suc fuel) input = Some r" for input r
    using that by (auto simp only: decodeF_Suc map_option_eq_Some split: sum.splits dest!: items)
  moreover have "decodeItemsF (Suc (Suc fuel)) inner = Some r"
    if h: "decodeItemsF (Suc fuel) inner = Some r" for inner r
  proof (cases "inner = []")
    case False
    with h obtain d where "decodeF fuel inner = Some d" by (auto split: option.splits)
    moreover from this have "decodeF (Suc fuel) inner = Some d" using Suc.IH by blast
    ultimately show ?thesis using h False
      by (simp only: decodeItemsF.simps(2) [of "Suc fuel" inner] decodeItemsF.simps(2) [of fuel inner])
        (auto simp del: decodeItemsF.simps split: sum.splits dest: items)
  qed (use h in simp)
  ultimately show ?case by blast
qed simp

lemma decodeF_mono_le: "decodeF fuel input = Some r \<Longrightarrow> fuel \<le> fuel' \<Longrightarrow> decodeF fuel' input = Some r"
proof (induction "fuel' - fuel" arbitrary: fuel')
  case (Suc k)
  then obtain f where f: "fuel' = Suc f" "fuel \<le> f" by (cases fuel') auto
  with Suc have "decodeF f input = Some r" by auto
  with f decodeF_mono show ?case by blast
qed auto

lemma decode1_eq: "decodeF (2 * length input + 1) input = Some (decode1 input)"
  using decodeF_total_aux [of "2 * length input + 1"] by (auto simp: decode1_def)

lemma decode1_rlp: "encodable x \<Longrightarrow> decode1 (rlp x @ rest) = Inr (x, rest)"
  using decodeF_rlp [of x "2 * length (rlp x @ rest) + 1" rest] by (simp add: decode1_def)

lemma decode1_InrD: "decode1 input = Inr (x, rest) \<Longrightarrow> input = rlp x @ rest \<and> encodable x"
  using decode1_eq [of input] decode_canonical_aux(1) by metis

section \<open>Properties\<close>

text \<open>
  C23: on decoded data whose payload an eight-byte length can count, \<open>encode\<close> returns the
  Recursive Length Prefix encoding of the specification.
\<close>

theorem encode_meets_spec: "encodable x \<Longrightarrow> encode (inputOf x) = Inr (rlp x)"
  by (rule encode_rlp)

theorem encode_meets_spec_witness:
  "encode (inputOf (NArray [NBytes [0x63, 0x61, 0x74], NArray [], NBytes [0x7f]])) =
    Inr [0xc6, 0x83, 0x63, 0x61, 0x74, 0xc0, 0x7f]"
  using encode_meets_spec [of "NArray [NBytes [0x63, 0x61, 0x74], NArray [], NBytes [0x7f]]"]
  by (simp add: encodable_def rlp_prefix_def)

text \<open>
  C24: decoding what \<open>encode\<close> produced gives back the data, alone and, in stream mode, in
  front of any further bytes, which are returned as the remainder.
\<close>

theorem decode_encode:
  assumes "encodable x" and "encode (inputOf x) = Inr bs"
  shows "decode (InBytes bs) False = Inr (Data x) \<and>
    decode (InBytes (bs @ rest)) True = Inr (Decoded x rest)"
proof -
  have "bs = rlp x" using encode_rlp [OF assms(1)] assms(2) by simp
  then show ?thesis
    using decode1_rlp [OF assms(1), of "[]"] decode1_rlp [OF assms(1), of rest]
    by (simp_all add: decode_def)
qed

theorem decode_encode_witness:
  "decode (InBytes ([0xc2, 0x80, 0x05] @ [0xff])) True =
    Inr (Decoded (NArray [NBytes [], NBytes [5]]) [0xff])"
proof (rule decode_encode [THEN conjunct2])
  show "encodable (NArray [NBytes [], NBytes [5]])" by (simp add: encodable_def rlp_prefix_def)
qed (simp add: concatBytes_def encodeLength_def)

text \<open>
  C25: the decoder accepts canonical encodings only: a non-empty input that decodes to some
  data is what \<open>encode\<close> produces for that data, so no two inputs decode to the same data.
\<close>

theorem decode_canonical:
  assumes "bs \<noteq> []" and "decode (InBytes bs) False = Inr (Data x)"
  shows "encode (inputOf x) = Inr bs"
proof -
  from assms have "decode1 bs = Inr (x, [])"
    by (auto simp: decode_def res_simps split: if_splits)
  then have "bs = rlp x \<and> encodable x" using decode1_InrD by fastforce
  then show ?thesis using encode_rlp by simp
qed

theorem decode_canonical_witness: "encode (inputOf (NBytes [0x80])) = Inr [0x81, 0x80]"
proof (rule decode_canonical)
  show "decode (InBytes [0x81, 0x80]) False = Inr (Data (NBytes [0x80]))" by code_simp
qed simp

text \<open>
  C26: the recursion of \<open>_decode\<close> ends on every byte string: one more than twice the input's
  length is enough fuel and more fuel never changes the result.
\<close>

theorem decode_terminates: "2 * length input < fuel \<Longrightarrow> decodeF fuel input = Some (decode1 input)"
  using decodeF_mono_le [OF decode1_eq] by simp

theorem decode_terminates_witness: "decodeF 9 [0xc1, 0xc0] = Some (decode1 [0xc1, 0xc0])"
  by (rule decode_terminates) simp

end
