(* ===== verification/Bytes.thy ===== *)
theory Bytes
  imports Rlp
begin

unbundle bit_operations_syntax

text \<open>
  Conversions between bytes, numbers, bits and hexadecimal strings,
  \<^verbatim>\<open>packages/util/src/bytes.ts\<close>, with \<open>isHexString\<close>, \<open>stripHexPrefix\<close> and \<open>padToEven\<close> of
  \<^verbatim>\<open>packages/util/src/internal.ts\<close> and the addresses of \<^verbatim>\<open>packages/util/src/address.ts\<close>.
  The two hexadecimal routines the file imports from \<^verbatim>\<open>@noble/hashes\<close> are the fields of the
  parameter \<open>N\<close>; the locale \<open>noble_hex\<close> states their documented behaviour and is interpreted
  on the repository's own copy of them in the RLP package. BigInts and safe integer Numbers
  are integers.
\<close>

section \<open>The imported hexadecimal routines\<close>

record noble =
  bytesToUnprefixedHex :: "bytes \<Rightarrow> string"
  hexToBytesNoble :: "string \<Rightarrow> bytes res"

section \<open>Hexadecimal strings\<close>

definition isHexString :: "string \<Rightarrow> nat option \<Rightarrow> bool" where
  "isHexString value len =
     (if \<not> (take 2 value = ''0x'' \<and> list_all is_hex_digit (drop 2 value)) then False
      else case len of
        None \<Rightarrow> True
      | Some n \<Rightarrow> \<not> (n > 0 \<and> length value \<noteq> 2 + 2 * n))"

definition stripHexPrefix :: "string \<Rightarrow> string" where
  "stripHexPrefix str = (if isHexString str None then drop 2 str else str)"

definition padToEven :: "string \<Rightarrow> string" where
  "padToEven value = (if length value mod 2 \<noteq> 0 then CHR ''0'' # value else value)"

definition hexToBytes :: "noble \<Rightarrow> string \<Rightarrow> bytes res" where
  "hexToBytes N hex =
     (if take 2 hex \<noteq> ''0x'' then Inl (EthereumJSError ''input string must be 0x prefixed'')
      else hexToBytesNoble N (padToEven (stripHexPrefix hex)))"

definition unprefixedHexToBytes :: "noble \<Rightarrow> string \<Rightarrow> bytes res" where
  "unprefixedHexToBytes N hex =
     (if take 2 hex = ''0x'' then Inl (EthereumJSError ''input string cannot be 0x prefixed'')
      else hexToBytesNoble N (padToEven hex))"

definition bytesToHex :: "noble \<Rightarrow> bytes \<Rightarrow> string" where
  "bytesToHex N bytes = ''0x'' @ bytesToUnprefixedHex N bytes"

definition addHexPrefix :: "string \<Rightarrow> string" where
  "addHexPrefix str = (if isHexString str None then str else ''0x'' @ str)"

section \<open>Numbers\<close>

text \<open>
  The two cached cases read the first bytes; the guards on the length only exclude an
  \<open>undefined\<close> read under a hexadecimal routine that does not print two digits per byte.
\<close>

definition bytesToBigInt :: "noble \<Rightarrow> bytes \<Rightarrow> bool \<Rightarrow> int res" where
  "bytesToBigInt N bytes0 littleEndian =
     (let bytes = (if littleEndian then rev bytes0 else bytes0);
          hex = bytesToHex N bytes in
      if hex = ''0x'' then Inr 0
      else if length hex = 4 \<and> bytes \<noteq> [] then Inr (int (unat (bytes ! 0)))
      else if length hex = 6 \<and> 1 < length bytes
        then Inr (int (unat (bytes ! 0) * 256 + unat (bytes ! 1)))
      else js_BigInt_hex hex)"

definition isSafeInteger :: "int \<Rightarrow> bool" where
  "isSafeInteger i = (- (2 ^ 53 - 1) \<le> i \<and> i \<le> 2 ^ 53 - 1)"

definition bytesToInt :: "noble \<Rightarrow> bytes \<Rightarrow> int res" where
  "bytesToInt N bytes = and_then (bytesToBigInt N bytes False) (\<lambda>res.
     if \<not> isSafeInteger res then Inl (EthereumJSError ''Number exceeds 53 bits'') else Inr res)"

definition intToHex :: "int \<Rightarrow> string res" where
  "intToHex i =
     (if \<not> isSafeInteger i \<or> i < 0
      then Inl (EthereumJSError ''Received an invalid integer type: '')
      else Inr (''0x'' @ int_to_hex i))"

definition intToBytes :: "noble \<Rightarrow> int \<Rightarrow> bytes res" where
  "intToBytes N i = and_then (intToHex i) (hexToBytes N)"

definition bigIntToBytes :: "noble \<Rightarrow> int \<Rightarrow> bool \<Rightarrow> bytes res" where
  "bigIntToBytes N num littleEndian =
     and_then (hexToBytes N (''0x'' @ padToEven (int_to_hex num))) (\<lambda>bytes.
       Inr (if littleEndian then rev bytes else bytes))"

definition bigIntToHex :: "int \<Rightarrow> string" where
  "bigIntToHex num = ''0x'' @ int_to_hex num"

definition hexToBigInt :: "noble \<Rightarrow> string \<Rightarrow> int res" where
  "hexToBigInt N input =
     and_then (hexToBytes N (if isHexString input None then input else ''0x'' @ input))
       (\<lambda>bytes. bytesToBigInt N bytes False)"

text \<open>\<open>BigInt.asIntN\<close> and \<open>BigInt.asUintN\<close> of the language.\<close>

definition asUintN :: "nat \<Rightarrow> int \<Rightarrow> int" where
  "asUintN bits i = i mod 2 ^ bits"

definition asIntN :: "nat \<Rightarrow> int \<Rightarrow> int" where
  "asIntN bits i = (let m = i mod 2 ^ bits in if m < 2 ^ (bits - 1) then m else m - 2 ^ bits)"

definition fromSigned :: "noble \<Rightarrow> bytes \<Rightarrow> int res" where
  "fromSigned N num = and_then (bytesToBigInt N num False) (\<lambda>i. Inr (asIntN 256 i))"

definition toUnsigned :: "noble \<Rightarrow> int \<Rightarrow> bytes res" where
  "toUnsigned N num = bigIntToBytes N (asUintN 256 num) False"

text \<open>\<open>reduce\<close> without an initial value throws on the empty array.\<close>

definition bigIntMax :: "int list \<Rightarrow> int res" where
  "bigIntMax args = (case args of [] \<Rightarrow> Inl TypeError
     | a # as \<Rightarrow> Inr (foldl (\<lambda>m e. if e > m then e else m) a as))"

definition bigIntMin :: "int list \<Rightarrow> int res" where
  "bigIntMin args = (case args of [] \<Rightarrow> Inl TypeError
     | a # as \<Rightarrow> Inr (foldl (\<lambda>m e. if e < m then e else m) a as))"

section \<open>Padding and trimming\<close>

text \<open>
  \<open>msg.subarray(-length)\<close> with \<open>length\<close> 0 is \<open>msg.subarray(-0)\<close>, the whole array.
\<close>

definition setLength :: "bytes \<Rightarrow> nat \<Rightarrow> bool \<Rightarrow> bool \<Rightarrow> bytes res" where
  "setLength msg len right allowTruncate =
     (if length msg > len then
        if \<not> allowTruncate then Inl (EthereumJSError ''Input length '')
        else Inr (if right then take len msg
                  else if len = 0 then msg else drop (length msg - len) msg)
      else if length msg < len then
        Inr (if right then msg @ replicate (len - length msg) 0
             else replicate (len - length msg) 0 @ msg)
      else Inr msg)"

definition setLengthLeft :: "bytes \<Rightarrow> nat \<Rightarrow> bool \<Rightarrow> bytes res" where
  "setLengthLeft msg len allowTruncate = setLength msg len False allowTruncate"

definition setLengthRight :: "bytes \<Rightarrow> nat \<Rightarrow> bool \<Rightarrow> bytes res" where
  "setLengthRight msg len allowTruncate = setLength msg len True allowTruncate"

text \<open>The loop of \<open>stripZeros\<close>: \<open>z\<close> tells whether an element prints as \<open>'0'\<close>.\<close>

fun stripZeros :: "('a \<Rightarrow> bool) \<Rightarrow> 'a list \<Rightarrow> 'a list" where
  "stripZeros z [] = []"
| "stripZeros z (x # xs) = (if z x then stripZeros z xs else x # xs)"

definition unpadBytes :: "bytes \<Rightarrow> bytes" where
  "unpadBytes a = stripZeros (\<lambda>b. b = 0) a"

definition unpadArray :: "int list \<Rightarrow> int list" where
  "unpadArray a = stripZeros (\<lambda>b. b = 0) a"

definition unpadHex :: "string \<Rightarrow> string res" where
  "unpadHex a =
     (if \<not> isHexString a None
      then Inl (EthereumJSError ''This method only supports 0x-prefixed hex strings but input was: '')
      else Inr (''0x'' @ stripZeros (\<lambda>c. c = CHR ''0'') (stripHexPrefix a)))"

definition bigIntToUnpaddedBytes :: "noble \<Rightarrow> int \<Rightarrow> bytes res" where
  "bigIntToUnpaddedBytes N num = and_then (bigIntToBytes N num False) (\<lambda>b. Inr (unpadBytes b))"

definition intToUnpaddedBytes :: "noble \<Rightarrow> int \<Rightarrow> bytes res" where
  "intToUnpaddedBytes N num = and_then (intToBytes N num) (\<lambda>b. Inr (unpadBytes b))"

definition bigIntToAddressBytes :: "noble \<Rightarrow> int \<Rightarrow> bool \<Rightarrow> bytes res" where
  "bigIntToAddressBytes N num strict = and_then (bigIntToBytes N num False) (\<lambda>addressBytes.
     if strict \<and> length addressBytes > 20 then Inl (PlainError ''Invalid address bytes length='')
     else setLengthLeft addressBytes 20 (\<not> strict))"

text \<open>\<open>validateNoLeadingZeroes\<close> walks the entries of an object; absent values are skipped.\<close>

fun validateNoLeadingZeroes :: "(string \<times> bytes option) list \<Rightarrow> unit res" where
  "validateNoLeadingZeroes [] = Inr ()"
| "validateNoLeadingZeroes ((k, v) # kvs) =
     (case v of
        Some bs \<Rightarrow> if length bs > 0 \<and> bs ! 0 = 0
          then Inl (EthereumJSError (k @ '' cannot have leading zeroes, received: ''))
          else validateNoLeadingZeroes kvs
      | None \<Rightarrow> validateNoLeadingZeroes kvs)"

section \<open>Anything to bytes\<close>

text \<open>\<open>ToBytesInputTypes\<close>; an object carries the result of its \<open>toBytes\<close> method, if it has one.\<close>

datatype toBytes_input =
    ToNull
  | ToUndefined
  | ToUint8Array bytes
  | ToNumberArray "int list"
  | ToString string
  | ToNumber int
  | ToBigint int
  | ToObject "bytes option"

fun toBytes :: "noble \<Rightarrow> toBytes_input \<Rightarrow> bytes res" where
  "toBytes N ToNull = Inr []"
| "toBytes N ToUndefined = Inr []"
| "toBytes N (ToUint8Array v) = Inr v"
| "toBytes N (ToNumberArray v) = Inr (map word_of_int v)"
| "toBytes N (ToString v) =
     (if \<not> isHexString v None
      then Inl (EthereumJSError ''Cannot convert string to Uint8Array. toBytes only supports 0x-prefixed hex strings and this string was given: '')
      else hexToBytes N v)"
| "toBytes N (ToNumber v) = intToBytes N v"
| "toBytes N (ToBigint v) =
     (if v < 0 then Inl (EthereumJSError ''Cannot convert negative bigint to Uint8Array. Given: '')
      else let n = int_to_hex v in
        unprefixedHexToBytes N (if length n mod 2 \<noteq> 0 then CHR ''0'' # n else n))"
| "toBytes N (ToObject (Some b)) = Inr b"
| "toBytes N (ToObject None) = Inl (EthereumJSError ''invalid type'')"

section \<open>Comparison\<close>

definition compareBytes :: "noble \<Rightarrow> bytes \<Rightarrow> bytes \<Rightarrow> int res" where
  "compareBytes N value1 value2 =
     and_then (bytesToBigInt N value1 False) (\<lambda>b1. and_then (bytesToBigInt N value2 False) (\<lambda>b2.
       Inr (if b1 > b2 then 1 else if b1 < b2 then -1 else 0)))"

text \<open>The loop of \<open>equalsBytes\<close> and \<open>equalsBits\<close> over arrays of the same length.\<close>

fun equalsLoop :: "'a list \<Rightarrow> 'a list \<Rightarrow> bool" where
  "equalsLoop (x # xs) (y # ys) = (if x \<noteq> y then False else equalsLoop xs ys)"
| "equalsLoop _ _ = True"

definition equalsBytes :: "bytes \<Rightarrow> bytes \<Rightarrow> bool" where
  "equalsBytes a b = (if length a \<noteq> length b then False else equalsLoop a b)"

definition equalsBits :: "nat list \<Rightarrow> nat list \<Rightarrow> bool" where
  "equalsBits bits1 bits2 = (if length bits1 \<noteq> length bits2 then False else equalsLoop bits1 bits2)"

text \<open>The loop of \<open>matchingBytesLength\<close> and \<open>matchingBitsLength\<close>, which stops at a mismatch.\<close>

fun matchingLoop :: "nat \<Rightarrow> 'a list \<Rightarrow> 'a list \<Rightarrow> nat" where
  "matchingLoop count (x # xs) (y # ys) =
     (if x = y then matchingLoop (count + 1) xs ys else count)"
| "matchingLoop count _ _ = count"

definition matchingBytesLength :: "bytes \<Rightarrow> bytes \<Rightarrow> nat" where
  "matchingBytesLength bytes1 bytes2 = matchingLoop 0 bytes1 bytes2"

definition matchingBitsLength :: "nat list \<Rightarrow> nat list \<Rightarrow> nat" where
  "matchingBitsLength bits1 bits2 = matchingLoop 0 bits1 bits2"

section \<open>Bits and fixed-width integers\<close>

text \<open>A byte read past the end is \<open>undefined\<close>, which shifts as 0.\<close>

definition bytesToBits :: "bytes \<Rightarrow> nat option \<Rightarrow> nat list" where
  "bytesToBits bytes bitLength =
     map (\<lambda>i. let byteIndex = i div 8; bitIndex = 7 - i mod 8 in
            if byteIndex < length bytes then (unat (bytes ! byteIndex) div 2 ^ bitIndex) mod 2 else 0)
       [0..<(case bitLength of Some n \<Rightarrow> n | None \<Rightarrow> length bytes * 8)]"

definition bitsToBytes :: "nat list \<Rightarrow> bytes" where
  "bitsToBytes bits =
     foldl (\<lambda>byteData i. let byteIndex = i div 8; bitIndex = 7 - i mod 8 in
         byteData[byteIndex := byteData ! byteIndex OR word_of_nat (bits ! i * 2 ^ bitIndex)])
       (replicate ((length bits + 7) div 8) 0) [0..<length bits]"

text \<open>\<open>DataView\<close> reads of the first four or eight bytes, and writes that wrap.\<close>

definition dataViewGet :: "nat \<Rightarrow> bytes \<Rightarrow> bool \<Rightarrow> nat" where
  "dataViewGet n bytes littleEndian =
     be_nat (if littleEndian then rev (take n bytes) else take n bytes)"

fun fixed_be :: "nat \<Rightarrow> nat \<Rightarrow> bytes" where
  "fixed_be 0 v = []"
| "fixed_be (Suc n) v = fixed_be n (v div 256) @ [word_of_nat (v mod 256)]"

definition dataViewSet :: "nat \<Rightarrow> int \<Rightarrow> bool \<Rightarrow> bytes" where
  "dataViewSet n i littleEndian =
     (let bs = fixed_be n (nat (i mod 256 ^ n)) in if littleEndian then rev bs else bs)"

definition bytesToInt32 :: "bytes \<Rightarrow> bool \<Rightarrow> nat res" where
  "bytesToInt32 bytes littleEndian =
     and_then (if length bytes < 4 then setLength bytes 4 littleEndian False else Inr bytes)
       (\<lambda>bytes. Inr (dataViewGet 4 bytes littleEndian))"

definition bytesToBigInt64 :: "bytes \<Rightarrow> bool \<Rightarrow> nat res" where
  "bytesToBigInt64 bytes littleEndian =
     and_then (if length bytes < 8 then setLength bytes 8 littleEndian False else Inr bytes)
       (\<lambda>bytes. Inr (dataViewGet 8 bytes littleEndian))"

definition int32ToBytes :: "int \<Rightarrow> bool \<Rightarrow> bytes" where
  "int32ToBytes v littleEndian = dataViewSet 4 v littleEndian"

definition bigInt64ToBytes :: "int \<Rightarrow> bool \<Rightarrow> bytes" where
  "bigInt64ToBytes v littleEndian = dataViewSet 8 v littleEndian"

section \<open>Addresses\<close>

text \<open>An \<open>Address\<close> is its bytes; its constructor refuses any length but twenty.\<close>

definition newAddress :: "bytes \<Rightarrow> bytes res" where
  "newAddress bytes =
     (if length bytes \<noteq> 20 then Inl (EthereumJSError ''Invalid address length'') else Inr bytes)"

definition createAddressFromBigInt :: "noble \<Rightarrow> int \<Rightarrow> bytes res" where
  "createAddressFromBigInt N num = and_then (bigIntToBytes N num False) (\<lambda>bytes.
     if length bytes > 20 then Inl (EthereumJSError ''Invalid address, too long: '')
     else and_then (setLengthLeft bytes 20 False) newAddress)"

definition addressEquals :: "bytes \<Rightarrow> bytes \<Rightarrow> bool" where
  "addressEquals a b = equalsBytes a b"

definition addressIsZero :: "bytes \<Rightarrow> bool" where
  "addressIsZero a = addressEquals a (replicate 20 0)"

definition isPrecompileOrSystemAddress :: "noble \<Rightarrow> bytes \<Rightarrow> bool res" where
  "isPrecompileOrSystemAddress N a = and_then (bytesToBigInt N a False) (\<lambda>address.
     Inr (address \<ge> 0 \<and> address \<le> 0xffff))"

definition createZeroAddress :: "bytes res" where
  "createZeroAddress = newAddress (replicate 20 0)"

section \<open>The documented behaviour of the imported routines\<close>

text \<open>
  \<open>bytesToHex\<close> prints two lower-case digits per byte; \<open>hexToBytes\<close> reads what it prints and
  throws on text that is not pairs of hexadecimal digits.
\<close>

locale noble_hex =
  fixes N :: noble
  assumes bytesToUnprefixedHex_eq [simp]: "bytesToUnprefixedHex N bs = bytes_hex bs"
    and hexToBytesNoble_hex [simp]: "hexToBytesNoble N (bytes_hex bs) = Inr bs"
    and hexToBytesNoble_bad: "odd (length s) \<or> \<not> list_all is_hex_digit s \<Longrightarrow>
      take 2 s \<noteq> ''0x'' \<Longrightarrow> \<exists>e. hexToBytesNoble N s = Inl e"
begin

lemma bytesToHex_eq: "bytesToHex N bs = ''0x'' @ bytes_hex bs"
  by (simp add: bytesToHex_def)

lemma bytesToHex_inj: "bytesToHex N a = bytesToHex N b \<longleftrightarrow> a = b"
proof
  assume "bytesToHex N a = bytesToHex N b"
  then have "hexToBytesNoble N (bytes_hex a) = hexToBytesNoble N (bytes_hex b)"
    by (simp add: bytesToHex_eq)
  then show "a = b" by simp
qed simp

lemma isHexString_bytesToHex [simp]: "isHexString (''0x'' @ bytes_hex bs) None"
  by (auto simp: isHexString_def list_all_iff set_bytes_hex)

lemma hexToBytes_bytesToHex: "hexToBytes N (bytesToHex N bs) = Inr bs"
  using isHexString_bytesToHex [of bs]
  by (simp add: hexToBytes_def bytesToHex_eq stripHexPrefix_def padToEven_def)

lemma unprefixedHexToBytes_hex: "unprefixedHexToBytes N (bytes_hex bs) = Inr bs"
  by (simp add: unprefixedHexToBytes_def padToEven_def bytes_hex_no_0x)

lemma bytesToBigInt_eq: "bytesToBigInt N bs le = Inr (int (be_nat (if le then rev bs else bs)))"
proof -
  have "bytesToBigInt N cs False = Inr (int (be_nat cs))" for cs
  proof (cases cs)
    case (Cons c cs')
    have "js_BigInt_hex (''0x'' @ bytes_hex cs) = Inr (int (be_nat cs))"
      using Cons by (auto simp: js_BigInt_hex_def list_all_iff set_bytes_hex simp del: bytes_hex_Cons)
    then show ?thesis using Cons
      by (auto simp: bytesToBigInt_def bytesToHex_eq Let_def be_nat_Cons length_Suc_conv
          simp del: bytes_hex_Cons)
  qed (simp add: bytesToBigInt_def bytesToHex_eq)
  from this [of "if le then rev bs else bs"] show ?thesis by (simp add: bytesToBigInt_def)
qed

lemma padToEven_to_hex: "padToEven (to_hex n) = bytes_hex (nat_be n)"
  by (simp add: padToEven_def odd_iff_mod_2_eq_one flip: to_hex_even)

lemma bigIntToBytes_eq:
  "0 \<le> i \<Longrightarrow> bigIntToBytes N i le = Inr (if le then rev (nat_be (nat i)) else nat_be (nat i))"
  using hexToBytes_bytesToHex [of "nat_be (nat i)"]
  by (simp add: bigIntToBytes_def int_to_hex_def padToEven_to_hex bytesToHex_eq)

lemma bigIntToBytes_nat: "bigIntToBytes N (int n) False = Inr (nat_be n)"
  by (simp add: bigIntToBytes_eq)

lemma bytesToInt_eq: "bytesToInt N bs =
  (if be_nat bs < 2 ^ 53 then Inr (int (be_nat bs))
   else Inl (EthereumJSError ''Number exceeds 53 bits''))"
  by (auto simp: bytesToInt_def bytesToBigInt_eq isSafeInteger_def)

end

text \<open>The RLP package's copy of the two routines, as the parameter.\<close>

definition rlp_noble :: noble where
  "rlp_noble = \<lparr>bytesToUnprefixedHex = Rlp.bytesToHex, hexToBytesNoble = Rlp.hexToBytes\<rparr>"

lemma hexPairs_bad: "even (length s) \<Longrightarrow> \<not> list_all is_hex_digit s \<Longrightarrow> \<exists>e. hexPairs s = Inl e"
proof (induction s rule: hexPairs.induct)
  case (3 a b cs)
  show ?case
  proof (cases "hex_value a = None \<or> hex_value b = None")
    case True
    then show ?thesis by (auto simp: asciiToBase16_eq split: option.splits)
  next
    case False
    then obtain x y where xy: "hex_value a = Some x" "hex_value b = Some y" by auto
    with 3 obtain e where "hexPairs cs = Inl e" by (auto simp: asciiToBase16_eq is_hex_digit_def)
    with xy show ?thesis by (simp add: asciiToBase16_eq)
  qed
qed auto

lemma hexToBytes_rlp_bad:
  assumes "odd (length s) \<or> \<not> list_all is_hex_digit s" and "take 2 s \<noteq> ''0x''"
  shows "\<exists>e. Rlp.hexToBytes s = Inl e"
  using assms hexPairs_bad [of s]
  by (cases "odd (length s)") (auto simp: Rlp.hexToBytes_def Let_def)

interpretation rlp_hex: noble_hex rlp_noble
  by unfold_locales (simp_all add: rlp_noble_def Rlp.bytesToHex_bytes_hex hexToBytes_bytes_hex hexToBytes_rlp_bad)

section \<open>Correctness\<close>

lemma stripZeros_dropWhile: "stripZeros z xs = dropWhile z xs"
  by (induction xs) simp_all

lemma be_nat_dropWhile: "be_nat (dropWhile (\<lambda>b. b = 0) bs) = be_nat bs"
  by (induction bs) (simp_all add: be_nat_Cons)

lemma unpadBytes_nat_be: "unpadBytes (nat_be (be_nat bs)) = unpadBytes bs"
proof (cases "be_nat bs = 0")
  case True
  then have d: "dropWhile (\<lambda>b. b = 0) bs = []" by (simp add: be_nat_eq_0_iff)
  have "dropWhile (\<lambda>b. b = 0) (nat_be 0) = []" by (simp add: nat_be.simps [of 0])
  then show ?thesis unfolding True unpadBytes_def stripZeros_dropWhile
    by (simp only: d)
next
  case False
  define cs where "cs = dropWhile (\<lambda>b. b = 0) bs"
  have cs: "cs \<noteq> []" "hd cs \<noteq> 0"
    using False hd_dropWhile [of "\<lambda>b. b = 0" bs] by (auto simp: cs_def be_nat_eq_0_iff)
  have "be_nat bs = be_nat cs" by (simp add: cs_def be_nat_dropWhile)
  then have "nat_be (be_nat bs) = cs" using nat_be_be_nat [OF cs] by simp
  moreover have "dropWhile (\<lambda>b. b = 0) cs = cs" using cs by (cases cs) auto
  ultimately show ?thesis by (simp add: unpadBytes_def stripZeros_dropWhile cs_def)
qed

lemma be_nat_drop: "n \<le> length bs \<Longrightarrow> be_nat (drop n bs) = be_nat bs mod 256 ^ (length bs - n)"
  using be_nat_append [of "take n bs" "drop n bs"] be_nat_less [of "drop n bs"] by simp

text \<open>
  BigInts survive the trip through bytes in either byte order, bytes survive the trip through
  BigInts up to leading zeros, and a signed 256-bit integer survives its two's complement form.
\<close>

theorem bigint_bytes_roundtrip:
  assumes "noble_hex N"
  shows "(0 \<le> i \<longrightarrow> and_then (bigIntToBytes N i le) (\<lambda>b. bytesToBigInt N b le) = Inr i) \<and>
    and_then (bytesToBigInt N bs False) (bigIntToUnpaddedBytes N) = Inr (unpadBytes bs) \<and>
    (- (2 ^ 255) \<le> n \<and> n < 2 ^ 255 \<longrightarrow> and_then (toUnsigned N n) (fromSigned N) = Inr n)"
proof -
  have "asIntN 256 (asUintN 256 n) = n" if "- (2 ^ 255) \<le> n" "n < 2 ^ 255"
  proof (cases "0 \<le> n")
    case True
    then have "n mod 2 ^ 256 = n" using that by (intro mod_pos_pos_trivial) simp_all
    then show ?thesis using that True by (simp add: asIntN_def asUintN_def Let_def)
  next
    case False
    then have "n mod 2 ^ 256 = n + 2 ^ 256"
      using that mod_pos_pos_trivial [of "n + 2 ^ 256" "2 ^ 256"] by simp
    then show ?thesis using that False by (simp add: asIntN_def asUintN_def Let_def)
  qed
  moreover have "0 \<le> asUintN 256 n" by (simp add: asUintN_def)
  ultimately show ?thesis
    by (auto simp: noble_hex.bigIntToBytes_eq [OF assms] noble_hex.bytesToBigInt_eq [OF assms] bigIntToUnpaddedBytes_def unpadBytes_nat_be
        toUnsigned_def fromSigned_def)
qed

theorem bigint_bytes_roundtrip_witness:
  "noble_hex rlp_noble \<and>
   and_then (bigIntToBytes rlp_noble 1000 True) (\<lambda>b. bytesToBigInt rlp_noble b True) = Inr 1000 \<and>
   and_then (bytesToBigInt rlp_noble [0, 5] False) (bigIntToUnpaddedBytes rlp_noble) = Inr [5] \<and>
   and_then (toUnsigned rlp_noble (- 3)) (fromSigned rlp_noble) = Inr (- 3)"
  using bigint_bytes_roundtrip [OF rlp_hex.noble_hex_axioms, of 1000 True "[0, 5]" "- 3"]
    rlp_hex.noble_hex_axioms by (simp add: unpadBytes_def)

text \<open>
  Padding: without truncation the call fails exactly when the input is too long; on success
  the result has the asked length and denotes the same number (left) or extends the input
  (right). With truncation to a positive length it keeps the low-order bytes (left) or the first
  bytes (right). Removing the leading zeros undoes left padding.
\<close>

theorem setLength_spec:
  "((\<exists>e. setLength msg len right False = Inl e) \<longleftrightarrow> len < length msg) \<and>
   (setLengthLeft msg len False = Inr r \<longrightarrow>
      length r = len \<and> be_nat r = be_nat msg \<and> unpadBytes r = unpadBytes msg) \<and>
   (setLengthRight msg len False = Inr r \<longrightarrow> length r = len \<and> take (length msg) r = msg) \<and>
   (0 < len \<and> setLengthLeft msg len True = Inr r \<longrightarrow>
      length r = len \<and> be_nat r = be_nat msg mod 256 ^ len) \<and>
   (setLengthRight msg len True = Inr r \<longrightarrow>
      r = take len msg @ replicate (len - length msg) 0)"
proof -
  have "dropWhile (\<lambda>b. b = 0) (replicate k 0 @ msg) = dropWhile (\<lambda>b. b = 0) msg" for k
    by (induction k) simp_all
  then have strip: "unpadBytes (replicate k 0 @ msg) = unpadBytes msg" for k
    by (simp add: unpadBytes_def stripZeros_dropWhile)
  have small: "be_nat msg < 256 ^ len" if "length msg \<le> len"
    using be_nat_less [of msg] power_increasing [OF that, of "256 :: nat"] by linarith
  have left: "length r = len \<and> be_nat r = be_nat msg mod 256 ^ len"
    if "0 < len" "setLengthLeft msg len True = Inr r"
    using that small be_nat_drop [of "length msg - len" msg]
    by (auto simp: setLengthLeft_def setLength_def split: if_splits)
  show ?thesis
    using left strip
    by (auto simp: setLengthLeft_def setLengthRight_def setLength_def split: if_splits)
qed

theorem setLength_spec_witness:
  "setLengthLeft [1, 2] 4 False = Inr [0, 0, 1, 2] \<and> be_nat [0, 0, 1, 2] = be_nat [1, 2] \<and>
   setLengthLeft [1, 2, 3] 2 True = Inr [2, 3] \<and> be_nat [2, 3] = be_nat [1, 2, 3] mod 256 ^ 2"
proof -
  have "setLengthLeft [1, 2] 4 False = Inr [0, 0, 1, 2]" "setLengthLeft [1, 2, 3] 2 True = Inr [2, 3]"
    by code_simp+
  then show ?thesis
    using setLength_spec [of "[1, 2]" 4 False "[0, 0, 1, 2]"] setLength_spec [of "[1, 2, 3]" 2 False "[2, 3]"]
    by simp
qed

lemma equalsLoop_eq: "length a = length b \<Longrightarrow> equalsLoop a b \<longleftrightarrow> a = b"
  by (induction a b rule: list_induct2) auto

lemma matchingLoop_prefix: "matchingLoop c a b = n \<Longrightarrow> c \<le> n \<and> take (n - c) a = take (n - c) b \<and>
  n - c \<le> length a \<and> n - c \<le> length b \<and>
  (n - c < length a \<and> n - c < length b \<longrightarrow> a ! (n - c) \<noteq> b ! (n - c))"
proof (induction c a b rule: matchingLoop.induct)
  case (1 c x xs y ys)
  show ?case
  proof (cases "x = y")
    case True
    with 1 have IH: "Suc c \<le> n" "take (n - Suc c) xs = take (n - Suc c) ys"
      "n - Suc c \<le> length xs" "n - Suc c \<le> length ys"
      "n - Suc c < length xs \<and> n - Suc c < length ys \<longrightarrow> xs ! (n - Suc c) \<noteq> ys ! (n - Suc c)"
      by auto
    then have "n - c = Suc (n - Suc c)" by simp
    then show ?thesis using IH True by auto
  qed (use 1 in auto)
qed auto

text \<open>
  Comparison: \<open>equalsBytes\<close> decides equality, \<open>compareBytes\<close> gives the sign of the difference
  of the numbers, and \<open>matchingBytesLength\<close> the length of the longest common prefix.
\<close>

theorem comparison_spec:
  assumes "noble_hex N"
  shows "(equalsBytes a b \<longleftrightarrow> a = b) \<and>
    compareBytes N a b = Inr (sgn (int (be_nat a) - int (be_nat b))) \<and>
    take (matchingBytesLength a b) a = take (matchingBytesLength a b) b \<and>
    matchingBytesLength a b \<le> min (length a) (length b) \<and>
    (matchingBytesLength a b < min (length a) (length b) \<longrightarrow>
      a ! matchingBytesLength a b \<noteq> b ! matchingBytesLength a b)"
proof -
  show ?thesis
    using matchingLoop_prefix [of 0 a b "matchingBytesLength a b"] equalsLoop_eq [of a b]
    by (auto simp: equalsBytes_def compareBytes_def noble_hex.bytesToBigInt_eq [OF assms] matchingBytesLength_def)
qed

theorem comparison_spec_witness:
  "noble_hex rlp_noble \<and> matchingBytesLength [1, 2, 3] [1, 2, 4, 5] = 2 \<and>
   [1, 2, 3 :: 8 word] ! matchingBytesLength [1, 2, 3] [1, 2, 4, 5] \<noteq>
     [1, 2, 4, 5] ! matchingBytesLength [1, 2, 3] [1, 2, 4, 5]"
proof -
  have m: "matchingBytesLength [1, 2, 3] [1, 2, 4, 5] = 2" by code_simp
  show ?thesis
    using comparison_spec [OF rlp_hex.noble_hex_axioms, of "[1, 2, 3]" "[1, 2, 4, 5]"]
      rlp_hex.noble_hex_axioms unfolding m by simp
qed

lemma length_fixed_be [simp]: "length (fixed_be n v) = n"
  by (induction n arbitrary: v) simp_all

lemma be_nat_fixed_be: "be_nat (fixed_be n v) = v mod 256 ^ n"
  by (induction n arbitrary: v) (simp_all add: mod_mult2_eq mult.commute)

lemma fixed_be_be_nat: "fixed_be (length bs) (be_nat bs) = bs"
  by (induction bs rule: rev_induct) simp_all

text \<open>
  The fixed-width integers: reading back a written \<open>Int32\<close> or \<open>BigInt64\<close> gives the value
  modulo the width, in either byte order, and writing back what was read gives the bytes.
\<close>

theorem fixed_width_roundtrip:
  "bytesToInt32 (int32ToBytes v le) le = Inr (nat (v mod 2 ^ 32)) \<and>
   bytesToBigInt64 (bigInt64ToBytes v le) le = Inr (nat (v mod 2 ^ 64)) \<and>
   (length bs = 4 \<longrightarrow> and_then (bytesToInt32 bs le) (\<lambda>n. Inr (int32ToBytes (int n) le)) = Inr bs) \<and>
   (length bs = 8 \<longrightarrow> and_then (bytesToBigInt64 bs le) (\<lambda>n. Inr (bigInt64ToBytes (int n) le)) = Inr bs)"
proof -
  have nm: "nat (v mod 2 ^ (8 * k)) mod 256 ^ k = nat (v mod 2 ^ (8 * k))" for k
  proof -
    have "v mod 2 ^ (8 * k) < 2 ^ (8 * k)" by simp
    then have "nat (v mod 2 ^ (8 * k)) < 256 ^ k"
      by (simp add: nat_less_iff power_mult)
    then show ?thesis by simp
  qed
  have read: "length cs = k \<Longrightarrow> dataViewGet k cs le = be_nat (if le then rev cs else cs)" for k cs
    by (simp add: dataViewGet_def)
  have len: "length (dataViewSet k i le) = k" for k i
    by (simp add: dataViewSet_def Let_def)
  have "dataViewGet k (dataViewSet k v le) le = nat (v mod 2 ^ (8 * k))" for k
  proof -
    have "dataViewGet k (dataViewSet k v le) le = be_nat (fixed_be k (nat (v mod 256 ^ k)))"
      unfolding read [OF len] by (simp add: dataViewSet_def Let_def)
    then show ?thesis using nm [of k] by (simp add: be_nat_fixed_be power_mult)
  qed
  note rd = this [of 4, simplified] this [of 8, simplified]
  have wr: "dataViewSet k (int (dataViewGet k cs le)) le = cs" if "length cs = k" for k cs
  proof -
    define ds where "ds = (if le then rev cs else cs)"
    have l: "length ds = k" using that by (simp add: ds_def)
    then have "int (be_nat ds) mod 256 ^ k = int (be_nat ds)"
      using be_nat_less [of ds] by (metis mod_less of_nat_mod of_nat_power of_nat_numeral)
    then have "dataViewSet k (int (be_nat ds)) le = (if le then rev ds else ds)"
      using l fixed_be_be_nat [of ds] by (simp add: dataViewSet_def Let_def)
    then show ?thesis by (simp add: read [OF that] ds_def)
  qed
  show ?thesis
    using rd wr [of bs 4] wr [of bs 8] len [of 4] len [of 8]
    by (simp add: bytesToInt32_def bytesToBigInt64_def int32ToBytes_def bigInt64ToBytes_def)
qed

theorem fixed_width_roundtrip_witness:
  "and_then (bytesToInt32 [1, 2, 3, 4] True) (\<lambda>n. Inr (int32ToBytes (int n) True)) = Inr [1, 2, 3, 4] \<and>
   and_then (bytesToBigInt64 [1, 2, 3, 4, 5, 6, 7, 8] False)
     (\<lambda>n. Inr (bigInt64ToBytes (int n) False)) = Inr [1, 2, 3, 4, 5, 6, 7, 8]"
  using fixed_width_roundtrip [where v = 0 and le = True and bs = "[1, 2, 3, 4]"]
    fixed_width_roundtrip [where v = 0 and le = False and bs = "[1, 2, 3, 4, 5, 6, 7, 8]"] by simp

definition bits_step :: "nat list \<Rightarrow> bytes \<Rightarrow> nat \<Rightarrow> bytes" where
  "bits_step bits byteData i = (let byteIndex = i div 8; bitIndex = 7 - i mod 8 in
     byteData[byteIndex := byteData ! byteIndex OR word_of_nat (bits ! i * 2 ^ bitIndex)])"

lemma bit_word_of_nat_single:
  assumes "b < 2" and "n < 8"
  shows "bit (word_of_nat (b * 2 ^ m) :: 8 word) n \<longleftrightarrow> b = 1 \<and> n = m"
proof -
  have "b = 0 \<or> b = 1" using assms by auto
  then show ?thesis using assms by (auto simp: bit_exp_iff bit_simps simp flip: take_bit_eq_mod)
qed

lemma bits_step_fold:
  assumes "\<forall>b \<in> set bits. b < 2" and "k \<le> length bits"
  defines "r \<equiv> foldl (bits_step bits) (replicate ((length bits + 7) div 8) 0) [0..<k]"
  shows "length r = (length bits + 7) div 8 \<and>
    (\<forall>j n. 8 * j < length bits \<longrightarrow> n < 8 \<longrightarrow>
      (bit (r ! j) n \<longleftrightarrow> 8 * j + (7 - n) < k \<and> bits ! (8 * j + (7 - n)) = 1))"
  using assms(2) unfolding r_def
proof (induction k)
  case 0
  have "replicate ((length bits + 7) div 8) (0 :: 8 word) ! j = 0" if "8 * j < length bits" for j
    using that by (intro nth_replicate) linarith
  then show ?case by simp
next
  case (Suc k)
  let ?r = "foldl (bits_step bits) (replicate ((length bits + 7) div 8) 0) [0..<k]"
  have b: "bits ! k < 2" using assms(1) Suc.prems by auto
  have IH: "length ?r = (length bits + 7) div 8"
    "\<And>j n. 8 * j < length bits \<Longrightarrow> n < 8 \<Longrightarrow>
      (bit (?r ! j) n \<longleftrightarrow> 8 * j + (7 - n) < k \<and> bits ! (8 * j + (7 - n)) = 1)"
    using Suc by auto
  have kd: "k div 8 < length ?r" using Suc.prems IH(1) by auto
  have "bit (bits_step bits ?r k ! j) n \<longleftrightarrow> 8 * j + (7 - n) < Suc k \<and> bits ! (8 * j + (7 - n)) = 1"
    if jn: "8 * j < length bits" "n < 8" for j n
  proof (cases "j = k div 8")
    case True
    have "n = 7 - k mod 8 \<longleftrightarrow> 8 * j + (7 - n) = k"
      using jn True div_mult_mod_eq [of k 8] mod_less_divisor [of 8 k] by (cases "n = 7 - k mod 8") linarith+
    then have m: "n = 7 - k mod 8 \<and> bits ! k = 1 \<longleftrightarrow> 8 * j + (7 - n) = k \<and> bits ! (8 * j + (7 - n)) = 1"
      by metis
    have "bits_step bits ?r k ! j = ?r ! j OR word_of_nat (bits ! k * 2 ^ (7 - k mod 8))"
      using True kd by (simp add: bits_step_def Let_def)
    then have "bit (bits_step bits ?r k ! j) n \<longleftrightarrow>
        bit (?r ! j) n \<or> (bits ! k = 1 \<and> n = 7 - k mod 8)"
      using bit_word_of_nat_single [OF b jn(2)] by (simp only: bit_or_iff)
    then show ?thesis unfolding IH(2) [OF jn] less_Suc_eq using m by blast
  next
    case False
    then have "8 * j + (7 - n) \<noteq> k" using jn by auto
    then show ?thesis using False IH(2) [OF jn] by (auto simp: bits_step_def Let_def less_Suc_eq)
  qed
  moreover have "length (bits_step bits ?r k) = length ?r" by (simp add: bits_step_def Let_def)
  ultimately show ?case using IH(1) by simp
qed

lemma bitsToBytes_fold:
  "bitsToBytes bits = foldl (bits_step bits) (replicate ((length bits + 7) div 8) 0) [0..<length bits]"
  unfolding bitsToBytes_def bits_step_def ..

lemma length_bitsToBytes: "\<forall>b \<in> set bits. b < 2 \<Longrightarrow> length (bitsToBytes bits) = (length bits + 7) div 8"
  using bits_step_fold [of bits "length bits"] by (simp add: bitsToBytes_fold)

lemma bit_bitsToBytes: "\<forall>b \<in> set bits. b < 2 \<Longrightarrow> 8 * j < length bits \<Longrightarrow> n < 8 \<Longrightarrow>
  bit (bitsToBytes bits ! j) n \<longleftrightarrow> 8 * j + (7 - n) < length bits \<and> bits ! (8 * j + (7 - n)) = 1"
  using bits_step_fold [of bits "length bits"] by (simp add: bitsToBytes_fold)

lemma bit_byte_div: "bit (b :: 8 word) n \<longleftrightarrow> unat b div 2 ^ n mod 2 = 1"
proof -
  have "bit b n \<longleftrightarrow> bit (unat b) n" by (simp add: bit_simps)
  then show ?thesis by (simp add: bit_iff_odd odd_iff_mod_2_eq_one)
qed

text \<open>
  Unpacking bytes into bits, most significant first, and packing them again is the identity.
\<close>

theorem bits_roundtrip: "bitsToBytes (bytesToBits bs None) = bs"
proof (rule nth_equalityI)
  have small: "\<forall>b \<in> set (bytesToBits bs None). b < 2"
    by (auto simp: bytesToBits_def Let_def)
  have len: "length (bytesToBits bs None) = 8 * length bs" by (simp add: bytesToBits_def)
  show "length (bitsToBytes (bytesToBits bs None)) = length bs"
    using length_bitsToBytes [OF small] len by simp
  fix j assume "j < length (bitsToBytes (bytesToBits bs None))"
  then have j: "j < length bs" using length_bitsToBytes [OF small] len by simp
  show "bitsToBytes (bytesToBits bs None) ! j = bs ! j"
  proof (rule bit_word_eqI)
    fix n assume n: "n < LENGTH(8)"
    then have n': "n < 8" by simp
    have "7 - n < 8" by simp
    then have "(8 * j + (7 - n)) div 8 = j" "(8 * j + (7 - n)) mod 8 = 7 - n"
      by (simp_all only: div_mult_self4 mod_mult_self4 div_less mod_less)
    then have "bytesToBits bs None ! (8 * j + (7 - n)) = unat (bs ! j) div 2 ^ n mod 2"
      using j n' by (simp add: bytesToBits_def Let_def del: add_diff_assoc Nat.add_diff_assoc)
    then show "bit (bitsToBytes (bytesToBits bs None) ! j) n \<longleftrightarrow> bit (bs ! j) n"
      using bit_bitsToBytes [OF small, of j n] j n' len by (auto simp: bit_byte_div)
  qed
qed

end
