(* ===== verification/Effects.thy ===== *)
theory Effects
  imports Prelude
begin

text \<open>
  Code that both changes an object and throws: a computation maps the object before to the
  error or result and the object after. A throw keeps the changes made before it, as a
  JavaScript exception does. \<open>seqE\<close> is the semicolon.
\<close>

type_synonym ('s, 'e, 'a) eff = "'s \<Rightarrow> ('e + 'a) \<times> 's"

named_theorems eff_simps \<open>unfolding of computations with effects\<close>

definition ret :: "'a \<Rightarrow> ('s, 'e, 'a) eff" where
  "ret x = (\<lambda>s. (Inr x, s))"

definition raise :: "'e \<Rightarrow> ('s, 'e, 'a) eff" where
  "raise e = (\<lambda>s. (Inl e, s))"

definition seqE :: "('s, 'e, 'a) eff \<Rightarrow> ('a \<Rightarrow> ('s, 'e, 'b) eff) \<Rightarrow> ('s, 'e, 'b) eff" where
  "seqE m f = (\<lambda>s. case m s of (Inl e, s') \<Rightarrow> (Inl e, s') | (Inr x, s') \<Rightarrow> f x s')"

text \<open>Read the object, change it, and use a routine that may throw but changes nothing.\<close>

definition getE :: "('s \<Rightarrow> 'a) \<Rightarrow> ('s, 'e, 'a) eff" where
  "getE f = (\<lambda>s. (Inr (f s), s))"

definition updE :: "('s \<Rightarrow> 's) \<Rightarrow> ('s, 'e, unit) eff" where
  "updE f = (\<lambda>s. (Inr (), f s))"

definition resE :: "('e + 'a) \<Rightarrow> ('s, 'e, 'a) eff" where
  "resE r = (\<lambda>s. (r, s))"

text \<open>\<open>if (c) m\<close> and \<open>for (const x of xs) f(x)\<close>.\<close>

definition whenE :: "bool \<Rightarrow> ('s, 'e, unit) eff \<Rightarrow> ('s, 'e, unit) eff" where
  "whenE c m = (if c then m else ret ())"

fun forE :: "'x list \<Rightarrow> ('x \<Rightarrow> ('s, 'e, unit) eff) \<Rightarrow> ('s, 'e, unit) eff" where
  "forE [] f = ret ()"
| "forE (x # xs) f = seqE (f x) (\<lambda>_. forE xs f)"

lemma ret_run [simp, eff_simps]: "ret x s = (Inr x, s)"
  by (simp add: ret_def)

lemma raise_run [simp, eff_simps]: "raise e s = (Inl e, s)"
  by (simp add: raise_def)

lemma getE_run [simp, eff_simps]: "getE f s = (Inr (f s), s)"
  by (simp add: getE_def)

lemma updE_run [simp, eff_simps]: "updE f s = (Inr (), f s)"
  by (simp add: updE_def)

lemma resE_run [simp, eff_simps]: "resE r s = (r, s)"
  by (simp add: resE_def)

lemma seqE_run [eff_simps]:
  "seqE m f s = (case m s of (Inl e, s') \<Rightarrow> (Inl e, s') | (Inr x, s') \<Rightarrow> f x s')"
  by (simp add: seqE_def)

lemma seqE_Inr [simp]: "m s = (Inr x, s') \<Longrightarrow> seqE m f s = f x s'"
  by (simp add: seqE_def)

lemma seqE_Inl [simp]: "m s = (Inl e, s') \<Longrightarrow> seqE m f s = (Inl e, s')"
  by (simp add: seqE_def)

lemma whenE_run [eff_simps]: "whenE c m s = (if c then m s else (Inr (), s))"
  by (simp add: whenE_def)

lemma seqE_ret [simp]: "seqE (ret x) f = f x"
  by (simp add: seqE_def fun_eq_iff)

lemma seqE_assoc: "seqE (seqE m f) g = seqE m (\<lambda>x. seqE (f x) g)"
  by (auto simp: seqE_def fun_eq_iff split: prod.splits sum.splits)

text \<open>A predicate on objects that a computation keeps, whether it returns or throws.\<close>

definition keeps :: "('s \<Rightarrow> bool) \<Rightarrow> ('s, 'e, 'a) eff \<Rightarrow> bool" where
  "keeps P m \<longleftrightarrow> (\<forall>s. P s \<longrightarrow> P (snd (m s)))"

lemma keepsI [intro]: "(\<And>s. P s \<Longrightarrow> P (snd (m s))) \<Longrightarrow> keeps P m"
  by (simp add: keeps_def)

lemma keepsD: "keeps P m \<Longrightarrow> P s \<Longrightarrow> P (snd (m s))"
  by (simp add: keeps_def)

lemma keeps_pure [simp]: "keeps P (ret x)" "keeps P (raise e)" "keeps P (getE f)" "keeps P (resE r)"
  by (simp_all add: keeps_def)

lemma keeps_updE [simp]: "keeps P (updE f) \<longleftrightarrow> (\<forall>s. P s \<longrightarrow> P (f s))"
  by (simp add: keeps_def)

lemma keeps_seqE [intro]: "keeps P m \<Longrightarrow> (\<And>x. keeps P (f x)) \<Longrightarrow> keeps P (seqE m f)"
  by (fastforce simp: keeps_def seqE_def split: prod.splits sum.splits)

lemma keeps_whenE [simp]: "keeps P m \<Longrightarrow> keeps P (whenE c m)"
  by (simp add: whenE_def)

lemma keeps_forE: "(\<And>x. x \<in> set xs \<Longrightarrow> keeps P (f x)) \<Longrightarrow> keeps P (forE xs f)"
  by (induction xs) auto

end
