(* ===== verification/CommonData.thy ===== *)
theory CommonData
  imports Effects
begin

text \<open>
  The data of the common package: hardfork and EIP configurations as the code types them
  (\<^verbatim>\<open>packages/common/src/types.ts\<close>), the tables \<open>hardforksDict\<close> and \<open>eipsDict\<close>, and the hardfork schedule of
  the mainnet configuration in \<^verbatim>\<open>chains.ts\<close>. An object with string keys is an association list;
  a JSON \<open>null\<close> parameter is \<open>None\<close>. EIP numbers used as property names are the key \<open>PEip\<close>.
\<close>

section \<open>Types\<close>

type_synonym params_config = "(string \<times> int option) list"

datatype param_key = PEip nat | PName string

type_synonym params_dict = "(param_key \<times> params_config) list"

record consensus_config =
  cs_type :: string
  cs_algorithm :: string
  cs_config :: "(string \<times> (string \<times> int) list) list"

record hardfork_config =
  hf_eips :: "nat list option"
  hf_consensus :: "consensus_config option"
  hf_params :: "params_config option"

record eip_config =
  minimumHardfork :: string
  requiredEIPs :: "nat list option"

record transition =
  tr_name :: string
  tr_block :: "nat option"
  tr_timestamp :: "nat option"
  tr_forkHash :: "string option"

record chain_config =
  cc_name :: string
  cc_chainId :: int
  cc_defaultHardfork :: "string option"
  cc_consensus :: consensus_config
  cc_hardforks :: "transition list"
  cc_customHardforks :: "(string \<times> hardfork_config) list option"

section \<open>Tables\<close>

definition eips_only :: "nat list \<Rightarrow> hardfork_config" where
  "eips_only es = \<lparr>hf_eips = Some es, hf_consensus = None, hf_params = None\<rparr>"

definition hardforksDict :: "(string \<times> hardfork_config) list" where
  "hardforksDict = [
      (''chainstart'', eips_only [1]),
      (''homestead'', eips_only [606]),
      (''dao'', eips_only []),
      (''tangerineWhistle'', eips_only [608]),
      (''spuriousDragon'', eips_only [607]),
      (''byzantium'', eips_only [609]),
      (''constantinople'', eips_only [1013]),
      (''petersburg'', eips_only [1716]),
      (''istanbul'', eips_only [1679]),
      (''muirGlacier'', eips_only [2384]),
      (''berlin'', eips_only [2565, 2929, 2718, 2930]),
      (''london'', eips_only [1559, 3198, 3529, 3541]),
      (''arrowGlacier'', eips_only [4345]),
      (''grayGlacier'', eips_only [5133]),
      (''paris'', \<lparr>hf_eips = Some [3675, 4399], hf_consensus = Some \<lparr>cs_type = ''pos'', cs_algorithm = ''casper'',
        cs_config = [(''casper'', [])]\<rparr>, hf_params = None\<rparr>),
      (''mergeNetsplitBlock'', eips_only []),
      (''shanghai'', eips_only [3651, 3855, 3860, 4895]),
      (''cancun'', eips_only [1153, 4844, 4788, 5656, 6780, 7516]),
      (''prague'', eips_only [2537, 2935, 6110, 7002, 7251, 7623, 7685, 7691, 7702]),
      (''osaka'', eips_only [7594, 7823, 7825, 7883, 7892, 7939, 7951, 7918]),
      (''bpo1'', \<lparr>hf_eips = Some [], hf_consensus = None,
        hf_params = Some [(''target'', Some 10), (''max'', Some 15), (''blobGasPriceUpdateFraction'', Some 8346193)]\<rparr>),
      (''bpo2'', \<lparr>hf_eips = Some [], hf_consensus = None,
        hf_params = Some [(''target'', Some 14), (''max'', Some 21), (''blobGasPriceUpdateFraction'', Some 11684671)]\<rparr>),
      (''amsterdam'', eips_only [7708, 7843, 7778, 7928, 7954, 7976, 7981, 8024, 8037])]"

definition eips_1_to_3198 :: "(nat \<times> eip_config) list" where
  "eips_1_to_3198 = [
      (1, \<lparr>minimumHardfork = ''chainstart'', requiredEIPs = None\<rparr>),
      (606, \<lparr>minimumHardfork = ''chainstart'', requiredEIPs = None\<rparr>),
      (608, \<lparr>minimumHardfork = ''homestead'', requiredEIPs = None\<rparr>),
      (607, \<lparr>minimumHardfork = ''tangerineWhistle'', requiredEIPs = None\<rparr>),
      (609, \<lparr>minimumHardfork = ''spuriousDragon'', requiredEIPs = None\<rparr>),
      (1013, \<lparr>minimumHardfork = ''constantinople'', requiredEIPs = None\<rparr>),
      (1716, \<lparr>minimumHardfork = ''constantinople'', requiredEIPs = None\<rparr>),
      (1679, \<lparr>minimumHardfork = ''constantinople'', requiredEIPs = None\<rparr>),
      (2384, \<lparr>minimumHardfork = ''istanbul'', requiredEIPs = None\<rparr>),
      (8024, \<lparr>minimumHardfork = ''amsterdam'', requiredEIPs = Some []\<rparr>),
      (1153, \<lparr>minimumHardfork = ''chainstart'', requiredEIPs = None\<rparr>),
      (1559, \<lparr>minimumHardfork = ''berlin'', requiredEIPs = Some [2930]\<rparr>),
      (2565, \<lparr>minimumHardfork = ''byzantium'', requiredEIPs = None\<rparr>),
      (2537, \<lparr>minimumHardfork = ''chainstart'', requiredEIPs = None\<rparr>),
      (2718, \<lparr>minimumHardfork = ''chainstart'', requiredEIPs = None\<rparr>),
      (2929, \<lparr>minimumHardfork = ''chainstart'', requiredEIPs = None\<rparr>),
      (2930, \<lparr>minimumHardfork = ''istanbul'', requiredEIPs = Some [2718, 2929]\<rparr>),
      (2935, \<lparr>minimumHardfork = ''chainstart'', requiredEIPs = None\<rparr>),
      (3198, \<lparr>minimumHardfork = ''london'', requiredEIPs = None\<rparr>)]"

definition eips_3529_to_4844 :: "(nat \<times> eip_config) list" where
  "eips_3529_to_4844 = [
      (3529, \<lparr>minimumHardfork = ''berlin'', requiredEIPs = Some [2929]\<rparr>),
      (3540, \<lparr>minimumHardfork = ''london'', requiredEIPs = Some [3541, 3860]\<rparr>),
      (3541, \<lparr>minimumHardfork = ''berlin'', requiredEIPs = None\<rparr>),
      (3554, \<lparr>minimumHardfork = ''muirGlacier'', requiredEIPs = None\<rparr>),
      (3607, \<lparr>minimumHardfork = ''chainstart'', requiredEIPs = None\<rparr>),
      (3651, \<lparr>minimumHardfork = ''london'', requiredEIPs = Some [2929]\<rparr>),
      (3670, \<lparr>minimumHardfork = ''london'', requiredEIPs = Some [3540]\<rparr>),
      (3675, \<lparr>minimumHardfork = ''london'', requiredEIPs = None\<rparr>),
      (3855, \<lparr>minimumHardfork = ''chainstart'', requiredEIPs = None\<rparr>),
      (3860, \<lparr>minimumHardfork = ''spuriousDragon'', requiredEIPs = None\<rparr>),
      (4200, \<lparr>minimumHardfork = ''london'', requiredEIPs = Some [3540, 3670]\<rparr>),
      (4345, \<lparr>minimumHardfork = ''london'', requiredEIPs = None\<rparr>),
      (4399, \<lparr>minimumHardfork = ''london'', requiredEIPs = None\<rparr>),
      (4750, \<lparr>minimumHardfork = ''london'', requiredEIPs = Some [3540, 3670, 5450]\<rparr>),
      (4788, \<lparr>minimumHardfork = ''cancun'', requiredEIPs = None\<rparr>),
      (4844, \<lparr>minimumHardfork = ''paris'', requiredEIPs = Some [1559, 2718, 2930, 4895]\<rparr>)]"

definition eips_4895_to_7623 :: "(nat \<times> eip_config) list" where
  "eips_4895_to_7623 = [
      (4895, \<lparr>minimumHardfork = ''paris'', requiredEIPs = None\<rparr>),
      (5133, \<lparr>minimumHardfork = ''grayGlacier'', requiredEIPs = None\<rparr>),
      (5450, \<lparr>minimumHardfork = ''london'', requiredEIPs = Some [3540, 3670, 4200, 4750]\<rparr>),
      (5656, \<lparr>minimumHardfork = ''shanghai'', requiredEIPs = None\<rparr>),
      (6110, \<lparr>minimumHardfork = ''cancun'', requiredEIPs = Some [7685]\<rparr>),
      (6206, \<lparr>minimumHardfork = ''london'', requiredEIPs = Some [4750, 5450]\<rparr>),
      (6780, \<lparr>minimumHardfork = ''london'', requiredEIPs = None\<rparr>),
      (7002, \<lparr>minimumHardfork = ''paris'', requiredEIPs = Some [7685]\<rparr>),
      (7069, \<lparr>minimumHardfork = ''berlin'', requiredEIPs = Some [2929]\<rparr>),
      (7251, \<lparr>minimumHardfork = ''paris'', requiredEIPs = Some [7685]\<rparr>),
      (7480, \<lparr>minimumHardfork = ''london'', requiredEIPs = Some [3540, 3670]\<rparr>),
      (7516, \<lparr>minimumHardfork = ''paris'', requiredEIPs = Some [4844]\<rparr>),
      (7594, \<lparr>minimumHardfork = ''paris'', requiredEIPs = Some [4844]\<rparr>),
      (7620, \<lparr>minimumHardfork = ''london'', requiredEIPs = Some [3540, 3541, 3670]\<rparr>),
      (7623, \<lparr>minimumHardfork = ''chainstart'', requiredEIPs = Some []\<rparr>)]"

definition eips_7685_to_7951 :: "(nat \<times> eip_config) list" where
  "eips_7685_to_7951 = [
      (7685, \<lparr>minimumHardfork = ''cancun'', requiredEIPs = Some [3675]\<rparr>),
      (7691, \<lparr>minimumHardfork = ''paris'', requiredEIPs = Some [4844]\<rparr>),
      (7918, \<lparr>minimumHardfork = ''paris'', requiredEIPs = Some [4844]\<rparr>),
      (7692, \<lparr>minimumHardfork = ''cancun'', requiredEIPs = Some [3540, 3670, 4200, 4750, 5450, 6206, 7069, 7480, 7620, 7698]\<rparr>),
      (7698, \<lparr>minimumHardfork = ''london'', requiredEIPs = Some [3540, 7620]\<rparr>),
      (7702, \<lparr>minimumHardfork = ''cancun'', requiredEIPs = Some [2718, 2929, 2930]\<rparr>),
      (7823, \<lparr>minimumHardfork = ''byzantium'', requiredEIPs = None\<rparr>),
      (7709, \<lparr>minimumHardfork = ''chainstart'', requiredEIPs = Some [2935]\<rparr>),
      (7825, \<lparr>minimumHardfork = ''chainstart'', requiredEIPs = Some []\<rparr>),
      (7864, \<lparr>minimumHardfork = ''london'', requiredEIPs = None\<rparr>),
      (7883, \<lparr>minimumHardfork = ''chainstart'', requiredEIPs = None\<rparr>),
      (7778, \<lparr>minimumHardfork = ''amsterdam'', requiredEIPs = Some []\<rparr>),
      (7928, \<lparr>minimumHardfork = ''prague'', requiredEIPs = Some []\<rparr>),
      (7939, \<lparr>minimumHardfork = ''chainstart'', requiredEIPs = Some []\<rparr>),
      (7951, \<lparr>minimumHardfork = ''chainstart'', requiredEIPs = Some []\<rparr>)]"

definition eips_7934_to_8037 :: "(nat \<times> eip_config) list" where
  "eips_7934_to_8037 = [
      (7934, \<lparr>minimumHardfork = ''chainstart'', requiredEIPs = Some []\<rparr>),
      (7708, \<lparr>minimumHardfork = ''chainstart'', requiredEIPs = Some [1559, 4788, 6780]\<rparr>),
      (7843, \<lparr>minimumHardfork = ''cancun'', requiredEIPs = Some []\<rparr>),
      (7954, \<lparr>minimumHardfork = ''amsterdam'', requiredEIPs = Some []\<rparr>),
      (7976, \<lparr>minimumHardfork = ''chainstart'', requiredEIPs = Some [7623]\<rparr>),
      (7981, \<lparr>minimumHardfork = ''amsterdam'', requiredEIPs = Some [2930, 7976]\<rparr>),
      (8037, \<lparr>minimumHardfork = ''amsterdam'', requiredEIPs = Some [2780, 6780, 7702, 7825, 7976, 7981]\<rparr>)]"

definition eipsDict :: "(nat \<times> eip_config) list" where
  "eipsDict = eips_1_to_3198 @ eips_3529_to_4844 @ eips_4895_to_7623 @ eips_7685_to_7951 @ eips_7934_to_8037"

definition mainnet_hardforks :: "transition list" where
  "mainnet_hardforks = [
      \<lparr>tr_name = ''chainstart'', tr_block = Some 0, tr_timestamp = None, tr_forkHash = Some ''0xfc64ec04''\<rparr>,
      \<lparr>tr_name = ''homestead'', tr_block = Some 1150000, tr_timestamp = None, tr_forkHash = Some ''0x97c2c34c''\<rparr>,
      \<lparr>tr_name = ''dao'', tr_block = Some 1920000, tr_timestamp = None, tr_forkHash = Some ''0x91d1f948''\<rparr>,
      \<lparr>tr_name = ''tangerineWhistle'', tr_block = Some 2463000, tr_timestamp = None, tr_forkHash = Some ''0x7a64da13''\<rparr>,
      \<lparr>tr_name = ''spuriousDragon'', tr_block = Some 2675000, tr_timestamp = None, tr_forkHash = Some ''0x3edd5b10''\<rparr>,
      \<lparr>tr_name = ''byzantium'', tr_block = Some 4370000, tr_timestamp = None, tr_forkHash = Some ''0xa00bc324''\<rparr>,
      \<lparr>tr_name = ''constantinople'', tr_block = Some 7280000, tr_timestamp = None, tr_forkHash = Some ''0x668db0af''\<rparr>,
      \<lparr>tr_name = ''petersburg'', tr_block = Some 7280000, tr_timestamp = None, tr_forkHash = Some ''0x668db0af''\<rparr>,
      \<lparr>tr_name = ''istanbul'', tr_block = Some 9069000, tr_timestamp = None, tr_forkHash = Some ''0x879d6e30''\<rparr>,
      \<lparr>tr_name = ''muirGlacier'', tr_block = Some 9200000, tr_timestamp = None, tr_forkHash = Some ''0xe029e991''\<rparr>,
      \<lparr>tr_name = ''berlin'', tr_block = Some 12244000, tr_timestamp = None, tr_forkHash = Some ''0x0eb440f6''\<rparr>,
      \<lparr>tr_name = ''london'', tr_block = Some 12965000, tr_timestamp = None, tr_forkHash = Some ''0xb715077d''\<rparr>,
      \<lparr>tr_name = ''arrowGlacier'', tr_block = Some 13773000, tr_timestamp = None, tr_forkHash = Some ''0x20c327fc''\<rparr>,
      \<lparr>tr_name = ''grayGlacier'', tr_block = Some 15050000, tr_timestamp = None, tr_forkHash = Some ''0xf0afd0e3''\<rparr>,
      \<lparr>tr_name = ''paris'', tr_block = Some 15537394, tr_timestamp = None, tr_forkHash = Some ''0xf0afd0e3''\<rparr>,
      \<lparr>tr_name = ''mergeNetsplitBlock'', tr_block = None, tr_timestamp = None, tr_forkHash = None\<rparr>,
      \<lparr>tr_name = ''shanghai'', tr_block = None, tr_timestamp = Some 1681338455, tr_forkHash = Some ''0xdce96c2d''\<rparr>,
      \<lparr>tr_name = ''cancun'', tr_block = None, tr_timestamp = Some 1710338135, tr_forkHash = Some ''0x9f3d2254''\<rparr>,
      \<lparr>tr_name = ''prague'', tr_block = None, tr_timestamp = Some 1746612311, tr_forkHash = Some ''0xc376cf8b''\<rparr>,
      \<lparr>tr_name = ''osaka'', tr_block = None, tr_timestamp = Some 1764798551, tr_forkHash = Some ''0x5167e2a6''\<rparr>,
      \<lparr>tr_name = ''bpo1'', tr_block = None, tr_timestamp = Some 1765290071, tr_forkHash = Some ''0xcba2a1c0''\<rparr>,
      \<lparr>tr_name = ''bpo2'', tr_block = None, tr_timestamp = Some 1767747671, tr_forkHash = Some ''0x07c9462e''\<rparr>,
      \<lparr>tr_name = ''amsterdam'', tr_block = None, tr_timestamp = None, tr_forkHash = None\<rparr>]"

definition Mainnet :: chain_config where
  "Mainnet = \<lparr>cc_name = ''mainnet'', cc_chainId = 1, cc_defaultHardfork = Some ''prague'',
     cc_consensus = \<lparr>cs_type = ''pow'', cs_algorithm = ''ethash'', cs_config = [(''ethash'', [])]\<rparr>,
     cc_hardforks = mainnet_hardforks, cc_customHardforks = None\<rparr>"

end
