(* ===== verification/Common.thy ===== *)
theory Common
  imports CommonData Crc
begin

text \<open>
  The chain and hardfork rules, \<^verbatim>\<open>packages/common/src/common.ts\<close>: an instance keeps the
  hardfork set, the additional EIPs, the parameter tables, and two caches (merged parameters,
  activated EIPs) that every operation changing the former rebuilds. Block numbers and
  timestamps are integers (the code's \<open>Number\<close> conversions are exact up to \<open>2^53\<close>).
  \<open>emitted\<close> lists the hardforks of the events sent, oldest first. A cache whose rebuilding
  throws keeps what was collected before the throw.
\<close>

section \<open>The instance\<close>

record common =
  chainParams :: chain_config
  hardforkSet :: string
  eipsSet :: "nat list"
  paramsDict :: params_dict
  paramsCache :: params_config
  activatedEIPsCache :: "nat list"
  hardforkChanges :: "(string \<times> hardfork_config option) list"
  emitted :: "string list"

type_synonym 'a common_op = "(common, js_error, 'a) eff"

definition obj_merge :: "('k \<times> 'v) list \<Rightarrow> ('k \<times> 'v) list \<Rightarrow> ('k \<times> 'v) list" where
  "obj_merge base over = foldl (\<lambda>o' (k, v). obj_set k v o') base over"

section \<open>Hardforks of the chain\<close>

definition hardforks_of :: "chain_config \<Rightarrow> transition list" where
  "hardforks_of cp =
     (let hfs = cc_hardforks cp in
      case cc_customHardforks cp of
        None \<Rightarrow> hfs
      | Some custom \<Rightarrow>
          let existingNames = set (map tr_name hfs) in
          hfs @ map (\<lambda>n. \<lparr>tr_name = n, tr_block = None, tr_timestamp = None, tr_forkHash = None\<rparr>)
            (filter (\<lambda>n. n \<notin> existingNames) (map fst custom)))"

definition hardforks :: "common \<Rightarrow> transition list" where
  "hardforks c = hardforks_of (chainParams c)"

text \<open>\<open>HARDFORK_CHANGES\<close> as the constructor computes it; an unknown hardfork has no entry.\<close>

definition initial_changes :: "chain_config \<Rightarrow> (string \<times> hardfork_config option) list" where
  "initial_changes cp = map (\<lambda>hf. (tr_name hf,
     (case cc_customHardforks cp of
        None \<Rightarrow> map_of hardforksDict (tr_name hf)
      | Some custom \<Rightarrow> (case map_of custom (tr_name hf) of
          Some cfg \<Rightarrow> Some cfg
        | None \<Rightarrow> map_of hardforksDict (tr_name hf))))) (hardforks_of cp)"

text \<open>The position of the last entry of a name, as the loops of \<open>hardforkGteHardfork\<close> find it.\<close>

fun lastPos :: "int \<Rightarrow> int \<Rightarrow> string \<Rightarrow> string list \<Rightarrow> int" where
  "lastPos pos index n [] = pos"
| "lastPos pos index n (m # ms) = lastPos (if m = n then index else pos) (index + 1) n ms"

definition hardforkGteHardfork :: "common \<Rightarrow> string option \<Rightarrow> string \<Rightarrow> bool" where
  "hardforkGteHardfork c hardfork1 hardfork2 =
     (let hf1 = (case hardfork1 of Some h \<Rightarrow> h | None \<Rightarrow> hardforkSet c);
          names = map tr_name (hardforks c);
          posHf1 = lastPos (- 1) 0 hf1 names;
          posHf2 = lastPos (- 1) 0 hardfork2 names in
      posHf1 \<ge> posHf2 \<and> posHf2 \<noteq> - 1)"

definition gteHardfork :: "common \<Rightarrow> string \<Rightarrow> bool" where
  "gteHardfork c hardfork = hardforkGteHardfork c None hardfork"

section \<open>The caches\<close>

text \<open>
  The loop of \<open>_buildParamsCache\<close> over the hardforks up to and including the one set. The
  \<open>in\<close> operator throws on a hardfork without configuration.
\<close>

definition merge_key :: "params_dict \<Rightarrow> param_key \<Rightarrow> params_config \<Rightarrow> params_config" where
  "merge_key ps k cache = (case map_of ps k of Some p \<Rightarrow> obj_merge cache p | None \<Rightarrow> cache)"

fun mergeHardforks :: "params_dict \<Rightarrow> string \<Rightarrow> (string \<times> hardfork_config option) list \<Rightarrow>
    params_config \<Rightarrow> unit res \<times> params_config" where
  "mergeHardforks ps hardfork [] cache = (Inr (), cache)"
| "mergeHardforks ps hardfork ((n, None) # rest) cache = (Inl TypeError, cache)"
| "mergeHardforks ps hardfork ((n, Some cfg) # rest) cache =
     (let c1 = foldl (\<lambda>c eip. merge_key ps (PEip eip) c) cache
                 (case hf_eips cfg of Some es \<Rightarrow> es | None \<Rightarrow> []);
          c2 = merge_key ps (PName n) c1;
          c3 = (case hf_params cfg of Some p \<Rightarrow> obj_merge c2 p | None \<Rightarrow> c2) in
      if n = hardfork then (Inr (), c3) else mergeHardforks ps hardfork rest c3)"

definition builtParams :: "common \<Rightarrow> unit res \<times> params_config" where
  "builtParams c =
     (case mergeHardforks (paramsDict c) (hardforkSet c) (hardforkChanges c) [] of
        (Inl e, cache) \<Rightarrow> (Inl e, cache)
      | (Inr _, cache) \<Rightarrow>
          (Inr (), foldl (\<lambda>cc eip. merge_key (paramsDict c) (PEip eip) cc) cache (eipsSet c)))"

definition buildParamsCache :: "unit common_op" where
  "buildParamsCache = (\<lambda>c. let (r, cache) = builtParams c in (r, c\<lparr>paramsCache := cache\<rparr>))"

fun activatedHardforkEIPs :: "common \<Rightarrow> (string \<times> hardfork_config option) list \<Rightarrow> nat list \<Rightarrow>
    unit res \<times> nat list" where
  "activatedHardforkEIPs c [] acc = (Inr (), acc)"
| "activatedHardforkEIPs c ((n, hf) # rest) acc =
     (if gteHardfork c n
      then (case hf of
          None \<Rightarrow> (Inl TypeError, acc)
        | Some cfg \<Rightarrow> activatedHardforkEIPs c rest
            (acc @ (case hf_eips cfg of Some e \<Rightarrow> e | None \<Rightarrow> [])))
      else activatedHardforkEIPs c rest acc)"

definition builtEIPs :: "common \<Rightarrow> unit res \<times> nat list" where
  "builtEIPs c =
     (case activatedHardforkEIPs c (hardforkChanges c) [] of
        (Inl e, es) \<Rightarrow> (Inl e, es)
      | (Inr _, es) \<Rightarrow> (Inr (), es @ eipsSet c))"

definition buildActivatedEIPsCache :: "unit common_op" where
  "buildActivatedEIPsCache =
     (\<lambda>c. let (r, es) = builtEIPs c in (r, c\<lparr>activatedEIPsCache := es\<rparr>))"

definition isActivatedEIP :: "common \<Rightarrow> nat \<Rightarrow> bool" where
  "isActivatedEIP c eip = (eip \<in> set (activatedEIPsCache c))"

section \<open>Setting hardfork, EIPs and parameters\<close>

definition setHardfork :: "string \<Rightarrow> unit common_op" where
  "setHardfork hardfork =
     seqE (getE hardforkChanges) (\<lambda>changes. seqE
       (forE changes (\<lambda>hfChanges. seqE (getE hardforkSet) (\<lambda>current.
          whenE (fst hfChanges = hardfork \<and> current \<noteq> hardfork)
            (seqE (updE (hardforkSet_update (\<lambda>_. hardfork))) (\<lambda>_.
             seqE buildParamsCache (\<lambda>_. seqE buildActivatedEIPsCache (\<lambda>_.
             updE (emitted_update (\<lambda>es. es @ [hardfork])))))))))
       (\<lambda>_. if hardfork \<notin> set (map fst changes)
             then raise (EthereumJSError ''Hardfork with name '') else ret ()))"

fun checkEIPs :: "common \<Rightarrow> nat list \<Rightarrow> unit res" where
  "checkEIPs c [] = Inr ()"
| "checkEIPs c (eip # eips) = (case map_of eipsDict eip of
     None \<Rightarrow> Inl (EthereumJSError ''EIP not supported'')
   | Some cfg \<Rightarrow>
       if \<not> gteHardfork c (minimumHardfork cfg)
       then Inl (EthereumJSError ''EIP cannot be activated on hardfork'') else checkEIPs c eips)"

fun checkRequired :: "common \<Rightarrow> nat list \<Rightarrow> nat list \<Rightarrow> unit res" where
  "checkRequired c eips [] = Inr ()"
| "checkRequired c eips (eip # rest) =
     (case map_of eipsDict eip of
        None \<Rightarrow> Inl TypeError
      | Some cfg \<Rightarrow>
          if list_all (\<lambda>elem. elem \<in> set eips \<or> isActivatedEIP c elem)
               (case requiredEIPs cfg of Some rs \<Rightarrow> rs | None \<Rightarrow> [])
          then checkRequired c eips rest
          else Inl (EthereumJSError ''EIP requires EIP, but is not included in the EIP list''))"

definition setEIPs :: "nat list \<Rightarrow> unit common_op" where
  "setEIPs eips =
     seqE (getE (\<lambda>c. checkEIPs c eips)) (\<lambda>r. seqE (resE r) (\<lambda>_.
     seqE (updE (eipsSet_update (\<lambda>_. eips))) (\<lambda>_.
     seqE buildParamsCache (\<lambda>_. seqE buildActivatedEIPsCache (\<lambda>_.
     seqE (getE (\<lambda>c. checkRequired c eips eips)) resE)))))"

definition updateParams :: "params_dict \<Rightarrow> unit common_op" where
  "updateParams params =
     seqE (updE (paramsDict_update (\<lambda>ps0. foldl (\<lambda>ps (eip, paramsConfig).
        obj_set eip (case map_of ps eip of
            None \<Rightarrow> paramsConfig | Some old \<Rightarrow> obj_merge old paramsConfig) ps) ps0 params)))
       (\<lambda>_. buildParamsCache)"

definition resetParams :: "params_dict \<Rightarrow> unit common_op" where
  "resetParams params = seqE (updE (paramsDict_update (\<lambda>_. params))) (\<lambda>_. buildParamsCache)"

definition newCommon :: "chain_config \<Rightarrow> params_dict option \<Rightarrow> string option \<Rightarrow>
    nat list option \<Rightarrow> common res" where
  "newCommon chain params hardfork eips =
     (let c0 = \<lparr>chainParams = chain,
            hardforkSet = (case cc_defaultHardfork chain of Some h \<Rightarrow> h | None \<Rightarrow> ''prague''),
            eipsSet = [], paramsDict = (case params of Some p \<Rightarrow> p | None \<Rightarrow> []),
            paramsCache = [], activatedEIPsCache = [],
            hardforkChanges = initial_changes chain, emitted = []\<rparr>;
          (r, c) = seqE (case hardfork of Some h \<Rightarrow> setHardfork h | None \<Rightarrow> ret ()) (\<lambda>_.
            seqE (case eips of Some es \<Rightarrow> setEIPs es | None \<Rightarrow> ret ()) (\<lambda>_.
            seqE (getE paramsCache) (\<lambda>cache. whenE (cache = [])
              (seqE buildParamsCache (\<lambda>_. buildActivatedEIPsCache))))) c0 in
      and_then r (\<lambda>_. Inr c))"

section \<open>Reading parameters\<close>

definition param :: "common \<Rightarrow> string \<Rightarrow> int res" where
  "param c n = (case map_of (paramsCache c) n of
     None \<Rightarrow> Inl (EthereumJSError ''Missing parameter value for '')
   | Some v \<Rightarrow> Inr (case v of Some i \<Rightarrow> i | None \<Rightarrow> 0))"

text \<open>The loop of \<open>paramByHardfork\<close>; the accumulator is its variable \<open>value\<close>.\<close>

fun findParam :: "params_dict \<Rightarrow> string \<Rightarrow> string \<Rightarrow> (string \<times> hardfork_config option) list \<Rightarrow>
    int option option \<Rightarrow> int option option res" where
  "findParam ps n hardfork [] acc = Inr acc"
| "findParam ps n hardfork ((h, None) # rest) acc = Inl TypeError"
| "findParam ps n hardfork ((h, Some cfg) # rest) acc =
     (let acc' = (case hf_eips cfg of
          Some es \<Rightarrow> foldl (\<lambda>a eip. case map_of ps (PEip eip) of
              None \<Rightarrow> a
            | Some p \<Rightarrow> (case map_of p n of None \<Rightarrow> a | Some v \<Rightarrow> Some v)) acc es
        | None \<Rightarrow> (case hf_params cfg of
              None \<Rightarrow> acc
            | Some p \<Rightarrow> (case map_of p n of None \<Rightarrow> acc | Some v \<Rightarrow> Some v))) in
      if h = hardfork then Inr acc' else findParam ps n hardfork rest acc')"

definition paramByHardfork :: "common \<Rightarrow> string \<Rightarrow> string \<Rightarrow> int res" where
  "paramByHardfork c n hardfork =
     and_then (findParam (paramsDict c) n hardfork (hardforkChanges c) None) (\<lambda>v. case v of
       None \<Rightarrow> Inl (EthereumJSError ''Missing parameter value for '')
     | Some v \<Rightarrow> Inr (case v of Some i \<Rightarrow> i | None \<Rightarrow> 0))"

definition paramByEIP :: "common \<Rightarrow> string \<Rightarrow> nat \<Rightarrow> int res" where
  "paramByEIP c n eip =
     (if map_of eipsDict eip = None then Inl (EthereumJSError ''EIP not supported'')
      else case map_of (paramsDict c) (PEip eip) of
        None \<Rightarrow> Inl (EthereumJSError ''Missing parameter value for '')
      | Some p \<Rightarrow> (case map_of p n of
          None \<Rightarrow> Inl (EthereumJSError ''Missing parameter value for '')
        | Some v \<Rightarrow> Inr (case v of Some i \<Rightarrow> i | None \<Rightarrow> 0)))"

record bpo_schedule =
  targetBlobGasPerBlock :: int
  maxBlobGasPerBlock :: int
  blobGasPriceUpdateFraction :: int

definition getBlobGasSchedule :: "common \<Rightarrow> bpo_schedule res" where
  "getBlobGasSchedule c =
     (if gteHardfork c ''bpo1'' then
        and_then (param c ''target'') (\<lambda>t. and_then (param c ''blobGasPerBlob'') (\<lambda>b.
        and_then (param c ''max'') (\<lambda>m. and_then (param c ''blobGasPriceUpdateFraction'') (\<lambda>f.
          Inr \<lparr>targetBlobGasPerBlock = t * b, maxBlobGasPerBlock = m * b,
               blobGasPriceUpdateFraction = f\<rparr>))))
      else
        and_then (param c ''targetBlobGasPerBlock'') (\<lambda>t.
        and_then (param c ''maxBlobGasPerBlock'') (\<lambda>m.
        and_then (param c ''blobGasPriceUpdateFraction'') (\<lambda>f.
          Inr \<lparr>targetBlobGasPerBlock = t, maxBlobGasPerBlock = m,
               blobGasPriceUpdateFraction = f\<rparr>))))"

section \<open>Hardforks by block number and timestamp\<close>

definition applied_hardforks :: "common \<Rightarrow> transition list" where
  "applied_hardforks c =
     filter (\<lambda>hf. tr_block hf \<noteq> None \<or> tr_timestamp hf \<noteq> None) (hardforks c)"

text \<open>\<open>after blockNumber timestamp hf\<close>: the hardfork is scheduled later than the block.\<close>

definition after :: "int option \<Rightarrow> int option \<Rightarrow> transition \<Rightarrow> bool" where
  "after blockNumber timestamp hf =
     ((case (blockNumber, tr_block hf) of (Some n, Some b) \<Rightarrow> int b > n | _ \<Rightarrow> False) \<or>
      (case (timestamp, tr_timestamp hf) of (Some t, Some ts) \<Rightarrow> int ts > t | _ \<Rightarrow> False))"

text \<open>The loop that moves to the last hardfork scheduled at the same block and timestamp.\<close>

function advanceHf :: "transition list \<Rightarrow> int \<Rightarrow> int res" where
  "advanceHf hfs i =
     (if i < int (length hfs) - 1 then
        (case (atIndex hfs i, atIndex hfs (i + 1)) of
           (Some a, Some b) \<Rightarrow>
             if tr_block a \<noteq> tr_block b \<or> tr_timestamp a \<noteq> tr_timestamp b then Inr i
             else advanceHf hfs (i + 1)
         | _ \<Rightarrow> Inl TypeError)
      else Inr i)"
  by pat_completeness auto
termination by (relation "measure (\<lambda>(hfs, i). nat (int (length hfs) - i))") auto

declare advanceHf.simps [simp del]

definition getHardforkBy :: "common \<Rightarrow> int option \<Rightarrow> int option \<Rightarrow> string res" where
  "getHardforkBy c blockNumber timestamp =
     (let hfs = applied_hardforks c;
          found = js_findIndex (after blockNumber timestamp) hfs;
          hfIndex0 = (if found = - 1 then int (length hfs) else found) in
      if found = 0 then Inl (PlainError ''Must have at least one hardfork at block 0'')
      else
        let stepBack = js_findIndex (\<lambda>hf. tr_block hf \<noteq> None) (rev (take (nat hfIndex0) hfs));
            hfIndex1 = (if timestamp = None then hfIndex0 - stepBack else hfIndex0) - 1;
            hfStartIndex = hfIndex1 in
        and_then (advanceHf hfs hfIndex1) (\<lambda>hfIndex. and_then
          (case timestamp of
             None \<Rightarrow> Inr ()
           | Some t \<Rightarrow>
               let minTimeStamp = foldl (\<lambda>acc hf. max (case tr_timestamp hf of Some ts \<Rightarrow> int ts | None \<Rightarrow> 0) acc)
                     0 (take (nat hfStartIndex) hfs);
                   maxTimeStamp = foldl (\<lambda>acc hf. min (case tr_timestamp hf of Some ts \<Rightarrow> int ts | None \<Rightarrow> t) acc)
                     t (drop (nat (hfIndex + 1)) hfs) in
               if minTimeStamp > t
               then Inl (PlainError ''Maximum HF determined by timestamp is lower than the block number HF'')
               else if maxTimeStamp < t
               then Inl (PlainError ''Maximum HF determined by block number is lower than timestamp HF'')
               else Inr ())
          (\<lambda>_. case atIndex hfs hfIndex of Some hf \<Rightarrow> Inr (tr_name hf) | None \<Rightarrow> Inl TypeError)))"

definition setHardforkBy :: "int option \<Rightarrow> int option \<Rightarrow> string common_op" where
  "setHardforkBy blockNumber timestamp =
     seqE (getE (\<lambda>c. getHardforkBy c blockNumber timestamp)) (\<lambda>r. seqE (resE r) (\<lambda>hardfork.
     seqE (setHardfork hardfork) (\<lambda>_. ret hardfork)))"

definition paramByBlock :: "common \<Rightarrow> string \<Rightarrow> int \<Rightarrow> int option \<Rightarrow> int res" where
  "paramByBlock c n blockNumber timestamp =
     and_then (getHardforkBy c (Some blockNumber) timestamp) (paramByHardfork c n)"

text \<open>\<open>_getHardfork\<close>: the first entry of the name.\<close>

definition getHardfork :: "common \<Rightarrow> string \<Rightarrow> transition option" where
  "getHardfork c hardfork = find (\<lambda>hf. tr_name hf = hardfork) (hardforks c)"

definition hardforkBlock :: "common \<Rightarrow> string option \<Rightarrow> int option" where
  "hardforkBlock c hardfork =
     (let hf = (case hardfork of Some h \<Rightarrow> h | None \<Rightarrow> hardforkSet c) in
      case getHardfork c hf of
        None \<Rightarrow> None
      | Some t \<Rightarrow> (case tr_block t of None \<Rightarrow> None | Some b \<Rightarrow> Some (int b)))"

definition hardforkTimestamp :: "common \<Rightarrow> string option \<Rightarrow> int option" where
  "hardforkTimestamp c hardfork =
     (let hf = (case hardfork of Some h \<Rightarrow> h | None \<Rightarrow> hardforkSet c) in
      case getHardfork c hf of
        None \<Rightarrow> None
      | Some t \<Rightarrow> (case tr_timestamp t of None \<Rightarrow> None | Some b \<Rightarrow> Some (int b)))"

definition hardforkIsActiveOnBlock :: "common \<Rightarrow> string option \<Rightarrow> int \<Rightarrow> bool" where
  "hardforkIsActiveOnBlock c hardfork blockNumber =
     (let hf = (case hardfork of Some h \<Rightarrow> h | None \<Rightarrow> hardforkSet c) in
      case hardforkBlock c (Some hf) of
        Some hfBlock \<Rightarrow> hfBlock \<noteq> 0 \<and> blockNumber \<ge> hfBlock
      | None \<Rightarrow> False)"

definition activeOnBlock :: "common \<Rightarrow> int \<Rightarrow> bool" where
  "activeOnBlock c blockNumber = hardforkIsActiveOnBlock c None blockNumber"

text \<open>The loops of \<open>eipBlock\<close> and \<open>eipTimestamp\<close>: the hardfork that activates the EIP.\<close>

fun eipHardfork :: "nat \<Rightarrow> (string \<times> hardfork_config option) list \<Rightarrow> string option res" where
  "eipHardfork eip [] = Inr None"
| "eipHardfork eip ((n, None) # rest) = Inl TypeError"
| "eipHardfork eip ((n, Some cfg) # rest) = (case hf_eips cfg of
     Some es \<Rightarrow> if eip \<in> set es then Inr (Some n) else eipHardfork eip rest
   | None \<Rightarrow> eipHardfork eip rest)"

definition eipBlock :: "common \<Rightarrow> nat \<Rightarrow> int option res" where
  "eipBlock c eip = and_then (eipHardfork eip (hardforkChanges c)) (\<lambda>h. Inr (case h of
     None \<Rightarrow> None | Some n \<Rightarrow> hardforkBlock c (Some n)))"

definition eipTimestamp :: "common \<Rightarrow> nat \<Rightarrow> int option res" where
  "eipTimestamp c eip = and_then (eipHardfork eip (hardforkChanges c)) (\<lambda>h. Inr (case h of
     None \<Rightarrow> None | Some n \<Rightarrow> hardforkTimestamp c (Some n)))"

definition blockOrTimestamp :: "transition \<Rightarrow> nat option" where
  "blockOrTimestamp hf = (case tr_timestamp hf of Some t \<Rightarrow> Some t | None \<Rightarrow> tr_block hf)"

definition nextHardforkBlockOrTimestamp :: "common \<Rightarrow> string option \<Rightarrow> int option" where
  "nextHardforkBlockOrTimestamp c hardfork =
     (let target = (case hardfork of Some h \<Rightarrow> h | None \<Rightarrow> hardforkSet c);
          hfs = hardforks c;
          found = js_findIndex (\<lambda>hf. tr_name hf = target) hfs;
          i = (if target = ''paris'' then found - 1 else found) in
      if i < 0 then None
      else case blockOrTimestamp (hfs ! nat i) of
        None \<Rightarrow> None
      | Some current \<Rightarrow>
          (case find (\<lambda>hf. blockOrTimestamp hf \<noteq> None \<and> blockOrTimestamp hf \<noteq> Some current)
                  (drop (nat (i + 1)) hfs) of
             None \<Rightarrow> None
           | Some nextHf \<Rightarrow> (case blockOrTimestamp nextHf of None \<Rightarrow> None | Some b \<Rightarrow> Some (int b))))"

section \<open>Fork hashes\<close>

text \<open>
  \<open>n.toString(16).padStart(16, '0')\<close>, and the loop of \<open>_calcForkHash\<close> over the hardforks up to
  the one asked for: \<open>prev\<close> is the block or time added last.
\<close>

definition padStart16 :: "string \<Rightarrow> string" where
  "padStart16 s = replicate (16 - length s) (CHR ''0'') @ s"

fun forkHashBytes :: "noble \<Rightarrow> string \<Rightarrow> transition list \<Rightarrow> nat \<Rightarrow> bytes \<Rightarrow> bytes res" where
  "forkHashBytes N hardfork [] prev hfBytes = Inr hfBytes"
| "forkHashBytes N hardfork (hf # hfs) prev hfBytes =
     (case blockOrTimestamp hf of
        Some n \<Rightarrow>
          if n \<noteq> 0 \<and> n \<noteq> prev \<and> tr_name hf \<noteq> ''paris''
          then and_then (hexToBytes N (''0x'' @ padStart16 (to_hex n))) (\<lambda>hfBlockBytes.
            if tr_name hf = hardfork then Inr (hfBytes @ hfBlockBytes)
            else forkHashBytes N hardfork hfs n (hfBytes @ hfBlockBytes))
          else if tr_name hf = hardfork then Inr hfBytes
          else forkHashBytes N hardfork hfs prev hfBytes
      | None \<Rightarrow> if tr_name hf = hardfork then Inr hfBytes
          else forkHashBytes N hardfork hfs prev hfBytes)"

definition calcForkHash :: "noble \<Rightarrow> common \<Rightarrow> string \<Rightarrow> bytes \<Rightarrow> string res" where
  "calcForkHash N c hardfork genesisHash =
     and_then (forkHashBytes N hardfork (hardforks c) 0 []) (\<lambda>hfBytes.
     and_then (intToBytes N (uint (crc32 (genesisHash @ hfBytes) None))) (\<lambda>bs.
       Inr (bytesToHex N bs)))"

definition forkHash :: "noble \<Rightarrow> common \<Rightarrow> string option \<Rightarrow> bytes option \<Rightarrow> string res" where
  "forkHash N c hardfork genesisHash =
     (let hf = (case hardfork of Some h \<Rightarrow> h | None \<Rightarrow> hardforkSet c) in
      case getHardfork c hf of
        None \<Rightarrow> Inl (EthereumJSError ''No fork hash calculation possible for future hardfork'')
      | Some t \<Rightarrow>
          if tr_block t = None \<and> tr_timestamp t = None
          then Inl (EthereumJSError ''No fork hash calculation possible for future hardfork'')
          else case tr_forkHash t of
            Some h \<Rightarrow> Inr h
          | None \<Rightarrow> (case genesisHash of
              None \<Rightarrow> Inl (EthereumJSError ''genesisHash required for forkHash calculation'')
            | Some g \<Rightarrow> calcForkHash N c hf g))"

definition hardforkForForkHash :: "common \<Rightarrow> string \<Rightarrow> transition option" where
  "hardforkForForkHash c fh =
     (let resArray = filter (\<lambda>hf. tr_forkHash hf = Some fh) (hardforks c) in
      if length resArray \<ge> 1 then Some (last resArray) else None)"

text \<open>
  \<open>setForkHashes\<close> writes into the chain's own transitions (the entries \<open>hardforks()\<close> adds for
  custom hardforks have neither block nor timestamp and are skipped).
\<close>

definition setForkHashAt :: "noble \<Rightarrow> bytes \<Rightarrow> nat \<Rightarrow> unit common_op" where
  "setForkHashAt N genesisHash i =
     seqE (getE (\<lambda>c. hardforks c ! i)) (\<lambda>hf.
     whenE (tr_forkHash hf = None \<and> blockOrTimestamp hf \<noteq> None)
       (seqE (getE (\<lambda>c. forkHash N c (Some (tr_name hf)) (Some genesisHash))) (\<lambda>r.
        seqE (resE r) (\<lambda>h. updE (chainParams_update (cc_hardforks_update
          (\<lambda>hfs. hfs[i := hf\<lparr>tr_forkHash := Some h\<rparr>])))))))"

definition setForkHashes :: "noble \<Rightarrow> bytes \<Rightarrow> unit common_op" where
  "setForkHashes N genesisHash =
     seqE (getE hardforks) (\<lambda>hfs. forE [0..<length hfs] (setForkHashAt N genesisHash))"

section \<open>The consensus in force\<close>

text \<open>
  The loops of \<open>consensusType\<close>, \<open>consensusAlgorithm\<close> and \<open>consensusConfig\<close>: the last
  configuration up to the hardfork set that states a consensus.
\<close>

fun lastConsensus :: "string \<Rightarrow> (string \<times> hardfork_config option) list \<Rightarrow>
    consensus_config option \<Rightarrow> consensus_config option res" where
  "lastConsensus hardfork [] acc = Inr acc"
| "lastConsensus hardfork ((n, None) # rest) acc = Inl TypeError"
| "lastConsensus hardfork ((n, Some cfg) # rest) acc =
     (let acc' = (case hf_consensus cfg of Some cs \<Rightarrow> Some cs | None \<Rightarrow> acc) in
      if n = hardfork then Inr acc' else lastConsensus hardfork rest acc')"

definition consensusType :: "common \<Rightarrow> string res" where
  "consensusType c = and_then (lastConsensus (hardforkSet c) (hardforkChanges c) None) (\<lambda>v.
     Inr (case v of Some cs \<Rightarrow> cs_type cs | None \<Rightarrow> cs_type (cc_consensus (chainParams c))))"

definition consensusAlgorithm :: "common \<Rightarrow> string res" where
  "consensusAlgorithm c = and_then (lastConsensus (hardforkSet c) (hardforkChanges c) None) (\<lambda>v.
     Inr (case v of Some cs \<Rightarrow> cs_algorithm cs | None \<Rightarrow> cs_algorithm (cc_consensus (chainParams c))))"

definition consensusConfig :: "common \<Rightarrow> (string \<times> int) list res" where
  "consensusConfig c =
     and_then (lastConsensus (hardforkSet c) (hardforkChanges c) None) (\<lambda>v.
     and_then (consensusAlgorithm c) (\<lambda>algorithm.
       Inr (case (case v of Some cs \<Rightarrow> map_of (cs_config cs) (cs_algorithm cs) | None \<Rightarrow> None) of
          Some cfg \<Rightarrow> cfg
        | None \<Rightarrow> (case map_of (cs_config (cc_consensus (chainParams c))) algorithm of
            Some cfg \<Rightarrow> cfg | None \<Rightarrow> []))))"

section \<open>The caches always match\<close>

definition caches_ok :: "common \<Rightarrow> bool" where
  "caches_ok c \<longleftrightarrow> builtParams c = (Inr (), paramsCache c) \<and> builtEIPs c = (Inr (), activatedEIPsCache c)"

definition configured :: "common \<Rightarrow> bool" where
  "configured c \<longleftrightarrow> list_all (\<lambda>(n, cfg). cfg \<noteq> None) (hardforkChanges c)"

lemma gteHardfork_cong:
  "map tr_name (hardforks c) = map tr_name (hardforks d) \<Longrightarrow> hardforkSet c = hardforkSet d \<Longrightarrow>
    gteHardfork c = gteHardfork d"
  by (simp add: fun_eq_iff gteHardfork_def hardforkGteHardfork_def Let_def)

lemma activatedHardforkEIPs_cong: "gteHardfork c = gteHardfork d \<Longrightarrow>
  activatedHardforkEIPs c xs acc = activatedHardforkEIPs d xs acc"
  by (induction c xs acc rule: activatedHardforkEIPs.induct) (auto split: option.splits)

lemma built_cong:
  assumes "map tr_name (hardforks c) = map tr_name (hardforks d)" "hardforkSet c = hardforkSet d"
    "hardforkChanges c = hardforkChanges d" "eipsSet c = eipsSet d"
  shows "builtEIPs c = builtEIPs d"
    and "paramsDict c = paramsDict d \<Longrightarrow> builtParams c = builtParams d"
  using assms activatedHardforkEIPs_cong [OF gteHardfork_cong [OF assms(1, 2)]]
  by (simp_all only: builtEIPs_def builtParams_def)

lemma mergeHardforks_ok: "list_all (\<lambda>(n, cfg). cfg \<noteq> None) xs \<Longrightarrow>
  fst (mergeHardforks ps h xs cache) = Inr ()"
  by (induction ps h xs cache rule: mergeHardforks.induct) (auto simp: Let_def)

lemma activatedHardforkEIPs_ok: "list_all (\<lambda>(n, cfg). cfg \<noteq> None) xs \<Longrightarrow>
  fst (activatedHardforkEIPs c xs acc) = Inr ()"
  by (induction c xs acc rule: activatedHardforkEIPs.induct) auto

lemma built_ok:
  assumes "configured c"
  shows "fst (builtParams c) = Inr ()" and "fst (builtEIPs c) = Inr ()"
  using mergeHardforks_ok [of "hardforkChanges c" "paramsDict c" "hardforkSet c" "[]"]
    activatedHardforkEIPs_ok [of "hardforkChanges c" c "[]"] assms
  by (auto simp: builtParams_def builtEIPs_def configured_def split: prod.splits sum.splits)

lemma buildParamsCache_run: "configured c \<Longrightarrow>
  buildParamsCache c = (Inr (), c\<lparr>paramsCache := snd (builtParams c)\<rparr>)"
  using built_ok(1) [of c] by (cases "builtParams c") (simp add: buildParamsCache_def)

lemma buildActivatedEIPsCache_run: "configured c \<Longrightarrow>
  buildActivatedEIPsCache c = (Inr (), c\<lparr>activatedEIPsCache := snd (builtEIPs c)\<rparr>)"
  using built_ok(2) [of c] by (cases "builtEIPs c") (simp add: buildActivatedEIPsCache_def)

lemma configured_upd [simp]:
  "configured (c\<lparr>paramsCache := x\<rparr>) = configured c"
  "configured (c\<lparr>activatedEIPsCache := y\<rparr>) = configured c"
  "configured (c\<lparr>hardforkSet := h\<rparr>) = configured c"
  "configured (c\<lparr>eipsSet := es\<rparr>) = configured c"
  "configured (c\<lparr>paramsDict := ps\<rparr>) = configured c"
  "configured (c\<lparr>emitted := ev\<rparr>) = configured c"
  "configured (c\<lparr>chainParams := cp\<rparr>) = configured c"
  by (simp_all add: configured_def)

lemma hardforks_upd [simp]:
  "hardforks (c\<lparr>paramsCache := x\<rparr>) = hardforks c"
  "hardforks (c\<lparr>activatedEIPsCache := y\<rparr>) = hardforks c"
  "hardforks (c\<lparr>emitted := ev\<rparr>) = hardforks c"
  "hardforks (c\<lparr>paramsDict := ps\<rparr>) = hardforks c"
  by (simp_all add: hardforks_def)

lemma built_upd [simp]:
  "builtParams (c\<lparr>paramsCache := x\<rparr>) = builtParams c"
  "builtParams (c\<lparr>activatedEIPsCache := y\<rparr>) = builtParams c"
  "builtParams (c\<lparr>emitted := ev\<rparr>) = builtParams c"
  "builtEIPs (c\<lparr>paramsCache := x\<rparr>) = builtEIPs c"
  "builtEIPs (c\<lparr>activatedEIPsCache := y\<rparr>) = builtEIPs c"
  "builtEIPs (c\<lparr>emitted := ev\<rparr>) = builtEIPs c"
  "builtEIPs (c\<lparr>paramsDict := ps\<rparr>) = builtEIPs c"
  by (rule built_cong; simp)+

definition rebuilt :: "common \<Rightarrow> common" where
  "rebuilt c = c\<lparr>paramsCache := snd (builtParams c), activatedEIPsCache := snd (builtEIPs c)\<rparr>"

lemma rebuild_run: "configured c \<Longrightarrow>
  seqE buildParamsCache (\<lambda>_. seqE buildActivatedEIPsCache f) c = f () (rebuilt c)"
  by (simp add: buildParamsCache_run buildActivatedEIPsCache_run rebuilt_def)

lemma rebuilt_ok: "configured c \<Longrightarrow> configured (rebuilt c) \<and> caches_ok (rebuilt c)"
  using built_ok [of c] by (simp add: rebuilt_def caches_ok_def prod_eq_iff)

definition common_inv :: "common \<Rightarrow> bool" where
  "common_inv c \<longleftrightarrow> configured c \<and> caches_ok c"

lemma common_inv_emitted [simp]: "common_inv (emitted_update f c) = common_inv c"
proof -
  have "emitted_update f c = c\<lparr>emitted := f (emitted c)\<rparr>" by simp
  then show ?thesis by (simp only: common_inv_def caches_ok_def configured_upd built_upd) simp
qed

lemma keeps_rebuild:
  assumes "\<And>s. configured (f s) = configured s" and "keeps common_inv (k ())"
  shows "keeps common_inv (seqE (updE f) (\<lambda>_. seqE buildParamsCache (\<lambda>_. seqE buildActivatedEIPsCache k)))"
proof (rule keepsI)
  fix s assume "common_inv s"
  then have "configured (f s)" by (simp add: assms common_inv_def)
  then have "common_inv (rebuilt (f s))" and
    "seqE (updE f) (\<lambda>_. seqE buildParamsCache (\<lambda>_. seqE buildActivatedEIPsCache k)) s = k () (rebuilt (f s))"
    by (simp_all add: common_inv_def rebuilt_ok rebuild_run)
  then show "common_inv (snd (seqE (updE f) (\<lambda>_. seqE buildParamsCache
      (\<lambda>_. seqE buildActivatedEIPsCache k)) s))"
    using keepsD [OF assms(2)] by simp
qed

lemma setHardfork_keeps: "keeps common_inv (setHardfork h)"
  unfolding setHardfork_def
  by (auto intro!: keeps_seqE [OF keeps_pure(3)] keeps_seqE keeps_forE keeps_whenE keeps_rebuild)

lemma setEIPs_keeps: "keeps common_inv (setEIPs eips)"
  unfolding setEIPs_def
  by (rule keeps_seqE [OF keeps_pure(3)] keeps_seqE [OF keeps_pure(4)] keeps_rebuild keeps_pure | simp)+

lemma keeps_rebuild_params:
  "keeps common_inv (seqE (updE (paramsDict_update f)) (\<lambda>_. buildParamsCache))"
proof (rule keepsI)
  fix s assume s: "common_inv s"
  let ?s = "paramsDict_update f s"
  have "?s = s\<lparr>paramsDict := f (paramsDict s)\<rparr>" by simp
  then have "configured ?s" "builtEIPs ?s = builtEIPs s"
    using s by (simp_all only: configured_upd built_upd common_inv_def)
  then show "common_inv (snd (seqE (updE (paramsDict_update f)) (\<lambda>_. buildParamsCache) s))"
    using s built_ok(1) [of ?s]
    by (simp add: buildParamsCache_run common_inv_def caches_ok_def prod_eq_iff)
qed

lemma updateParams_keeps: "keeps common_inv (updateParams ps)"
  unfolding updateParams_def by (rule keeps_rebuild_params)

lemma resetParams_keeps: "keeps common_inv (resetParams ps)"
  unfolding resetParams_def by (rule keeps_rebuild_params)

lemma setHardforkBy_keeps: "keeps common_inv (setHardforkBy n t)"
  unfolding setHardforkBy_def
  by (auto intro!: keeps_seqE [OF keeps_pure(3)] keeps_seqE [OF keeps_pure(4)] keeps_seqE setHardfork_keeps)

text \<open>The calls a client can make, and running a sequence of them; thrown errors are caught.\<close>

datatype common_call =
    SetHardfork string
  | SetHardforkBy "int option" "int option"
  | SetEIPs "nat list"
  | UpdateParams params_dict
  | ResetParams params_dict

fun common_run :: "common_call \<Rightarrow> common \<Rightarrow> common" where
  "common_run (SetHardfork h) c = snd (setHardfork h c)"
| "common_run (SetHardforkBy n t) c = snd (setHardforkBy n t c)"
| "common_run (SetEIPs es) c = snd (setEIPs es c)"
| "common_run (UpdateParams ps) c = snd (updateParams ps c)"
| "common_run (ResetParams ps) c = snd (resetParams ps c)"

lemma common_run_inv: "common_inv c \<Longrightarrow> common_inv (common_run call c)"
  by (cases call) (auto intro: keepsD setHardfork_keeps setHardforkBy_keeps setEIPs_keeps
      updateParams_keeps resetParams_keeps)

lemma common_runs_inv: "common_inv c \<Longrightarrow> common_inv (foldl (\<lambda>c call. common_run call c) c calls)"
  by (induction calls arbitrary: c) (auto simp: common_run_inv)

section \<open>Hardfork selection\<close>

lemma sorted_le_split:
  "sorted (map f xs) \<Longrightarrow> filter (\<lambda>x. int (f x) \<le> n) xs = takeWhile (\<lambda>x. int (f x) \<le> n) xs"
proof (induction xs)
  case (Cons a xs)
  show ?case
  proof (cases "int (f a) \<le> n")
    case False
    then have "\<forall>x \<in> set xs. \<not> int (f x) \<le> n" using Cons.prems by auto
    then show ?thesis using False by (simp add: filter_empty_conv)
  qed (use Cons in simp)
qed simp

lemma js_findIndex_split:
  assumes "\<forall>x \<in> set xs. \<not> p x" and "ys = [] \<or> p (hd ys)"
  shows "js_findIndex p (xs @ ys) = (if ys = [] then - 1 else int (length xs))"
proof -
  have "takeWhile (\<lambda>x. \<not> p x) (xs @ ys) = xs @ takeWhile (\<lambda>x. \<not> p x) ys"
    using assms(1) by (simp add: takeWhile_append)
  moreover have "takeWhile (\<lambda>x. \<not> p x) ys = []" using assms(2) by (cases ys) auto
  ultimately show ?thesis by (simp add: js_findIndex_def Let_def)
qed

lemma js_findIndex_none: "\<forall>x \<in> set xs. \<not> p x \<Longrightarrow> js_findIndex p xs = - 1"
  using js_findIndex_split [of xs p "[]"] by simp

lemma advanceHf_stop:
  assumes "hfs = xs @ [h] @ ys"
    and "ys = [] \<or> tr_block h \<noteq> tr_block (hd ys) \<or> tr_timestamp h \<noteq> tr_timestamp (hd ys)"
  shows "advanceHf hfs (int (length xs)) = Inr (int (length xs))"
proof -
  have "atIndex hfs (int (length xs)) = Some h"
    using assms(1) by (simp add: atIndex_def nth_append)
  moreover have "ys \<noteq> [] \<Longrightarrow> atIndex hfs (int (length xs) + 1) = Some (hd ys)"
    using assms(1) by (cases ys) (simp_all add: atIndex_def nth_append nat_add_distrib)
  ultimately show ?thesis
    using assms by (cases ys) (auto simp: advanceHf.simps [of "xs @ h # _"])
qed

lemma atIndex_middle: "atIndex (xs @ [h] @ ys) (int (length xs)) = Some h"
  by (simp add: atIndex_def nth_append)

text \<open>A schedule: hardforks by block in order, then hardforks by timestamp in order.\<close>

definition schedule :: "common \<Rightarrow> transition list \<Rightarrow> transition list \<Rightarrow> bool" where
  "schedule c bs ts \<longleftrightarrow>
     applied_hardforks c = bs @ ts \<and> bs \<noteq> [] \<and>
     list_all (\<lambda>hf. tr_block hf \<noteq> None \<and> tr_timestamp hf = None) bs \<and>
     list_all (\<lambda>hf. tr_block hf = None \<and> tr_timestamp hf \<noteq> None) ts \<and>
     sorted (map (\<lambda>hf. the (tr_block hf)) bs) \<and> sorted (map (\<lambda>hf. the (tr_timestamp hf)) ts)"

definition active_blocks :: "int \<Rightarrow> transition list \<Rightarrow> transition list" where
  "active_blocks n bs = filter (\<lambda>hf. int (the (tr_block hf)) \<le> n) bs"

definition active_times :: "int \<Rightarrow> transition list \<Rightarrow> transition list" where
  "active_times t ts = filter (\<lambda>hf. int (the (tr_timestamp hf)) \<le> t) ts"

lemma getHardforkBy_block:
  assumes "schedule c bs ts" and "int (the (tr_block (hd bs))) \<le> n"
  shows "getHardforkBy c (Some n) None = Inr (tr_name (last (active_blocks n bs)))"
proof -
  let ?le = "\<lambda>hf. int (the (tr_block hf)) \<le> n"
  define b1 where "b1 = takeWhile ?le bs"
  define b2 where "b2 = dropWhile ?le bs"
  have bs: "bs = b1 @ b2" by (simp add: b1_def b2_def)
  have act: "active_blocks n bs = b1"
    using assms(1) sorted_le_split [of "\<lambda>hf. the (tr_block hf)" bs n]
    by (simp add: active_blocks_def schedule_def b1_def)
  have "b1 \<noteq> []" using assms by (cases bs) (auto simp: b1_def schedule_def)
  then obtain xs h where b1: "b1 = xs @ [h]" by (metis rev_exhaust)
  have hle: "\<forall>x \<in> set b1. ?le x" by (auto simp: b1_def dest: set_takeWhileD)
  have b2: "b2 = [] \<or> \<not> ?le (hd b2)" using hd_dropWhile [of ?le bs] by (auto simp: b2_def)
  have blk: "\<forall>x \<in> set bs. tr_block x \<noteq> None \<and> tr_timestamp x = None"
    and tms: "\<forall>x \<in> set ts. tr_block x = None \<and> tr_timestamp x \<noteq> None"
    and hfs: "applied_hardforks c = b1 @ b2 @ ts"
    using assms(1) bs by (auto simp: schedule_def list_all_iff)
  let ?p = "after (Some n) None"
  have no: "\<forall>x \<in> set b1. \<not> ?p x" "\<forall>x \<in> set ts. \<not> ?p x"
    using hle tms by (auto simp: after_def split: option.splits)
  have yes: "b2 \<noteq> [] \<Longrightarrow> ?p (hd (b2 @ ts))"
    using b2 blk bs by (cases b2) (auto simp: after_def)
  have found: "js_findIndex ?p (applied_hardforks c) = (if b2 = [] then - 1 else int (length b1))"
    using js_findIndex_split [of b1 ?p "b2 @ ts"] js_findIndex_none [of "b1 @ ts" ?p] no yes hfs
    by (cases "b2 = []") auto
  have step_back: "js_findIndex (\<lambda>hf. tr_block hf \<noteq> None) (rev (b1 @ zs)) = int (length zs)"
    if "\<forall>x \<in> set zs. tr_block x = None" for zs
    using js_findIndex_split [of "rev zs" "\<lambda>hf. tr_block hf \<noteq> None" "rev b1"] that blk bs b1 by auto
  have adv: "advanceHf (applied_hardforks c) (int (length xs)) = Inr (int (length xs))"
  proof (rule advanceHf_stop)
    show "applied_hardforks c = xs @ [h] @ (b2 @ ts)" using hfs b1 by simp
    have "tr_block h \<noteq> tr_block (hd (b2 @ ts))" if "b2 @ ts \<noteq> []"
      using that b2 hle blk tms bs b1 by (cases b2; cases ts) auto
    then show "b2 @ ts = [] \<or> tr_block h \<noteq> tr_block (hd (b2 @ ts)) \<or>
        tr_timestamp h \<noteq> tr_timestamp (hd (b2 @ ts))" by blast
  qed
  have at_h: "atIndex (applied_hardforks c) (int (length xs)) = Some h"
    using hfs b1 atIndex_middle [of xs h "b2 @ ts"] by simp
  show ?thesis
  proof (cases "b2 = []")
    case True
    have "js_findIndex (\<lambda>hf. tr_block hf \<noteq> None) (rev (take (nat (int (length (applied_hardforks c)))) (applied_hardforks c))) = int (length ts)"
      using step_back [of ts] tms hfs True by simp
    then show ?thesis using found True act b1 at_h adv hfs
      by (simp add: getHardforkBy_def Let_def)
  next
    case False
    then have "js_findIndex (\<lambda>hf. tr_block hf \<noteq> None) (rev (take (nat (int (length b1))) (applied_hardforks c))) = 0"
      using step_back [of "[]"] hfs by simp
    then show ?thesis using found False act b1 at_h adv
      by (simp add: getHardforkBy_def Let_def)
  qed
qed

lemma foldl_max_le: "(\<forall>x \<in> set xs. f x \<le> (t :: int)) \<Longrightarrow> a \<le> t \<Longrightarrow> foldl (\<lambda>acc x. max (f x) acc) a xs \<le> t"
  by (induction xs arbitrary: a) auto

lemma foldl_min_ge: "(\<forall>x \<in> set xs. t \<le> (f x :: int)) \<Longrightarrow> t \<le> a \<Longrightarrow> t \<le> foldl (\<lambda>acc x. min (f x) acc) a xs"
  by (induction xs arbitrary: a) auto

lemma getHardforkBy_time:
  assumes "schedule c bs ts" and "\<forall>hf \<in> set bs. int (the (tr_block hf)) \<le> n" and "0 \<le> t"
  shows "getHardforkBy c (Some n) (Some t) = Inr (tr_name (last (bs @ active_times t ts)))"
proof -
  let ?le = "\<lambda>hf. int (the (tr_timestamp hf)) \<le> t"
  let ?hfs = "applied_hardforks c"
  define t1 where "t1 = takeWhile ?le ts"
  define t2 where "t2 = dropWhile ?le ts"
  have ts: "ts = t1 @ t2" by (simp add: t1_def t2_def)
  have act: "active_times t ts = t1"
    using assms(1) sorted_le_split [of "\<lambda>hf. the (tr_timestamp hf)" ts t]
    by (simp add: active_times_def schedule_def t1_def)
  have "bs @ t1 \<noteq> []" using assms by (auto simp: schedule_def)
  then obtain xs h where b1: "bs @ t1 = xs @ [h]" by (metis rev_exhaust)
  have tle: "\<forall>x \<in> set t1. ?le x" by (auto simp: t1_def dest: set_takeWhileD)
  have blk: "\<forall>x \<in> set bs. tr_block x \<noteq> None \<and> tr_timestamp x = None"
    and tms: "\<forall>x \<in> set ts. tr_block x = None \<and> tr_timestamp x \<noteq> None"
    and hfs: "?hfs = (bs @ t1) @ t2"
    using assms(1) ts by (auto simp: schedule_def list_all_iff)
  have t2: "\<forall>x \<in> set t2. \<not> ?le x"
  proof -
    have "filter ?le ts = t1" using act by (simp add: active_times_def)
    moreover have "filter ?le ts = filter ?le t1 @ filter ?le t2" by (simp only: ts filter_append)
    moreover have "filter ?le t1 = t1" using tle by (simp add: filter_id_conv)
    ultimately have "filter ?le t2 = []" by simp
    then show ?thesis by (simp add: filter_empty_conv)
  qed
  let ?p = "after (Some n) (Some t)"
  have no: "\<forall>x \<in> set (bs @ t1). \<not> ?p x"
    using assms(2) blk tle tms ts by (auto simp: after_def split: option.splits)
  have yes: "t2 = [] \<or> ?p (hd t2)"
    using t2 tms ts by (cases t2) (auto simp: after_def split: option.splits)
  have found: "js_findIndex ?p ?hfs = (if t2 = [] then - 1 else int (length (bs @ t1)))"
    using js_findIndex_split [OF no yes] hfs by simp
  have hle: "tr_timestamp h = None \<or> ?le h"
  proof -
    have "h \<in> set (bs @ t1)" using b1 by simp
    then show ?thesis using blk tle by auto
  qed
  have adv: "advanceHf ?hfs (int (length xs)) = Inr (int (length xs))"
  proof (rule advanceHf_stop)
    show "?hfs = xs @ [h] @ t2" using hfs b1 by simp
    show "t2 = [] \<or> tr_block h \<noteq> tr_block (hd t2) \<or> tr_timestamp h \<noteq> tr_timestamp (hd t2)"
      using hle t2 tms ts by (cases t2) auto
  qed
  have at_h: "atIndex ?hfs (int (length xs)) = Some h"
    using hfs b1 atIndex_middle [of xs h t2] by simp
  have len: "int (length (bs @ t1)) - 1 = int (length xs)" using b1 by simp
  have pre: "take (length xs) ?hfs = xs" and post: "drop (Suc (length xs)) ?hfs = t2"
    using hfs b1 by simp_all
  have "\<forall>x \<in> set xs. (case tr_timestamp x of Some ts \<Rightarrow> int ts | None \<Rightarrow> 0) \<le> t"
  proof
    fix x assume "x \<in> set xs"
    then have "x \<in> set (bs @ t1)" using b1 by simp
    then show "(case tr_timestamp x of Some ts \<Rightarrow> int ts | None \<Rightarrow> 0) \<le> t"
      using blk tle tms ts assms(3) by (fastforce split: option.splits)
  qed
  then have mn: "foldl (\<lambda>acc hf. max (case tr_timestamp hf of Some ts \<Rightarrow> int ts | None \<Rightarrow> 0) acc) 0 xs \<le> t"
    using assms(3) by (rule foldl_max_le)
  have "\<forall>x \<in> set t2. t \<le> (case tr_timestamp x of Some ts \<Rightarrow> int ts | None \<Rightarrow> t)"
    using t2 by (fastforce split: option.splits)
  then have mx: "t \<le> foldl (\<lambda>acc hf. min (case tr_timestamp hf of Some ts \<Rightarrow> int ts | None \<Rightarrow> t) acc) t t2"
    by (rule foldl_min_ge) simp
  have idx: "(if js_findIndex ?p ?hfs = - 1 then int (length ?hfs) else js_findIndex ?p ?hfs) - 1
      = int (length xs)" and nz: "js_findIndex ?p ?hfs \<noteq> 0"
    using found len hfs \<open>bs @ t1 \<noteq> []\<close> by auto
  have last: "last (bs @ t1) = h" using b1 by simp
  show ?thesis
    unfolding getHardforkBy_def Let_def act last
    using nz by (simp add: idx adv at_h pre post mn mx nat_add_distrib not_less)
qed

lemma getHardforkBy_before:
  assumes "schedule c bs ts" and "n < int (the (tr_block (hd bs)))"
  shows "\<exists>e. getHardforkBy c (Some n) t = Inl e"
proof -
  obtain h hs where bs: "bs = h # hs" using assms(1) by (cases bs) (auto simp: schedule_def)
  then have "after (Some n) t h" using assms by (auto simp: schedule_def after_def)
  then have "js_findIndex (after (Some n) t) (applied_hardforks c) = 0"
    using js_findIndex_split [of "[]" "after (Some n) t" "applied_hardforks c"] assms(1) bs
    by (simp add: schedule_def)
  then show ?thesis by (simp add: getHardforkBy_def Let_def)
qed

text \<open>
  C27. Hardfork selection: on a schedule of hardforks by block followed by hardforks by time, a
  block number alone selects the last hardfork by block that is not later; a block past all of
  them together with a time selects the last hardfork not later than either; a block before
  the first hardfork is an error.
\<close>

theorem getHardforkBy_spec:
  assumes "schedule c bs ts"
  shows "(int (the (tr_block (hd bs))) \<le> n \<longrightarrow>
      getHardforkBy c (Some n) None = Inr (tr_name (last (active_blocks n bs)))) \<and>
    ((\<forall>hf \<in> set bs. int (the (tr_block hf)) \<le> n) \<and> 0 \<le> t \<longrightarrow>
      getHardforkBy c (Some n) (Some t) = Inr (tr_name (last (bs @ active_times t ts)))) \<and>
    (n < int (the (tr_block (hd bs))) \<longrightarrow> (\<exists>e. getHardforkBy c (Some n) None = Inl e))"
  using getHardforkBy_block [OF assms] getHardforkBy_time [OF assms] getHardforkBy_before [OF assms]
  by blast

text \<open>The hardforks of mainnet are such a schedule: fifteen by block, six by time.\<close>

definition mainnet_blocks :: "transition list" where
  "mainnet_blocks = take 15 mainnet_hardforks"

definition mainnet_times :: "transition list" where
  "mainnet_times = take 6 (drop 16 mainnet_hardforks)"

lemma mainnet_schedule: "chainParams c = Mainnet \<Longrightarrow> schedule c mainnet_blocks mainnet_times"
  by (simp add: schedule_def applied_hardforks_def hardforks_def hardforks_of_def Mainnet_def
      mainnet_blocks_def mainnet_times_def mainnet_hardforks_def)

text \<open>An instance on mainnet, before any hardfork is set.\<close>

definition mainnet_common :: common where
  "mainnet_common = \<lparr>chainParams = Mainnet, hardforkSet = ''prague'', eipsSet = [], paramsDict = [],
     paramsCache = [], activatedEIPsCache = [], hardforkChanges = initial_changes Mainnet, emitted = []\<rparr>"

theorem getHardforkBy_spec_witness:
  "schedule mainnet_common mainnet_blocks mainnet_times \<and>
   getHardforkBy mainnet_common (Some 13000000) None = Inr ''london'' \<and>
   getHardforkBy mainnet_common (Some 20000000) (Some 1720000000) = Inr ''cancun''"
proof -
  have sch: "schedule mainnet_common mainnet_blocks mainnet_times"
    by (rule mainnet_schedule) (simp add: mainnet_common_def)
  have a: "tr_name (last (active_blocks 13000000 mainnet_blocks)) = ''london''"
    "tr_name (last (mainnet_blocks @ active_times 1720000000 mainnet_times)) = ''cancun''"
    "int (the (tr_block (hd mainnet_blocks))) \<le> 13000000"
    "\<forall>hf \<in> set mainnet_blocks. int (the (tr_block hf)) \<le> 20000000"
    by (simp_all add: active_blocks_def active_times_def mainnet_blocks_def mainnet_times_def
        mainnet_hardforks_def)
  show ?thesis
    using getHardforkBy_spec [OF sch, of 13000000 0] getHardforkBy_spec [OF sch, of 20000000 1720000000]
      a sch by simp
qed

section \<open>The constructor, and every later state\<close>

text \<open>Before the constructor's last statement the caches may still be unbuilt.\<close>

definition common_pre :: "common \<Rightarrow> bool" where
  "common_pre c \<longleftrightarrow> configured c \<and> (paramsCache c = [] \<or> caches_ok c)"

lemma keeps_rebuild_pre:
  assumes "\<And>s. configured (f s) = configured s" and "keeps common_pre (k ())"
  shows "keeps common_pre (seqE (updE f) (\<lambda>_. seqE buildParamsCache (\<lambda>_. seqE buildActivatedEIPsCache k)))"
proof (rule keepsI)
  fix s assume "common_pre s"
  then have "configured (f s)" by (simp add: assms common_pre_def)
  then have "common_pre (rebuilt (f s))" and
    "seqE (updE f) (\<lambda>_. seqE buildParamsCache (\<lambda>_. seqE buildActivatedEIPsCache k)) s = k () (rebuilt (f s))"
    by (simp_all add: common_pre_def rebuilt_ok rebuild_run)
  then show "common_pre (snd (seqE (updE f) (\<lambda>_. seqE buildParamsCache
      (\<lambda>_. seqE buildActivatedEIPsCache k)) s))"
    using keepsD [OF assms(2)] by simp
qed

lemma common_pre_emitted [simp]: "common_pre (emitted_update f c) = common_pre c"
proof -
  have "emitted_update f c = c\<lparr>emitted := f (emitted c)\<rparr>" by simp
  then show ?thesis by (simp only: common_pre_def caches_ok_def configured_upd built_upd) simp
qed

lemma setHardfork_keeps_pre: "keeps common_pre (setHardfork h)"
  unfolding setHardfork_def
  by (auto intro!: keeps_seqE [OF keeps_pure(3)] keeps_seqE keeps_forE keeps_whenE keeps_rebuild_pre)

lemma setEIPs_keeps_pre: "keeps common_pre (setEIPs eips)"
  unfolding setEIPs_def
  by (rule keeps_seqE [OF keeps_pure(3)] keeps_seqE [OF keeps_pure(4)] keeps_rebuild_pre keeps_pure | simp)+

definition chain_configured :: "chain_config \<Rightarrow> bool" where
  "chain_configured chain \<longleftrightarrow> list_all (\<lambda>(n, cfg). cfg \<noteq> None) (initial_changes chain)"

lemma newCommon_inv:
  assumes "newCommon chain params hardfork eips = Inr c" and "chain_configured chain"
  shows "common_inv c"
proof -
  define c0 where "c0 = \<lparr>chainParams = chain,
            hardforkSet = (case cc_defaultHardfork chain of Some h \<Rightarrow> h | None \<Rightarrow> ''prague''),
            eipsSet = [], paramsDict = (case params of Some p \<Rightarrow> p | None \<Rightarrow> []),
            paramsCache = [], activatedEIPsCache = [],
            hardforkChanges = initial_changes chain, emitted = []\<rparr>"
  define m where "m = (case hardfork of Some h \<Rightarrow> setHardfork h | None \<Rightarrow> ret ())"
  define n where "n = (case eips of Some es \<Rightarrow> setEIPs es | None \<Rightarrow> ret ())"
  have pre0: "common_pre c0"
    using assms(2) by (simp add: c0_def common_pre_def configured_def chain_configured_def)
  have km: "keeps common_pre m" and kn: "keeps common_pre n"
    by (auto simp: m_def n_def setHardfork_keeps_pre setEIPs_keeps_pre split: option.splits)
  from assms(1) have run: "seqE m (\<lambda>_. seqE n (\<lambda>_. seqE (getE paramsCache) (\<lambda>cache. whenE (cache = [])
      (seqE buildParamsCache (\<lambda>_. buildActivatedEIPsCache))))) c0 = (Inr (), c)"
    unfolding newCommon_def c0_def m_def n_def Let_def
    by (auto split: prod.splits simp: res_simps)
  obtain u c1 where c1: "m c0 = (Inr u, c1)"
    using run by (cases "m c0"; cases "fst (m c0)") auto
  obtain v c2 where c2: "n c1 = (Inr v, c2)"
    using run c1 by (cases "n c1"; cases "fst (n c1)") auto
  have "common_pre c2" using keepsD [OF km pre0] keepsD [OF kn, of c1] c1 c2 by simp
  moreover have "buildActivatedEIPsCache = seqE buildActivatedEIPsCache (\<lambda>u. ret u)"
    by (auto simp: seqE_def fun_eq_iff split: prod.splits sum.splits)
  then have "c = (if paramsCache c2 = [] then rebuilt c2 else c2)"
    using run c1 c2 \<open>common_pre c2\<close>
    by (auto simp: whenE_run common_pre_def buildParamsCache_run buildActivatedEIPsCache_run
        rebuilt_def split: if_splits)
  ultimately show ?thesis
    by (auto simp: common_inv_def common_pre_def rebuilt_ok split: if_splits)
qed

text \<open>The EIPs a hardfork brings.\<close>

definition hardforkEIPs :: "hardfork_config option \<Rightarrow> nat list" where
  "hardforkEIPs cfg = (case cfg of Some f \<Rightarrow> (case hf_eips f of Some l \<Rightarrow> l | None \<Rightarrow> []) | None \<Rightarrow> [])"

lemma activated_set: "activatedHardforkEIPs c xs acc = (Inr (), es) \<Longrightarrow>
  set es = set acc \<union> {e. \<exists>x \<in> set xs. gteHardfork c (fst x) \<and> e \<in> set (hardforkEIPs (snd x))}"
proof (induction c xs acc rule: activatedHardforkEIPs.induct)
  case (2 c n hf rest acc)
  show ?case
  proof (cases "gteHardfork c n")
    case True
    then obtain f where f: "hf = Some f" using "2.prems" by (cases hf) auto
    then have "acc @ (case hf_eips f of Some l \<Rightarrow> l | None \<Rightarrow> []) = acc @ hardforkEIPs hf"
      by (simp add: hardforkEIPs_def)
    then have "set es = set (acc @ hardforkEIPs hf) \<union>
        {e. \<exists>x \<in> set rest. gteHardfork c (fst x) \<and> e \<in> set (hardforkEIPs (snd x))}"
      using "2.IH"(1) [OF True f] "2.prems" True f by simp
    then show ?thesis using True by auto
  next
    case False
    then show ?thesis using "2.IH"(2) "2.prems" by auto
  qed
qed simp

lemma builtEIPs_set: "builtEIPs c = (Inr (), es) \<Longrightarrow>
  set es = set (eipsSet c) \<union>
    {e. \<exists>x \<in> set (hardforkChanges c). gteHardfork c (fst x) \<and> e \<in> set (hardforkEIPs (snd x))}"
  using activated_set [of c "hardforkChanges c" "[]"]
  by (auto simp: builtEIPs_def split: prod.splits sum.splits)

text \<open>
  C28. Whatever calls a client makes after constructing an instance, thrown errors included, both
  caches are what a fresh rebuild from the current hardfork, EIPs and parameters gives, and an
  EIP counts as activated exactly when it was set or belongs to a hardfork not later than the
  one set.
\<close>

theorem caches_always_current:
  assumes "newCommon chain params hardfork eips = Inr c0" and "chain_configured chain"
    and "c = foldl (\<lambda>c call. common_run call c) c0 calls"
  shows "builtParams c = (Inr (), paramsCache c) \<and>
    (isActivatedEIP c e \<longleftrightarrow> e \<in> set (eipsSet c) \<or>
      (\<exists>x \<in> set (hardforkChanges c). gteHardfork c (fst x) \<and> e \<in> set (hardforkEIPs (snd x))))"
proof -
  have "common_inv c"
    using common_runs_inv [OF newCommon_inv [OF assms(1, 2)]] assms(3) by simp
  then show ?thesis
    using builtEIPs_set [of c "activatedEIPsCache c"]
    by (simp add: common_inv_def caches_ok_def isActivatedEIP_def)
qed

text \<open>A small chain: two hardforks, the second activating EIP 2929.\<close>

definition small_chain :: chain_config where
  "small_chain = \<lparr>cc_name = ''small'', cc_chainId = 7, cc_defaultHardfork = Some ''chainstart'',
     cc_consensus = \<lparr>cs_type = ''pow'', cs_algorithm = ''ethash'', cs_config = []\<rparr>,
     cc_hardforks = [
       \<lparr>tr_name = ''chainstart'', tr_block = Some 0, tr_timestamp = None, tr_forkHash = None\<rparr>,
       \<lparr>tr_name = ''berlin'', tr_block = Some 10, tr_timestamp = None, tr_forkHash = None\<rparr>],
     cc_customHardforks = None\<rparr>"

lemma small_changes: "initial_changes small_chain =
  [(''chainstart'', Some (eips_only [1])), (''berlin'', Some (eips_only [2565, 2929, 2718, 2930]))]"
  by (simp add: initial_changes_def small_chain_def hardforks_of_def hardforksDict_def)

definition small_common :: common where
  "small_common = \<lparr>chainParams = small_chain, hardforkSet = ''chainstart'', eipsSet = [], paramsDict = [],
     paramsCache = [], activatedEIPsCache = [1], hardforkChanges = initial_changes small_chain, emitted = []\<rparr>"

lemma newCommon_small: "newCommon small_chain None None None = Inr small_common"
  unfolding newCommon_def small_common_def small_changes
  by (simp add: small_chain_def whenE_run seqE_run
      buildParamsCache_def builtParams_def buildActivatedEIPsCache_def builtEIPs_def eips_only_def
      merge_key_def gteHardfork_def hardforkGteHardfork_def hardforks_def hardforks_of_def)

theorem caches_always_current_witness:
  "newCommon small_chain None None None = Inr small_common \<and> chain_configured small_chain \<and>
   isActivatedEIP (common_run (SetHardfork ''berlin'') small_common) 2929"
proof -
  let ?c = "common_run (SetHardfork ''berlin'') small_common"
  have ok: "chain_configured small_chain" by (simp add: chain_configured_def small_changes)
  have "hardforkChanges ?c = initial_changes small_chain" "gteHardfork ?c ''berlin''"
    unfolding small_common_def small_changes
    by (simp_all add: small_chain_def setHardfork_def whenE_run seqE_run
        buildParamsCache_def builtParams_def buildActivatedEIPsCache_def builtEIPs_def eips_only_def
        merge_key_def gteHardfork_def hardforkGteHardfork_def hardforks_def hardforks_of_def)
  then have "\<exists>x \<in> set (hardforkChanges ?c). gteHardfork ?c (fst x) \<and> 2929 \<in> set (hardforkEIPs (snd x))"
    by (simp add: small_changes hardforkEIPs_def eips_only_def)
  then show ?thesis
    using caches_always_current [OF newCommon_small ok, of ?c "[SetHardfork ''berlin'']" 2929]
      newCommon_small ok by simp
qed

lemma hardforksDict_2780: "list_all (\<lambda>(n, cfg). 2780 \<notin> set (hardforkEIPs (Some cfg))) hardforksDict"
  by (simp add: hardforksDict_def hardforkEIPs_def eips_only_def)

lemma eipsDict_2780: "map_of eipsDict 2780 = None"
  by (simp add: eipsDict_def eips_1_to_3198_def eips_3529_to_4844_def eips_4895_to_7623_def
      eips_7685_to_7951_def eips_7934_to_8037_def)

lemma eipsDict_8037: "\<exists>cfg rs. map_of eipsDict 8037 = Some cfg \<and> requiredEIPs cfg = Some rs \<and> 2780 \<in> set rs"
  by (simp add: eipsDict_def eips_1_to_3198_def eips_3529_to_4844_def eips_4895_to_7623_def
      eips_7685_to_7951_def eips_7934_to_8037_def)

lemma checkEIPs_unknown: "e \<in> set eips \<Longrightarrow> map_of eipsDict e = None \<Longrightarrow> checkEIPs c eips \<noteq> Inr u"
  by (induction eips) (auto split: option.splits)

lemma checkRequired_missing:
  "e \<in> set xs \<Longrightarrow> map_of eipsDict e = Some cfg \<Longrightarrow> requiredEIPs cfg = Some rs \<Longrightarrow> r \<in> set rs \<Longrightarrow>
    r \<notin> set eips \<Longrightarrow> \<not> isActivatedEIP c r \<Longrightarrow> checkRequired c eips xs \<noteq> Inr u"
  by (induction xs) (auto simp: list_all_iff split: option.splits)

lemma initial_changes_2780:
  assumes "cc_customHardforks cp = None" and "x \<in> set (initial_changes cp)"
  shows "2780 \<notin> set (hardforkEIPs (snd x))"
proof -
  obtain n where x: "x = (n, map_of hardforksDict n)" using assms by (auto simp: initial_changes_def)
  show ?thesis
  proof (cases "map_of hardforksDict n")
    case (Some cfg)
    then have "(n, cfg) \<in> set hardforksDict" by (rule map_of_SomeD)
    then show ?thesis using hardforksDict_2780 x Some by (auto simp: list_all_iff)
  qed (simp add: x hardforkEIPs_def)
qed

text \<open>The chain and its hardfork changes never change.\<close>

definition same_chain :: "chain_config \<Rightarrow> common \<Rightarrow> bool" where
  "same_chain cp c \<longleftrightarrow> chainParams c = cp \<and> hardforkChanges c = initial_changes cp"

lemma build_keeps_chain: "keeps (same_chain cp) buildParamsCache" "keeps (same_chain cp) buildActivatedEIPsCache"
  by (auto simp: keeps_def buildParamsCache_def buildActivatedEIPsCache_def same_chain_def split: prod.splits)

lemma setHardfork_keeps_chain: "keeps (same_chain cp) (setHardfork h)"
  unfolding setHardfork_def
  by (auto intro!: keeps_seqE [OF keeps_pure(3)] keeps_seqE keeps_forE keeps_whenE build_keeps_chain
      simp: same_chain_def)

lemma setEIPs_8037:
  assumes "same_chain cp c" and "cc_customHardforks cp = None" and "8037 \<in> set eips"
  shows "fst (setEIPs eips c) \<noteq> Inr u"
proof
  assume "fst (setEIPs eips c) = Inr u"
  then obtain c' where run: "setEIPs eips c = (Inr u, c')" by (cases "setEIPs eips c") auto
  define c1 where "c1 = c\<lparr>eipsSet := eips\<rparr>"
  obtain w where w: "checkEIPs c eips = Inr w"
    using run by (cases "checkEIPs c eips") (simp_all add: setEIPs_def)
  then have no: "2780 \<notin> set eips" using checkEIPs_unknown eipsDict_2780 by blast
  obtain c2 where c2: "buildParamsCache c1 = (Inr (), c2)"
    using run w by (cases "buildParamsCache c1"; cases "fst (buildParamsCache c1)")
      (auto simp: setEIPs_def c1_def)
  obtain c3 where c3: "buildActivatedEIPsCache c2 = (Inr (), c3)"
    using run w c2 by (cases "buildActivatedEIPsCache c2"; cases "fst (buildActivatedEIPsCache c2)")
      (auto simp: setEIPs_def c1_def)
  have req: "checkRequired c3 eips eips = Inr u"
    using run w c2 c3 by (auto simp: setEIPs_def c1_def)
  have "c2 = c1\<lparr>paramsCache := paramsCache c2\<rparr>"
    using c2 by (auto simp: buildParamsCache_def split: prod.splits)
  then have ch: "eipsSet c2 = eips" "hardforkChanges c2 = initial_changes cp"
    using assms(1) by (metis c1_def common.select_convs common.ext_inject common.surjective
        common.update_convs same_chain_def)+
  have "builtEIPs c2 = (Inr (), activatedEIPsCache c3)"
    using c3 by (auto simp: buildActivatedEIPsCache_def split: prod.splits)
  then have "set (activatedEIPsCache c3) = set eips \<union> {e. \<exists>x \<in> set (initial_changes cp).
      gteHardfork c2 (fst x) \<and> e \<in> set (hardforkEIPs (snd x))}"
    using builtEIPs_set [of c2 "activatedEIPsCache c3"] ch by simp
  then have "\<not> isActivatedEIP c3 2780"
    using no initial_changes_2780 [OF assms(2)] by (auto simp: isActivatedEIP_def)
  then show False using req no eipsDict_8037 assms(3) checkRequired_missing by blast
qed

text \<open>
  C34. EIP 8037 requires EIP 2780, which neither the EIP table nor any hardfork knows: on a chain
  without custom hardforks, constructing an instance with EIP 8037 among its EIPs is an error.
\<close>

theorem eip8037_never_set:
  assumes "cc_customHardforks chain = None" and "8037 \<in> set eips"
  shows "\<exists>e. newCommon chain params hardfork (Some eips) = Inl e"
proof -
  define c0 where "c0 = \<lparr>chainParams = chain,
            hardforkSet = (case cc_defaultHardfork chain of Some h \<Rightarrow> h | None \<Rightarrow> ''prague''),
            eipsSet = [], paramsDict = (case params of Some p \<Rightarrow> p | None \<Rightarrow> []),
            paramsCache = [], activatedEIPsCache = [],
            hardforkChanges = initial_changes chain, emitted = []\<rparr>"
  define m where "m = (case hardfork of Some h \<Rightarrow> setHardfork h | None \<Rightarrow> ret ())"
  have "same_chain chain c0" by (simp add: same_chain_def c0_def)
  moreover have "keeps (same_chain chain) m"
    by (auto simp: m_def setHardfork_keeps_chain split: option.splits)
  ultimately have "same_chain chain (snd (m c0))" by (rule keepsD [rotated])
  then have bad: "fst (setEIPs eips (snd (m c0))) \<noteq> Inr u" for u
    using setEIPs_8037 assms by blast
  obtain r1 c1 where mc: "m c0 = (r1, c1)" by (cases "m c0")
  obtain r2 c2 where sc: "setEIPs eips c1 = (r2, c2)" by (cases "setEIPs eips c1")
  have "newCommon chain params hardfork (Some eips) =
    (let (r, c) = seqE m (\<lambda>_. seqE (setEIPs eips) (\<lambda>_.
            seqE (getE paramsCache) (\<lambda>cache. whenE (cache = [])
              (seqE buildParamsCache (\<lambda>_. buildActivatedEIPsCache))))) c0 in
      and_then r (\<lambda>_. Inr c))"
    by (simp add: newCommon_def c0_def m_def Let_def)
  then show ?thesis
    using bad mc sc by (cases r1; cases r2) auto
qed

theorem eip8037_never_set_witness:
  "cc_customHardforks Mainnet = None \<and>
   (\<exists>e. newCommon Mainnet None (Some ''amsterdam'') (Some [8037]) = Inl e)"
  using eip8037_never_set [of Mainnet "[8037]" None "Some ''amsterdam''"] by (simp add: Mainnet_def)

section \<open>Fork hashes are checksums\<close>

text \<open>Eight big-endian bytes, and the blocks and times that count for a fork hash.\<close>

definition pad8 :: "nat \<Rightarrow> bytes" where
  "pad8 n = replicate (8 - length (nat_be n)) 0 @ nat_be n"

fun fork_points :: "string \<Rightarrow> transition list \<Rightarrow> nat list" where
  "fork_points h [] = []"
| "fork_points h (hf # hfs) =
     (case blockOrTimestamp hf of
        Some n \<Rightarrow> if n \<noteq> 0 \<and> tr_name hf \<noteq> ''paris'' then [n] else []
      | None \<Rightarrow> []) @ (if tr_name hf = h then [] else fork_points h hfs)"

lemma bytes_hex_replicate: "bytes_hex (replicate k 0 @ bs) = replicate (2 * k) (CHR ''0'') @ bytes_hex bs"
  by (induction k) (simp_all add: hex2_def)

lemma padStart16_to_hex:
  assumes "n < 2 ^ 64"
  shows "padStart16 (to_hex n) = bytes_hex (pad8 n)"
proof -
  have l: "length (nat_be n) \<le> 8" using length_nat_be_le [of n 8] assms by simp
  have len: "length (if odd (length (to_hex n)) then CHR ''0'' # to_hex n else to_hex n) = 2 * length (nat_be n)"
    using arg_cong [OF to_hex_even, of length n] by simp
  show ?thesis
  proof (cases "odd (length (to_hex n))")
    case True
    then have e: "bytes_hex (nat_be n) = CHR ''0'' # to_hex n" using to_hex_even [of n] by simp
    have "16 - length (to_hex n) = Suc (2 * (8 - length (nat_be n)))" using len True l by auto
    then show ?thesis
      unfolding padStart16_def pad8_def bytes_hex_replicate e
      by (simp add: replicate_app_Cons_same)
  next
    case False
    then have e: "bytes_hex (nat_be n) = to_hex n" using to_hex_even [of n] by simp
    have "16 - length (to_hex n) = 2 * (8 - length (nat_be n))" using len False by auto
    then show ?thesis unfolding padStart16_def pad8_def bytes_hex_replicate e by simp
  qed
qed

lemma hexToBytes_prefixed: "noble_hex N \<Longrightarrow> hexToBytes N (''0x'' @ bytes_hex bs) = Inr bs"
  using noble_hex.hexToBytes_bytesToHex [of N bs] noble_hex.bytesToHex_eq [of N bs] by simp

fun skip_repeats :: "nat \<Rightarrow> nat list \<Rightarrow> nat list" where
  "skip_repeats p [] = []"
| "skip_repeats p (n # ns) = (if n = p then skip_repeats p ns else n # skip_repeats n ns)"

lemma skip_repeats_eq: "skip_repeats p ns =
  (if ns \<noteq> [] \<and> hd ns = p then tl (remdups_adj ns) else remdups_adj ns)"
proof (induction ns arbitrary: p)
  case (Cons n ns)
  show ?case using Cons [of p] Cons [of n] remdups_adj_Nil_iff [of ns] hd_remdups_adj [of ns]
    by (cases "remdups_adj ns") (auto simp: remdups_adj_Cons)
qed simp

lemma forkHashBytes_eq:
  assumes "noble_hex N" and "\<forall>hf \<in> set hfs. \<forall>n. blockOrTimestamp hf = Some n \<longrightarrow> n < 2 ^ 64"
  shows "forkHashBytes N h hfs prev acc = Inr (acc @ concat (map pad8 (skip_repeats prev (fork_points h hfs))))"
  using assms(2)
proof (induction hfs arbitrary: prev acc)
  case (Cons hf hfs)
  show ?case
  proof (cases "blockOrTimestamp hf")
    case None
    then show ?thesis using Cons by auto
  next
    case (Some n)
    then have "hexToBytes N (''0x'' @ padStart16 (to_hex n)) = Inr (pad8 n)"
      using Cons.prems hexToBytes_prefixed [OF assms(1)] by (simp add: padStart16_to_hex)
    then show ?thesis using Cons Some by auto
  qed
qed simp

lemma fork_points_nonzero: "n \<in> set (fork_points h hfs) \<Longrightarrow> n \<noteq> 0"
  by (induction hfs) (auto split: option.splits if_splits)

lemma skip_repeats_0: "skip_repeats 0 (fork_points h hfs) = remdups_adj (fork_points h hfs)"
  using fork_points_nonzero [of 0 h hfs] by (cases "fork_points h hfs") (auto simp: skip_repeats_eq)

text \<open>The fork hash the EIP asks for, up to the number of digits printed.\<close>

definition fork_checksum :: "bytes \<Rightarrow> string \<Rightarrow> transition list \<Rightarrow> nat" where
  "fork_checksum genesis h hfs =
     unat (crc_ref (genesis @ concat (map pad8 (remdups_adj (fork_points h hfs)))))"

lemma length_nat_be_4:
  assumes "n < 2 ^ 32"
  shows "length (nat_be n) = 4 \<longleftrightarrow> 2 ^ 24 \<le> n"
proof (cases "n < 2 ^ 24")
  case True
  then have "length (nat_be n) \<le> 3" using length_nat_be_le [of n 3] by simp
  then show ?thesis using True by simp
next
  case False
  have "\<not> length (nat_be n) \<le> 3"
    using False be_nat_less [of "nat_be n"] power_increasing [of "length (nat_be n)" 3 "256 :: nat"] by auto
  moreover have "length (nat_be n) \<le> 4" using length_nat_be_le [of n 4] assms by simp
  ultimately show ?thesis using False by simp
qed

lemma intToBytes_nat:
  assumes "noble_hex N" and "n < 2 ^ 53"
  shows "intToBytes N (int n) = Inr (nat_be n)"
proof -
  have "isHexString (''0x'' @ to_hex n) None"
    by (auto simp: isHexString_def list_all_iff set_to_hex)
  then have "hexToBytes N (''0x'' @ to_hex n) = Inr (nat_be n)"
    by (simp add: hexToBytes_def stripHexPrefix_def noble_hex.padToEven_to_hex [OF assms(1)]
        noble_hex.hexToBytesNoble_hex [OF assms(1)])
  then show ?thesis using assms(2)
    by (simp add: intToBytes_def intToHex_def isSafeInteger_def int_to_hex_def)
qed

text \<open>
  C33. The computed fork hash is the CRC-32 of the genesis hash followed by the blocks and times
  of the hardforks up to the one asked for, eight bytes each, repetitions and the merge left
  out; it is printed without leading zero bytes, so it has the four bytes of an EIP-2124 hash
  exactly when the checksum is at least \<open>2^24\<close>.
\<close>

theorem calcForkHash_spec:
  assumes "noble_hex N" and "\<forall>hf \<in> set (hardforks c). \<forall>n. blockOrTimestamp hf = Some n \<longrightarrow> n < 2 ^ 64"
  shows "\<exists>s. calcForkHash N c h genesis = Inr s \<and>
    s = ''0x'' @ bytes_hex (nat_be (fork_checksum genesis h (hardforks c))) \<and>
    (length s = 10 \<longleftrightarrow> 2 ^ 24 \<le> fork_checksum genesis h (hardforks c))"
proof -
  let ?n = "fork_checksum genesis h (hardforks c)"
  have lt: "?n < 2 ^ 32" unfolding fork_checksum_def using unsigned_less [where 'a = nat and 'b = 32] by simp
  have n: "uint (crc32 (genesis @ concat (map pad8 (remdups_adj (fork_points h (hardforks c))))) None) = int ?n"
    using crc32_correct by (simp add: fork_checksum_def)
  have "intToBytes N (int ?n) = Inr (nat_be ?n)"
    using lt by (intro intToBytes_nat [OF assms(1)]) simp
  then have "calcForkHash N c h genesis = Inr (''0x'' @ bytes_hex (nat_be ?n))"
    using forkHashBytes_eq [OF assms, of h 0 "[]"] n
    by (simp add: calcForkHash_def skip_repeats_0 noble_hex.bytesToHex_eq [OF assms(1)])
  then show ?thesis using length_nat_be_4 [OF lt] by simp
qed

text \<open>A one-hardfork chain and a genesis hash whose fork hash is three bytes long.\<close>

definition lone_chain :: chain_config where
  "lone_chain = \<lparr>cc_name = ''lone'', cc_chainId = 7, cc_defaultHardfork = Some ''chainstart'',
     cc_consensus = \<lparr>cs_type = ''pow'', cs_algorithm = ''ethash'', cs_config = []\<rparr>,
     cc_hardforks = [\<lparr>tr_name = ''chainstart'', tr_block = Some 0, tr_timestamp = None, tr_forkHash = None\<rparr>],
     cc_customHardforks = None\<rparr>"

definition lone_common :: common where
  "lone_common = \<lparr>chainParams = lone_chain, hardforkSet = ''chainstart'', eipsSet = [], paramsDict = [],
     paramsCache = [], activatedEIPsCache = [], hardforkChanges = [], emitted = []\<rparr>"

definition short_genesis :: bytes where
  "short_genesis = replicate 31 0 @ [150]"

lemma fork_checksum_int: "crc_ref bs = NOT (word_of_int (foldl (\<lambda>c b. crc_byte_int (c XOR uint b)) (2 ^ 32 - 1) bs))"
proof -
  have one: "crc_byte_int (uint c XOR uint b) = uint (crc_byte (c XOR ucast b))"
    for c :: "32 word" and b :: "8 word"
    by (simp add: uint_crc_byte unsigned_xor_eq uint_up_ucast is_up)
  have "foldl (\<lambda>c b. crc_byte_int (c XOR uint b)) (uint c) bs =
      uint (foldl (\<lambda>c b. crc_byte (c XOR ucast b)) c bs)" for c :: "32 word"
    by (induction bs arbitrary: c) (simp_all add: one)
  from this [of "NOT 0"]
  have "word_of_int (foldl (\<lambda>c b. crc_byte_int (c XOR uint b)) (2 ^ 32 - 1) bs) =
      foldl (\<lambda>c b. crc_byte (c XOR ucast b)) (NOT 0) bs"
    by (simp add: unsigned_minus_1_eq_mask mask_eq_exp_minus_1)
  then show ?thesis by (simp add: crc_ref_def)
qed

lemma short_checksum: "fork_checksum short_genesis ''chainstart'' (hardforks lone_common) = 0x6663dc"
proof -
  have "foldl (\<lambda>c b. crc_byte_int (c XOR uint b)) (2 ^ 32 - 1) short_genesis = 0xff999c23"
    unfolding short_genesis_def by code_simp
  then show ?thesis
    by (simp add: fork_checksum_def fork_checksum_int lone_common_def lone_chain_def hardforks_def
        hardforks_of_def blockOrTimestamp_def)
qed

theorem calcForkHash_spec_witness:
  "noble_hex rlp_noble \<and>
   (\<exists>s. calcForkHash rlp_noble lone_common ''chainstart'' short_genesis = Inr s \<and> length s \<noteq> 10)"
proof -
  have "\<forall>hf \<in> set (hardforks lone_common). \<forall>n. blockOrTimestamp hf = Some n \<longrightarrow> n < 2 ^ 64"
    by (simp add: lone_common_def lone_chain_def hardforks_def hardforks_of_def blockOrTimestamp_def)
  then show ?thesis
    using calcForkHash_spec [OF rlp_hex.noble_hex_axioms, of lone_common "''chainstart''" short_genesis]
      short_checksum rlp_hex.noble_hex_axioms by auto
qed

end
