(* ===== verification/EvmStack.thy ===== *)
theory EvmStack
  imports Effects
begin

text \<open>
  The errors of the EVM, \<^verbatim>\<open>packages/evm/src/errors.ts\<close>, and its operand stack,
  \<^verbatim>\<open>packages/evm/src/stack.ts\<close>. The stack keeps popped values in its store beyond \<open>len\<close>;
  \<open>stack_abs\<close> is the list a client sees, top first, and every operation is shown to be the
  plain list operation on it. The locale \<open>stack_ops\<close> is the contract the opcode handlers use.
\<close>

section \<open>Errors\<close>

text \<open>\<open>EVMErrorMessage\<close>; \<open>EOFError\<close> stands for the messages of the EOF validation.\<close>

datatype evm_error =
    OUT_OF_GAS
  | CODESTORE_OUT_OF_GAS
  | CODESIZE_EXCEEDS_MAXIMUM
  | STACK_UNDERFLOW
  | STACK_OVERFLOW
  | INVALID_JUMP
  | INVALID_OPCODE
  | OUT_OF_RANGE
  | REVERT
  | STATIC_STATE_CHANGE
  | INTERNAL_ERROR
  | CREATE_COLLISION
  | STOP
  | REFUND_EXHAUSTED
  | VALUE_OVERFLOW
  | INSUFFICIENT_BALANCE
  | INVALID_BYTECODE_RESULT
  | INITCODE_SIZE_VIOLATION
  | INVALID_INPUT_LENGTH
  | INVALID_EOF_FORMAT
  | BLS_12_381_INVALID_INPUT_LENGTH
  | BLS_12_381_POINT_NOT_ON_CURVE
  | BLS_12_381_INPUT_EMPTY
  | BLS_12_381_FP_NOT_IN_FIELD
  | BN254_FP_NOT_IN_FIELD
  | INVALID_COMMITMENT
  | INVALID_INPUTS
  | INVALID_PROOF
  | EOFError string

text \<open>What EVM code throws: an \<open>EVMError\<close>, or any other JavaScript error.\<close>

datatype exc = Trap evm_error | Throw js_error

section \<open>The stack\<close>

record evm_stack =
  store :: "int list"
  maxHeight :: nat
  len :: nat

definition new_stack :: "nat option \<Rightarrow> evm_stack" where
  "new_stack mh = \<lparr>store = [], maxHeight = (case mh of Some n \<Rightarrow> n | None \<Rightarrow> 1024), len = 0\<rparr>"

text \<open>\<open>xs[i] = v\<close> for an index up to the length.\<close>

definition put_at :: "int list \<Rightarrow> nat \<Rightarrow> int \<Rightarrow> int list" where
  "put_at xs i v = (if i < length xs then xs[i := v] else xs @ [v])"

definition st_push :: "int \<Rightarrow> evm_stack \<Rightarrow> evm_error + evm_stack" where
  "st_push v s =
     (if len s \<ge> maxHeight s then Inl STACK_OVERFLOW
      else Inr (s\<lparr>store := put_at (store s) (len s) v, len := len s + 1\<rparr>))"

definition st_pop :: "evm_stack \<Rightarrow> evm_error + int \<times> evm_stack" where
  "st_pop s =
     (if len s < 1 then Inl STACK_UNDERFLOW
      else Inr (store s ! (len s - 1), s\<lparr>len := len s - 1\<rparr>))"

text \<open>The loop of \<open>popN\<close>.\<close>

fun popLoop :: "nat \<Rightarrow> evm_stack \<Rightarrow> int list \<times> evm_stack" where
  "popLoop 0 s = ([], s)"
| "popLoop (Suc n) s =
     (let l = len s - 1; (rest, s') = popLoop n (s\<lparr>len := l\<rparr>) in (store s ! l # rest, s'))"

definition st_popN :: "nat \<Rightarrow> evm_stack \<Rightarrow> evm_error + int list \<times> evm_stack" where
  "st_popN num s =
     (if len s < num then Inl STACK_UNDERFLOW
      else if num = 0 then Inr ([], s)
      else Inr (popLoop num s))"

text \<open>The loop of \<open>peek\<close>: \<open>start\<close> counts down from the length.\<close>

fun peekLoop :: "nat \<Rightarrow> nat \<Rightarrow> int list \<Rightarrow> evm_error + int list" where
  "peekLoop 0 start st = Inr []"
| "peekLoop (Suc n) start st =
     (if start = 0 then Inl STACK_UNDERFLOW
      else and_then (peekLoop n (start - 1) st) (\<lambda>rest. Inr (st ! (start - 1) # rest)))"

definition st_peek :: "nat \<Rightarrow> evm_stack \<Rightarrow> evm_error + int list" where
  "st_peek num s = peekLoop num (len s) (store s)"

definition st_swap :: "nat \<Rightarrow> evm_stack \<Rightarrow> evm_error + evm_stack" where
  "st_swap position s =
     (if len s \<le> position then Inl STACK_UNDERFLOW
      else let head = len s - 1; i = head - position; tmp = store s ! head in
        Inr (s\<lparr>store := (store s)[head := store s ! i, i := tmp]\<rparr>))"

text \<open>Positions of \<open>dup\<close> count from 1, as all its callers' do.\<close>

definition st_dup :: "nat \<Rightarrow> evm_stack \<Rightarrow> evm_error + evm_stack" where
  "st_dup position s =
     (let l = len s in
      if l < position then Inl STACK_UNDERFLOW
      else if l \<ge> maxHeight s then Inl STACK_OVERFLOW
      else Inr (s\<lparr>store := put_at (store s) l (store s ! (l - position)), len := l + 1\<rparr>))"

definition st_exchange :: "nat \<Rightarrow> nat \<Rightarrow> evm_stack \<Rightarrow> evm_error + evm_stack" where
  "st_exchange swap1 swap2 s =
     (let headIndex = int (len s) - 1;
          exchangeIndex1 = headIndex - int swap1;
          exchangeIndex2 = headIndex - int swap2 in
      if exchangeIndex1 < 0 \<or> exchangeIndex2 < 0 then Inl STACK_UNDERFLOW
      else let i = nat exchangeIndex1; j = nat exchangeIndex2; cache = store s ! j in
        Inr (s\<lparr>store := (store s)[j := store s ! i, i := cache]\<rparr>))"

definition getStack :: "evm_stack \<Rightarrow> int list" where
  "getStack s = js_slice (store s) 0 (len s)"

section \<open>Refinement to a plain list\<close>

definition stack_inv :: "evm_stack \<Rightarrow> bool" where
  "stack_inv s \<longleftrightarrow> len s \<le> length (store s) \<and> len s \<le> maxHeight s"

definition stack_abs :: "evm_stack \<Rightarrow> int list" where
  "stack_abs s = rev (take (len s) (store s))"

lemma length_stack_abs: "stack_inv s \<Longrightarrow> length (stack_abs s) = len s"
  by (simp add: stack_abs_def stack_inv_def)

lemma stack_abs_nth: "stack_inv s \<Longrightarrow> i < len s \<Longrightarrow> stack_abs s ! i = store s ! (len s - 1 - i)"
  by (simp add: stack_abs_def stack_inv_def rev_nth)

lemma stack_abs_Cons:
  assumes "stack_inv s" and "0 < len s"
  shows "stack_abs s = store s ! (len s - 1) # stack_abs (s\<lparr>len := len s - 1\<rparr>)"
proof -
  obtain n where n: "len s = Suc n" using assms(2) by (cases "len s") auto
  then have "n < length (store s)" using assms(1) by (simp add: stack_inv_def)
  then show ?thesis by (simp add: stack_abs_def n take_Suc_conv_app_nth)
qed

lemma stack_inv_pop: "stack_inv s \<Longrightarrow> stack_inv (s\<lparr>len := len s - 1\<rparr>)"
  unfolding stack_inv_def by auto

lemma put_at_inv: "stack_inv s \<Longrightarrow> len s < maxHeight s \<Longrightarrow>
  stack_inv (s\<lparr>store := put_at (store s) (len s) v, len := len s + 1\<rparr>) \<and>
  stack_abs (s\<lparr>store := put_at (store s) (len s) v, len := len s + 1\<rparr>) = v # stack_abs s"
  by (auto simp: stack_inv_def stack_abs_def put_at_def take_Suc_conv_app_nth)

lemma push_spec: "stack_inv s \<Longrightarrow>
  (case st_push v s of
     Inl e \<Rightarrow> e = STACK_OVERFLOW \<and> length (stack_abs s) = maxHeight s
   | Inr s' \<Rightarrow> stack_inv s' \<and> stack_abs s' = v # stack_abs s \<and> maxHeight s' = maxHeight s \<and>
       length (stack_abs s) < maxHeight s)"
  using put_at_inv [of s v] by (auto simp: st_push_def length_stack_abs stack_inv_def)

lemma pop_spec: "stack_inv s \<Longrightarrow>
  (case st_pop s of
     Inl e \<Rightarrow> e = STACK_UNDERFLOW \<and> stack_abs s = []
   | Inr (v, s') \<Rightarrow> stack_inv s' \<and> stack_abs s = v # stack_abs s' \<and> maxHeight s' = maxHeight s)"
  using stack_abs_Cons [of s] stack_inv_pop [of s] length_stack_abs [of s]
  by (auto simp: st_pop_def)

lemma popLoop_spec: "stack_inv s \<Longrightarrow> n \<le> len s \<Longrightarrow>
  fst (popLoop n s) = take n (stack_abs s) \<and> stack_inv (snd (popLoop n s)) \<and>
  stack_abs (snd (popLoop n s)) = drop n (stack_abs s) \<and> maxHeight (snd (popLoop n s)) = maxHeight s"
proof (induction n arbitrary: s)
  case (Suc n)
  let ?s = "s\<lparr>len := len s - 1\<rparr>"
  have "stack_inv ?s" "n \<le> len ?s" "0 < len s" using Suc.prems stack_inv_pop [of s] by auto
  with Suc.IH [of ?s] stack_abs_Cons [OF Suc.prems(1)] show ?case
    by (cases "popLoop n ?s") (auto simp: Let_def)
qed simp

lemma popN_spec: "stack_inv s \<Longrightarrow>
  (case st_popN n s of
     Inl e \<Rightarrow> e = STACK_UNDERFLOW \<and> length (stack_abs s) < n
   | Inr (vs, s') \<Rightarrow> stack_inv s' \<and> n \<le> length (stack_abs s) \<and> vs = take n (stack_abs s) \<and>
       stack_abs s' = drop n (stack_abs s) \<and> maxHeight s' = maxHeight s)"
  using popLoop_spec [of s n]
  by (auto simp: st_popN_def length_stack_abs not_less split: prod.splits)

lemma peekLoop_spec: "n \<le> start \<Longrightarrow> start \<le> length st \<Longrightarrow> peekLoop n start st = Inr (take n (rev (take start st)))"
proof (induction n start st rule: peekLoop.induct)
  case (2 n start st)
  then obtain k where k: "start = Suc k" by (cases start) auto
  then have "rev (take start st) = st ! k # rev (take k st)"
    using "2.prems" by (simp add: take_Suc_conv_app_nth)
  then show ?case using 2 k by simp
qed simp

lemma peekLoop_underflow: "start < n \<Longrightarrow> peekLoop n start st = Inl STACK_UNDERFLOW"
  by (induction n start st rule: peekLoop.induct) auto

lemma peek_spec: "stack_inv s \<Longrightarrow>
  st_peek n s = (if length (stack_abs s) < n then Inl STACK_UNDERFLOW else Inr (take n (stack_abs s)))"
  using peekLoop_spec [of n "len s" "store s"] peekLoop_underflow [of "len s" n "store s"]
  by (auto simp: st_peek_def length_stack_abs) (simp add: stack_abs_def stack_inv_def)

lemma swap_spec: "stack_inv s \<Longrightarrow>
  (case st_swap p s of
     Inl e \<Rightarrow> e = STACK_UNDERFLOW \<and> length (stack_abs s) \<le> p
   | Inr s' \<Rightarrow> stack_inv s' \<and> p < length (stack_abs s) \<and> maxHeight s' = maxHeight s \<and>
       stack_abs s' = (stack_abs s)[0 := stack_abs s ! p, p := stack_abs s ! 0])"
proof (cases "len s \<le> p")
  case False
  assume inv: "stack_inv s"
  let ?h = "len s - 1"
  have h: "?h < length (store s)" "?h - p < length (store s)" "?h - p < len s" "?h < len s"
    using inv False by (auto simp: stack_inv_def)
  have "rev (take (len s) ((store s)[?h := x, ?h - p := y])) = (stack_abs s)[0 := x, p := y]" for x y
    using h False inv by (simp add: stack_abs_def take_update_swap rev_update stack_inv_def)
  then show ?thesis using inv False stack_abs_nth [OF inv, of p] stack_abs_nth [OF inv, of 0]
    by (simp add: st_swap_def Let_def length_stack_abs) (simp add: stack_abs_def stack_inv_def)
qed (simp add: st_swap_def length_stack_abs)

lemma dup_spec: "stack_inv s \<Longrightarrow> 0 < p \<Longrightarrow>
  (case st_dup p s of
     Inl e \<Rightarrow> e = STACK_UNDERFLOW \<and> length (stack_abs s) < p \<or>
       e = STACK_OVERFLOW \<and> length (stack_abs s) = maxHeight s
   | Inr s' \<Rightarrow> stack_inv s' \<and> p \<le> length (stack_abs s) \<and> maxHeight s' = maxHeight s \<and>
       stack_abs s' = stack_abs s ! (p - 1) # stack_abs s)"
  using put_at_inv [of s "store s ! (len s - p)"] stack_abs_nth [of s "p - 1"]
  by (auto simp: st_dup_def Let_def length_stack_abs stack_inv_def not_less)

lemma exchange_spec: "stack_inv s \<Longrightarrow>
  (case st_exchange p q s of
     Inl e \<Rightarrow> e = STACK_UNDERFLOW \<and> length (stack_abs s) \<le> max p q
   | Inr s' \<Rightarrow> stack_inv s' \<and> max p q < length (stack_abs s) \<and> maxHeight s' = maxHeight s \<and>
       stack_abs s' = (stack_abs s)[q := stack_abs s ! p, p := stack_abs s ! q])"
proof (cases "len s \<le> max p q")
  case False
  assume inv: "stack_inv s"
  have i: "nat (int (len s) - 1 - int p) = len s - 1 - p" "nat (int (len s) - 1 - int q) = len s - 1 - q"
    "\<not> int (len s) - 1 - int p < 0" "\<not> int (len s) - 1 - int q < 0"
    using False by auto
  have h: "len s - 1 - p < len s" "len s - 1 - q < len s" "p < len s" "q < len s" using False by auto
  have "rev (take (len s) ((store s)[len s - 1 - q := x, len s - 1 - p := y])) = (stack_abs s)[q := x, p := y]" for x y
    using h inv by (simp add: stack_abs_def take_update_swap rev_update stack_inv_def)
  then show ?thesis using inv False stack_abs_nth [OF inv, of p] stack_abs_nth [OF inv, of q] h
    by (simp add: st_exchange_def Let_def length_stack_abs i) (simp add: stack_abs_def stack_inv_def)
qed (auto simp: st_exchange_def Let_def length_stack_abs max_def split: if_splits)

lemma getStack_abs: "getStack s = rev (stack_abs s)"
  by (simp add: getStack_def stack_abs_def js_slice_def)

lemma new_stack_spec: "stack_inv (new_stack mh) \<and> stack_abs (new_stack mh) = []"
  by (simp add: new_stack_def stack_inv_def stack_abs_def)

section \<open>The contract of the opcode handlers\<close>

text \<open>
  Handlers pop their operands, compute and push: with at least one operand popped the push
  cannot overflow.
\<close>

locale stack_ops =
  fixes inv :: "'s \<Rightarrow> bool" and view :: "'s \<Rightarrow> int list" and limit :: "'s \<Rightarrow> nat"
    and push :: "int \<Rightarrow> 's \<Rightarrow> evm_error + 's" and popN :: "nat \<Rightarrow> 's \<Rightarrow> evm_error + int list \<times> 's"
  assumes push_law: "inv s \<Longrightarrow> (case push v s of
      Inl e \<Rightarrow> e = STACK_OVERFLOW \<and> length (view s) = limit s
    | Inr s' \<Rightarrow> inv s' \<and> view s' = v # view s \<and> limit s' = limit s \<and> length (view s) < limit s)"
  and popN_law: "inv s \<Longrightarrow> (case popN n s of
      Inl e \<Rightarrow> e = STACK_UNDERFLOW \<and> length (view s) < n
    | Inr (vs, s') \<Rightarrow> inv s' \<and> n \<le> length (view s) \<and> vs = take n (view s) \<and>
        view s' = drop n (view s) \<and> limit s' = limit s)"
  and view_limit: "inv s \<Longrightarrow> length (view s) \<le> limit s"
begin

lemma popN_ok:
  assumes "inv s" and "n \<le> length (view s)"
  obtains s' where "popN n s = Inr (take n (view s), s')" "inv s'" "view s' = drop n (view s)" "limit s' = limit s"
  using popN_law [OF assms(1), of n] assms(2) that by (auto split: sum.splits)

lemma popN_underflow: "inv s \<Longrightarrow> length (view s) < n \<Longrightarrow> popN n s = Inl STACK_UNDERFLOW"
  using popN_law [of s n] by (auto split: sum.splits)

lemma push_ok:
  assumes "inv s" and "length (view s) < limit s"
  obtains s' where "push v s = Inr s'" "inv s'" "view s' = v # view s" "limit s' = limit s"
  using push_law [OF assms(1), of v] assms(2) that by (auto split: sum.splits)

lemma push_overflow: "inv s \<Longrightarrow> length (view s) = limit s \<Longrightarrow> push v s = Inl STACK_OVERFLOW"
  using push_law [of s v] by (auto split: sum.splits)

lemma popN_push:
  assumes "inv s" and "0 < n" and "n \<le> length (view s)"
  obtains s1 s2 where "popN n s = Inr (take n (view s), s1)" "push v s1 = Inr s2" "inv s2"
    "view s2 = v # drop n (view s)" "limit s2 = limit s"
proof -
  obtain s1 where s1: "popN n s = Inr (take n (view s), s1)" "inv s1" "view s1 = drop n (view s)" "limit s1 = limit s"
    using popN_ok [OF assms(1, 3)] .
  have "length (view s1) < limit s1" using s1 view_limit [OF assms(1)] assms(2, 3) by simp
  then obtain s2 where "push v s1 = Inr s2" "inv s2" "view s2 = v # view s1" "limit s2 = limit s1"
    using push_ok [OF s1(2)] by metis
  then show ?thesis using that s1 by simp
qed

end

lemma stack_abs_limit: "stack_inv s \<Longrightarrow> length (stack_abs s) \<le> maxHeight s"
  by (simp add: length_stack_abs) (simp add: stack_inv_def)

interpretation st: stack_ops stack_inv stack_abs maxHeight st_push st_popN
  using push_spec popN_spec stack_abs_limit by unfold_locales blast+

section \<open>Every sequence of calls\<close>

datatype stack_call =
    CPush int
  | CPop
  | CPopN nat
  | CPeek nat
  | CSwap nat
  | CDup nat
  | CExchange nat nat

text \<open>The class: what a call returns, and the stack after it (unchanged by a throw).\<close>

fun stack_run :: "stack_call \<Rightarrow> evm_stack \<Rightarrow> (evm_error + int list) \<times> evm_stack" where
  "stack_run (CPush v) s = (case st_push v s of Inl e \<Rightarrow> (Inl e, s) | Inr s' \<Rightarrow> (Inr [], s'))"
| "stack_run CPop s = (case st_pop s of Inl e \<Rightarrow> (Inl e, s) | Inr (v, s') \<Rightarrow> (Inr [v], s'))"
| "stack_run (CPopN n) s = (case st_popN n s of Inl e \<Rightarrow> (Inl e, s) | Inr (vs, s') \<Rightarrow> (Inr vs, s'))"
| "stack_run (CPeek n) s = (st_peek n s, s)"
| "stack_run (CSwap p) s = (case st_swap p s of Inl e \<Rightarrow> (Inl e, s) | Inr s' \<Rightarrow> (Inr [], s'))"
| "stack_run (CDup p) s = (case st_dup p s of Inl e \<Rightarrow> (Inl e, s) | Inr s' \<Rightarrow> (Inr [], s'))"
| "stack_run (CExchange p q) s = (case st_exchange p q s of Inl e \<Rightarrow> (Inl e, s) | Inr s' \<Rightarrow> (Inr [], s'))"

text \<open>The specification: a list of at most \<open>n\<close> values, top first.\<close>

fun list_run :: "nat \<Rightarrow> stack_call \<Rightarrow> int list \<Rightarrow> (evm_error + int list) \<times> int list" where
  "list_run n (CPush v) xs = (if length xs < n then (Inr [], v # xs) else (Inl STACK_OVERFLOW, xs))"
| "list_run n CPop xs = (case xs of [] \<Rightarrow> (Inl STACK_UNDERFLOW, xs) | v # vs \<Rightarrow> (Inr [v], vs))"
| "list_run n (CPopN k) xs =
     (if k \<le> length xs then (Inr (take k xs), drop k xs) else (Inl STACK_UNDERFLOW, xs))"
| "list_run n (CPeek k) xs =
     (if k \<le> length xs then Inr (take k xs) else Inl STACK_UNDERFLOW, xs)"
| "list_run n (CSwap p) xs =
     (if p < length xs then (Inr [], xs[0 := xs ! p, p := xs ! 0]) else (Inl STACK_UNDERFLOW, xs))"
| "list_run n (CDup p) xs =
     (if length xs < p then (Inl STACK_UNDERFLOW, xs)
      else if length xs < n then (Inr [], xs ! (p - 1) # xs) else (Inl STACK_OVERFLOW, xs))"
| "list_run n (CExchange p q) xs =
     (if p < length xs \<and> q < length xs then (Inr [], xs[q := xs ! p, p := xs ! q])
      else (Inl STACK_UNDERFLOW, xs))"

fun runs :: "('c \<Rightarrow> 's \<Rightarrow> 'r \<times> 's) \<Rightarrow> 'c list \<Rightarrow> 's \<Rightarrow> 'r list \<times> 's" where
  "runs f [] s = ([], s)"
| "runs f (c # cs) s = (let (r, s') = f c s; (rs, s'') = runs f cs s' in (r # rs, s''))"

lemma stack_run_sim:
  assumes "stack_inv s" and "c \<noteq> CDup 0"
  shows "stack_inv (snd (stack_run c s)) \<and> maxHeight (snd (stack_run c s)) = maxHeight s \<and>
    list_run (maxHeight s) c (stack_abs s) = (fst (stack_run c s), stack_abs (snd (stack_run c s)))"
proof (cases c)
  case (CPush v)
  then show ?thesis using push_spec [OF assms(1), of v] assms(1) by (auto split: sum.splits)
next
  case CPop
  then show ?thesis using pop_spec [OF assms(1)] assms(1) by (auto split: sum.splits)
next
  case (CPopN n)
  then show ?thesis using popN_spec [OF assms(1), of n] assms(1) by (auto split: sum.splits)
next
  case (CPeek n)
  then show ?thesis using peek_spec [OF assms(1), of n] assms(1) by auto
next
  case (CSwap p)
  then show ?thesis using swap_spec [OF assms(1), of p] assms(1) by (auto split: sum.splits)
next
  case (CDup p)
  then show ?thesis using dup_spec [OF assms(1), of p] assms stack_abs_limit [OF assms(1)]
    by (auto simp: st_dup_def Let_def length_stack_abs split: sum.splits if_splits)
next
  case (CExchange p q)
  then show ?thesis using exchange_spec [OF assms(1), of p q] assms(1) by (auto split: sum.splits)
qed

lemma stack_runs_sim: "stack_inv s \<Longrightarrow> CDup 0 \<notin> set cs \<Longrightarrow>
  runs (list_run (maxHeight s)) cs (stack_abs s) =
    (fst (runs stack_run cs s), stack_abs (snd (runs stack_run cs s)))"
proof (induction cs arbitrary: s)
  case (Cons c cs)
  then have "c \<noteq> CDup 0" by auto
  note sim = stack_run_sim [OF Cons.prems(1) this]
  obtain r s' where run: "stack_run c s = (r, s')" by (cases "stack_run c s")
  have "runs (list_run (maxHeight s')) cs (stack_abs s') =
      (fst (runs stack_run cs s'), stack_abs (snd (runs stack_run cs s')))"
    using Cons.IH [of s'] Cons.prems(2) sim run by auto
  then show ?case using sim run by (simp add: Let_def split: prod.splits)
qed simp

text \<open>
  C29. Any sequence of calls on a new stack returns and throws what the list specification says,
  and leaves the list it says; \<open>getStack\<close> shows that list, bottom first.
\<close>

theorem stack_refines_list:
  assumes "CDup 0 \<notin> set cs"
  shows "runs (list_run (case mh of Some n \<Rightarrow> n | None \<Rightarrow> 1024)) cs [] =
    (fst (runs stack_run cs (new_stack mh)), rev (getStack (snd (runs stack_run cs (new_stack mh)))))"
  using stack_runs_sim [OF conjunct1 [OF new_stack_spec] assms, of mh] new_stack_spec [of mh]
  by (simp add: getStack_abs) (simp add: new_stack_def)

theorem stack_refines_list_witness:
  "runs (list_run 2) [CPush 5, CPush 7, CSwap 1, CPush 9, CPop] [] =
    (fst (runs stack_run [CPush 5, CPush 7, CSwap 1, CPush 9, CPop] (new_stack (Some 2))),
     rev (getStack (snd (runs stack_run [CPush 5, CPush 7, CSwap 1, CPush 9, CPop] (new_stack (Some 2))))))"
  using stack_refines_list [of "[CPush 5, CPush 7, CSwap 1, CPush 9, CPop]" "Some 2"]
  by (simp del: runs.simps)

end
