(* ===== verification/EvmMemory.thy ===== *)
theory EvmMemory
  imports Effects
begin

text \<open>
  The byte memory of the EVM, \<^verbatim>\<open>packages/evm/src/memory.ts\<close>. The parameter \<open>L\<close> is the
  engine's largest typed-array length, at most \<open>2^53 - 1\<close>: allocating beyond it throws a
  \<open>RangeError\<close>. An offset or size above \<open>2^53\<close>, which \<open>Number\<close> rounds, is beyond \<open>L\<close> rounded
  or not, so the natural numbers here give the code's results. \<open>mem_abs\<close> is the unbounded,
  zero-initialised memory a client sees.
\<close>

section \<open>Operations\<close>

type_synonym 'a mem_op = "(bytes, js_error, 'a) eff"

definition ceil_to :: "nat \<Rightarrow> nat \<Rightarrow> nat" where
  "ceil_to value ceiling = (let r = value mod ceiling in
     if r = 0 then value else value + ceiling - r)"

definition CONTAINER_SIZE :: nat where
  "CONTAINER_SIZE = 8192"

definition new_memory :: bytes where
  "new_memory = replicate CONTAINER_SIZE 0"

definition mem_extend :: "nat \<Rightarrow> nat \<Rightarrow> nat \<Rightarrow> unit mem_op" where
  "mem_extend L offset sz =
     (if sz = 0 then ret ()
      else seqE (getE length) (\<lambda>l.
        let newSize = ceil_to (offset + sz) 32 in
        if newSize > l then
          let expandBy = (newSize - l + CONTAINER_SIZE - 1) div CONTAINER_SIZE * CONTAINER_SIZE in
          if l + expandBy > L then raise RangeError
          else updE (\<lambda>m. m @ replicate expandBy 0)
        else ret ()))"

text \<open>\<open>store.set(value, offset)\<close>\<close>

definition set_bytes :: "bytes \<Rightarrow> nat \<Rightarrow> bytes \<Rightarrow> bytes" where
  "set_bytes m offset value = take offset m @ value @ drop (offset + length value) m"

definition mem_write :: "nat \<Rightarrow> nat \<Rightarrow> nat \<Rightarrow> bytes \<Rightarrow> unit mem_op" where
  "mem_write L offset sz value =
     (if sz = 0 then ret ()
      else seqE (mem_extend L offset sz) (\<lambda>_.
        if length value \<noteq> sz then raise (EthereumJSError ''Invalid value size'')
        else seqE (getE length) (\<lambda>l.
          if offset + sz > l then raise (EthereumJSError ''Value exceeds memory capacity'')
          else updE (\<lambda>m. set_bytes m offset value))))"

definition mem_read :: "nat \<Rightarrow> nat \<Rightarrow> nat \<Rightarrow> bool \<Rightarrow> bytes mem_op" where
  "mem_read L offset sz avoidCopy =
     seqE (mem_extend L offset sz) (\<lambda>_. getE (\<lambda>m.
       let loaded = js_slice m offset (offset + sz) in
       if avoidCopy then loaded else set_bytes (replicate sz 0) 0 loaded))"

section \<open>What a client sees\<close>

definition mem_abs :: "bytes \<Rightarrow> nat \<Rightarrow> 8 word" where
  "mem_abs m i = (if i < length m then m ! i else 0)"

definition mem_inv :: "bytes \<Rightarrow> bool" where
  "mem_inv m \<longleftrightarrow> CONTAINER_SIZE dvd length m"

lemma ceil_to_bounds: "0 < c \<Longrightarrow> n \<le> ceil_to n c \<and> ceil_to n c < n + c \<and> c dvd ceil_to n c"
proof -
  assume c: "0 < c"
  have eq: "n div c * c + n mod c = n" and lt: "n mod c < c" using c by simp_all
  then have "n + c - n mod c = n div c * c + c" by linarith
  then have "c dvd n + c - n mod c" by simp
  then show ?thesis using c eq lt by (auto simp: ceil_to_def Let_def)
qed

lemma div_ceil_bounds:
  fixes d c :: nat
  assumes "0 < c" and "0 < d"
  shows "d \<le> (d + c - 1) div c * c \<and> (d + c - 1) div c * c < d + c"
proof -
  have "(d + c - 1) div c * c + (d + c - 1) mod c = d + c - 1" by simp
  moreover have "(d + c - 1) mod c < c" using assms by simp
  ultimately show ?thesis using assms by linarith
qed

text \<open>Extending succeeds with room for the access and invisible growth, or is out of range.\<close>

lemma mem_extend_spec:
  assumes "mem_extend L offset sz m = (r, m')"
  shows "(case r of
      Inl e \<Rightarrow> e = RangeError \<and> m' = m \<and> L < offset + sz + 32 + CONTAINER_SIZE
    | Inr _ \<Rightarrow> (mem_inv m \<longrightarrow> mem_inv m') \<and> mem_abs m' = mem_abs m \<and>
        (0 < sz \<longrightarrow> offset + sz \<le> length m') \<and>
        length m' < max (length m + 1) (offset + sz + 32 + CONTAINER_SIZE))"
proof -
  let ?n = "ceil_to (offset + sz) 32"
  let ?e = "(?n - length m + CONTAINER_SIZE - 1) div CONTAINER_SIZE * CONTAINER_SIZE"
  have n: "offset + sz \<le> ?n" "?n < offset + sz + 32" using ceil_to_bounds [of 32 "offset + sz"] by auto
  have e: "length m < ?n \<Longrightarrow> ?n - length m \<le> ?e \<and> ?e < ?n - length m + CONTAINER_SIZE"
    using div_ceil_bounds [of CONTAINER_SIZE "?n - length m"] by (simp add: CONTAINER_SIZE_def)
  have app: "mem_abs (m @ replicate k 0) = mem_abs m" for k
    by (auto simp: fun_eq_iff mem_abs_def nth_append)
  have "CONTAINER_SIZE dvd ?e" by simp
  then show ?thesis
    using assms n e by (auto simp: mem_extend_def Let_def mem_inv_def app split: if_splits)
qed

lemma set_bytes_abs:
  assumes "offset + length v \<le> length m"
  shows "mem_abs (set_bytes m offset v) i =
    (if offset \<le> i \<and> i < offset + length v then v ! (i - offset) else mem_abs m i)"
  using assms by (auto simp: mem_abs_def set_bytes_def nth_append min_def)

lemma length_set_bytes: "offset + length v \<le> length m \<Longrightarrow> length (set_bytes m offset v) = length m"
  by (simp add: set_bytes_def)

definition overwrite :: "(nat \<Rightarrow> 8 word) \<Rightarrow> nat \<Rightarrow> bytes \<Rightarrow> nat \<Rightarrow> 8 word" where
  "overwrite f offset v i = (if offset \<le> i \<and> i < offset + length v then v ! (i - offset) else f i)"

lemma js_slice_abs:
  "offset + sz \<le> length m \<Longrightarrow> js_slice m offset (offset + sz) = map (mem_abs m) [offset..<offset + sz]"
  by (rule nth_equalityI) (auto simp: js_slice_def mem_abs_def)

lemma mem_read_spec:
  assumes "mem_inv m"
  shows "case mem_read L offset sz c m of
      (Inl e, m') \<Rightarrow> e = RangeError \<and> m' = m \<and> L < offset + sz + 32 + CONTAINER_SIZE
    | (Inr v, m') \<Rightarrow> mem_inv m' \<and> mem_abs m' = mem_abs m \<and> v = map (mem_abs m) [offset..<offset + sz]"
proof -
  obtain r m1 where ext: "mem_extend L offset sz m = (r, m1)" by (cases "mem_extend L offset sz m")
  note spec = mem_extend_spec [OF ext]
  show ?thesis
  proof (cases r)
    case (Inr u)
    then have "js_slice m1 offset (offset + sz) = map (mem_abs m) [offset..<offset + sz]"
      using spec js_slice_abs [of offset sz m1] by (cases "sz = 0") (auto simp: js_slice_def)
    moreover have "set_bytes (replicate sz 0) 0 (map f [offset..<offset + sz]) = map f [offset..<offset + sz]" for f
      by (simp add: set_bytes_def)
    ultimately show ?thesis using ext spec Inr assms by (simp add: mem_read_def Let_def)
  qed (use ext spec in \<open>simp add: mem_read_def\<close>)
qed

lemma mem_write_spec:
  assumes "mem_inv m"
  shows "case mem_write L offset sz value m of
      (Inl e, m') \<Rightarrow> mem_abs m' = mem_abs m \<and>
        (e = RangeError \<and> L < offset + sz + 32 + CONTAINER_SIZE \<or> length value \<noteq> sz)
    | (Inr _, m') \<Rightarrow> mem_inv m' \<and> (sz = 0 \<or> length value = sz \<and>
        mem_abs m' = overwrite (mem_abs m) offset value)"
proof -
  obtain r m1 where ext: "mem_extend L offset sz m = (r, m1)" by (cases "mem_extend L offset sz m")
  note spec = mem_extend_spec [OF ext]
  show ?thesis
  proof (cases "sz = 0 \<or> isl r \<or> length value \<noteq> sz")
    case True
    then show ?thesis using ext spec assms by (cases r) (auto simp: mem_write_def)
  next
    case False
    then obtain u where "r = Inr u" "0 < sz" "length value = sz" by (cases r) auto
    moreover from this have "mem_inv (set_bytes m1 offset value)"
      "mem_abs (set_bytes m1 offset value) = overwrite (mem_abs m) offset value"
      using spec assms by (auto simp: mem_inv_def length_set_bytes fun_eq_iff overwrite_def set_bytes_abs)
    ultimately show ?thesis using ext spec by (simp add: mem_write_def)
  qed
qed

text \<open>
  C30. Memory behaves as an unbounded array of bytes that are first 0: reading returns the bytes
  of the range and changes nothing a client can see, writing replaces exactly the range, and
  an access is refused only when it would need more than \<open>L\<close> bytes (up to a word and a
  container of rounding) or when the value does not have the stated size.
\<close>

theorem memory_spec:
  assumes "mem_inv m"
  shows "(case mem_read L offset sz c m of
      (Inl e, m') \<Rightarrow> e = RangeError \<and> m' = m \<and> L < offset + sz + 32 + CONTAINER_SIZE
    | (Inr v, m') \<Rightarrow> mem_inv m' \<and> mem_abs m' = mem_abs m \<and> v = map (mem_abs m) [offset..<offset + sz]) \<and>
   (case mem_write L offset sz value m of
      (Inl e, m') \<Rightarrow> mem_abs m' = mem_abs m \<and>
        (e = RangeError \<and> L < offset + sz + 32 + CONTAINER_SIZE \<or> length value \<noteq> sz)
    | (Inr _, m') \<Rightarrow> mem_inv m' \<and> (sz = 0 \<or> length value = sz \<and>
        mem_abs m' = overwrite (mem_abs m) offset value))"
  using mem_read_spec [OF assms] mem_write_spec [OF assms] by (rule conjI)

theorem memory_spec_witness:
  "mem_inv new_memory \<and>
   (case mem_write 100000 8190 4 [1, 2, 3, 4] new_memory of
      (Inr _, m') \<Rightarrow> mem_inv m' \<and> mem_abs m' = overwrite (mem_abs new_memory) 8190 [1, 2, 3, 4]
    | (Inl e, m') \<Rightarrow> False)"
proof -
  have inv: "mem_inv new_memory" by (simp add: mem_inv_def new_memory_def)
  then show ?thesis
    using memory_spec [OF inv, of 100000 8190 4 True "[1, 2, 3, 4]"]
    by (auto simp: CONTAINER_SIZE_def split: prod.splits sum.splits)
qed

end
