(* ===== verification/Checkpoints.thy ===== *)
theory Checkpoints
  imports Effects
begin

text \<open>
  The contract of a store with nested checkpoints: \<open>view\<close> is what a client reads, \<open>saved\<close> the
  views at the open checkpoints, innermost first. From the laws of single operations the locale
  derives that any balanced run inside a frame can be reverted as a whole. The transient
  storage and the journal of the EVM are its instances.
\<close>

locale checkpointed =
  fixes inv :: "'s \<Rightarrow> bool" and view :: "'s \<Rightarrow> 'v" and saved :: "'s \<Rightarrow> 'v list"
    and checkpoint :: "'s \<Rightarrow> 's" and commit :: "'s \<Rightarrow> 's" and revert :: "'s \<Rightarrow> 's"
    and op :: "'s \<Rightarrow> 's \<Rightarrow> bool"
  assumes checkpoint_law: "inv s \<Longrightarrow>
      inv (checkpoint s) \<and> view (checkpoint s) = view s \<and> saved (checkpoint s) = view s # saved s"
    and commit_law: "inv s \<Longrightarrow> saved s \<noteq> [] \<Longrightarrow>
      inv (commit s) \<and> view (commit s) = view s \<and> saved (commit s) = tl (saved s)"
    and revert_law: "inv s \<Longrightarrow> saved s \<noteq> [] \<Longrightarrow>
      inv (revert s) \<and> view (revert s) = hd (saved s) \<and> saved (revert s) = tl (saved s)"
    and op_law: "inv s \<Longrightarrow> op s s' \<Longrightarrow> inv s' \<and> saved s' = saved s"
begin

text \<open>Balanced runs: operations, and frames that are committed or reverted.\<close>

inductive run :: "'s \<Rightarrow> 's \<Rightarrow> bool" where
  idle: "run s s"
| operation: "run s s1 \<Longrightarrow> op s1 s2 \<Longrightarrow> run s s2"
| committed: "run s s1 \<Longrightarrow> run (checkpoint s1) s2 \<Longrightarrow> run s (commit s2)"
| reverted: "run s s1 \<Longrightarrow> run (checkpoint s1) s2 \<Longrightarrow> run s (revert s2)"

lemma run_trans: "run s1 s2 \<Longrightarrow> run s s1 \<Longrightarrow> run s s2"
  by (induction rule: run.induct) (auto intro: run.intros)

lemma run_keeps: "run s s' \<Longrightarrow> inv s \<Longrightarrow> inv s' \<and> saved s' = saved s"
proof (induction rule: run.induct)
  case (operation s s1 s2)
  then show ?case using op_law by metis
next
  case (committed s s1 s2)
  then show ?case using checkpoint_law [of s1] commit_law [of s2] by simp
next
  case (reverted s s1 s2)
  then show ?case using checkpoint_law [of s1] revert_law [of s2] by simp
qed simp

lemma revert_restores: "inv s \<Longrightarrow> run (checkpoint s) s' \<Longrightarrow>
  inv (revert s') \<and> view (revert s') = view s \<and> saved (revert s') = saved s"
  using run_keeps [of "checkpoint s" s'] checkpoint_law [of s] revert_law [of s'] by simp

lemma commit_keeps: "inv s \<Longrightarrow> run (checkpoint s) s' \<Longrightarrow>
  inv (commit s') \<and> view (commit s') = view s' \<and> saved (commit s') = saved s"
  using run_keeps [of "checkpoint s" s'] checkpoint_law [of s] commit_law [of s'] by simp

end

text \<open>
  Running a client's script against an instance: the calls, with their bracketing explicit.
\<close>

datatype 'c script = Do 'c | Frame "'c script list" bool

fun play :: "('s \<Rightarrow> 's) \<Rightarrow> ('s \<Rightarrow> 's) \<Rightarrow> ('s \<Rightarrow> 's) \<Rightarrow> ('c \<Rightarrow> 's \<Rightarrow> 's) \<Rightarrow> 'c script \<Rightarrow> 's \<Rightarrow> 's"
  and plays :: "('s \<Rightarrow> 's) \<Rightarrow> ('s \<Rightarrow> 's) \<Rightarrow> ('s \<Rightarrow> 's) \<Rightarrow> ('c \<Rightarrow> 's \<Rightarrow> 's) \<Rightarrow> 'c script list \<Rightarrow> 's \<Rightarrow> 's" where
  "play cp cm rv f (Do c) s = f c s"
| "play cp cm rv f (Frame scs keep) s =
     (let s' = plays cp cm rv f scs (cp s) in if keep then cm s' else rv s')"
| "plays cp cm rv f [] s = s"
| "plays cp cm rv f (sc # scs) s = plays cp cm rv f scs (play cp cm rv f sc s)"

text \<open>
  What such a script means to a client whose calls act on a plain value: a committed frame acts
  as its calls do, a reverted one not at all.
\<close>

fun spec_play :: "('c \<Rightarrow> 'v \<Rightarrow> 'v) \<Rightarrow> 'c script \<Rightarrow> 'v \<Rightarrow> 'v"
  and spec_plays :: "('c \<Rightarrow> 'v \<Rightarrow> 'v) \<Rightarrow> 'c script list \<Rightarrow> 'v \<Rightarrow> 'v" where
  "spec_play g (Do c) v = g c v"
| "spec_play g (Frame scs keep) v = (if keep then spec_plays g scs v else v)"
| "spec_plays g [] v = v"
| "spec_plays g (sc # scs) v = spec_plays g scs (spec_play g sc v)"

context checkpointed begin

lemma play_run:
  assumes "\<And>c s. inv s \<Longrightarrow> op s (f c s)" and "inv s"
  shows "run s (play checkpoint commit revert f sc s)"
  using assms(2)
proof (induction sc arbitrary: s)
  case (Do c)
  then show ?case using run.operation [OF run.idle assms(1)] by simp
next
  case (Frame scs keep)
  let ?plays = "plays checkpoint commit revert f"
  have "run t (?plays scs' t)" if "set scs' \<subseteq> set scs" "inv t" for scs' t
    using that
  proof (induction scs' arbitrary: t rule: rev_induct)
    case (snoc sc scs')
    have app: "?plays (scs' @ [sc]) t = play checkpoint commit revert f sc (?plays scs' t)"
      for scs' sc t
      by (induction scs' arbitrary: t) simp_all
    have r: "run t (?plays scs' t)" using snoc by simp
    then have "inv (?plays scs' t)" using run_keeps snoc.prems by blast
    then have "run (?plays scs' t) (play checkpoint commit revert f sc (?plays scs' t))"
      using Frame.IH snoc.prems by simp
    then show ?case using run_trans r app by simp
  qed (auto intro: run.idle)
  then have "run (checkpoint s) (?plays scs (checkpoint s))"
    using checkpoint_law Frame.prems by blast
  then show ?case using committed [OF idle] reverted [OF idle] by (simp add: Let_def)
qed

lemma plays_run:
  assumes "\<And>c s. inv s \<Longrightarrow> op s (f c s)" and "inv s"
  shows "run s (plays checkpoint commit revert f scs s)"
  using assms(2)
proof (induction scs arbitrary: s)
  case (Cons sc scs)
  have r: "run s (play checkpoint commit revert f sc s)" by (rule play_run [OF assms(1) Cons.prems])
  then have "inv (play checkpoint commit revert f sc s)" using run_keeps Cons.prems by blast
  then show ?case using run_trans [OF Cons.IH r] by simp
qed (auto intro: run.idle)

text \<open>A frame that ends in a revert leaves no trace, whatever its script did.\<close>

lemma reverted_frame:
  assumes "\<And>c s. inv s \<Longrightarrow> op s (f c s)" and "inv s"
  shows "inv (play checkpoint commit revert f (Frame scs False) s) \<and>
    view (play checkpoint commit revert f (Frame scs False) s) = view s \<and>
    saved (play checkpoint commit revert f (Frame scs False) s) = saved s"
proof -
  have cp: "inv (checkpoint s)" using checkpoint_law assms(2) by blast
  show ?thesis using revert_restores [OF assms(2) plays_run [OF assms(1) cp]] by (simp add: Let_def)
qed

lemma played_inv:
  assumes "\<And>c s. inv s \<Longrightarrow> op s (f c s)" and "inv s"
  shows "inv (play checkpoint commit revert f sc s)"
  by (rule conjunct1 [OF run_keeps [OF play_run [OF assms(1) assms(2)] assms(2)]])

text \<open>
  Refinement: when every call in \<open>A\<close> acts on the projected view as \<open>g\<close> says, as long as \<open>P\<close> holds
  of it, so does every script of such calls.
\<close>

lemma plays_refine_list:
  assumes "\<And>c s. inv s \<Longrightarrow> op s (f c s)"
    and "\<And>sc s. sc \<in> set scs \<Longrightarrow> inv s \<Longrightarrow> P (p (view s)) \<Longrightarrow>
      p (view (play checkpoint commit revert f sc s)) = spec_play g sc (p (view s)) \<and> P (spec_play g sc (p (view s)))"
  shows "inv s \<Longrightarrow> P (p (view s)) \<Longrightarrow>
    p (view (plays checkpoint commit revert f scs s)) = spec_plays g scs (p (view s)) \<and> P (spec_plays g scs (p (view s)))"
  using assms(2)
proof (induction scs arbitrary: s)
  case (Cons sc scs)
  let ?s = "play checkpoint commit revert f sc s"
  have "p (view ?s) = spec_play g sc (p (view s)) \<and> P (spec_play g sc (p (view s)))"
    by (rule Cons.prems(3)) (use Cons.prems in auto)
  moreover have "inv ?s" by (rule played_inv [OF assms(1) Cons.prems(1)])
  ultimately show ?case using Cons.IH [of ?s] Cons.prems(3) by simp
qed simp

lemma play_refines:
  assumes "\<And>c s. inv s \<Longrightarrow> op s (f c s)"
    and "\<And>c s. c \<in> A \<Longrightarrow> inv s \<Longrightarrow> P (p (view s)) \<Longrightarrow> p (view (f c s)) = g c (p (view s)) \<and> P (g c (p (view s)))"
  shows "set_script sc \<subseteq> A \<Longrightarrow> inv s \<Longrightarrow> P (p (view s)) \<Longrightarrow>
    p (view (play checkpoint commit revert f sc s)) = spec_play g sc (p (view s)) \<and> P (spec_play g sc (p (view s)))"
proof (induction sc arbitrary: s)
  case (Do c)
  then show ?case using assms(2) by simp
next
  case (Frame scs keep)
  have cp: "inv (checkpoint s)" "view (checkpoint s) = view s" using checkpoint_law Frame.prems by auto
  let ?s = "plays checkpoint commit revert f scs (checkpoint s)"
  have r: "run (checkpoint s) ?s" by (rule plays_run [OF assms(1) cp(1)])
  have "p (view ?s) = spec_plays g scs (p (view (checkpoint s))) \<and> P (spec_plays g scs (p (view (checkpoint s))))"
  proof (rule plays_refine_list [OF assms(1) _ cp(1)])
    fix sc s assume "sc \<in> set scs" "inv s" "P (p (view s))"
    then show "p (view (play checkpoint commit revert f sc s)) = spec_play g sc (p (view s)) \<and> P (spec_play g sc (p (view s)))"
      using Frame.IH Frame.prems(1) by auto
  qed (use Frame.prems cp in auto)
  then show ?case
    using commit_keeps [OF Frame.prems(2) r] revert_restores [OF Frame.prems(2) r] Frame.prems cp by (simp add: Let_def)
qed

lemma plays_refine:
  assumes "\<And>c s. inv s \<Longrightarrow> op s (f c s)"
    and "\<And>c s. c \<in> A \<Longrightarrow> inv s \<Longrightarrow> P (p (view s)) \<Longrightarrow> p (view (f c s)) = g c (p (view s)) \<and> P (g c (p (view s)))"
    and "\<And>sc. sc \<in> set scs \<Longrightarrow> set_script sc \<subseteq> A" and "inv s" and "P (p (view s))"
  shows "p (view (plays checkpoint commit revert f scs s)) = spec_plays g scs (p (view s)) \<and> P (spec_plays g scs (p (view s)))"
  by (rule plays_refine_list [where f = f and P = P and p = p and g = g, OF assms(1)
      play_refines [where f = f and A = A and P = P and p = p and g = g, OF assms(1,2)] assms(4,5)])
    (use assms(3) in auto)

end

end
