(* ===== verification/TransientStorage.thy ===== *)
theory TransientStorage
  imports Checkpoints Bytes
begin

text \<open>
  Transient storage, \<^verbatim>\<open>packages/evm/src/transientStorage.ts\<close>: current values by address and
  slot, a journal of previous values, and the journal length at each open checkpoint (one is
  open from the start). It is an instance of \<open>checkpointed\<close>: \<open>revert\<close> undoes the journal back to
  the last checkpoint.
\<close>

section \<open>Operations\<close>

record modification =
  md_addr :: string
  md_key :: string
  md_prev :: bytes

record transient =
  ts_storage :: "(string \<times> (string \<times> bytes) list) list"
  ts_changeJournal :: "modification list"
  ts_indices :: "nat list"

type_synonym 'a ts_op = "(transient, js_error, 'a) eff"

definition new_transient :: transient where
  "new_transient = \<lparr>ts_storage = [], ts_changeJournal = [], ts_indices = [0]\<rparr>"

definition ts_get :: "noble \<Rightarrow> bytes \<Rightarrow> bytes \<Rightarrow> transient \<Rightarrow> bytes" where
  "ts_get N addr key s = (case map_of (ts_storage s) (bytesToHex N addr) of
     None \<Rightarrow> replicate 32 0
   | Some m \<Rightarrow> (case map_of m (bytesToHex N key) of
       None \<Rightarrow> replicate 32 0
     | Some v \<Rightarrow> v))"

definition ts_put :: "noble \<Rightarrow> bytes \<Rightarrow> bytes \<Rightarrow> bytes \<Rightarrow> unit ts_op" where
  "ts_put N addr key value =
     (if length key \<noteq> 32
      then raise (EthereumJSError ''Transient storage key must be 32 bytes long'')
      else if length value > 32
      then raise (EthereumJSError ''Transient storage value cannot be longer than 32 bytes'')
      else updE (\<lambda>s.
        let addrString = bytesToHex N addr;
            storage0 = (if map_of (ts_storage s) addrString = None
                        then obj_set addrString [] (ts_storage s) else ts_storage s);
            m = the (map_of storage0 addrString);
            keyStr = bytesToHex N key;
            prevValue = (case map_of m keyStr of Some v \<Rightarrow> v | None \<Rightarrow> replicate 32 0) in
        s\<lparr>ts_changeJournal := ts_changeJournal s @
             [\<lparr>md_addr = addrString, md_key = keyStr, md_prev = prevValue\<rparr>],
          ts_storage := obj_set addrString (obj_set keyStr value m) storage0\<rparr>))"

definition ts_commit :: "unit ts_op" where
  "ts_commit = seqE (getE ts_indices) (\<lambda>ix.
     if ix = [] then raise (EthereumJSError ''Nothing to commit'')
     else updE (ts_indices_update butlast))"

definition ts_checkpoint :: "unit ts_op" where
  "ts_checkpoint = updE (\<lambda>s. s\<lparr>ts_indices := ts_indices s @ [length (ts_changeJournal s)]\<rparr>)"

text \<open>One step of the loop of \<open>revert\<close>, and the loop from the end down to the checkpoint.\<close>

definition undo_put :: "modification \<Rightarrow> (string \<times> (string \<times> bytes) list) list \<Rightarrow>
    (string \<times> (string \<times> bytes) list) list" where
  "undo_put md st = obj_set (md_addr md) (obj_set (md_key md) (md_prev md) (the (map_of st (md_addr md)))) st"

definition ts_revert :: "unit ts_op" where
  "ts_revert = seqE (getE ts_indices) (\<lambda>ix.
     if ix = [] then raise (EthereumJSError ''Nothing to revert'')
     else updE (\<lambda>s. let lastCheckpoint = last ix in
       s\<lparr>ts_indices := butlast ix,
         ts_storage := foldl (\<lambda>st md. undo_put md st) (ts_storage s)
            (rev (drop lastCheckpoint (ts_changeJournal s))),
         ts_changeJournal := take lastCheckpoint (ts_changeJournal s)\<rparr>))"

definition ts_toJSON :: "noble \<Rightarrow> transient \<Rightarrow> (string \<times> (string \<times> string) list) list" where
  "ts_toJSON N s = map (\<lambda>(a, m). (a, map (\<lambda>(k, v). (k, bytesToHex N v)) m)) (ts_storage s)"

definition ts_clear :: "unit ts_op" where
  "ts_clear = updE (\<lambda>s. s\<lparr>ts_storage := [], ts_changeJournal := []\<rparr>)"

section \<open>The view and the saved views\<close>

type_synonym ts_view = "string \<Rightarrow> string \<Rightarrow> bytes"

definition storage_view :: "(string \<times> (string \<times> bytes) list) list \<Rightarrow> ts_view" where
  "storage_view st a k = (case map_of st a of None \<Rightarrow> replicate 32 0
     | Some m \<Rightarrow> (case map_of m k of None \<Rightarrow> replicate 32 0 | Some v \<Rightarrow> v))"

definition undo_view :: "ts_view \<Rightarrow> modification \<Rightarrow> ts_view" where
  "undo_view f md = (\<lambda>a k. if a = md_addr md \<and> k = md_key md then md_prev md else f a k)"

definition undone :: "transient \<Rightarrow> nat \<Rightarrow> ts_view" where
  "undone s i = foldl undo_view (storage_view (ts_storage s)) (rev (drop i (ts_changeJournal s)))"

definition ts_view :: "transient \<Rightarrow> ts_view" where
  "ts_view s = storage_view (ts_storage s)"

definition ts_saved :: "transient \<Rightarrow> ts_view list" where
  "ts_saved s = map (undone s) (rev (ts_indices s))"

definition ts_inv :: "transient \<Rightarrow> bool" where
  "ts_inv s \<longleftrightarrow> sorted (ts_indices s) \<and> (\<forall>i \<in> set (ts_indices s). i \<le> length (ts_changeJournal s)) \<and>
     (\<forall>md \<in> set (ts_changeJournal s). map_of (ts_storage s) (md_addr md) \<noteq> None)"

lemma ts_get_view: "ts_get N addr key s = ts_view s (bytesToHex N addr) (bytesToHex N key)"
  by (simp add: ts_get_def ts_view_def storage_view_def)

lemma undo_put_view: "map_of st (md_addr md) \<noteq> None \<Longrightarrow>
  storage_view (undo_put md st) = undo_view (storage_view st) md"
  by (auto simp: fun_eq_iff storage_view_def undo_put_def undo_view_def split: option.splits)

lemma undo_put_dom: "map_of (undo_put md st) a = None \<longleftrightarrow> map_of st a = None \<and> a \<noteq> md_addr md"
  by (simp add: undo_put_def)

lemma undo_puts_view: "\<forall>md \<in> set mds. map_of st (md_addr md) \<noteq> None \<Longrightarrow>
  storage_view (foldl (\<lambda>st md. undo_put md st) st mds) = foldl undo_view (storage_view st) mds \<and>
  (\<forall>a. map_of st a \<noteq> None \<longrightarrow> map_of (foldl (\<lambda>st md. undo_put md st) st mds) a \<noteq> None)"
proof (induction mds arbitrary: st)
  case (Cons md mds)
  then have "\<forall>md' \<in> set mds. map_of (undo_put md st) (md_addr md') \<noteq> None"
    by (simp add: undo_put_dom)
  from Cons.IH [OF this] Cons.prems show ?case
    by (simp add: undo_put_view) (simp add: undo_put_def)
qed simp

lemma rev_drop_split: "i \<le> j \<Longrightarrow> j \<le> length xs \<Longrightarrow>
  rev (drop i xs) = rev (drop j xs) @ rev (drop i (take j xs))"
  by (metis append_take_drop_id drop_append rev_append length_take min.absorb2 diff_is_0_eq drop_0)

lemma ts_checkpoint_law: "ts_inv s \<Longrightarrow> (\<lambda>s'. ts_inv s' \<and> ts_view s' = ts_view s \<and>
  ts_saved s' = ts_view s # ts_saved s) (snd (ts_checkpoint s))"
  by (auto simp: ts_checkpoint_def ts_inv_def ts_view_def ts_saved_def undone_def sorted_append)

lemma sorted_butlast_le: "sorted ix \<Longrightarrow> ix \<noteq> [] \<Longrightarrow> i \<in> set (butlast ix) \<Longrightarrow> i \<le> last ix"
  by (metis append_butlast_last_id sorted_append list.set_intros(1))

lemma ts_commit_law: "ts_inv s \<Longrightarrow> ts_saved s \<noteq> [] \<Longrightarrow> (\<lambda>s'. ts_inv s' \<and> ts_view s' = ts_view s \<and>
  ts_saved s' = tl (ts_saved s)) (snd (ts_commit s))"
  by (cases "ts_indices s" rule: rev_cases)
    (auto simp: ts_commit_def seqE_run ts_inv_def ts_view_def ts_saved_def undone_def sorted_append)

lemma ts_revert_law:
  assumes "ts_inv s" and "ts_saved s \<noteq> []"
  shows "(\<lambda>s'. ts_inv s' \<and> ts_view s' = hd (ts_saved s) \<and> ts_saved s' = tl (ts_saved s)) (snd (ts_revert s))"
proof -
  obtain ix l where ix: "ts_indices s = ix @ [l]"
    using assms(2) by (cases "ts_indices s" rule: rev_cases) (auto simp: ts_saved_def)
  let ?J = "ts_changeJournal s"
  have l: "l \<le> length ?J" "\<forall>i \<in> set ix. i \<le> l" "sorted ix"
    using assms(1) ix by (auto simp: ts_inv_def sorted_append)
  define st where "st = foldl (\<lambda>st md. undo_put md st) (ts_storage s) (rev (drop l ?J))"
  have dom: "\<forall>md \<in> set (rev (drop l ?J)). map_of (ts_storage s) (md_addr md) \<noteq> None"
    using assms(1) by (auto simp: ts_inv_def dest: in_set_dropD)
  have st: "storage_view st = undone s l" "\<forall>a. map_of (ts_storage s) a \<noteq> None \<longrightarrow> map_of st a \<noteq> None"
    using undo_puts_view [OF dom] by (simp_all add: st_def undone_def)
  have run: "snd (ts_revert s) = s\<lparr>ts_indices := ix, ts_storage := st, ts_changeJournal := take l ?J\<rparr>"
    using ix by (simp add: ts_revert_def seqE_run st_def Let_def)
  have "undone (snd (ts_revert s)) i = undone s i" if "i \<in> set ix" for i
    using that l st(1) rev_drop_split [of i l ?J] by (simp add: run undone_def)
  then show ?thesis
    using assms(1) ix l st by (auto simp: run ts_inv_def ts_view_def ts_saved_def dest: in_set_takeD)
qed

lemma ts_put_law:
  assumes "ts_inv s"
  shows "ts_inv (snd (ts_put N addr key value s)) \<and> ts_saved (snd (ts_put N addr key value s)) = ts_saved s"
proof (cases "length key = 32 \<and> length value \<le> 32")
  case True
  let ?a = "bytesToHex N addr" and ?k = "bytesToHex N key"
  define st0 where "st0 = (if map_of (ts_storage s) ?a = None then obj_set ?a [] (ts_storage s) else ts_storage s)"
  define m where "m = the (map_of st0 ?a)"
  define md where "md = \<lparr>md_addr = ?a, md_key = ?k,
      md_prev = (case map_of m ?k of Some v \<Rightarrow> v | None \<Rightarrow> replicate 32 0)\<rparr>"
  define st1 where "st1 = obj_set ?a (obj_set ?k value m) st0"
  have run: "snd (ts_put N addr key value s) =
      s\<lparr>ts_changeJournal := ts_changeJournal s @ [md], ts_storage := st1\<rparr>"
    using True by (simp add: ts_put_def Let_def st0_def m_def md_def st1_def)
  have undo: "undo_view (storage_view st1) md = storage_view (ts_storage s)"
    by (auto simp: fun_eq_iff undo_view_def storage_view_def st1_def md_def m_def st0_def split: option.splits)
  have "undone (snd (ts_put N addr key value s)) i = undone s i" if "i \<in> set (ts_indices s)" for i
    using that assms undo by (simp add: run undone_def ts_inv_def)
  moreover have "map_of st1 a = None \<longleftrightarrow> map_of (ts_storage s) a = None \<and> a \<noteq> ?a" for a
    by (simp add: st1_def st0_def)
  then have "ts_inv (snd (ts_put N addr key value s))"
    using assms by (auto simp: run ts_inv_def md_def)
  ultimately show ?thesis using run by (simp add: ts_saved_def)
qed (use assms in \<open>auto simp: ts_put_def\<close>)

definition ts_put_step :: "transient \<Rightarrow> transient \<Rightarrow> bool" where
  "ts_put_step s s' \<longleftrightarrow> (\<exists>N addr key value. s' = snd (ts_put N addr key value s))"

interpretation ts: checkpointed ts_inv ts_view ts_saved "\<lambda>s. snd (ts_checkpoint s)"
  "\<lambda>s. snd (ts_commit s)" "\<lambda>s. snd (ts_revert s)" ts_put_step
proof unfold_locales
  fix s s' assume "ts_inv s" "ts_put_step s s'"
  then show "ts_inv s' \<and> ts_saved s' = ts_saved s" using ts_put_law by (auto simp: ts_put_step_def)
qed (use ts_checkpoint_law ts_commit_law ts_revert_law in simp_all)

section \<open>Correctness\<close>

text \<open>The script of a client: puts of a value at an address and a slot, in nested frames.\<close>

definition ts_do :: "noble \<Rightarrow> bytes \<times> bytes \<times> bytes \<Rightarrow> transient \<Rightarrow> transient" where
  "ts_do N c s = (case c of (addr, key, value) \<Rightarrow> snd (ts_put N addr key value s))"

definition ts_play :: "noble \<Rightarrow> (bytes \<times> bytes \<times> bytes) script list \<Rightarrow> transient \<Rightarrow> transient" where
  "ts_play N scs s = plays (\<lambda>s. snd (ts_checkpoint s)) (\<lambda>s. snd (ts_commit s)) (\<lambda>s. snd (ts_revert s)) (ts_do N) scs s"

lemma ts_do_step: "ts_put_step s (ts_do N c s)"
  by (cases c) (auto simp: ts_do_def ts_put_step_def)

lemma new_transient_inv: "ts_inv new_transient"
  by (simp add: ts_inv_def new_transient_def)

lemma ts_play_inv: "ts_inv s \<Longrightarrow> ts_inv (ts_play N scs s)"
  unfolding ts_play_def
proof (induction scs arbitrary: s)
  case (Cons sc scs)
  then show ?case using ts.played_inv [where f = "ts_do N", OF ts_do_step Cons.prems] by simp
qed simp

lemma ts_get_put:
  assumes "noble_hex N" and "length key = 32" and "length value \<le> 32"
  shows "ts_get N a k (snd (ts_put N addr key value s)) = (if a = addr \<and> k = key then value else ts_get N a k s)"
  using assms(2, 3) noble_hex.bytesToHex_inj [OF assms(1)]
  by (auto simp: ts_put_def Let_def ts_get_def split: option.splits)

text \<open>
  C31. After any script of puts in nested frames that commit or revert, a further frame that
  reverts restores every value, one that commits keeps what it wrote, and a put is read back at
  its own address and slot only.
\<close>

theorem transient_storage_spec:
  assumes "noble_hex N" and "s = ts_play N scs new_transient"
  shows "ts_get N a k (ts_play N [Frame frame False] s) = ts_get N a k s \<and>
    ts_get N a k (ts_play N [Frame frame True] s) =
      ts_get N a k (ts_play N frame (snd (ts_checkpoint s))) \<and>
    (length key = 32 \<and> length v \<le> 32 \<longrightarrow>
      ts_get N a k (ts_play N [Do (addr, key, v)] s) =
        (if a = addr \<and> k = key then v else ts_get N a k s))"
proof -
  have inv: "ts_inv s" using ts_play_inv [OF new_transient_inv] assms(2) by simp
  have "ts_view (ts_play N [Frame frame False] s) = ts_view s"
    using ts.reverted_frame [where f = "ts_do N", OF ts_do_step inv] by (simp add: ts_play_def)
  moreover have "ts_view (snd (ts_commit t)) = ts_view t" for t
    by (simp add: ts_commit_def seqE_run ts_view_def)
  moreover have "ts_play N [Frame frame True] s = snd (ts_commit (ts_play N frame (snd (ts_checkpoint s))))"
    "ts_play N [Do (addr, key, v)] s = snd (ts_put N addr key v s)"
    by (simp_all add: ts_play_def ts_do_def)
  ultimately show ?thesis
    using ts_get_put [OF assms(1), of key v a k addr s] by (auto simp: ts_get_view)
qed

theorem transient_storage_spec_witness:
  "noble_hex rlp_noble \<and>
   ts_get rlp_noble [7] (replicate 32 1) (ts_play rlp_noble [Do ([7], replicate 32 1, [5])]
     (ts_play rlp_noble [] new_transient)) = [5]"
  using transient_storage_spec [where N = rlp_noble, OF rlp_hex.noble_hex_axioms refl, where scs = "[]" and a = "[7]" and addr = "[7]"
      and k = "replicate 32 1" and key = "replicate 32 1" and v = "[5]" and frame = "[]"]
    rlp_hex.noble_hex_axioms by simp

end
