(* ===== verification/Account.thy ===== *)
theory Account
  imports Bytes
begin

text \<open>
  The account of \<^verbatim>\<open>packages/util/src/account.ts\<close>: a class whose fields may be absent
  (\<open>null\<close>), its constructor with validation, the two RLP forms, the emptiness and contract
  tests, the slim form of the snap protocol, and the address helpers of the file that do not
  use the elliptic curve. The hash \<open>keccak_256\<close> is a parameter. Where the code casts a decoded
  item to bytes and the item is a list, the definitions give \<open>TypeError\<close>: such data is outside
  the types the code declares, and the engine coerces it in ways the model does not follow.
\<close>

section \<open>Data\<close>

text \<open>\<open>KECCAK256_NULL\<close> and \<open>KECCAK256_RLP\<close> of \<^verbatim>\<open>constants.ts\<close>.\<close>

definition KECCAK256_NULL :: bytes where
  "KECCAK256_NULL =
     [0xc5, 0xd2, 0x46, 0x01, 0x86, 0xf7, 0x23, 0x3c, 0x92, 0x7e, 0x7d, 0xb2, 0xdc, 0xc7, 0x03, 0xc0,
      0xe5, 0x00, 0xb6, 0x53, 0xca, 0x82, 0x27, 0x3b, 0x7b, 0xfa, 0xd8, 0x04, 0x5d, 0x85, 0xa4, 0x70]"

definition KECCAK256_RLP :: bytes where
  "KECCAK256_RLP =
     [0x56, 0xe8, 0x1f, 0x17, 0x1b, 0xcc, 0x55, 0xa6, 0xff, 0x83, 0x45, 0xe6, 0x92, 0xc0, 0xf8, 0x6e,
      0x5b, 0x48, 0xe0, 0x1b, 0x99, 0x6c, 0xad, 0xc0, 0x01, 0x62, 0x2f, 0xb5, 0xe3, 0x63, 0xb4, 0x21]"

record account =
  acc_nonce :: "int option"
  acc_balance :: "int option"
  acc_storageRoot :: "bytes option"
  acc_codeHash :: "bytes option"
  acc_codeSize :: "int option"
  acc_version :: "int option"

text \<open>An argument that may be left out (\<open>undefined\<close>), be \<open>null\<close>, or be given.\<close>

datatype 'a arg = Undef | Null | Given 'a

fun arg_default :: "'a \<Rightarrow> 'a arg \<Rightarrow> 'a option" where
  "arg_default d Undef = Some d"
| "arg_default d Null = None"
| "arg_default d (Given x) = Some x"

fun arg_map :: "('a \<Rightarrow> 'b res) \<Rightarrow> 'a arg \<Rightarrow> 'b arg res" where
  "arg_map f Undef = Inr Undef"
| "arg_map f Null = Inr Null"
| "arg_map f (Given x) = and_then (f x) (\<lambda>y. Inr (Given y))"

section \<open>Getters\<close>

definition not_loaded :: "string \<Rightarrow> 'a option \<Rightarrow> 'a res" where
  "not_loaded name v = (case v of None \<Rightarrow> Inl (PlainError name) | Some x \<Rightarrow> Inr x)"

definition get_version :: "account \<Rightarrow> int res" where
  "get_version a = not_loaded ''version='' (acc_version a)"

definition get_nonce :: "account \<Rightarrow> int res" where
  "get_nonce a = not_loaded ''nonce='' (acc_nonce a)"

definition get_balance :: "account \<Rightarrow> int res" where
  "get_balance a = not_loaded ''balance='' (acc_balance a)"

definition get_storageRoot :: "account \<Rightarrow> bytes res" where
  "get_storageRoot a = not_loaded ''storageRoot='' (acc_storageRoot a)"

definition get_codeHash :: "account \<Rightarrow> bytes res" where
  "get_codeHash a = not_loaded ''codeHash='' (acc_codeHash a)"

definition get_codeSize :: "account \<Rightarrow> int res" where
  "get_codeSize a = not_loaded ''codeSize='' (acc_codeSize a)"

section \<open>Tests and the constructor\<close>

definition isContract :: "account \<Rightarrow> bool res" where
  "isContract a =
     (if acc_codeHash a = None \<and> acc_codeSize a = None
      then Inl (PlainError ''Insufficient data as codeHash=null and codeSize=null'')
      else Inr ((case acc_codeHash a of None \<Rightarrow> False | Some h \<Rightarrow> \<not> equalsBytes h KECCAK256_NULL)
        \<or> (case acc_codeSize a of None \<Rightarrow> False | Some n \<Rightarrow> n \<noteq> 0)))"

text \<open>\<open>\<and>\<close> of the code evaluates its right side, and throws there, only after a true left side.\<close>

definition isEmpty :: "account \<Rightarrow> bool res" where
  "isEmpty a =
     (if (case acc_balance a of None \<Rightarrow> False | Some b \<Rightarrow> b \<noteq> 0) \<or>
         (case acc_nonce a of None \<Rightarrow> False | Some n \<Rightarrow> n \<noteq> 0) \<or>
         (case acc_codeHash a of None \<Rightarrow> False | Some h \<Rightarrow> \<not> equalsBytes h KECCAK256_NULL)
      then Inr False
      else and_then (get_balance a) (\<lambda>b. if b \<noteq> 0 then Inr False
        else and_then (get_nonce a) (\<lambda>n. if n \<noteq> 0 then Inr False
        else and_then (get_codeHash a) (\<lambda>h. Inr (equalsBytes h KECCAK256_NULL)))))"

definition validate :: "account \<Rightarrow> unit res" where
  "validate a =
     (if (case acc_nonce a of None \<Rightarrow> False | Some n \<Rightarrow> n < 0)
      then Inl (EthereumJSError ''nonce must be greater than zero'')
      else if (case acc_balance a of None \<Rightarrow> False | Some b \<Rightarrow> b < 0)
      then Inl (EthereumJSError ''balance must be greater than zero'')
      else if (case acc_storageRoot a of None \<Rightarrow> False | Some r \<Rightarrow> length r \<noteq> 32)
      then Inl (EthereumJSError ''storageRoot must have a length of 32'')
      else if (case acc_codeHash a of None \<Rightarrow> False | Some h \<Rightarrow> length h \<noteq> 32)
      then Inl (EthereumJSError ''codeHash must have a length of 32'')
      else if (case acc_codeSize a of None \<Rightarrow> False | Some n \<Rightarrow> n < 0)
      then Inl (EthereumJSError ''codeSize must be greater than zero'')
      else Inr ())"

text \<open>
  The constructor asks \<open>isContract\<close> before it has set \<open>_codeSize\<close>, which is still the
  \<open>null\<close> of the field's declaration.
\<close>

definition newAccount :: "int arg \<Rightarrow> int arg \<Rightarrow> bytes arg \<Rightarrow> bytes arg \<Rightarrow> int arg \<Rightarrow> int arg \<Rightarrow> account res" where
  "newAccount nonce balance storageRoot codeHash codeSize version =
     (let a = \<lparr>acc_nonce = arg_default 0 nonce, acc_balance = arg_default 0 balance,
               acc_storageRoot = arg_default KECCAK256_RLP storageRoot,
               acc_codeHash = arg_default KECCAK256_NULL codeHash,
               acc_codeSize = None, acc_version = None\<rparr>;
          size0 = arg_default 0 codeSize in
      and_then (if size0 = None \<and> acc_codeHash a \<noteq> None
                then and_then (isContract a) (\<lambda>c. Inr (if \<not> c then Some 0 else size0))
                else Inr size0) (\<lambda>size1.
      let a = a\<lparr>acc_codeSize := size1, acc_version := arg_default 0 version\<rparr> in
      and_then (validate a) (\<lambda>_. Inr a)))"

section \<open>Serialization\<close>

definition raw :: "noble \<Rightarrow> account \<Rightarrow> bytes list res" where
  "raw N a = and_then (get_nonce a) (\<lambda>n. and_then (bigIntToUnpaddedBytes N n) (\<lambda>nb.
     and_then (get_balance a) (\<lambda>b. and_then (bigIntToUnpaddedBytes N b) (\<lambda>bb.
     and_then (get_storageRoot a) (\<lambda>r. and_then (get_codeHash a) (\<lambda>h.
       Inr [nb, bb, r, h]))))))"

definition serialize :: "noble \<Rightarrow> account \<Rightarrow> bytes res" where
  "serialize N a = and_then (raw N a) (\<lambda>bs. encode (InArray (map InBytes bs)))"

text \<open>One entry of the partial form: the indicator and, when present, the value.\<close>

definition partial_entry :: "bytes \<Rightarrow> bytes \<Rightarrow> ('a \<Rightarrow> bytes res) \<Rightarrow> 'a option \<Rightarrow> rlp_input res" where
  "partial_entry zeroEncoded oneEncoded f v = (case v of
     Some x \<Rightarrow> and_then (f x) (\<lambda>b. Inr (InArray [InBytes oneEncoded, InBytes b]))
   | None \<Rightarrow> Inr (InArray [InBytes zeroEncoded]))"

definition serializeWithPartialInfo :: "noble \<Rightarrow> account \<Rightarrow> bytes res" where
  "serializeWithPartialInfo N a =
     and_then (intToUnpaddedBytes N 0) (\<lambda>z. and_then (intToUnpaddedBytes N 1) (\<lambda>one.
     and_then (partial_entry z one (bigIntToUnpaddedBytes N) (acc_nonce a)) (\<lambda>e1.
     and_then (partial_entry z one (bigIntToUnpaddedBytes N) (acc_balance a)) (\<lambda>e2.
     and_then (partial_entry z one Inr (acc_storageRoot a)) (\<lambda>e3.
     and_then (partial_entry z one Inr (acc_codeHash a)) (\<lambda>e4.
     and_then (partial_entry z one (intToUnpaddedBytes N) (acc_codeSize a)) (\<lambda>e5.
     and_then (partial_entry z one (intToUnpaddedBytes N) (acc_version a)) (\<lambda>e6.
       encode (InArray [e1, e2, e3, e4, e5, e6])))))))))"

section \<open>Factories\<close>

definition bigint_field :: "noble \<Rightarrow> toBytes_input \<Rightarrow> int res" where
  "bigint_field N v = and_then (toBytes N v) (\<lambda>b. bytesToBigInt N b False)"

definition int_field :: "noble \<Rightarrow> toBytes_input \<Rightarrow> int res" where
  "int_field N v = and_then (toBytes N v) (bytesToInt N)"

definition createAccount :: "noble \<Rightarrow> toBytes_input arg \<Rightarrow> toBytes_input arg \<Rightarrow> toBytes_input arg \<Rightarrow>
    toBytes_input arg \<Rightarrow> account res" where
  "createAccount N nonce balance storageRoot codeHash =
     (if nonce = Null \<or> balance = Null \<or> storageRoot = Null \<or> codeHash = Null
      then Inl (PlainError ''Partial fields not supported in fromAccountData'')
      else and_then (arg_map (bigint_field N) nonce) (\<lambda>n.
        and_then (arg_map (bigint_field N) balance) (\<lambda>b.
        and_then (arg_map (toBytes N) storageRoot) (\<lambda>r.
        and_then (arg_map (toBytes N) codeHash) (\<lambda>h.
          newAccount n b r h Undef Undef)))))"

definition createPartialAccount :: "noble \<Rightarrow> toBytes_input arg \<Rightarrow> toBytes_input arg \<Rightarrow> toBytes_input arg \<Rightarrow>
    toBytes_input arg \<Rightarrow> toBytes_input arg \<Rightarrow> toBytes_input arg \<Rightarrow> account res" where
  "createPartialAccount N nonce balance storageRoot codeHash codeSize version =
     (if nonce = Null \<and> balance = Null \<and> storageRoot = Null \<and> codeHash = Null \<and>
         codeSize = Null \<and> version = Null
      then Inl (PlainError ''All partial fields null'')
      else and_then (arg_map (bigint_field N) nonce) (\<lambda>n.
        and_then (arg_map (bigint_field N) balance) (\<lambda>b.
        and_then (arg_map (toBytes N) storageRoot) (\<lambda>r.
        and_then (arg_map (toBytes N) codeHash) (\<lambda>h.
        and_then (arg_map (int_field N) codeSize) (\<lambda>s.
        and_then (arg_map (int_field N) version) (\<lambda>v.
          newAccount n b r h s v)))))))"

text \<open>
  Reading past the end of a decoded list gives \<open>undefined\<close>: \<open>bytesToBigInt(undefined)\<close> throws,
  while the constructor replaces it by the default.
\<close>

fun nested_bytes :: "nested \<Rightarrow> bytes res" where
  "nested_bytes (NBytes b) = Inr b"
| "nested_bytes (NArray xs) = Inl TypeError"

definition read_at :: "'a list \<Rightarrow> nat \<Rightarrow> 'a arg" where
  "read_at xs i = (if i < length xs then Given (xs ! i) else Undef)"

fun arg_bigint :: "noble \<Rightarrow> nested arg \<Rightarrow> int arg res" where
  "arg_bigint N (Given x) = and_then (nested_bytes x) (\<lambda>b.
     and_then (bytesToBigInt N b False) (\<lambda>i. Inr (Given i)))"
| "arg_bigint N _ = Inl TypeError"

definition createAccountFromBytesArray :: "noble \<Rightarrow> nested list \<Rightarrow> account res" where
  "createAccountFromBytesArray N values =
     and_then (arg_bigint N (read_at values 0)) (\<lambda>n.
     and_then (arg_bigint N (read_at values 1)) (\<lambda>b.
     and_then (arg_map nested_bytes (read_at values 2)) (\<lambda>r.
     and_then (arg_map nested_bytes (read_at values 3)) (\<lambda>h.
       newAccount n b r h Undef Undef))))"

definition createAccountFromRLP :: "noble \<Rightarrow> bytes \<Rightarrow> account res" where
  "createAccountFromRLP N serialized = and_then (decode (InBytes serialized) False) (\<lambda>out.
     case out of
       Data (NArray values) \<Rightarrow> createAccountFromBytesArray N values
     | _ \<Rightarrow> Inl (EthereumJSError ''Invalid serialized account input. Must be array''))"

fun handleNullIndicator :: "noble \<Rightarrow> nested \<Rightarrow> nested arg res" where
  "handleNullIndicator N (NBytes b) = Inl TypeError"
| "handleNullIndicator N (NArray []) = Inr Null"
| "handleNullIndicator N (NArray (x # xs)) =
     and_then (nested_bytes x) (\<lambda>b. and_then (bytesToInt N b) (\<lambda>nullIndicator.
       if nullIndicator = 0 then Inr Null
       else if nullIndicator > 1 then Inl (EthereumJSError ''Invalid isNullIndicator='')
       else if length (x # xs) < 2 then Inl (EthereumJSError ''Invalid values length='')
       else Inr (Given (xs ! 0))))"

fun res_map :: "('a \<Rightarrow> 'b res) \<Rightarrow> 'a list \<Rightarrow> 'b list res" where
  "res_map f [] = Inr []"
| "res_map f (x # xs) = and_then (f x) (\<lambda>y. and_then (res_map f xs) (\<lambda>ys. Inr (y # ys)))"

text \<open>\<open>raw === null ? null : convert(raw)\<close>, where a missing item is \<open>undefined\<close>.\<close>

definition partial_at :: "nested arg list \<Rightarrow> nat \<Rightarrow> nested arg" where
  "partial_at xs i = (if i < length xs then xs ! i else Undef)"

fun raw_number :: "(bytes \<Rightarrow> int res) \<Rightarrow> nested arg \<Rightarrow> int arg res" where
  "raw_number f Null = Inr Null"
| "raw_number f Undef = Inl TypeError"
| "raw_number f (Given x) = and_then (nested_bytes x) (\<lambda>b. and_then (f b) (\<lambda>i. Inr (Given i)))"

fun arg_input :: "('a \<Rightarrow> toBytes_input) \<Rightarrow> 'a arg \<Rightarrow> toBytes_input arg" where
  "arg_input f Undef = Undef"
| "arg_input f Null = Null"
| "arg_input f (Given x) = Given (f x)"

definition createPartialAccountFromRLP :: "noble \<Rightarrow> bytes \<Rightarrow> account res" where
  "createPartialAccountFromRLP N serialized = and_then (decode (InBytes serialized) False) (\<lambda>out.
     case out of
       Data (NArray values) \<Rightarrow>
         if \<not> list_all (\<lambda>v. case v of NArray _ \<Rightarrow> True | NBytes _ \<Rightarrow> False) values
         then Inl (EthereumJSError ''Invalid partial encoding. Each item must be an array'')
         else and_then (res_map (handleNullIndicator N) values) (\<lambda>raws.
           and_then (raw_number (\<lambda>b. bytesToBigInt N b False) (partial_at raws 0)) (\<lambda>nonce.
           and_then (raw_number (\<lambda>b. bytesToBigInt N b False) (partial_at raws 1)) (\<lambda>balance.
           and_then (raw_number (bytesToInt N) (partial_at raws 4)) (\<lambda>codeSize.
           and_then (raw_number (bytesToInt N) (partial_at raws 5)) (\<lambda>version.
           and_then (arg_map nested_bytes (partial_at raws 2)) (\<lambda>storageRoot.
           and_then (arg_map nested_bytes (partial_at raws 3)) (\<lambda>codeHash.
             createPartialAccount N (arg_input ToBigint nonce) (arg_input ToBigint balance)
               (arg_input ToUint8Array storageRoot) (arg_input ToUint8Array codeHash)
               (arg_input ToNumber codeSize) (arg_input ToNumber version))))))))
     | _ \<Rightarrow> Inl (EthereumJSError ''Invalid serialized account input. Must be array''))"

section \<open>Slim bodies\<close>

text \<open>\<open>AccountBodyBytes\<close>, a tuple of four byte strings.\<close>

type_synonym account_body = "bytes \<times> bytes \<times> bytes \<times> bytes"

fun accountBodyFromSlim :: "account_body \<Rightarrow> account_body" where
  "accountBodyFromSlim (nonce, balance, storageRoot, codeHash) =
     (nonce, balance, if length storageRoot = 0 then KECCAK256_RLP else storageRoot,
      if length codeHash = 0 then KECCAK256_NULL else codeHash)"

fun accountBodyToSlim :: "account_body \<Rightarrow> account_body" where
  "accountBodyToSlim (nonce, balance, storageRoot, codeHash) =
     (nonce, balance, if equalsBytes storageRoot KECCAK256_RLP then [] else storageRoot,
      if equalsBytes codeHash KECCAK256_NULL then [] else codeHash)"

definition accountBodyToRLP :: "account_body \<Rightarrow> bool \<Rightarrow> bytes res" where
  "accountBodyToRLP body couldBeSlim =
     (case (if couldBeSlim then accountBodyFromSlim body else body) of
        (nonce, balance, storageRoot, codeHash) \<Rightarrow>
          encode (InArray (map InBytes [nonce, balance, storageRoot, codeHash])))"

section \<open>Addresses\<close>

definition isValidAddress :: "string \<Rightarrow> bool" where
  "isValidAddress hexAddress =
     (take 2 hexAddress = ''0x'' \<and> length (drop 2 hexAddress) = 40 \<and> list_all is_hex_digit (drop 2 hexAddress))"

text \<open>\<open>toLowerCase\<close>, \<open>toUpperCase\<close> on Latin letters, and \<open>toString()\<close> of a BigInt.\<close>

definition lower_char :: "char \<Rightarrow> char" where
  "lower_char c = (let n = of_char c :: nat in if 65 \<le> n \<and> n \<le> 90 then char_of (n + 32) else c)"

definition upper_char :: "char \<Rightarrow> char" where
  "upper_char c = (let n = of_char c :: nat in if 97 \<le> n \<and> n \<le> 122 then char_of (n - 32) else c)"

fun to_dec :: "nat \<Rightarrow> string" where
  "to_dec n = (if n < 10 then [char_of (48 + n)] else to_dec (n div 10) @ [char_of (48 + n mod 10)])"

declare to_dec.simps [simp del]

definition int_to_dec :: "int \<Rightarrow> string" where
  "int_to_dec i = (if i < 0 then CHR ''-'' # to_dec (nat (- i)) else to_dec (nat i))"

text \<open>\<open>hash[i]\<close> past the end of the hash is \<open>undefined\<close>, which parses to \<open>NaN\<close>.\<close>

definition checksum_char :: "string \<Rightarrow> string \<Rightarrow> nat \<Rightarrow> char" where
  "checksum_char hash address i =
     (if i < length hash \<and> (case parseInt16 [hash ! i] of None \<Rightarrow> False | Some d \<Rightarrow> d \<ge> 8)
      then upper_char (address ! i) else address ! i)"

definition toChecksumAddress :: "noble \<Rightarrow> (bytes \<Rightarrow> bytes) \<Rightarrow> string \<Rightarrow> toBytes_input option \<Rightarrow> string res" where
  "toChecksumAddress N keccak_256 hexAddress eip1191ChainId =
     (if \<not> isHexString hexAddress None
      then Inl (EthereumJSError ''This method only supports 0x-prefixed hex strings but input was: '')
      else let address = map lower_char (stripHexPrefix hexAddress) in
        and_then (case eip1191ChainId of None \<Rightarrow> Inr [] | Some c \<Rightarrow>
          and_then (bigint_field N c) (\<lambda>chainId. Inr (to_dec (nat chainId) @ ''0x''))) (\<lambda>prefix.
        let bytes = utf8ToBytes (prefix @ address);
            hash = drop 2 (bytesToHex N (keccak_256 bytes)) in
        Inr (''0x'' @ map (checksum_char hash address) [0..<length address])))"

definition isValidChecksumAddress :: "noble \<Rightarrow> (bytes \<Rightarrow> bytes) \<Rightarrow> string \<Rightarrow> toBytes_input option \<Rightarrow> bool res" where
  "isValidChecksumAddress N keccak_256 hexAddress eip1191ChainId =
     (if \<not> isValidAddress hexAddress then Inr False
      else and_then (toChecksumAddress N keccak_256 hexAddress eip1191ChainId) (\<lambda>a. Inr (a = hexAddress)))"

text \<open>\<open>a.subarray(-20)\<close>\<close>

definition last20 :: "bytes \<Rightarrow> bytes" where
  "last20 a = drop (length a - 20) a"

definition generateAddress :: "noble \<Rightarrow> (bytes \<Rightarrow> bytes) \<Rightarrow> bytes \<Rightarrow> bytes \<Rightarrow> bytes res" where
  "generateAddress N keccak_256 from nonce = and_then (bytesToBigInt N nonce False) (\<lambda>n.
     if n = 0
     then and_then (encode (InArray [InBytes from, InBytes []])) (\<lambda>e. Inr (last20 (keccak_256 e)))
     else and_then (encode (InArray [InBytes from, InBytes nonce])) (\<lambda>e. Inr (last20 (keccak_256 e))))"

definition generateAddress2 :: "(bytes \<Rightarrow> bytes) \<Rightarrow> bytes \<Rightarrow> bytes \<Rightarrow> bytes \<Rightarrow> bytes res" where
  "generateAddress2 keccak_256 from salt initCode =
     (if length from \<noteq> 20 then Inl (EthereumJSError ''Expected from to be of length 20'')
      else if length salt \<noteq> 32 then Inl (EthereumJSError ''Expected salt to be of length 32'')
      else Inr (last20 (keccak_256 (concat [[0xff], from, salt, keccak_256 initCode]))))"

definition zeroAddress :: "noble \<Rightarrow> string" where
  "zeroAddress N = bytesToHex N (replicate 20 0)"

definition isZeroAddress :: "noble \<Rightarrow> string \<Rightarrow> bool" where
  "isZeroAddress N hexAddress = (zeroAddress N = hexAddress)"

section \<open>Correctness\<close>

lemma length_KECCAK256 [simp]: "length KECCAK256_NULL = 32" "length KECCAK256_RLP = 32"
  by (simp_all add: KECCAK256_NULL_def KECCAK256_RLP_def)

lemma equalsBytes_iff [simp]: "equalsBytes a b \<longleftrightarrow> a = b"
  by (auto simp: equalsBytes_def equalsLoop_eq)

lemma decode_rlp: "encodable x \<Longrightarrow> decode (InBytes (rlp x)) False = Inr (Data x)"
  using decode1_rlp [of x "[]"] by (simp add: decode_def)

lemma length_rlp_bytes: "length b \<le> 32 \<Longrightarrow> length (rlp (NBytes b)) \<le> 33"
  by (simp add: rlp_prefix_def)

lemma length_rlp_list: "length (payload (NArray xs)) < 256 ^ 8 \<Longrightarrow>
  length (rlp (NArray xs)) \<le> 9 + length (payload (NArray xs))"
  using length_nat_be_8 [of "length (payload (NArray xs))"] by (simp add: rlp_prefix_def Let_def)

lemma length_payload_list: "(\<And>x. x \<in> set xs \<Longrightarrow> length (rlp x) \<le> k) \<Longrightarrow>
  length (payload (NArray xs)) \<le> k * length xs"
proof (induction xs)
  case (Cons x xs)
  then have "length (payload (NArray xs)) \<le> k * length xs" "length (rlp x) \<le> k" by auto
  then show ?case by simp
qed simp

lemma unpadBytes_length: "length (unpadBytes bs) \<le> length bs"
  by (simp add: unpadBytes_def stripZeros_dropWhile length_dropWhile_le)

lemma be_nat_unpad [simp]: "be_nat (unpadBytes bs) = be_nat bs"
  by (simp add: unpadBytes_def stripZeros_dropWhile be_nat_dropWhile)

context noble_hex begin

lemma unpadded_eq: "0 \<le> i \<Longrightarrow> bigIntToUnpaddedBytes N i = Inr (unpadBytes (nat_be (nat i)))"
  by (simp add: bigIntToUnpaddedBytes_def bigIntToBytes_eq)

lemma intToBytes_eq: "0 \<le> i \<Longrightarrow> isSafeInteger i \<Longrightarrow> intToBytes N i = Inr (nat_be (nat i))"
proof -
  assume i: "0 \<le> i" "isSafeInteger i"
  have "isHexString (''0x'' @ to_hex (nat i)) None"
    by (auto simp: isHexString_def list_all_iff set_to_hex)
  then have "stripHexPrefix (''0x'' @ to_hex (nat i)) = to_hex (nat i)"
    by (simp add: stripHexPrefix_def)
  then show ?thesis using i
    by (simp add: intToBytes_def intToHex_def int_to_hex_def hexToBytes_def padToEven_to_hex)
qed

lemma intToUnpadded_eq: "0 \<le> i \<Longrightarrow> isSafeInteger i \<Longrightarrow>
    intToUnpaddedBytes N i = Inr (unpadBytes (nat_be (nat i)))"
  by (simp add: intToUnpaddedBytes_def intToBytes_eq)

lemma toBytes_bigint_eq: "0 \<le> i \<Longrightarrow> toBytes N (ToBigint i) = Inr (nat_be (nat i))"
  using padToEven_to_hex [of "nat i"] unprefixedHexToBytes_hex [of "nat_be (nat i)"]
  by (simp add: int_to_hex_def Let_def padToEven_def split: if_splits)

lemma bigint_field_eq: "0 \<le> i \<Longrightarrow> bigint_field N (ToBigint i) = Inr i"
  by (simp add: bigint_field_def toBytes_bigint_eq bytesToBigInt_eq del: toBytes.simps)

lemma int_field_eq: "0 \<le> i \<Longrightarrow> isSafeInteger i \<Longrightarrow> int_field N (ToNumber i) = Inr i"
  by (auto simp: int_field_def intToBytes_eq bytesToInt_eq isSafeInteger_def)

end

lemma unpad_0_1: "unpadBytes (nat_be 0) = []" "unpadBytes (nat_be 1) = [1]"
  by (simp_all add: unpadBytes_def stripZeros_dropWhile nat_be.simps)

lemma unpad_short:
  assumes "0 \<le> i" "i < 2 ^ 256"
  shows "length (unpadBytes (nat_be (nat i))) \<le> 32"
proof -
  have "nat i < 256 ^ 32" using assms by (simp add: nat_less_iff)
  then show ?thesis
    using length_nat_be_le [of "nat i" 32] unpadBytes_length [of "nat_be (nat i)"] by simp
qed

text \<open>What the constructor promises of the fields, and the arguments that give them back.\<close>

definition well_formed :: "account \<Rightarrow> bool" where
  "well_formed a \<longleftrightarrow> validate a = Inr () \<and>
     \<not> (acc_codeSize a = None \<and> acc_codeHash a = Some KECCAK256_NULL)"

fun to_arg :: "'a option \<Rightarrow> 'a arg" where
  "to_arg None = Null"
| "to_arg (Some x) = Given x"

lemma arg_default_to_arg [simp]: "arg_default d (to_arg v) = v"
  by (cases v) simp_all

lemma newAccount_well_formed: "newAccount n b r h s v = Inr a \<Longrightarrow> well_formed a"
  by (auto simp: newAccount_def Let_def well_formed_def res_simps isContract_def split: if_splits)

lemma newAccount_fields:
  assumes "well_formed a"
  shows "newAccount (to_arg (acc_nonce a)) (to_arg (acc_balance a)) (to_arg (acc_storageRoot a))
    (to_arg (acc_codeHash a)) (to_arg (acc_codeSize a)) (to_arg (acc_version a)) = Inr a"
proof (cases a)
  case (fields n b r h s v)
  then show ?thesis using assms
    by (cases s; cases h)
      (simp_all add: newAccount_def Let_def well_formed_def isContract_def)
qed

section \<open>Serialized forms\<close>

lemma serialize_eq:
  assumes "noble_hex N" "0 \<le> n" "0 \<le> b"
    and "a = \<lparr>acc_nonce = Some n, acc_balance = Some b, acc_storageRoot = Some r,
      acc_codeHash = Some h, acc_codeSize = s, acc_version = v\<rparr>"
  shows "serialize N a = encode (inputOf (NArray (map NBytes
    [unpadBytes (nat_be (nat n)), unpadBytes (nat_be (nat b)), r, h])))"
  using assms(2-4) noble_hex.unpadded_eq [OF assms(1)]
  by (simp add: serialize_def raw_def get_nonce_def get_balance_def get_storageRoot_def
      get_codeHash_def not_loaded_def)

lemma encodable_list:
  assumes "\<And>x. x \<in> set xs \<Longrightarrow> length (rlp x) \<le> k" and "k * length xs < 256 ^ 8"
  shows "encodable (NArray xs)"
  using length_payload_list [of xs k] assms by (simp add: encodable_def)

text \<open>
  C40. An account the constructor accepts with all four fields, its numbers below \<open>2\<^sup>2\<^sup>5\<^sup>6\<close>, is
  serialized, and reading the serialization gives the same account back.
\<close>

theorem account_rlp_roundtrip:
  assumes "noble_hex N" "n < 2 ^ 256" "b < 2 ^ 256"
    and "newAccount (Given n) (Given b) (Given r) (Given h) Undef Undef = Inr a"
  shows "\<exists>s. serialize N a = Inr s \<and> createAccountFromRLP N s = Inr a"
proof -
  let ?xs = "map NBytes [unpadBytes (nat_be (nat n)), unpadBytes (nat_be (nat b)), r, h]"
  have a: "a = \<lparr>acc_nonce = Some n, acc_balance = Some b, acc_storageRoot = Some r,
      acc_codeHash = Some h, acc_codeSize = Some 0, acc_version = Some 0\<rparr>"
    and ok: "0 \<le> n" "0 \<le> b" "length r = 32" "length h = 32"
    using assms(4) by (auto simp: newAccount_def Let_def res_simps validate_def split: if_splits)
  have "encodable (NArray ?xs)"
  proof (rule encodable_list [where k = 33])
    fix x assume "x \<in> set ?xs"
    then show "length (rlp x) \<le> 33"
      using ok assms(2,3) length_rlp_bytes unpad_short by (auto simp del: rlp.simps)
  qed simp
  note e = encode_rlp [OF this] decode_rlp [OF this]
  have "createAccountFromRLP N (rlp (NArray ?xs)) = newAccount (Given n) (Given b) (Given r) (Given h) Undef Undef"
    unfolding createAccountFromRLP_def e(2) using ok
    by (simp add: createAccountFromBytesArray_def read_at_def noble_hex.bytesToBigInt_eq [OF assms(1)])
  then show ?thesis
    using serialize_eq [OF assms(1) ok(1,2) a] e(1) assms(4) by simp
qed

theorem account_rlp_roundtrip_witness:
  "\<exists>s. serialize rlp_noble
      \<lparr>acc_nonce = Some 1, acc_balance = Some 0, acc_storageRoot = Some KECCAK256_RLP,
        acc_codeHash = Some KECCAK256_NULL, acc_codeSize = Some 0, acc_version = Some 0\<rparr> = Inr s \<and>
    createAccountFromRLP rlp_noble s = Inr
      \<lparr>acc_nonce = Some 1, acc_balance = Some 0, acc_storageRoot = Some KECCAK256_RLP,
        acc_codeHash = Some KECCAK256_NULL, acc_codeSize = Some 0, acc_version = Some 0\<rparr>"
  by (rule account_rlp_roundtrip [OF rlp_hex.noble_hex_axioms, where n = 1 and b = 0
        and r = KECCAK256_RLP and h = KECCAK256_NULL])
    (simp_all add: newAccount_def validate_def Let_def)


text \<open>The entries of the partial form, as the decoder sees them.\<close>

definition entry :: "('a \<Rightarrow> bytes) \<Rightarrow> 'a option \<Rightarrow> nested" where
  "entry f v = (case v of None \<Rightarrow> NArray [NBytes []] | Some x \<Rightarrow> NArray [NBytes [1], NBytes (f x)])"

lemma partial_entry_eq: "(\<And>x. v = Some x \<Longrightarrow> g x = Inr (f x)) \<Longrightarrow>
  partial_entry [] [1] g v = Inr (inputOf (entry f v))"
  by (auto simp: partial_entry_def entry_def split: option.splits)

lemma handleNullIndicator_entry: "noble_hex N \<Longrightarrow>
  handleNullIndicator N (entry f v) = Inr (to_arg (map_option (\<lambda>x. NBytes (f x)) v))"
  by (cases v) (simp_all add: entry_def noble_hex.bytesToInt_eq be_nat_Cons)

lemma length_entry: "(\<And>x. v = Some x \<Longrightarrow> length (f x) \<le> 32) \<Longrightarrow> length (rlp (entry f v)) \<le> 45"
  by (auto simp: entry_def rlp_prefix_def Let_def split: option.splits)

lemma raw_number_entry: "(\<And>x. v = Some x \<Longrightarrow> g (f x) = Inr x) \<Longrightarrow>
  raw_number g (to_arg (map_option (\<lambda>x. NBytes (f x)) v)) = Inr (to_arg v)"
  by (cases v) simp_all

lemma arg_map_to_arg: "(\<And>x. v = Some x \<Longrightarrow> g (f x) = Inr x) \<Longrightarrow>
  arg_map g (arg_input f (to_arg v)) = Inr (to_arg v)"
  by (cases v) simp_all

lemma arg_input_Null: "arg_input f x = Null \<longleftrightarrow> x = Null"
  by (cases x) simp_all

lemma to_arg_Null: "to_arg v = Null \<longleftrightarrow> v = None"
  by (cases v) simp_all

definition no_account :: account where
  "no_account = \<lparr>acc_nonce = None, acc_balance = None, acc_storageRoot = None,
     acc_codeHash = None, acc_codeSize = None, acc_version = None\<rparr>"

definition entries :: "account \<Rightarrow> nested list" where
  "entries a = [entry (\<lambda>i. unpadBytes (nat_be (nat i))) (acc_nonce a),
     entry (\<lambda>i. unpadBytes (nat_be (nat i))) (acc_balance a),
     entry (\<lambda>b. b) (acc_storageRoot a), entry (\<lambda>b. b) (acc_codeHash a),
     entry (\<lambda>i. unpadBytes (nat_be (nat i))) (acc_codeSize a),
     entry (\<lambda>i. unpadBytes (nat_be (nat i))) (acc_version a)]"

text \<open>Fields that bytes can hold and the conversions accept.\<close>

definition in_range :: "account \<Rightarrow> bool" where
  "in_range a \<longleftrightarrow> (\<forall>x. acc_nonce a = Some x \<longrightarrow> x < 2 ^ 256) \<and> (\<forall>x. acc_balance a = Some x \<longrightarrow> x < 2 ^ 256) \<and>
     (\<forall>x. acc_codeSize a = Some x \<longrightarrow> isSafeInteger x) \<and>
     (\<forall>x. acc_version a = Some x \<longrightarrow> 0 \<le> x \<and> isSafeInteger x)"

lemma well_formed_fields:
  assumes "well_formed a"
  shows "acc_nonce a = Some x \<Longrightarrow> 0 \<le> x" "acc_balance a = Some x \<Longrightarrow> 0 \<le> x"
    "acc_codeSize a = Some x \<Longrightarrow> 0 \<le> x" "acc_storageRoot a = Some bs \<Longrightarrow> length bs = 32"
    "acc_codeHash a = Some bs \<Longrightarrow> length bs = 32"
  using assms by (auto simp: well_formed_def validate_def split: if_splits)

lemma safe_less: "isSafeInteger x \<Longrightarrow> x < 2 ^ 256"
  by (simp add: isSafeInteger_def)

lemma encodable_entries:
  assumes "well_formed a" "in_range a"
  shows "encodable (NArray (entries a))"
proof (rule encodable_list [where k = 45])
  fix x assume "x \<in> set (entries a)"
  then show "length (rlp x) \<le> 45"
    using well_formed_fields [OF assms(1)] assms(2) safe_less unpad_short
    by (auto simp: entries_def in_range_def intro!: length_entry)
qed (simp add: entries_def)

context noble_hex begin

lemma serialize_partial_eq:
  assumes "well_formed a" "in_range a"
  shows "serializeWithPartialInfo N a = encode (inputOf (NArray (entries a)))"
proof -
  have "intToUnpaddedBytes N 0 = Inr []" "intToUnpaddedBytes N 1 = Inr [1]"
    using intToUnpadded_eq [of 0] intToUnpadded_eq [of 1] unpad_0_1 by (simp_all add: isSafeInteger_def)
  moreover have "partial_entry [] [1] (bigIntToUnpaddedBytes N) (acc_nonce a) = Inr (inputOf (entries a ! 0))"
    "partial_entry [] [1] (bigIntToUnpaddedBytes N) (acc_balance a) = Inr (inputOf (entries a ! 1))"
    "partial_entry [] [1] Inr (acc_storageRoot a) = Inr (inputOf (entries a ! 2))"
    "partial_entry [] [1] Inr (acc_codeHash a) = Inr (inputOf (entries a ! 3))"
    "partial_entry [] [1] (intToUnpaddedBytes N) (acc_codeSize a) = Inr (inputOf (entries a ! 4))"
    "partial_entry [] [1] (intToUnpaddedBytes N) (acc_version a) = Inr (inputOf (entries a ! 5))"
    using well_formed_fields [OF assms(1)] assms(2) unpadded_eq intToUnpadded_eq
    by (auto simp: entries_def in_range_def intro!: partial_entry_eq)
  ultimately show ?thesis by (simp add: serializeWithPartialInfo_def) (simp add: entries_def)
qed

lemma unpadded_back: "0 \<le> i \<Longrightarrow> bytesToBigInt N (unpadBytes (nat_be (nat i))) False = Inr i"
  "0 \<le> i \<Longrightarrow> isSafeInteger i \<Longrightarrow> bytesToInt N (unpadBytes (nat_be (nat i))) = Inr i"
  by (auto simp: bytesToBigInt_eq bytesToInt_eq isSafeInteger_def)

lemma partial_roundtrip:
  assumes "well_formed a" "in_range a" "a \<noteq> no_account"
  shows "createPartialAccountFromRLP N (rlp (NArray (entries a))) = Inr a"
proof -
  let ?bi = "\<lambda>i. NBytes (unpadBytes (nat_be (nat i)))"
  let ?raws = "[to_arg (map_option ?bi (acc_nonce a)), to_arg (map_option ?bi (acc_balance a)),
      to_arg (map_option NBytes (acc_storageRoot a)), to_arg (map_option NBytes (acc_codeHash a)),
      to_arg (map_option ?bi (acc_codeSize a)), to_arg (map_option ?bi (acc_version a))]"
  note fields = well_formed_fields [OF assms(1)] assms(2) [unfolded in_range_def]
  have raws: "res_map (handleNullIndicator N) (entries a) = Inr ?raws"
    by (simp add: entries_def handleNullIndicator_entry [OF noble_hex_axioms])
  have nums: "raw_number (\<lambda>b. bytesToBigInt N b False) (?raws ! 0) = Inr (to_arg (acc_nonce a))"
    "raw_number (\<lambda>b. bytesToBigInt N b False) (?raws ! 1) = Inr (to_arg (acc_balance a))"
    "raw_number (bytesToInt N) (?raws ! 4) = Inr (to_arg (acc_codeSize a))"
    "raw_number (bytesToInt N) (?raws ! 5) = Inr (to_arg (acc_version a))"
    using fields unpadded_back by (auto intro!: raw_number_entry)
  have bytes: "arg_map nested_bytes (to_arg (map_option NBytes x)) = Inr (to_arg x)" for x
    by (cases x) simp_all
  have some: "\<not> (acc_nonce a = None \<and> acc_balance a = None \<and> acc_storageRoot a = None \<and>
      acc_codeHash a = None \<and> acc_codeSize a = None \<and> acc_version a = None)"
    using assms(3) by (cases a) (simp add: no_account_def)
  have create: "createPartialAccount N (arg_input ToBigint (to_arg (acc_nonce a)))
      (arg_input ToBigint (to_arg (acc_balance a))) (arg_input ToUint8Array (to_arg (acc_storageRoot a)))
      (arg_input ToUint8Array (to_arg (acc_codeHash a))) (arg_input ToNumber (to_arg (acc_codeSize a)))
      (arg_input ToNumber (to_arg (acc_version a))) = Inr a"
    using some fields bigint_field_eq int_field_eq newAccount_fields [OF assms(1)]
    by (simp add: createPartialAccount_def arg_input_Null to_arg_Null arg_map_to_arg)
  have "list_all (\<lambda>v. case v of NArray _ \<Rightarrow> True | NBytes _ \<Rightarrow> False) (entries a)"
    by (simp add: entries_def entry_def split: option.splits)
  then show ?thesis
    unfolding createPartialAccountFromRLP_def decode_rlp [OF encodable_entries [OF assms(1,2)]]
    using raws nums bytes create by (simp add: partial_at_def)
qed

end

text \<open>
  An account the constructor accepts with any of its fields absent, not all, survives the
  partial serialization: numbers below \<open>2\<^sup>2\<^sup>5\<^sup>6\<close>, code size and version safe integers.
\<close>

theorem partial_account_roundtrip:
  assumes "noble_hex N" and "newAccount n b r h s v = Inr a" and "a \<noteq> no_account" and "in_range a"
  shows "\<exists>out. serializeWithPartialInfo N a = Inr out \<and> createPartialAccountFromRLP N out = Inr a"
  using noble_hex.serialize_partial_eq [OF assms(1)] noble_hex.partial_roundtrip [OF assms(1)]
    newAccount_well_formed [OF assms(2)] assms(3,4) encode_rlp encodable_entries
  by metis

theorem partial_account_roundtrip_witness:
  "\<exists>out. serializeWithPartialInfo rlp_noble (no_account\<lparr>acc_balance := Some 300\<rparr>) = Inr out \<and>
    createPartialAccountFromRLP rlp_noble out = Inr (no_account\<lparr>acc_balance := Some 300\<rparr>)"
  by (rule partial_account_roundtrip [OF rlp_hex.noble_hex_axioms, where n = Null and b = "Given 300"
        and r = Null and h = Null and s = Null and v = Null])
    (simp_all add: newAccount_def validate_def Let_def no_account_def in_range_def)


section \<open>Checksums and emptiness\<close>

lemma lower_upper [simp]: "lower_char (upper_char c) = lower_char c"
proof -
  have "97 \<le> n \<Longrightarrow> n \<le> 122 \<Longrightarrow> (n - 32) mod 256 = n - 32" for n :: nat by simp
  then show ?thesis by (auto simp: lower_char_def upper_char_def Let_def)
qed

lemma lower_lower [simp]: "lower_char (lower_char c) = lower_char c"
  by (simp add: lower_char_def Let_def)

lemma is_hex_lower [simp]: "is_hex_digit (lower_char c) = is_hex_digit c"
  by (auto simp: is_hex_digit_def hex_value_def lower_char_def Let_def)

lemma is_hex_upper [simp]: "is_hex_digit (upper_char c) = is_hex_digit c"
  by (auto simp: is_hex_digit_def hex_value_def upper_char_def Let_def)

lemma checksum_char_lower [simp]: "lower_char (checksum_char hash address i) = lower_char (address ! i)"
  by (simp add: checksum_char_def)

lemma checksum_char_hex [simp]: "is_hex_digit (checksum_char hash address i) = is_hex_digit (address ! i)"
  by (simp add: checksum_char_def)

lemma valid_hexString: "isValidAddress x \<Longrightarrow> isHexString x None \<and> stripHexPrefix x = drop 2 x"
  by (simp add: isValidAddress_def isHexString_def stripHexPrefix_def)

text \<open>
  The checksum form of a valid address differs from it in letter case only, is the same for
  every spelling, and is the one spelling that \<open>isValidChecksumAddress\<close> accepts.
\<close>

theorem checksum_address_spec:
  assumes "isValidAddress x" and "toChecksumAddress N keccak x None = Inr c"
  shows "isValidAddress c \<and> map lower_char (drop 2 c) = map lower_char (drop 2 x) \<and>
    toChecksumAddress N keccak c None = Inr c \<and>
    isValidChecksumAddress N keccak x None = Inr (x = c)"
proof -
  define address where "address = map lower_char (drop 2 x)"
  define hash where "hash = drop 2 (bytesToHex N (keccak (utf8ToBytes address)))"
  have c: "c = ''0x'' @ map (checksum_char hash address) [0..<length address]"
    using assms valid_hexString [OF assms(1)]
    by (simp add: toChecksumAddress_def Let_def address_def hash_def)
  have hex: "list_all is_hex_digit address" "length address = 40"
    using assms(1) by (auto simp: isValidAddress_def address_def list_all_length)
  then have valid: "isValidAddress c"
    by (auto simp: c isValidAddress_def list_all_length)
  have lower: "map lower_char (drop 2 c) = address"
    by (rule nth_equalityI) (auto simp: c address_def)
  then have "toChecksumAddress N keccak c None = Inr c"
    using valid_hexString [OF valid] by (simp add: toChecksumAddress_def Let_def hash_def c)
  then show ?thesis
    using valid lower assms by (auto simp: address_def isValidChecksumAddress_def)
qed

theorem checksum_address_spec_witness:
  "isValidChecksumAddress rlp_noble (\<lambda>_. replicate 32 0x18) (''0xabcdefabcdefabcdefabcdefabcdefabcdefabcd'') None =
     Inr False"
proof -
  have "isValidAddress ''0xabcdefabcdefabcdefabcdefabcdefabcdefabcd''" by code_simp
  moreover
  have "toChecksumAddress rlp_noble (\<lambda>_. replicate 32 0x18) ''0xabcdefabcdefabcdefabcdefabcdefabcdefabcd'' None =
    Inr ''0xaBcDeFaBcDeFaBcDeFaBcDeFaBcDeFaBcDeFaBcD''" by code_simp
  ultimately show ?thesis using checksum_address_spec [of "''0xabcdefabcdefabcdefabcdefabcdefabcdefabcd''"] by simp
qed

text \<open>
  C1. An account none of whose three fields is missing is empty exactly when its nonce and balance
  are zero and it has no code; if one is missing the answer is still no when another field
  settles it, and otherwise the test throws.
\<close>

theorem isEmpty_spec:
  "isEmpty a =
    (if (\<exists>x. acc_balance a = Some x \<and> x \<noteq> 0) \<or> (\<exists>x. acc_nonce a = Some x \<and> x \<noteq> 0) \<or>
        (\<exists>h. acc_codeHash a = Some h \<and> h \<noteq> KECCAK256_NULL) then Inr False
     else if acc_balance a = None then Inl (PlainError ''balance='')
     else if acc_nonce a = None then Inl (PlainError ''nonce='')
     else if acc_codeHash a = None then Inl (PlainError ''codeHash='')
     else Inr True)"
  by (auto simp: isEmpty_def get_balance_def get_nonce_def get_codeHash_def not_loaded_def split: option.splits)

end
