(* ===== verification/SimpleState.thy ===== *)
theory SimpleState
  imports Checkpoints Account
begin

text \<open>
  The state manager the EVM uses by default, \<^verbatim>\<open>packages/statemanager/src/simpleStateManager.ts\<close>,
  with \<open>modifyAccountFields\<close> of \<^verbatim>\<open>util.ts\<close> and the cache of original storage values of
  \<^verbatim>\<open>cache/originalStorageCache.ts\<close>. Accounts, code and storage are stacks of maps, one level per
  checkpoint. It provides two interfaces: \<open>checkpointed\<close>, and \<open>account_store\<close>, the account
  operations the EVM's journal calls. The account objects are values here; the one place where
  the code changes an account it shares with the map, a throw in the middle of
  \<open>modifyAccountFields\<close>, writes the changed account back.
\<close>

section \<open>The manager as its clients see it\<close>

text \<open>
  The methods of \<open>StateManagerInterface\<close> that the journal calls; \<open>getAppliedKey\<close> is optional in
  the interface.
\<close>

record 'm manager =
  m_getAccount :: "bytes \<Rightarrow> ('m, js_error, account option) eff"
  m_putAccount :: "bytes \<Rightarrow> account option \<Rightarrow> ('m, js_error, unit) eff"
  m_deleteAccount :: "bytes \<Rightarrow> ('m, js_error, unit) eff"
  m_checkpoint :: "('m, js_error, unit) eff"
  m_commit :: "('m, js_error, unit) eff"
  m_revert :: "('m, js_error, unit) eff"
  m_getAppliedKey :: "(bytes \<Rightarrow> bytes) option"

text \<open>The laws of its account operations: a map from addresses to accounts.\<close>

locale account_store =
  fixes M :: "'m manager" and ok :: "'m \<Rightarrow> bool" and acc :: "'m \<Rightarrow> bytes \<Rightarrow> account option"
  assumes get_law: "ok m \<Longrightarrow> m_getAccount M a m = (Inr (acc m a), m)"
    and put_law: "ok m \<Longrightarrow> \<exists>m'. m_putAccount M a x m = (Inr (), m') \<and> ok m' \<and> acc m' = (acc m)(a := x)"
    and delete_law: "ok m \<Longrightarrow> \<exists>m'. m_deleteAccount M a m = (Inr (), m') \<and> ok m' \<and> acc m' = (acc m)(a := None)"

section \<open>State\<close>

type_synonym 'v level = "(string \<times> 'v) list"

record simple_state =
  accountStack :: "account option level list"
  codeStack :: "bytes level list"
  storageStack :: "bytes level list"

type_synonym 'a simple_op = "(simple_state, js_error, 'a) eff"

text \<open>The top level, and a \<open>get\<close> or \<open>set\<close> on it, which throws when there is no level.\<close>

definition topLevel :: "'v level list \<Rightarrow> 'v level res" where
  "topLevel st = (if st = [] then Inl TypeError else Inr (last st))"

definition setTop :: "string \<Rightarrow> 'v \<Rightarrow> 'v level list \<Rightarrow> 'v level list" where
  "setTop k v st = butlast st @ [obj_set k v (last st)]"

definition topCopy :: "'v level list \<Rightarrow> 'v level" where
  "topCopy st = (if st = [] then [] else last st)"

definition checkpointSync :: "unit simple_op" where
  "checkpointSync = updE (\<lambda>s. \<lparr>accountStack = accountStack s @ [topCopy (accountStack s)],
     codeStack = codeStack s @ [topCopy (codeStack s)],
     storageStack = storageStack s @ [topCopy (storageStack s)]\<rparr>)"

definition newSimpleState :: simple_state where
  "newSimpleState = snd (checkpointSync \<lparr>accountStack = [], codeStack = [], storageStack = []\<rparr>)"

section \<open>Operations\<close>

definition getAccount :: "noble \<Rightarrow> bytes \<Rightarrow> account option simple_op" where
  "getAccount N address = seqE (getE (\<lambda>s. topLevel (accountStack s))) (\<lambda>r. seqE (resE r) (\<lambda>top.
     ret (case map_of top (bytesToHex N address) of None \<Rightarrow> None | Some a \<Rightarrow> a)))"

definition putAccount :: "noble \<Rightarrow> bytes \<Rightarrow> account option \<Rightarrow> unit simple_op" where
  "putAccount N address account = seqE (getE (\<lambda>s. topLevel (accountStack s))) (\<lambda>r. seqE (resE r) (\<lambda>_.
     updE (accountStack_update (setTop (bytesToHex N address) account))))"

definition deleteAccount :: "noble \<Rightarrow> bytes \<Rightarrow> unit simple_op" where
  "deleteAccount N address = seqE (getE (\<lambda>s. topLevel (accountStack s))) (\<lambda>r. seqE (resE r) (\<lambda>_.
     updE (accountStack_update (setTop (bytesToHex N address) None))))"

record account_fields =
  af_nonce :: "int option"
  af_balance :: "int option"
  af_storageRoot :: "bytes option"
  af_codeHash :: "bytes option"
  af_codeSize :: "int option"

text \<open>\<open>account.f = fields.f ?? account.f\<close>: without a new value the getter may throw.\<close>

definition assign_field :: "'v option \<Rightarrow> (account \<Rightarrow> 'v res) \<Rightarrow> ('v option \<Rightarrow> account \<Rightarrow> account) \<Rightarrow>
    (account, js_error, unit) eff" where
  "assign_field v getter setter = (case v of
     Some x \<Rightarrow> updE (setter (Some x))
   | None \<Rightarrow> seqE (getE getter) (\<lambda>r. seqE (resE r) (\<lambda>x. updE (setter (Some x)))))"

definition assign_fields :: "account_fields \<Rightarrow> (account, js_error, unit) eff" where
  "assign_fields f =
     seqE (assign_field (af_nonce f) get_nonce (\<lambda>v. acc_nonce_update (\<lambda>_. v))) (\<lambda>_.
     seqE (assign_field (af_balance f) get_balance (\<lambda>v. acc_balance_update (\<lambda>_. v))) (\<lambda>_.
     seqE (assign_field (af_storageRoot f) get_storageRoot (\<lambda>v. acc_storageRoot_update (\<lambda>_. v))) (\<lambda>_.
     seqE (assign_field (af_codeHash f) get_codeHash (\<lambda>v. acc_codeHash_update (\<lambda>_. v))) (\<lambda>_.
       assign_field (af_codeSize f) get_codeSize (\<lambda>v. acc_codeSize_update (\<lambda>_. v))))))"

text \<open>
  A stored account is changed in place, so a throw keeps what was assigned before it; a fresh
  one is dropped.
\<close>

definition modifyAccountFields :: "noble \<Rightarrow> bytes \<Rightarrow> account_fields \<Rightarrow> unit simple_op" where
  "modifyAccountFields N address accountFields = seqE (getAccount N address) (\<lambda>stored.
     seqE (resE (case stored of Some a \<Rightarrow> Inr a | None \<Rightarrow> newAccount Undef Undef Undef Undef Undef Undef))
       (\<lambda>account. case assign_fields accountFields account of
          (Inr _, account') \<Rightarrow> putAccount N address (Some account')
        | (Inl e, account') \<Rightarrow>
            seqE (whenE (stored \<noteq> None) (putAccount N address (Some account'))) (\<lambda>_. raise e)))"

definition getCode :: "noble \<Rightarrow> bytes \<Rightarrow> bytes simple_op" where
  "getCode N address = seqE (getE (\<lambda>s. topLevel (codeStack s))) (\<lambda>r. seqE (resE r) (\<lambda>top.
     ret (case map_of top (bytesToHex N address) of None \<Rightarrow> [] | Some c \<Rightarrow> c)))"

definition putCode :: "noble \<Rightarrow> (bytes \<Rightarrow> bytes) \<Rightarrow> bytes \<Rightarrow> bytes \<Rightarrow> unit simple_op" where
  "putCode N keccak256 address code =
     seqE (getE (\<lambda>s. topLevel (codeStack s))) (\<lambda>r. seqE (resE r) (\<lambda>_.
     seqE (updE (codeStack_update (setTop (bytesToHex N address) code))) (\<lambda>_.
     seqE (getAccount N address) (\<lambda>stored.
     seqE (whenE (stored = None)
       (seqE (resE (newAccount Undef Undef Undef Undef Undef Undef)) (\<lambda>a. putAccount N address (Some a)))) (\<lambda>_.
     modifyAccountFields N address
       \<lparr>af_nonce = None, af_balance = None, af_storageRoot = None,
        af_codeHash = Some (keccak256 code), af_codeSize = None\<rparr>)))))"

definition getCodeSize :: "noble \<Rightarrow> bytes \<Rightarrow> nat simple_op" where
  "getCodeSize N address = seqE (getCode N address) (\<lambda>contractCode. ret (length contractCode))"

definition storageKey :: "noble \<Rightarrow> bytes \<Rightarrow> bytes \<Rightarrow> string" where
  "storageKey N address key = bytesToHex N address @ ''_'' @ bytesToHex N key"

definition getStorage :: "noble \<Rightarrow> bytes \<Rightarrow> bytes \<Rightarrow> bytes simple_op" where
  "getStorage N address key = seqE (getE (\<lambda>s. topLevel (storageStack s))) (\<lambda>r. seqE (resE r) (\<lambda>top.
     ret (case map_of top (storageKey N address key) of None \<Rightarrow> [] | Some v \<Rightarrow> v)))"

definition putStorage :: "noble \<Rightarrow> bytes \<Rightarrow> bytes \<Rightarrow> bytes \<Rightarrow> unit simple_op" where
  "putStorage N address key v = seqE (getE (\<lambda>s. topLevel (storageStack s))) (\<lambda>r. seqE (resE r) (\<lambda>_.
     updE (storageStack_update (setTop (storageKey N address key) v))))"

definition clearStorage :: "unit simple_op" where
  "clearStorage = ret ()"

definition sm_checkpoint :: "unit simple_op" where
  "sm_checkpoint = checkpointSync"

text \<open>\<open>xs.splice(-2, 1)\<close>: on a single element the start is clamped to it.\<close>

definition splice2 :: "'a list \<Rightarrow> 'a list" where
  "splice2 xs = take (length xs - 2) xs @ drop (length xs - 2 + 1) xs"

definition sm_commit :: "unit simple_op" where
  "sm_commit = updE (\<lambda>s. \<lparr>accountStack = splice2 (accountStack s), codeStack = splice2 (codeStack s),
     storageStack = splice2 (storageStack s)\<rparr>)"

definition sm_revert :: "unit simple_op" where
  "sm_revert = updE (\<lambda>s. \<lparr>accountStack = butlast (accountStack s), codeStack = butlast (codeStack s),
     storageStack = butlast (storageStack s)\<rparr>)"

text \<open>The copy starts from a new manager, which has opened a level of its own.\<close>

definition shallowCopy :: "simple_state \<Rightarrow> simple_state" where
  "shallowCopy s = \<lparr>accountStack = accountStack newSimpleState @ accountStack s,
     codeStack = codeStack newSimpleState @ codeStack s,
     storageStack = storageStack newSimpleState @ storageStack s\<rparr>"

definition simple_manager :: "noble \<Rightarrow> simple_state manager" where
  "simple_manager N = \<lparr>m_getAccount = getAccount N, m_putAccount = putAccount N,
     m_deleteAccount = deleteAccount N, m_checkpoint = sm_checkpoint, m_commit = sm_commit,
     m_revert = sm_revert, m_getAppliedKey = None\<rparr>"

section \<open>Original storage values\<close>

type_synonym original_cache = "(string \<times> (string \<times> bytes) list) list"

definition oc_lookup :: "noble \<Rightarrow> bytes \<Rightarrow> bytes \<Rightarrow> original_cache \<Rightarrow> bytes option" where
  "oc_lookup N address key c = (case map_of c (bytesToUnprefixedHex N address) of
     None \<Rightarrow> None | Some m \<Rightarrow> map_of m (bytesToUnprefixedHex N key))"

definition oc_put :: "noble \<Rightarrow> bytes \<Rightarrow> bytes \<Rightarrow> bytes \<Rightarrow> original_cache \<Rightarrow> original_cache" where
  "oc_put N address key v c =
     (let addressHex = bytesToUnprefixedHex N address;
          c1 = (if map_of c addressHex = None then obj_set addressHex [] c else c);
          m = the (map_of c1 addressHex);
          keyHex = bytesToUnprefixedHex N key in
      if map_of m keyHex = None then obj_set addressHex (obj_set keyHex v m) c1 else c1)"

text \<open>The state manager whose \<open>getStorage\<close> was bound at construction, and the cache.\<close>

definition oc_get :: "noble \<Rightarrow> (bytes \<Rightarrow> bytes \<Rightarrow> ('m, js_error, bytes) eff) \<Rightarrow> bytes \<Rightarrow> bytes \<Rightarrow>
    ('m \<times> original_cache, js_error, bytes) eff" where
  "oc_get N read address key = (\<lambda>(m, c). case oc_lookup N address key c of
     Some v \<Rightarrow> (Inr v, (m, c))
   | None \<Rightarrow> (case read address key m of
       (Inl e, m') \<Rightarrow> (Inl e, (m', c))
     | (Inr v, m') \<Rightarrow> (Inr v, (m', oc_put N address key v c))))"

definition oc_clear :: "original_cache \<Rightarrow> original_cache" where
  "oc_clear c = []"

section \<open>The manager as a store with checkpoints\<close>

type_synonym simple_view = "(string \<Rightarrow> account option) \<times> (string \<Rightarrow> bytes) \<times> (string \<Rightarrow> bytes)"

text \<open>What the getters read in one level of the three stacks.\<close>

definition level_view :: "account option level \<Rightarrow> bytes level \<Rightarrow> bytes level \<Rightarrow> simple_view" where
  "level_view a c st = (\<lambda>k. case map_of a k of None \<Rightarrow> None | Some x \<Rightarrow> x,
     \<lambda>k. case map_of c k of None \<Rightarrow> [] | Some x \<Rightarrow> x, \<lambda>k. case map_of st k of None \<Rightarrow> [] | Some x \<Rightarrow> x)"

definition levels :: "simple_state \<Rightarrow> simple_view list" where
  "levels s = map (\<lambda>(a, c, st). level_view a c st)
     (zip (accountStack s) (zip (codeStack s) (storageStack s)))"

definition sm_inv :: "simple_state \<Rightarrow> bool" where
  "sm_inv s \<longleftrightarrow> accountStack s \<noteq> [] \<and> length (codeStack s) = length (accountStack s) \<and>
     length (storageStack s) = length (accountStack s)"

definition sm_view :: "simple_state \<Rightarrow> simple_view" where
  "sm_view s = level_view (last (accountStack s)) (last (codeStack s)) (last (storageStack s))"

definition sm_saved :: "simple_state \<Rightarrow> simple_view list" where
  "sm_saved s = tl (rev (levels s))"

text \<open>The stacks, split into the levels below the top and the top.\<close>

lemma sm_inv_split:
  assumes "sm_inv s"
  obtains as a cs c ss st where "s = \<lparr>accountStack = as @ [a], codeStack = cs @ [c], storageStack = ss @ [st]\<rparr>"
    "length cs = length as" "length ss = length as"
proof -
  obtain as a where 1: "accountStack s = as @ [a]"
    using assms by (metis sm_inv_def rev_exhaust)
  have "codeStack s \<noteq> []" "storageStack s \<noteq> []" using assms by (auto simp: sm_inv_def)
  then obtain cs c ss st where 2: "codeStack s = cs @ [c]" "storageStack s = ss @ [st]"
    by (metis rev_exhaust)
  show thesis
    by (rule that [of as a cs c ss st]) (use assms 1 2 in \<open>auto simp: sm_inv_def intro: simple_state.equality\<close>)
qed

lemma levels_append [simp]: "length cs = length as \<Longrightarrow> length ss = length as \<Longrightarrow>
  levels \<lparr>accountStack = as @ as', codeStack = cs @ cs', storageStack = ss @ ss'\<rparr> =
  levels \<lparr>accountStack = as, codeStack = cs, storageStack = ss\<rparr> @
  levels \<lparr>accountStack = as', codeStack = cs', storageStack = ss'\<rparr>"
  by (simp add: levels_def)

lemma levels_single [simp]:
  "levels \<lparr>accountStack = [a], codeStack = [c], storageStack = [st]\<rparr> = [level_view a c st]"
  by (simp add: levels_def)

lemma levels_pair: "levels \<lparr>accountStack = [a', a], codeStack = [c', c], storageStack = [st', st]\<rparr> =
    [level_view a' c' st', level_view a c st]"
  by (simp add: levels_def)

lemma splice2_snoc [simp]: "splice2 (xs @ [x, y]) = xs @ [y]"
  by (simp add: splice2_def)

lemma sm_checkpoint_law: "sm_inv s \<Longrightarrow> (\<lambda>s'. sm_inv s' \<and> sm_view s' = sm_view s \<and>
  sm_saved s' = sm_view s # sm_saved s) (snd (sm_checkpoint s))"
  by (erule sm_inv_split)
    (simp add: sm_checkpoint_def checkpointSync_def topCopy_def sm_view_def sm_saved_def sm_inv_def levels_pair)

lemma sm_saved_split:
  assumes "sm_inv s" "sm_saved s \<noteq> []"
  obtains as a a' cs c c' ss st st' where
    "s = \<lparr>accountStack = as @ [a', a], codeStack = cs @ [c', c], storageStack = ss @ [st', st]\<rparr>"
    "length cs = length as" "length ss = length as"
proof -
  obtain as a cs c ss st where s: "s = \<lparr>accountStack = as @ [a], codeStack = cs @ [c], storageStack = ss @ [st]\<rparr>"
    and len: "length cs = length as" "length ss = length as" using sm_inv_split [OF assms(1)] by blast
  then have "as \<noteq> []" using assms(2) by (auto simp: sm_saved_def levels_def)
  with len have "cs \<noteq> []" "ss \<noteq> []" by auto
  then obtain as0 a' cs0 c' ss0 st' where "as = as0 @ [a']" "cs = cs0 @ [c']" "ss = ss0 @ [st']"
    using \<open>as \<noteq> []\<close> by (metis rev_exhaust)
  then show thesis using that [of as0 a' a cs0 c' c ss0 st' st] s len by simp
qed

lemma sm_commit_law: "sm_inv s \<Longrightarrow> sm_saved s \<noteq> [] \<Longrightarrow> (\<lambda>s'. sm_inv s' \<and> sm_view s' = sm_view s \<and>
  sm_saved s' = tl (sm_saved s)) (snd (sm_commit s))"
  by (erule (1) sm_saved_split)
    (simp add: sm_commit_def sm_view_def sm_saved_def sm_inv_def levels_pair)

lemma sm_revert_law: "sm_inv s \<Longrightarrow> sm_saved s \<noteq> [] \<Longrightarrow> (\<lambda>s'. sm_inv s' \<and> sm_view s' = hd (sm_saved s) \<and>
  sm_saved s' = tl (sm_saved s)) (snd (sm_revert s))"
  by (erule (1) sm_saved_split)
    (simp add: sm_revert_def sm_view_def sm_saved_def sm_inv_def levels_pair butlast_append)

text \<open>A call that changes the top level only: what every setter is made of.\<close>

definition top_only :: "simple_state \<Rightarrow> simple_state \<Rightarrow> bool" where
  "top_only s s' \<longleftrightarrow> sm_inv s \<longrightarrow> sm_inv s' \<and> sm_saved s' = sm_saved s"

lemma top_only_refl [simp, intro]: "top_only s s"
  by (simp add: top_only_def)

lemma top_only_trans [trans]: "top_only s s' \<Longrightarrow> top_only s' s'' \<Longrightarrow> top_only s s''"
  by (auto simp: top_only_def)

definition top_changer :: "'a simple_op \<Rightarrow> bool" where
  "top_changer m \<longleftrightarrow> (\<forall>s. top_only s (snd (m s)))"

lemma top_changer_seqE [intro]: "top_changer m \<Longrightarrow> (\<And>x. top_changer (f x)) \<Longrightarrow> top_changer (seqE m f)"
  by (fastforce simp: top_changer_def seqE_def intro: top_only_trans split: prod.splits sum.splits)

lemma top_changer_pure [simp]: "top_changer (ret x)" "top_changer (raise e)" "top_changer (getE f)"
  "top_changer (resE r)"
  by (simp_all add: top_changer_def)

lemma top_changer_whenE [intro]: "top_changer m \<Longrightarrow> top_changer (whenE c m)"
  by (simp add: whenE_def)

lemma top_changer_setTop [simp]:
  "top_changer (updE (accountStack_update (setTop k x)))"
  "top_changer (updE (codeStack_update (setTop k v)))"
  "top_changer (updE (storageStack_update (setTop k v)))"
  by (auto simp: top_changer_def top_only_def sm_inv_def setTop_def sm_saved_def elim!: sm_inv_split [of _ thesis for thesis, unfolded sm_inv_def])


lemma top_changer_calls:
  "top_changer (getAccount N a)" "top_changer (putAccount N a x)" "top_changer (deleteAccount N a)"
  "top_changer (modifyAccountFields N a f)" "top_changer (putCode N k a code)"
  "top_changer (putStorage N a key v)" "top_changer clearStorage"
proof -
  show 1: "top_changer (getAccount N a)" "top_changer (putAccount N a x)" "top_changer (deleteAccount N a)"
    "top_changer (putStorage N a key v)" "top_changer clearStorage" for x
    unfolding getAccount_def putAccount_def deleteAccount_def putStorage_def clearStorage_def
    by (intro top_changer_seqE top_changer_pure top_changer_setTop)+
  show 2: "top_changer (modifyAccountFields N a f)" for f
    unfolding modifyAccountFields_def
    by (intro top_changer_seqE 1 top_changer_pure) (auto split: prod.splits sum.splits intro!: top_changer_seqE top_changer_whenE intro: 1)
  show "top_changer (putCode N k a code)"
    unfolding putCode_def by (intro top_changer_seqE top_changer_whenE 1 2) simp_all
qed

interpretation sm: checkpointed sm_inv sm_view sm_saved "\<lambda>s. snd (sm_checkpoint s)"
  "\<lambda>s. snd (sm_commit s)" "\<lambda>s. snd (sm_revert s)" top_only
  by unfold_locales (use sm_checkpoint_law sm_commit_law sm_revert_law in \<open>simp_all add: top_only_def\<close>)

section \<open>Reading back\<close>

lemma getAccount_view: "sm_inv s \<Longrightarrow> getAccount N a s = (Inr (fst (sm_view s) (bytesToHex N a)), s)"
  by (auto simp: getAccount_def seqE_run topLevel_def sm_inv_def sm_view_def level_view_def)

lemma getCode_view: "sm_inv s \<Longrightarrow> getCode N a s = (Inr (fst (snd (sm_view s)) (bytesToHex N a)), s)"
  by (auto simp: getCode_def seqE_run topLevel_def sm_inv_def sm_view_def level_view_def)

lemma getStorage_view: "sm_inv s \<Longrightarrow> getStorage N a k s = (Inr (snd (snd (sm_view s)) (storageKey N a k)), s)"
  by (auto simp: getStorage_def seqE_run topLevel_def sm_inv_def sm_view_def level_view_def)

lemma setTop_last [simp]: "last (setTop k v st) = obj_set k v (last st)"
  by (simp add: setTop_def)

lemma putAccount_view:
  assumes "sm_inv s"
  shows "\<exists>s'. putAccount N a x s = (Inr (), s') \<and> sm_inv s' \<and>
    sm_view s' = ((fst (sm_view s))(bytesToHex N a := x), snd (sm_view s))"
  using assms by (auto simp: putAccount_def seqE_run topLevel_def sm_inv_def sm_view_def level_view_def setTop_def)

lemma deleteAccount_put: "deleteAccount N a = putAccount N a None"
  by (simp add: deleteAccount_def putAccount_def)

lemma putStorage_view:
  assumes "sm_inv s"
  shows "\<exists>s'. putStorage N a k v s = (Inr (), s') \<and> sm_inv s' \<and>
    sm_view s' = (fst (sm_view s), fst (snd (sm_view s)), (snd (snd (sm_view s)))(storageKey N a k := v))"
proof -
  have "storageStack s \<noteq> []" using assms by (auto simp: sm_inv_def)
  then show ?thesis using assms
    by (auto simp: putStorage_def seqE_run topLevel_def sm_inv_def sm_view_def level_view_def setTop_def)
qed

definition default_account :: account where
  "default_account = \<lparr>acc_nonce = Some 0, acc_balance = Some 0, acc_storageRoot = Some KECCAK256_RLP,
     acc_codeHash = Some KECCAK256_NULL, acc_codeSize = Some 0, acc_version = Some 0\<rparr>"

lemma newAccount_default: "newAccount Undef Undef Undef Undef Undef Undef = Inr default_account"
  by (simp add: newAccount_def Let_def default_account_def validate_def)

text \<open>Every field the modification reads is there.\<close>

definition loaded :: "account \<Rightarrow> bool" where
  "loaded a \<longleftrightarrow> acc_nonce a \<noteq> None \<and> acc_balance a \<noteq> None \<and> acc_storageRoot a \<noteq> None \<and>
     acc_codeHash a \<noteq> None \<and> acc_codeSize a \<noteq> None"

definition overlay :: "'v option \<Rightarrow> 'v option \<Rightarrow> 'v option" where
  "overlay v old = (case v of Some x \<Rightarrow> Some x | None \<Rightarrow> old)"

definition modified :: "account_fields \<Rightarrow> account \<Rightarrow> account" where
  "modified f a = a\<lparr>acc_nonce := overlay (af_nonce f) (acc_nonce a),
     acc_balance := overlay (af_balance f) (acc_balance a),
     acc_storageRoot := overlay (af_storageRoot f) (acc_storageRoot a),
     acc_codeHash := overlay (af_codeHash f) (acc_codeHash a),
     acc_codeSize := overlay (af_codeSize f) (acc_codeSize a)\<rparr>"

lemma assign_fields_loaded: "loaded a \<Longrightarrow> assign_fields f a = (Inr (), modified f a)"
  by (cases a) (auto simp: assign_fields_def assign_field_def seqE_run loaded_def modified_def overlay_def
      get_nonce_def get_balance_def get_storageRoot_def get_codeHash_def get_codeSize_def not_loaded_def
      split: option.splits)

lemma default_loaded [simp]: "loaded default_account"
  by (simp add: loaded_def default_account_def)

definition stored_or_default :: "account option \<Rightarrow> account" where
  "stored_or_default x = (case x of None \<Rightarrow> default_account | Some a \<Rightarrow> a)"

lemma stored_or_default_Some: "stored_or_default (Some a) = a"
  by (simp add: stored_or_default_def)

lemma modify_view:
  assumes "sm_inv s" "loaded (stored_or_default (fst (sm_view s) (bytesToHex N a)))"
  shows "\<exists>s'. modifyAccountFields N a f s = (Inr (), s') \<and> sm_inv s' \<and>
    sm_view s' = ((fst (sm_view s))(bytesToHex N a :=
      Some (modified f (stored_or_default (fst (sm_view s) (bytesToHex N a))))), snd (sm_view s))"
  using assms(2) putAccount_view [OF assms(1), of N a]
  by (auto simp: modifyAccountFields_def seqE_run getAccount_view [OF assms(1)] newAccount_default
      stored_or_default_def assign_fields_loaded split: option.splits)

text \<open>
  Accounts, code and storage as the client sees them: the getters' answers, which never throw
  while a level is open.
\<close>

definition account_at :: "noble \<Rightarrow> simple_state \<Rightarrow> bytes \<Rightarrow> account option" where
  "account_at N s a = (case fst (getAccount N a s) of Inr x \<Rightarrow> x | Inl _ \<Rightarrow> None)"

lemma account_at_view: "sm_inv s \<Longrightarrow> account_at N s a = fst (sm_view s) (bytesToHex N a)"
  by (simp add: account_at_def getAccount_view)

interpretation simple_accounts: account_store "simple_manager rlp_noble" sm_inv "account_at rlp_noble"
proof unfold_locales
  fix m a x assume m: "sm_inv m"
  show "m_getAccount (simple_manager rlp_noble) a m = (Inr (account_at rlp_noble m a), m)"
    using m by (simp add: simple_manager_def account_at_view getAccount_view)
  show put: "\<exists>m'. m_putAccount (simple_manager rlp_noble) a x m = (Inr (), m') \<and> sm_inv m' \<and>
      account_at rlp_noble m' = (account_at rlp_noble m)(a := x)" for x
    using putAccount_view [OF m, of rlp_noble a x] m rlp_hex.bytesToHex_inj
    by (auto simp: simple_manager_def account_at_view fun_eq_iff)
  show "\<exists>m'. m_deleteAccount (simple_manager rlp_noble) a m = (Inr (), m') \<and> sm_inv m' \<and>
      account_at rlp_noble m' = (account_at rlp_noble m)(a := None)"
    using put [of None] by (simp add: simple_manager_def deleteAccount_put)
qed

definition code_at :: "noble \<Rightarrow> simple_state \<Rightarrow> bytes \<Rightarrow> bytes" where
  "code_at N s a = (case fst (getCode N a s) of Inr c \<Rightarrow> c | Inl _ \<Rightarrow> [])"

definition storage_at :: "noble \<Rightarrow> simple_state \<Rightarrow> bytes \<Rightarrow> bytes \<Rightarrow> bytes" where
  "storage_at N s a key = (case fst (getStorage N a key s) of Inr v \<Rightarrow> v | Inl _ \<Rightarrow> [])"

lemma code_at_view: "sm_inv s \<Longrightarrow> code_at N s a = fst (snd (sm_view s)) (bytesToHex N a)"
  by (simp add: code_at_def getCode_view)

lemma storage_at_view: "sm_inv s \<Longrightarrow> storage_at N s a key = snd (snd (sm_view s)) (storageKey N a key)"
  by (simp add: storage_at_def getStorage_view)

lemma no_underscore: "CHR ''_'' \<notin> set (''0x'' @ bytes_hex bs)"
  using set_bytes_hex [of "CHR ''_''" bs] by (auto simp: is_hex_digit_def hex_value_def)

lemma storageKey_inj:
  assumes "noble_hex N"
  shows "storageKey N a key = storageKey N b key' \<longleftrightarrow> a = b \<and> key = key'"
proof -
  have split: "xs @ CHR ''_'' # ys = xs' @ CHR ''_'' # ys' \<longleftrightarrow> xs = xs' \<and> ys = ys'"
    if "CHR ''_'' \<notin> set xs" "CHR ''_'' \<notin> set xs'" for xs ys xs' ys'
    using that by (auto simp: append_eq_append_conv2 Cons_eq_append_conv append_eq_Cons_conv)
  have "CHR ''_'' \<notin> set (bytesToHex N c)" for c
    using no_underscore by (simp add: noble_hex.bytesToHex_eq [OF assms])
  then show ?thesis
    using noble_hex.bytesToHex_inj [OF assms] by (simp add: storageKey_def split)
qed

datatype simple_call =
    PutAccount bytes "account option"
  | DeleteAccount bytes
  | ModifyAccount bytes account_fields
  | PutCode bytes bytes
  | PutStorage bytes bytes bytes
  | ClearStorage

fun sm_do :: "noble \<Rightarrow> (bytes \<Rightarrow> bytes) \<Rightarrow> simple_call \<Rightarrow> simple_state \<Rightarrow> simple_state" where
  "sm_do N k (PutAccount a x) s = snd (putAccount N a x s)"
| "sm_do N k (DeleteAccount a) s = snd (deleteAccount N a s)"
| "sm_do N k (ModifyAccount a f) s = snd (modifyAccountFields N a f s)"
| "sm_do N k (PutCode a code) s = snd (putCode N k a code s)"
| "sm_do N k (PutStorage a key v) s = snd (putStorage N a key v s)"
| "sm_do N k ClearStorage s = snd (clearStorage s)"

lemma sm_do_top_only: "top_only s (sm_do N k c s)"
  using top_changer_calls by (cases c) (simp_all add: top_changer_def)

definition sm_play :: "noble \<Rightarrow> (bytes \<Rightarrow> bytes) \<Rightarrow> simple_call script list \<Rightarrow> simple_state \<Rightarrow> simple_state" where
  "sm_play N k scs s = plays (\<lambda>s. snd (sm_checkpoint s)) (\<lambda>s. snd (sm_commit s)) (\<lambda>s. snd (sm_revert s))
     (sm_do N k) scs s"

lemma newSimpleState_inv: "sm_inv newSimpleState"
  by (simp add: newSimpleState_def checkpointSync_def sm_inv_def)

lemma sm_play_inv: "sm_inv s \<Longrightarrow> sm_inv (sm_play N k scs s)"
  unfolding sm_play_def
proof (induction scs arbitrary: s)
  case (Cons sc scs)
  then show ?case using sm.played_inv [where f = "sm_do N k", OF sm_do_top_only Cons.prems] by simp
qed simp

text \<open>
  \<open>putCode\<close> on an account with its fields loaded, or on none, makes the code readable, sets
  the code hash and creates the account if it was missing; other addresses and all storage keep
  their contents.
\<close>

lemma put_code_spec:
  assumes "noble_hex N" and "sm_inv s" and "loaded (stored_or_default (account_at N s a))"
  shows "\<exists>s'. putCode N k a code s = (Inr (), s') \<and> sm_inv s' \<and>
    code_at N s' = (code_at N s)(a := code) \<and> storage_at N s' = storage_at N s \<and>
    account_at N s' = (account_at N s)
      (a := Some ((stored_or_default (account_at N s a))\<lparr>acc_codeHash := Some (k code)\<rparr>))"
proof -
  define s1 where "s1 = s\<lparr>codeStack := setTop (bytesToHex N a) code (codeStack s)\<rparr>"
  have cs: "codeStack s \<noteq> []" using assms(2) by (auto simp: sm_inv_def)
  have s1: "sm_inv s1" "sm_view s1 = (fst (sm_view s), (fst (snd (sm_view s)))(bytesToHex N a := code), snd (snd (sm_view s)))"
    using assms(2) cs by (auto simp: s1_def sm_inv_def sm_view_def level_view_def setTop_def)
  let ?old = "fst (sm_view s) (bytesToHex N a)"
  obtain s2 where s2: "whenE (?old = None) (putAccount N a (Some default_account)) s1 = (Inr (), s2)" "sm_inv s2"
    "sm_view s2 = ((fst (sm_view s1))(bytesToHex N a := Some (stored_or_default ?old)), snd (sm_view s1))"
    using putAccount_view [OF s1(1), of N a "Some default_account"] s1
    by (cases ?old) (auto simp: whenE_run stored_or_default_def fun_upd_idem)
  let ?f = "\<lparr>af_nonce = None, af_balance = None, af_storageRoot = None,
      af_codeHash = Some (k code), af_codeSize = None\<rparr>"
  have f: "modified ?f x = x\<lparr>acc_codeHash := Some (k code)\<rparr>" for x
    by (simp add: modified_def overlay_def)
  have old: "loaded (stored_or_default ?old)" using assms by (simp add: account_at_view)
  then obtain s3 where s3: "modifyAccountFields N a ?f s2 = (Inr (), s3)" "sm_inv s3"
    "sm_view s3 = ((fst (sm_view s2))(bytesToHex N a :=
      Some ((stored_or_default ?old)\<lparr>acc_codeHash := Some (k code)\<rparr>)), snd (sm_view s2))"
    using modify_view [OF s2(2), where N = N and a = a and f = ?f] s2(3)
    by (auto simp: f stored_or_default_Some)
  have upd: "codeStack_update (setTop (bytesToHex N a) code) s = s1" by (cases s) (simp add: s1_def)
  have resE_seq: "seqE (resE (Inr x)) f = f x" for x :: account and f :: "account \<Rightarrow> unit simple_op"
    by (simp add: fun_eq_iff seqE_run)
  have "putCode N k a code s = (Inr (), s3)"
    using cs s2(1) s3(1) s1
    by (simp add: putCode_def seqE_run topLevel_def upd getAccount_view newAccount_default resE_seq)
  then show ?thesis using s3 s2 s1 assms noble_hex.bytesToHex_inj [OF assms(1)] storageKey_inj [OF assms(1)]
    by (auto simp: fun_eq_iff account_at_view code_at_view storage_at_view)
qed

text \<open>The calls as a client thinks of them: updates of three maps.\<close>

type_synonym state_map = "(bytes \<Rightarrow> account option) \<times> (bytes \<Rightarrow> bytes) \<times> (bytes \<Rightarrow> bytes \<Rightarrow> bytes)"

fun map_call :: "(bytes \<Rightarrow> bytes) \<Rightarrow> simple_call \<Rightarrow> state_map \<Rightarrow> state_map" where
  "map_call k (PutAccount a x) (acc, code, stor) = (acc(a := x), code, stor)"
| "map_call k (DeleteAccount a) (acc, code, stor) = (acc(a := None), code, stor)"
| "map_call k (ModifyAccount a f) (acc, code, stor) = (acc(a := Some (modified f (stored_or_default (acc a)))), code, stor)"
| "map_call k (PutCode a c) (acc, code, stor) =
     (acc(a := Some ((stored_or_default (acc a))\<lparr>acc_codeHash := Some (k c)\<rparr>)), code(a := c), stor)"
| "map_call k (PutStorage a key v) (acc, code, stor) = (acc, code, stor(a := (stor a)(key := v)))"
| "map_call k ClearStorage m = m"

definition empty_map :: state_map where
  "empty_map = (\<lambda>_. None, \<lambda>_. [], \<lambda>_ _. [])"

definition all_loaded :: "state_map \<Rightarrow> bool" where
  "all_loaded m \<longleftrightarrow> (\<forall>a x. fst m a = Some x \<longrightarrow> loaded x)"

definition project :: "noble \<Rightarrow> simple_view \<Rightarrow> state_map" where
  "project N v = (\<lambda>a. fst v (bytesToHex N a), \<lambda>a. fst (snd v) (bytesToHex N a),
     \<lambda>a key. snd (snd v) (storageKey N a key))"

lemma project_view: "sm_inv s \<Longrightarrow> project N (sm_view s) = (account_at N s, code_at N s, storage_at N s)"
  by (simp add: project_def fun_eq_iff account_at_view code_at_view storage_at_view)

lemma project_views:
  assumes "noble_hex N"
  shows "project N (A(bytesToHex N a := x), C, S) = ((fst (project N (A, C, S)))(a := x), snd (project N (A, C, S)))"
    and "project N (A, C, S(storageKey N a key := y)) = (fst (project N (A, C, S)), fst (snd (project N (A, C, S))),
      (snd (snd (project N (A, C, S))))(a := (snd (snd (project N (A, C, S))) a)(key := y)))"
  using noble_hex.bytesToHex_inj [OF assms] storageKey_inj [OF assms] by (auto simp: project_def fun_eq_iff)

lemma all_loaded_default: "all_loaded m \<Longrightarrow> loaded (stored_or_default (fst m a))"
  by (auto simp: all_loaded_def stored_or_default_def split: option.splits)

lemma modified_loaded: "loaded a \<Longrightarrow> loaded (modified f a)"
  by (auto simp: loaded_def modified_def overlay_def split: option.splits)

lemma map_call_loaded:
  assumes "all_loaded m" and "\<And>a x. c = PutAccount a (Some x) \<Longrightarrow> loaded x"
  shows "all_loaded (map_call k c m)"
proof -
  obtain acc code stor where m: "m = (acc, code, stor)" by (cases m)
  have acc: "acc a = Some x \<Longrightarrow> loaded x" for a x using assms(1) by (simp add: all_loaded_def m)
  have d: "loaded (stored_or_default (acc a))" for a using all_loaded_default [OF assms(1)] by (simp add: m)
  have h: "loaded ((stored_or_default (acc a))\<lparr>acc_codeHash := Some x\<rparr>)" for a x
    using d [of a] by (simp add: loaded_def)
  show ?thesis unfolding m
    by (cases c) (use assms(2) acc modified_loaded [OF d] h in \<open>auto simp: all_loaded_def\<close>)
qed

text \<open>Each call does to the manager what \<open>map_call\<close> does to the maps.\<close>

lemma sm_do_refines:
  assumes "noble_hex N" and "sm_inv s" and "all_loaded (project N (sm_view s))"
  shows "project N (sm_view (sm_do N k c s)) = map_call k c (project N (sm_view s))"
proof -
  obtain A C S where v: "sm_view s = (A, C, S)" by (cases "sm_view s")
  note p = project_views [OF assms(1)]
  have d: "loaded (stored_or_default (A (bytesToHex N a)))" for a
    using all_loaded_default [OF assms(3)] by (simp add: project_def v)
  have put: "project N (sm_view (snd (putAccount N a x s))) = map_call k (PutAccount a x) (project N (sm_view s))" for a x
    using putAccount_view [OF assms(2), of N a x] p(1) by (auto simp: v project_def)
  show ?thesis
  proof (cases c)
    case (ModifyAccount a f)
    then show ?thesis using modify_view [OF assms(2), of N a f] d [of a] p(1) by (auto simp: v project_def)
  next
    case (PutCode a code)
    have "loaded (stored_or_default (account_at N s a))" using d [of a] assms(2) by (simp add: account_at_view v)
    from put_code_spec [OF assms(1,2) this, where k = k and code = code]
    obtain s' where s': "putCode N k a code s = (Inr (), s')" "sm_inv s'"
      "project N (sm_view s') = map_call k c (project N (sm_view s))"
      by (auto simp: project_view assms(2) PutCode)
    then show ?thesis by (simp add: PutCode)
  next
    case (PutStorage a key y)
    then show ?thesis using putStorage_view [OF assms(2), of N a key y] p(2) by (auto simp: v project_def)
  qed (use put in \<open>auto simp: deleteAccount_put clearStorage_def v project_def\<close>)
qed

lemma shallowCopy_view: "sm_inv s \<Longrightarrow> sm_inv (shallowCopy s) \<and> sm_view (shallowCopy s) = sm_view s"
  by (erule sm_inv_split) (simp add: shallowCopy_def newSimpleState_def checkpointSync_def sm_inv_def sm_view_def)

text \<open>
  C38. The manager is a map of accounts, code and storage with nested frames. After any script of
  puts, deletions, modifications, code and storage writes, in frames that commit or revert to any
  depth, the getters answer what the same script does to three plain maps, where a committed
  frame acts as its calls and a reverted one not at all; they never throw and change nothing, and
  a shallow copy answers the same. Storing code also sets the code hash and creates a missing
  account. The accounts that are put have their fields loaded.
\<close>

theorem simple_state_spec:
  assumes "noble_hex N"
    and "\<And>sc a x. sc \<in> set scs \<Longrightarrow> PutAccount a (Some x) \<in> set_script sc \<Longrightarrow> loaded x"
    and "s = sm_play N k scs newSimpleState" and "(acc, code, stor) = spec_plays (map_call k) scs empty_map"
    and "t = s \<or> t = shallowCopy s"
  shows "getAccount N a t = (Inr (acc a), t) \<and> getCode N a t = (Inr (code a), t) \<and>
    getCodeSize N a t = (Inr (length (code a)), t) \<and> getStorage N a key t = (Inr (stor a key), t)"
proof -
  let ?A = "{c. \<forall>a x. c = PutAccount a (Some x) \<longrightarrow> loaded x}"
  have init: "project N (sm_view newSimpleState) = empty_map" "all_loaded empty_map"
    by (simp_all add: empty_map_def project_def newSimpleState_def checkpointSync_def sm_view_def level_view_def
        topCopy_def all_loaded_def)
  have "project N (sm_view (sm_play N k scs newSimpleState)) = spec_plays (map_call k) scs (project N (sm_view newSimpleState))
      \<and> all_loaded (spec_plays (map_call k) scs (project N (sm_view newSimpleState)))"
    unfolding sm_play_def
  proof (rule sm.plays_refine [where f = "sm_do N k" and A = ?A])
    show "project N (sm_view (sm_do N k c s)) = map_call k c (project N (sm_view s)) \<and>
        all_loaded (map_call k c (project N (sm_view s)))"
      if "c \<in> ?A" "sm_inv s" "all_loaded (project N (sm_view s))" for c s
      using sm_do_refines [OF assms(1) that(2,3)] map_call_loaded [OF that(3)] that(1) by auto
  qed (use assms(2) init newSimpleState_inv sm_do_top_only in auto)
  moreover have "sm_inv s" using sm_play_inv [OF newSimpleState_inv] assms(3) by simp
  ultimately have t: "sm_inv t" "project N (sm_view t) = (acc, code, stor)"
    using assms(3-5) init shallowCopy_view by auto
  then show ?thesis
    by (auto simp: project_def getAccount_view getCode_view getStorage_view getCodeSize_def seqE_run fun_eq_iff)
qed

text \<open>Code is stored, an inner frame commits into an outer one, and a last frame is reverted.\<close>

theorem simple_state_spec_witness:
  "\<exists>s. s = sm_play rlp_noble (\<lambda>b. b) [Do (PutCode [1] [0x60]),
       Frame [Do (PutStorage [1] [2] [3]), Frame [Do (ModifyAccount [1] \<lparr>af_nonce = Some 5, af_balance = None,
         af_storageRoot = None, af_codeHash = None, af_codeSize = None\<rparr>)] True] True,
       Frame [Do (PutCode [1] []), Do (DeleteAccount [1])] False] newSimpleState \<and>
     getAccount rlp_noble [1] s = (Inr (Some (default_account\<lparr>acc_nonce := Some 5, acc_codeHash := Some [0x60]\<rparr>)), s) \<and>
     getCode rlp_noble [1] s = (Inr [0x60], s) \<and> getStorage rlp_noble [1] [2] s = (Inr [3], s)"
proof -
  let ?scs = "[Do (PutCode [1] [0x60]),
       Frame [Do (PutStorage [1] [2] [3]), Frame [Do (ModifyAccount [1] \<lparr>af_nonce = Some 5, af_balance = None,
         af_storageRoot = None, af_codeHash = None, af_codeSize = None\<rparr>)] True] True,
       Frame [Do (PutCode [1] []), Do (DeleteAccount [1])] False]"
  obtain acc code stor where m: "(acc, code, stor) = spec_plays (map_call (\<lambda>b. b)) ?scs empty_map"
    by (metis surj_pair)
  then have "acc [1] = Some (default_account\<lparr>acc_nonce := Some 5, acc_codeHash := Some [0x60]\<rparr>)"
    "code [1] = [0x60]" "stor [1] [2] = [3]"
    by (simp_all add: empty_map_def stored_or_default_def modified_def overlay_def default_account_def)
  moreover have "loaded x" if "sc \<in> set ?scs" "PutAccount a (Some x) \<in> set_script sc" for sc a x
    using that by auto
  ultimately show ?thesis
    using simple_state_spec [OF rlp_hex.noble_hex_axioms _ refl m, where a = "[1]" and key = "[2]"] by auto
qed

section \<open>Original values\<close>

lemma bytes_hex_inj: "bytes_hex a = bytes_hex b \<longleftrightarrow> a = b"
  using rlp_hex.bytesToHex_inj [of a b] by (simp add: rlp_hex.bytesToHex_eq)

lemma oc_put_lookup: "noble_hex N \<Longrightarrow> oc_lookup N a k (oc_put N a' k' v c) =
  (if a = a' \<and> k = k' \<and> oc_lookup N a k c = None then Some v else oc_lookup N a k c)"
  by (auto simp: oc_lookup_def oc_put_def Let_def noble_hex.bytesToUnprefixedHex_eq bytes_hex_inj
      split: option.splits)

text \<open>
  C39. The first value read for a slot is what every later read returns, whatever the state has
  become and whatever other slots were read in between, until the cache is cleared.
\<close>

theorem original_value_stable:
  assumes "noble_hex N" and "oc_get N read a k (m, c) = (Inr v, (m', c'))"
    and "c'' = foldl (\<lambda>c (a, k, v). oc_put N a k v c) c' puts"
  shows "oc_get N read' a k (m2, c'') = (Inr v, (m2, c''))"
proof -
  have "oc_lookup N a k c' = Some v"
    using assms(2) oc_put_lookup [OF assms(1), of a k a k v c]
    by (auto simp: oc_get_def split: option.splits prod.splits sum.splits)
  then have "oc_lookup N a k c'' = Some v" unfolding assms(3)
    by (induction puts arbitrary: c') (auto simp: oc_put_lookup [OF assms(1)])
  then show ?thesis by (simp add: oc_get_def)
qed

theorem original_value_stable_witness:
  "oc_get rlp_noble (\<lambda>_ _. ret [9]) [1] [2] ((), snd (snd (oc_get rlp_noble (\<lambda>_ _. ret [5]) [1] [2] ((), []))))
     = (Inr [5], ((), snd (snd (oc_get rlp_noble (\<lambda>_ _. ret [5]) [1] [2] ((), [])))))"
  by (rule original_value_stable [OF rlp_hex.noble_hex_axioms, where puts = "[]" and m = "()" and c = "[]"
        and m' = "()" and read = "\<lambda>_ _. ret [5]"])
    (simp_all add: oc_get_def oc_lookup_def)

end
