(* ===== verification/Journal.thy ===== *)
theory Journal
  imports SimpleState Common
begin

text \<open>
  The EVM's journal, \<^verbatim>\<open>packages/evm/src/journal.ts\<close>: which addresses and slots are warm
  (EIP-2929) and which accounts were touched (EIP-161), with a list of differences that \<open>revert\<close>
  undoes. Every entry of the list carries the depth it was opened at; \<open>commit\<close> opens a new entry
  one level up instead of merging. The journal forwards its checkpoints to a state manager \<open>M\<close>,
  whose state is the field \<open>j_state\<close>. Hexadecimal text is the key of its maps, as in the code.
\<close>

section \<open>State\<close>

text \<open>\<open>JournalDiffItem\<close>: warm addresses, warm slots and touched accounts to remove again.\<close>

record diff_item =
  d_addresses :: "string list"
  d_slots :: "(string \<times> string list) list"
  d_touched :: "string list"

definition empty_diff :: diff_item where
  "empty_diff = \<lparr>d_addresses = [], d_slots = [], d_touched = []\<rparr>"

record 'm journal =
  j_state :: 'm
  j_warm :: "(string \<times> string list) list"
  j_alwaysWarm :: "(string \<times> string list) list"
  j_touched :: "string list"
  j_diffs :: "(int \<times> diff_item) list"
  j_height :: int
  j_accessList :: "(string \<times> string list) list option"
  j_preimages :: "(string \<times> bytes) list option"

type_synonym ('m, 'a) jop = "('m journal, js_error, 'a) eff"

definition RIPEMD160_ADDRESS_STRING :: string where
  "RIPEMD160_ADDRESS_STRING = ''0000000000000000000000000000000000000003''"

definition cleanJournal :: "'m journal \<Rightarrow> 'm journal" where
  "cleanJournal s = s\<lparr>j_height := 0, j_warm := [], j_alwaysWarm := [], j_touched := [],
     j_diffs := [(0, empty_diff)]\<rparr>"

definition newJournal :: "'m \<Rightarrow> 'm journal" where
  "newJournal m = (let s = cleanJournal \<lparr>j_state = m, j_warm = [], j_alwaysWarm = [], j_touched = [],
     j_diffs = [], j_height = 0, j_accessList = None, j_preimages = None\<rparr> in s\<lparr>j_height := 0\<rparr>)"

definition startReportingAccessList :: "'m journal \<Rightarrow> 'm journal" where
  "startReportingAccessList s = s\<lparr>j_accessList := Some []\<rparr>"

definition startReportingPreimages :: "'m journal \<Rightarrow> 'm journal" where
  "startReportingPreimages s = s\<lparr>j_preimages := Some []\<rparr>"

text \<open>A call of the state manager.\<close>

definition stateE :: "('m, js_error, 'a) eff \<Rightarrow> ('m, 'a) jop" where
  "stateE m = (\<lambda>s. case m (j_state s) of (r, m') \<Rightarrow> (r, s\<lparr>j_state := m'\<rparr>))"

text \<open>Changing the last entry of the difference list in place.\<close>

definition on_last_diff :: "(diff_item \<Rightarrow> diff_item) \<Rightarrow> (int \<times> diff_item) list \<Rightarrow> (int \<times> diff_item) list" where
  "on_last_diff f ds = butlast ds @ [(fst (last ds), f (snd (last ds)))]"

section \<open>Touched accounts\<close>

definition touchAccount :: "noble \<Rightarrow> 'm manager \<Rightarrow> string \<Rightarrow> ('m, unit) jop" where
  "touchAccount N M address =
     seqE (seqE (getE j_preimages) (\<lambda>pre. case pre of
         None \<Rightarrow> ret ()
       | Some p \<Rightarrow> seqE (resE (unprefixedHexToBytes N address)) (\<lambda>bytesAddress.
           case m_getAppliedKey M of
             None \<Rightarrow> raise (EthereumJSError ''touchAccount: stateManager.getAppliedKey can not be undefined if preimage storing is enabled'')
           | Some getAppliedKey \<Rightarrow>
               updE (j_preimages_update (\<lambda>_. Some (obj_set (bytesToHex N (getAppliedKey bytesAddress)) bytesAddress p))))))
     (\<lambda>_. updE (\<lambda>s. if address \<in> set (j_touched s) then s
        else s\<lparr>j_touched := set_add address (j_touched s),
               j_diffs := on_last_diff (d_touched_update (set_add address)) (j_diffs s)\<rparr>))"

definition touchAddress :: "noble \<Rightarrow> 'm manager \<Rightarrow> bytes \<Rightarrow> ('m, unit) jop" where
  "touchAddress N M address = touchAccount N M (drop 2 (bytesToHex N address))"

definition j_putAccount :: "noble \<Rightarrow> 'm manager \<Rightarrow> bytes \<Rightarrow> account option \<Rightarrow> ('m, unit) jop" where
  "j_putAccount N M address account = seqE (touchAddress N M address) (\<lambda>_.
     stateE (m_putAccount M address account))"

definition j_deleteAccount :: "noble \<Rightarrow> 'm manager \<Rightarrow> bytes \<Rightarrow> ('m, unit) jop" where
  "j_deleteAccount N M address = seqE (touchAddress N M address) (\<lambda>_.
     stateE (m_deleteAccount M address))"

section \<open>Checkpoints\<close>

definition j_commit :: "'m manager \<Rightarrow> ('m, unit) jop" where
  "j_commit M = seqE (updE (\<lambda>s. s\<lparr>j_height := j_height s - 1,
       j_diffs := j_diffs s @ [(j_height s - 1, empty_diff)]\<rparr>)) (\<lambda>_. stateE (m_commit M))"

definition j_checkpoint :: "'m manager \<Rightarrow> ('m, unit) jop" where
  "j_checkpoint M = seqE (updE (\<lambda>s. s\<lparr>j_height := j_height s + 1,
       j_diffs := j_diffs s @ [(j_height s + 1, empty_diff)]\<rparr>)) (\<lambda>_. stateE (m_checkpoint M))"

text \<open>The body of the loop of \<open>revert\<close>: addresses, slots and touched accounts of one entry.\<close>

definition delete_slots :: "(string \<times> string list) list \<Rightarrow> string \<times> string list \<Rightarrow> (string \<times> string list) list" where
  "delete_slots w ad = (case ad of (address, delSlots) \<Rightarrow> (case map_of w address of
     None \<Rightarrow> w
   | Some slots \<Rightarrow> obj_set address (foldl (\<lambda>ss d. set_delete d ss) slots delSlots) w))"

definition undo_diff :: "diff_item \<Rightarrow> 'm journal \<Rightarrow> 'm journal" where
  "undo_diff d s =
     (let w1 = foldl (\<lambda>w address. if map_of w address \<noteq> None then obj_delete address w else w)
                 (j_warm s) (d_addresses d);
          w2 = foldl delete_slots w1 (d_slots d);
          t = foldl (\<lambda>t address. if address \<noteq> RIPEMD160_ADDRESS_STRING then set_delete address t else t)
                 (j_touched s) (d_touched d) in
      s\<lparr>j_warm := w2, j_touched := t\<rparr>)"

text \<open>
  The loop, on the entries from the last to the first, and the entries it leaves: those up to
  the one it stopped at, or the first entry when it never stopped.
\<close>

fun revertLoop :: "int \<Rightarrow> (int \<times> diff_item) list \<Rightarrow> 'm journal \<Rightarrow> (int \<times> diff_item) list \<times> 'm journal" where
  "revertLoop h [] s = ([], s)"
| "revertLoop h ((height, diff) # rest) s =
     (if height < h then ((height, diff) # rest, s)
      else if rest = [] then ([(height, diff)], undo_diff diff s)
      else revertLoop h rest (undo_diff diff s))"

definition j_revert :: "'m manager \<Rightarrow> ('m, unit) jop" where
  "j_revert M = seqE (updE (\<lambda>s. case revertLoop (j_height s) (rev (j_diffs s)) s of
       (left, s') \<Rightarrow> s'\<lparr>j_diffs := rev left, j_height := j_height s - 1\<rparr>))
     (\<lambda>_. stateE (m_revert M))"

text \<open>
  The loop over \<open>touched\<close> runs over the accounts touched before it: those it deletes are touched
  already.
\<close>

definition cleanupAccount :: "noble \<Rightarrow> 'm manager \<Rightarrow> string \<Rightarrow> ('m, unit) jop" where
  "cleanupAccount N M addressHex =
     seqE (resE (and_then (hexToBytes N (''0x'' @ addressHex)) newAddress)) (\<lambda>address.
     seqE (stateE (m_getAccount M address)) (\<lambda>account.
     seqE (resE (case account of None \<Rightarrow> Inr True | Some a \<Rightarrow> isEmpty a)) (\<lambda>empty.
     whenE empty (j_deleteAccount N M address))))"

definition cleanup :: "noble \<Rightarrow> common \<Rightarrow> 'm manager \<Rightarrow> ('m, unit) jop" where
  "cleanup N c M =
     seqE (seqE (getE j_touched) (\<lambda>touched.
       whenE (gteHardfork c ''spuriousDragon'') (forE touched (cleanupAccount N M)))) (\<lambda>_.
     updE (\<lambda>s. (cleanJournal s)\<lparr>j_accessList := None, j_preimages := None\<rparr>))"

section \<open>Warm addresses and slots\<close>

definition addAlwaysWarmAddress :: "string \<Rightarrow> bool \<Rightarrow> 'm journal \<Rightarrow> 'm journal" where
  "addAlwaysWarmAddress addressStr addToAccessList s =
     (let address = stripHexPrefix addressStr;
          s1 = (if map_of (j_alwaysWarm s) address = None
                then s\<lparr>j_alwaysWarm := obj_set address [] (j_alwaysWarm s)\<rparr> else s) in
      if addToAccessList then
        (case j_accessList s1 of
           Some al \<Rightarrow> if map_of al address = None then s1\<lparr>j_accessList := Some (obj_set address [] al)\<rparr> else s1
         | None \<Rightarrow> s1)
      else s1)"

text \<open>The set stored under a key of a map changed in place; the code's \<open>!\<close> fails when it is missing.\<close>

definition add_in :: "string \<Rightarrow> string \<Rightarrow> (string \<times> string list) list \<Rightarrow> (string \<times> string list) list res" where
  "add_in k x m = (case map_of m k of None \<Rightarrow> Inl TypeError | Some xs \<Rightarrow> Inr (obj_set k (set_add x xs) m))"

definition addAlwaysWarmSlot :: "string \<Rightarrow> string \<Rightarrow> bool \<Rightarrow> ('m, unit) jop" where
  "addAlwaysWarmSlot addressStr slotStr addToAccessList =
     (let address = stripHexPrefix addressStr; slot = stripHexPrefix slotStr in
      seqE (updE (addAlwaysWarmAddress address addToAccessList)) (\<lambda>_.
      seqE (seqE (getE (\<lambda>s. add_in address slot (j_alwaysWarm s))) resE) (\<lambda>aw.
      seqE (updE (j_alwaysWarm_update (\<lambda>_. aw))) (\<lambda>_.
      if addToAccessList then
        seqE (getE j_accessList) (\<lambda>acl. case acl of
          Some al \<Rightarrow> seqE (resE (add_in address slot al)) (\<lambda>al'. updE (j_accessList_update (\<lambda>_. Some al')))
        | None \<Rightarrow> ret ())
      else ret ()))))"

definition isWarmedAddress :: "noble \<Rightarrow> bytes \<Rightarrow> 'm journal \<Rightarrow> bool" where
  "isWarmedAddress N address s =
     (let addressHex = bytesToUnprefixedHex N address in
      map_of (j_warm s) addressHex \<noteq> None \<or> map_of (j_alwaysWarm s) addressHex \<noteq> None)"

definition addWarmedAddress :: "noble \<Rightarrow> bytes \<Rightarrow> 'm journal \<Rightarrow> 'm journal" where
  "addWarmedAddress N addressArr s =
     (let address = bytesToUnprefixedHex N addressArr;
          s1 = (if map_of (j_warm s) address = None
                then s\<lparr>j_warm := obj_set address [] (j_warm s),
                       j_diffs := on_last_diff (d_addresses_update (set_add address)) (j_diffs s)\<rparr>
                else s) in
      case j_accessList s1 of
        Some al \<Rightarrow> if map_of al address = None then s1\<lparr>j_accessList := Some (obj_set address [] al)\<rparr> else s1
      | None \<Rightarrow> s1)"

definition isWarmedStorage :: "noble \<Rightarrow> bytes \<Rightarrow> bytes \<Rightarrow> 'm journal \<Rightarrow> bool" where
  "isWarmedStorage N address slot s =
     (let addressHex = bytesToUnprefixedHex N address; slotHex = bytesToUnprefixedHex N slot in
      case map_of (j_warm s) addressHex of
        None \<Rightarrow> (case map_of (j_alwaysWarm s) addressHex of
            Some always \<Rightarrow> slotHex \<in> set always
          | None \<Rightarrow> False)
      | Some slots \<Rightarrow>
          if slotHex \<in> set slots then True
          else (case map_of (j_alwaysWarm s) addressHex of
              Some always \<Rightarrow> slotHex \<in> set always
            | None \<Rightarrow> False))"

text \<open>The middle of \<open>addWarmedStorage\<close>: the slot enters the warm set and the last difference.\<close>

definition addSlotToMap :: "string \<Rightarrow> string \<Rightarrow> (string \<times> string list) list \<Rightarrow> (string \<times> string list) list" where
  "addSlotToMap addressHex slotStr m =
     (let m1 = (if map_of m addressHex = None then obj_set addressHex [] m else m) in
      obj_set addressHex (set_add slotStr (the (map_of m1 addressHex))) m1)"

definition markSlot :: "string \<Rightarrow> string \<Rightarrow> 'm journal \<Rightarrow> 'm journal" where
  "markSlot addressHex slotStr s =
     (let slots = the (map_of (j_warm s) addressHex) in
      if slotStr \<in> set slots then s
      else s\<lparr>j_warm := obj_set addressHex (set_add slotStr slots) (j_warm s),
             j_diffs := on_last_diff (d_slots_update (addSlotToMap addressHex slotStr)) (j_diffs s)\<rparr>)"

definition reportSlot :: "string \<Rightarrow> string \<Rightarrow> ('m, unit) jop" where
  "reportSlot addressHex slotStr = seqE (getE j_accessList) (\<lambda>acl. case acl of
     Some al \<Rightarrow> seqE (resE (add_in addressHex slotStr al)) (\<lambda>al'. updE (j_accessList_update (\<lambda>_. Some al')))
   | None \<Rightarrow> ret ())"

definition addWarmedStorage :: "noble \<Rightarrow> bytes \<Rightarrow> bytes \<Rightarrow> ('m, unit) jop" where
  "addWarmedStorage N address slot =
     (let addressHex = bytesToUnprefixedHex N address; slotStr = bytesToUnprefixedHex N slot in
      seqE (updE (\<lambda>s. if map_of (j_warm s) addressHex = None then addWarmedAddress N address s else s)) (\<lambda>_.
      seqE (updE (markSlot addressHex slotStr)) (\<lambda>_. reportSlot addressHex slotStr)))"

section \<open>The journal as a store with checkpoints\<close>

text \<open>What is warm, and what is touched apart from the RIPEMD-160 account, which stays touched.\<close>

type_synonym journal_view = "(string \<Rightarrow> string set option) \<times> string set"

definition warm_view :: "(string \<times> string list) list \<Rightarrow> string \<Rightarrow> string set option" where
  "warm_view w a = map_option set (map_of w a)"

definition j_view :: "'m journal \<Rightarrow> journal_view" where
  "j_view s = (warm_view (j_warm s), set (j_touched s) - {RIPEMD160_ADDRESS_STRING})"

definition slots_of :: "(string \<times> string list) list \<Rightarrow> string \<Rightarrow> string set" where
  "slots_of m a = \<Union> {set ds | ds. (a, ds) \<in> set m}"

definition undo_view :: "diff_item \<Rightarrow> journal_view \<Rightarrow> journal_view" where
  "undo_view d v =
     (\<lambda>a. if a \<in> set (d_addresses d) then None else map_option (\<lambda>S. S - slots_of (d_slots d) a) (fst v a),
      snd v - set (d_touched d))"

fun unwind :: "int \<Rightarrow> (int \<times> diff_item) list \<Rightarrow> journal_view \<Rightarrow> journal_view" where
  "unwind h [] v = v"
| "unwind h ((k, d) # ds) v = (if k < h then v else unwind h ds (undo_view d v))"

definition j_saved :: "'m journal \<Rightarrow> journal_view list" where
  "j_saved s = map (\<lambda>h. unwind h (rev (j_diffs s)) (j_view s)) (rev [1..j_height s])"

text \<open>Neighbouring entries are one level apart, the first is at level 0, the last at the current one.\<close>

fun chain :: "int list \<Rightarrow> bool" where
  "chain [] = False"
| "chain [h] = (h = 0)"
| "chain (a # b # r) = (\<bar>a - b\<bar> = 1 \<and> chain (b # r))"

definition j_inv :: "(string \<times> string list) list \<Rightarrow> 'm journal \<Rightarrow> bool" where
  "j_inv W s \<longleftrightarrow> 0 \<le> j_height s \<and> chain (map fst (rev (j_diffs s))) \<and>
     fst (last (j_diffs s)) = j_height s \<and> j_alwaysWarm s = W"

lemma warm_view_None: "warm_view w a = None \<longleftrightarrow> map_of w a = None"
  by (simp add: warm_view_def)

lemma j_inv_diffs: "j_inv W s \<Longrightarrow> \<exists>d ds. rev (j_diffs s) = (j_height s, d) # ds"
  by (cases "j_diffs s" rule: rev_cases) (auto simp: j_inv_def)

lemma undo_empty [simp]: "undo_view empty_diff v = v"
  by (simp add: undo_view_def empty_diff_def slots_of_def option.map_ident prod_eq_iff fun_eq_iff)

lemma chain_cons: "chain (k # r) \<Longrightarrow> \<bar>k' - k\<bar> = 1 \<Longrightarrow> chain (k' # k # r)"
  by simp

lemma rev_upto_snoc: "0 \<le> h \<Longrightarrow> rev [1..h + 1] = (h + 1) # rev [1..h]"
  by (simp add: upto_rec2)

lemma stateE_fields: "j_view (snd (stateE m s)) = j_view s" "j_height (snd (stateE m s)) = j_height s"
  "j_diffs (snd (stateE m s)) = j_diffs s" "j_alwaysWarm (snd (stateE m s)) = j_alwaysWarm s"
  "j_touched (snd (stateE m s)) = j_touched s" "j_warm (snd (stateE m s)) = j_warm s"
  by (simp_all add: stateE_def j_view_def split: prod.splits)

lemma stateE_inv [simp]: "j_inv W (snd (stateE m s)) = j_inv W s" "j_saved (snd (stateE m s)) = j_saved s"
  by (simp_all add: j_inv_def j_saved_def stateE_fields)

lemma push_diff:
  assumes "j_inv W s" and "\<bar>h - j_height s\<bar> = 1" and "0 \<le> h"
    and "s' = s\<lparr>j_height := h, j_diffs := j_diffs s @ [(h, empty_diff)]\<rparr>"
  shows "j_inv W s' \<and> j_view s' = j_view s \<and>
    j_saved s' = map (\<lambda>i. unwind i (rev (j_diffs s)) (j_view s)) (rev [1..h])"
proof -
  obtain d ds where ds: "rev (j_diffs s) = (j_height s, d) # ds" using j_inv_diffs [OF assms(1)] by blast
  then have "j_inv W s'" using assms by (auto simp: j_inv_def)
  moreover have view: "j_view s' = j_view s" by (simp add: assms(4) j_view_def)
  ultimately show ?thesis by (auto simp: j_saved_def view assms(4))
qed

lemma j_checkpoint_law:
  assumes "j_inv W s"
  shows "(\<lambda>s'. j_inv W s' \<and> j_view s' = j_view s \<and> j_saved s' = j_view s # j_saved s) (snd (j_checkpoint M s))"
proof -
  let ?s = "s\<lparr>j_height := j_height s + 1, j_diffs := j_diffs s @ [(j_height s + 1, empty_diff)]\<rparr>"
  have h: "0 \<le> j_height s" using assms by (simp add: j_inv_def)
  obtain d ds where ds: "rev (j_diffs s) = (j_height s, d) # ds" using j_inv_diffs [OF assms] by blast
  have "j_inv W ?s \<and> j_view ?s = j_view s \<and> j_saved ?s = j_view s # j_saved s"
    using push_diff [OF assms, of "j_height s + 1" ?s] h ds by (simp add: rev_upto_snoc j_saved_def)
  then show ?thesis by (simp add: j_checkpoint_def seqE_run stateE_fields)
qed

lemma j_commit_law:
  assumes "j_inv W s" and "j_saved s \<noteq> []"
  shows "(\<lambda>s'. j_inv W s' \<and> j_view s' = j_view s \<and> j_saved s' = tl (j_saved s)) (snd (j_commit M s))"
proof -
  let ?s = "s\<lparr>j_height := j_height s - 1, j_diffs := j_diffs s @ [(j_height s - 1, empty_diff)]\<rparr>"
  have h: "1 \<le> j_height s" using assms by (simp add: j_saved_def)
  have "j_inv W ?s \<and> j_view ?s = j_view s \<and> j_saved ?s = tl (j_saved s)"
    using push_diff [OF assms(1), of "j_height s - 1" ?s] h rev_upto_snoc [of "j_height s - 1"]
    by (simp add: j_saved_def)
  then show ?thesis by (simp add: j_commit_def seqE_run stateE_fields)
qed

section \<open>Undoing an entry\<close>

lemma warm_view_delete: "warm_view (foldl (\<lambda>w address. if map_of w address \<noteq> None then obj_delete address w else w) w as)
  = (\<lambda>a. if a \<in> set as then None else warm_view w a)"
  by (induction as arbitrary: w) (auto simp: warm_view_def fun_eq_iff)

lemma set_foldl_delete: "set (foldl (\<lambda>ss d. set_delete d ss) slots ds) = set slots - set ds"
  by (induction ds arbitrary: slots) auto

lemma warm_view_delete_slots: "warm_view (delete_slots w (a, ds)) =
  (\<lambda>b. if b = a then map_option (\<lambda>S. S - set ds) (warm_view w b) else warm_view w b)"
  by (auto simp: warm_view_def delete_slots_def fun_eq_iff set_foldl_delete split: option.splits)

lemma slots_of_Nil: "slots_of [] a = {}"
  by (simp add: slots_of_def)

lemma slots_of_Cons: "slots_of ((a, ds) # m) b = (if b = a then set ds \<union> slots_of m b else slots_of m b)"
  by (auto simp: slots_of_def)

lemma warm_view_delete_all: "warm_view (foldl delete_slots w m) =
  (\<lambda>a. map_option (\<lambda>S. S - slots_of m a) (warm_view w a))"
proof (induction m arbitrary: w)
  case Nil
  then show ?case by (simp add: slots_of_def option.map_ident fun_eq_iff)
next
  case (Cons x m)
  obtain a ds where "x = (a, ds)" by force
  then show ?case
    by (auto simp: Cons.IH warm_view_delete_slots slots_of_Cons fun_eq_iff option.map_comp comp_def Diff_eq Int_assoc)
qed

lemma undo_touched: "set (foldl (\<lambda>t address. if address \<noteq> R then set_delete address t else t) t as) =
  set t - (set as - {R})"
  by (induction as arbitrary: t) auto

lemma undo_diff_view: "j_view (undo_diff d s) = undo_view d (j_view s)"
  by (auto simp: undo_diff_def j_view_def undo_view_def Let_def warm_view_delete_all warm_view_delete
      undo_touched fun_eq_iff simp del: not_None_eq)

lemma undo_diff_fields: "j_alwaysWarm (undo_diff d s) = j_alwaysWarm s"
  by (simp add: undo_diff_def Let_def)

lemma revertLoop_spec:
  assumes "revertLoop h rds s = (left, s')" "chain (map fst rds)" "h - 1 \<le> fst (hd rds)" "1 \<le> h"
  shows "j_view s' = unwind h rds (j_view s) \<and> j_alwaysWarm s' = j_alwaysWarm s \<and>
    chain (map fst left) \<and> fst (hd left) = h - 1 \<and>
    (\<forall>i < h. unwind i rds (j_view s) = unwind i left (j_view s'))"
  using assms
proof (induction h rds s rule: revertLoop.induct)
  case (2 h height diff rest s)
  show ?case
  proof (cases "height < h")
    case False
    then obtain k d rest' where rest: "rest = (k, d) # rest'"
      using 2 by (cases rest) auto
    with False 2(1) [OF False] 2(2-) show ?thesis
      by (auto simp: undo_diff_view undo_diff_fields)
  qed (use 2 in auto)
qed simp

lemma j_revert_law:
  assumes "j_inv W s" and "j_saved s \<noteq> []"
  shows "(\<lambda>s'. j_inv W s' \<and> j_view s' = hd (j_saved s) \<and> j_saved s' = tl (j_saved s)) (snd (j_revert M s))"
proof -
  have h: "1 \<le> j_height s" using assms by (simp add: j_saved_def)
  obtain left s1 where loop: "revertLoop (j_height s) (rev (j_diffs s)) s = (left, s1)" by force
  define s2 where "s2 = s1\<lparr>j_diffs := rev left, j_height := j_height s - 1\<rparr>"
  obtain d ds where ds: "rev (j_diffs s) = (j_height s, d) # ds" using j_inv_diffs [OF assms(1)] by blast
  have chain: "chain (map fst (rev (j_diffs s)))" using assms(1) by (simp add: j_inv_def)
  have head: "j_height s - 1 \<le> fst (hd (rev (j_diffs s)))" by (simp add: ds)
  note spec = revertLoop_spec [OF loop chain head h]
  have left: "chain (map fst left)" "fst (hd left) = j_height s - 1"
    using spec by blast+
  then have "left \<noteq> []" by auto
  have view: "j_view s2 = unwind (j_height s) (rev (j_diffs s)) (j_view s)"
    using conjunct1 [OF spec] by (simp add: s2_def j_view_def)
  have aw: "j_alwaysWarm s2 = j_alwaysWarm s"
    using conjunct1 [OF conjunct2 [OF spec]] by (simp add: s2_def)
  have below: "unwind i (rev (j_diffs s)) (j_view s) = unwind i left (j_view s1)" if "i < j_height s" for i
    using spec that by blast
  have "j_inv W s2" using left \<open>left \<noteq> []\<close> aw h assms(1)
    by (simp add: j_inv_def s2_def last_rev)
  moreover have saved: "rev [1..j_height s] = j_height s # rev [1..j_height s - 1]"
    using rev_upto_snoc [of "j_height s - 1"] h by simp
  moreover have "j_saved s2 = map (\<lambda>i. unwind i left (j_view s1)) (rev [1..j_height s - 1])"
    by (simp add: j_saved_def s2_def j_view_def)
  moreover have "\<dots> = tl (j_saved s)"
    using below by (auto simp: j_saved_def saved)
  ultimately have "j_inv W s2 \<and> j_view s2 = hd (j_saved s) \<and> j_saved s2 = tl (j_saved s)"
    using view by (simp add: j_saved_def)
  moreover have "snd (j_revert M s) = snd (stateE (m_revert M) s2)"
    by (simp add: j_revert_def seqE_run loop s2_def)
  ultimately show ?thesis by (simp add: stateE_fields)
qed


section \<open>Operations inside a frame\<close>

definition in_frame :: "(string \<times> string list) list \<Rightarrow> 'm journal \<Rightarrow> 'm journal \<Rightarrow> bool" where
  "in_frame W s s' \<longleftrightarrow> (j_inv W s \<longrightarrow> j_inv W s' \<and> j_saved s' = j_saved s)"

lemma in_frame_refl [simp, intro]: "in_frame W s s"
  by (simp add: in_frame_def)

lemma in_frame_trans: "in_frame W s s' \<Longrightarrow> in_frame W s' s'' \<Longrightarrow> in_frame W s s''"
  by (auto simp: in_frame_def)

lemma in_frame_same: "j_warm s' = j_warm s \<Longrightarrow> j_touched s' = j_touched s \<Longrightarrow> j_diffs s' = j_diffs s \<Longrightarrow>
  j_height s' = j_height s \<Longrightarrow> j_alwaysWarm s' = j_alwaysWarm s \<Longrightarrow> in_frame W s s'"
  by (simp add: in_frame_def j_inv_def j_saved_def j_view_def)

lemma in_frame_diff:
  assumes "j_diffs s' = on_last_diff f (j_diffs s)" "j_height s' = j_height s" "j_alwaysWarm s' = j_alwaysWarm s"
    and "\<And>d. undo_view (f d) (j_view s') = undo_view d (j_view s)"
  shows "in_frame W s s'"
  unfolding in_frame_def
proof
  assume inv: "j_inv W s"
  obtain d ds where ds: "rev (j_diffs s) = (j_height s, d) # ds" using j_inv_diffs [OF inv] by blast
  then have js: "j_diffs s = rev ds @ [(j_height s, d)]" by (metis rev.simps(2) rev_rev_ident)
  then have js': "j_diffs s' = rev ds @ [(j_height s, f d)]" by (simp add: assms(1) on_last_diff_def)
  then have "j_inv W s'" using inv assms(2,3) by (cases ds) (auto simp: j_inv_def js)
  moreover have "j_saved s' = j_saved s"
    by (auto simp: j_saved_def js js' assms(2,4))
  ultimately show "j_inv W s' \<and> j_saved s' = j_saved s" by blast
qed

lemma addWarmedAddress_frame: "in_frame W s (addWarmedAddress N a s)"
proof -
  let ?a = "bytesToUnprefixedHex N a"
  let ?s1 = "s\<lparr>j_warm := obj_set ?a [] (j_warm s), j_diffs := on_last_diff (d_addresses_update (set_add ?a)) (j_diffs s)\<rparr>"
  have "in_frame W s ?s1" if "map_of (j_warm s) ?a = None"
    by (rule in_frame_diff [where f = "d_addresses_update (set_add ?a)"])
      (use that in \<open>auto simp: undo_view_def j_view_def warm_view_def fun_eq_iff\<close>)
  moreover have "in_frame W t (case j_accessList t of
        Some al \<Rightarrow> if map_of al ?a = None then t\<lparr>j_accessList := Some (obj_set ?a [] al)\<rparr> else t
      | None \<Rightarrow> t)" for t :: "'a journal"
    by (auto split: option.splits intro: in_frame_same)
  moreover have "in_frame W s (if map_of (j_warm s) ?a = None then ?s1 else s)"
    using calculation(1) by simp
  ultimately show ?thesis
    unfolding addWarmedAddress_def Let_def by (blast intro: in_frame_trans)
qed

lemma addWarmedAddress_warm: "warm_view (j_warm (addWarmedAddress N a s)) =
  (if map_of (j_warm s) (bytesToUnprefixedHex N a) = None
   then (warm_view (j_warm s))(bytesToUnprefixedHex N a \<mapsto> {}) else warm_view (j_warm s))"
  by (auto simp: addWarmedAddress_def Let_def warm_view_def fun_eq_iff split: option.splits)

lemma slots_of_obj_set: "slots_of (obj_set a (set_add x (case map_of m a of None \<Rightarrow> [] | Some ds \<Rightarrow> ds)) m) b =
  (if b = a then insert x (slots_of m b) else slots_of m b)"
proof (induction m)
  case (Cons y m)
  obtain c ds where "y = (c, ds)" by force
  then show ?case using Cons.IH by (cases "c = a"; cases "b = c"; cases "b = a") (simp_all add: slots_of_Cons)
qed (simp add: slots_of_Cons slots_of_Nil)

lemma slots_of_add: "slots_of (let m1 = (if map_of m a = None then obj_set a [] m else m) in
    obj_set a (set_add x (the (map_of m1 a))) m1) b =
  (if b = a then insert x (slots_of m b) else slots_of m b)"
proof -
  have "obj_set a (ds :: string list) (obj_set a [] m) = obj_set a ds m" for ds
    by (induction m) auto
  then show ?thesis using slots_of_obj_set [of a x m b] by (auto simp: Let_def split: option.splits)
qed

lemma in_frame_seqE:
  assumes "\<And>s. in_frame W s (snd (m s))" "\<And>x s. in_frame W s (snd (f x s))"
  shows "in_frame W s (snd (seqE m f s))"
proof (cases "m s")
  case (Pair r s1)
  then have 1: "in_frame W s s1" using assms(1) [of s] by simp
  show ?thesis
    by (cases r) (use 1 Pair in_frame_trans [OF 1 assms(2)] in simp_all)
qed

lemma reportSlot_fields:
  "j_warm (snd (reportSlot a k s)) = j_warm s" "j_touched (snd (reportSlot a k s)) = j_touched s"
  "j_diffs (snd (reportSlot a k s)) = j_diffs s" "j_height (snd (reportSlot a k s)) = j_height s"
  "j_alwaysWarm (snd (reportSlot a k s)) = j_alwaysWarm s"
  by (auto simp: reportSlot_def seqE_run split: option.splits sum.splits)

lemma markSlot_frame:
  assumes "map_of (j_warm s) a \<noteq> None"
  shows "in_frame W s (markSlot a k s)"
proof -
  obtain slots where slots: "map_of (j_warm s) a = Some slots" using assms by auto
  show ?thesis
  proof (cases "k \<in> set slots")
    case False
    then show ?thesis unfolding markSlot_def slots Let_def option.sel if_not_P [OF False]
      by (intro in_frame_diff [where f = "d_slots_update (addSlotToMap a k)"])
        (auto simp: undo_view_def j_view_def warm_view_def fun_eq_iff slots addSlotToMap_def slots_of_add)
  qed (simp add: markSlot_def slots)
qed

text \<open>The address is in the map once the first step is done.\<close>

definition warmed :: "noble \<Rightarrow> bytes \<Rightarrow> 'm journal \<Rightarrow> 'm journal" where
  "warmed N a s = (if map_of (j_warm s) (bytesToUnprefixedHex N a) = None then addWarmedAddress N a s else s)"

lemma warmed_view: "warm_view (j_warm (warmed N a s)) = (warm_view (j_warm s))(bytesToUnprefixedHex N a \<mapsto>
  (case warm_view (j_warm s) (bytesToUnprefixedHex N a) of None \<Rightarrow> {} | Some S \<Rightarrow> S))"
  by (auto simp: warmed_def addWarmedAddress_warm fun_eq_iff simp flip: warm_view_None split: option.splits)

lemma addWarmedStorage_run: "addWarmedStorage N a k s =
  reportSlot (bytesToUnprefixedHex N a) (bytesToUnprefixedHex N k)
    (markSlot (bytesToUnprefixedHex N a) (bytesToUnprefixedHex N k) (warmed N a s))"
  by (simp add: addWarmedStorage_def Let_def seqE_run warmed_def)

lemma warmed_in: "map_of (j_warm (warmed N a s)) (bytesToUnprefixedHex N a) \<noteq> None"
  using warmed_view [of N a s] by (simp flip: warm_view_None)

lemma addWarmedStorage_frame: "in_frame W s (snd (addWarmedStorage N a k s))"
proof -
  have "in_frame W s (warmed N a s)" by (simp add: warmed_def addWarmedAddress_frame)
  moreover note markSlot_frame [OF warmed_in [of N a s]]
  moreover have "in_frame W t (snd (reportSlot x y t))" for x y and t :: "'a journal"
    by (rule in_frame_same) (simp_all add: reportSlot_fields)
  ultimately show ?thesis unfolding addWarmedStorage_run by (blast intro: in_frame_trans)
qed

lemma touchAccount_frame: "in_frame W s (snd (touchAccount N M a s))"
  unfolding touchAccount_def
proof (rule in_frame_seqE)
  fix x and s :: "'a journal"
  show "in_frame W s (snd (updE (\<lambda>s. if a \<in> set (j_touched s) then s
        else s\<lparr>j_touched := set_add a (j_touched s),
               j_diffs := on_last_diff (d_touched_update (set_add a)) (j_diffs s)\<rparr>) s))"
    by (auto intro!: in_frame_diff [where f = "d_touched_update (set_add a)"]
        simp: undo_view_def j_view_def fun_eq_iff)
qed (rule in_frame_seqE; auto simp: seqE_run split: option.splits sum.splits intro: in_frame_same)

lemma account_call_frame:
  "in_frame W s (snd (j_putAccount N M a x s))" "in_frame W s (snd (j_deleteAccount N M a s))"
proof -
  have "in_frame W s (snd (stateE m s))" for s :: "'a journal" and m :: "('a, js_error, unit) eff"
    by (rule in_frame_same) (simp_all add: stateE_fields)
  then show "in_frame W s (snd (j_putAccount N M a x s))" "in_frame W s (snd (j_deleteAccount N M a s))"
    unfolding j_putAccount_def j_deleteAccount_def touchAddress_def
    by (intro in_frame_seqE touchAccount_frame; assumption)+
qed

interpretation jr: checkpointed "j_inv W" j_view j_saved "\<lambda>s. snd (j_checkpoint M s)"
  "\<lambda>s. snd (j_commit M s)" "\<lambda>s. snd (j_revert M s)" "in_frame W" for W M
  by unfold_locales (use j_checkpoint_law j_commit_law j_revert_law in \<open>simp_all add: in_frame_def\<close>)

section \<open>Reverting a frame\<close>

datatype journal_call =
    WarmAddress bytes
  | WarmStorage bytes bytes
  | JPutAccount bytes "account option"
  | JDeleteAccount bytes

fun j_do :: "noble \<Rightarrow> 'm manager \<Rightarrow> journal_call \<Rightarrow> 'm journal \<Rightarrow> 'm journal" where
  "j_do N M (WarmAddress a) s = addWarmedAddress N a s"
| "j_do N M (WarmStorage a k) s = snd (addWarmedStorage N a k s)"
| "j_do N M (JPutAccount a x) s = snd (j_putAccount N M a x s)"
| "j_do N M (JDeleteAccount a) s = snd (j_deleteAccount N M a s)"

definition j_play :: "noble \<Rightarrow> 'm manager \<Rightarrow> journal_call script list \<Rightarrow> 'm journal \<Rightarrow> 'm journal" where
  "j_play N M scs s = plays (\<lambda>s. snd (j_checkpoint M s)) (\<lambda>s. snd (j_commit M s)) (\<lambda>s. snd (j_revert M s))
     (j_do N M) scs s"

text \<open>A journal at the start of a transaction: the always warm addresses are entered.\<close>

definition startJournal :: "string list \<Rightarrow> 'm \<Rightarrow> 'm journal" where
  "startJournal always m = foldl (\<lambda>s a. addAlwaysWarmAddress a False s) (newJournal m) always"

lemma j_do_frame: "in_frame W s (j_do N M c s)"
  by (cases c) (simp_all add: addWarmedAddress_frame addWarmedStorage_frame account_call_frame)

lemma startJournal_inv: "\<exists>W. j_inv W (startJournal always m)"
proof -
  have "\<exists>W. j_inv W (foldl (\<lambda>s a. addAlwaysWarmAddress a False s) s always)" if "j_inv W s" for W s
    using that
  proof (induction always arbitrary: W s)
    case (Cons a always)
    have "j_inv (j_alwaysWarm (addAlwaysWarmAddress a False s)) (addAlwaysWarmAddress a False s)"
      using Cons.prems by (simp add: addAlwaysWarmAddress_def j_inv_def Let_def)
    from Cons.IH [OF this] show ?case by simp
  qed auto
  moreover have "j_inv [] (newJournal m)" by (simp add: newJournal_def cleanJournal_def j_inv_def)
  ultimately show ?thesis unfolding startJournal_def by blast
qed

lemma j_play_inv: "j_inv W s \<Longrightarrow> j_inv W (j_play N M scs s)"
  unfolding j_play_def
proof (induction scs arbitrary: s)
  case (Cons sc scs)
  then show ?case using jr.played_inv [where f = "j_do N M", OF j_do_frame Cons.prems] by simp
qed simp

lemma isWarmedAddress_view: "isWarmedAddress N a s \<longleftrightarrow>
  fst (j_view s) (bytesToUnprefixedHex N a) \<noteq> None \<or> map_of (j_alwaysWarm s) (bytesToUnprefixedHex N a) \<noteq> None"
  by (auto simp: isWarmedAddress_def Let_def j_view_def warm_view_def)

lemma isWarmedStorage_view: "isWarmedStorage N a k s \<longleftrightarrow>
  (\<exists>S. fst (j_view s) (bytesToUnprefixedHex N a) = Some S \<and> bytesToUnprefixedHex N k \<in> S) \<or>
  (\<exists>ss. map_of (j_alwaysWarm s) (bytesToUnprefixedHex N a) = Some ss \<and> bytesToUnprefixedHex N k \<in> set ss)"
  by (auto simp: isWarmedStorage_def Let_def j_view_def warm_view_def split: option.splits)

lemma ripemd_undo: "RIPEMD160_ADDRESS_STRING \<in> set (j_touched (undo_diff d s)) \<longleftrightarrow>
    RIPEMD160_ADDRESS_STRING \<in> set (j_touched s)"
  by (simp add: undo_diff_def Let_def undo_touched)

lemma ripemd_loop: "revertLoop h rds s = (left, s') \<Longrightarrow>
  RIPEMD160_ADDRESS_STRING \<in> set (j_touched s') \<longleftrightarrow> RIPEMD160_ADDRESS_STRING \<in> set (j_touched s)"
  by (induction h rds s rule: revertLoop.induct) (auto simp: ripemd_undo split: if_splits)

lemma ripemd_revert: "RIPEMD160_ADDRESS_STRING \<in> set (j_touched (snd (j_revert M s))) \<longleftrightarrow>
    RIPEMD160_ADDRESS_STRING \<in> set (j_touched s)"
  by (auto simp: j_revert_def seqE_run stateE_fields dest: ripemd_loop split: prod.splits)

text \<open>
  C35. After any calls in nested frames, a frame that reverts leaves the same addresses and slots
  warm and the same accounts touched, except that the RIPEMD-160 account stays touched if the
  frame touched it.
\<close>

theorem journal_revert_spec:
  assumes "s = j_play N M scs (startJournal always m)" and "s1 = j_play N M frame (snd (j_checkpoint M s))"
    and "s' = j_play N M [Frame frame False] s"
  shows "isWarmedAddress N a s' = isWarmedAddress N a s \<and> isWarmedStorage N a k s' = isWarmedStorage N a k s \<and>
    (t \<in> set (j_touched s') \<longleftrightarrow>
      (if t = RIPEMD160_ADDRESS_STRING then t \<in> set (j_touched s1) else t \<in> set (j_touched s)))"
proof -
  obtain W where "j_inv W (startJournal always m)" by (rule exE [OF startJournal_inv])
  then have inv: "j_inv W s" using j_play_inv assms(1) by blast
  have s': "s' = snd (j_revert M s1)" by (simp add: assms(2,3) j_play_def)
  have "j_view s' = j_view s \<and> j_inv W s'"
    using jr.reverted_frame [where f = "j_do N M", OF j_do_frame inv] assms(3) by (simp add: j_play_def)
  then have view: "j_view s' = j_view s" and always: "j_alwaysWarm s' = j_alwaysWarm s"
    using inv by (simp_all add: j_inv_def)
  have "t \<in> set (j_touched s') \<longleftrightarrow> t \<in> set (j_touched s)" if "t \<noteq> RIPEMD160_ADDRESS_STRING"
    using view that by (auto simp: j_view_def)
  then show ?thesis
    using view always ripemd_revert [of M s1] by (auto simp: isWarmedAddress_view isWarmedStorage_view s')
qed

theorem journal_revert_spec_witness:
  "isWarmedAddress rlp_noble [9] (j_play rlp_noble (simple_manager rlp_noble) [Frame [Do (WarmAddress [9])] False]
    (j_play rlp_noble (simple_manager rlp_noble) [] (startJournal [''0x07''] newSimpleState))) =
   isWarmedAddress rlp_noble [9] (j_play rlp_noble (simple_manager rlp_noble) [] (startJournal [''0x07''] newSimpleState))"
  by (rule journal_revert_spec [OF refl refl refl, THEN conjunct1])

section \<open>Warming\<close>

lemma addWarmedAddress_always [simp]: "j_alwaysWarm (addWarmedAddress N a s) = j_alwaysWarm s"
  by (simp add: addWarmedAddress_def Let_def split: option.splits)

lemma markSlot_view: "map_of (j_warm s) a = Some slots \<Longrightarrow>
  warm_view (j_warm (markSlot a k s)) = (warm_view (j_warm s))(a \<mapsto> insert k (set slots)) \<and>
  j_alwaysWarm (markSlot a k s) = j_alwaysWarm s"
  by (auto simp: markSlot_def warm_view_def fun_eq_iff insert_absorb)

lemma addWarmedStorage_view: "j_alwaysWarm (snd (addWarmedStorage N a k s)) = j_alwaysWarm s \<and>
  fst (j_view (snd (addWarmedStorage N a k s))) = (fst (j_view s))(bytesToUnprefixedHex N a \<mapsto>
    insert (bytesToUnprefixedHex N k) (case fst (j_view s) (bytesToUnprefixedHex N a) of None \<Rightarrow> {} | Some S \<Rightarrow> S))"
proof -
  obtain slots where slots: "map_of (j_warm (warmed N a s)) (bytesToUnprefixedHex N a) = Some slots"
    using warmed_in [of N a s] by auto
  have "j_alwaysWarm (warmed N a s) = j_alwaysWarm s" by (simp add: warmed_def)
  moreover have "set slots = (case warm_view (j_warm s) (bytesToUnprefixedHex N a) of None \<Rightarrow> {} | Some S \<Rightarrow> S)"
    using slots warmed_view [of N a s] by (metis fun_upd_same option.sel option.simps(9) warm_view_def)
  ultimately show ?thesis
    using markSlot_view [OF slots] warmed_view [of N a s]
    by (simp add: addWarmedStorage_run reportSlot_fields j_view_def)
qed

text \<open>
  C36. Warming an address or a slot makes it warm, and, for a slot, its address; everything else
  keeps the temperature it had.
\<close>

theorem journal_warm_spec:
  assumes "noble_hex N"
  shows "isWarmedAddress N b (addWarmedAddress N a s) = (b = a \<or> isWarmedAddress N b s) \<and>
    isWarmedStorage N b k (addWarmedAddress N a s) = isWarmedStorage N b k s \<and>
    isWarmedAddress N b (snd (addWarmedStorage N a k' s)) = (b = a \<or> isWarmedAddress N b s) \<and>
    isWarmedStorage N b k (snd (addWarmedStorage N a k' s)) = (b = a \<and> k = k' \<or> isWarmedStorage N b k s)"
proof -
  have inj: "bytesToUnprefixedHex N x = bytesToUnprefixedHex N y \<longleftrightarrow> x = y" for x y
    by (simp add: noble_hex.bytesToUnprefixedHex_eq [OF assms] bytes_hex_inj)
  have addr: "fst (j_view (addWarmedAddress N a s)) = (if fst (j_view s) (bytesToUnprefixedHex N a) = None
      then (fst (j_view s))(bytesToUnprefixedHex N a \<mapsto> {}) else fst (j_view s))"
    by (simp add: j_view_def addWarmedAddress_warm warm_view_None)
  show ?thesis
    using addWarmedStorage_view [of N a k' s]
    by (auto simp: isWarmedAddress_view isWarmedStorage_view addr inj split: option.splits)
qed

theorem journal_warm_spec_witness:
  "isWarmedStorage rlp_noble [7] [1] (snd (addWarmedStorage rlp_noble [7] [1] (newJournal newSimpleState)))"
  using journal_warm_spec [OF rlp_hex.noble_hex_axioms, of "[7]" "[7]" "newJournal newSimpleState" "[1]" "[1]"] by simp

section \<open>Cleaning up\<close>

definition keeps_account :: "account option \<Rightarrow> bool" where
  "keeps_account x \<longleftrightarrow> (case x of None \<Rightarrow> False | Some a \<Rightarrow> isEmpty a = Inr False)"

definition decided :: "account option \<Rightarrow> bool" where
  "decided x \<longleftrightarrow> (case x of None \<Rightarrow> True | Some a \<Rightarrow> \<exists>b. isEmpty a = Inr b)"

context account_store begin

lemma cleanupAccount_step:
  assumes "noble_hex N" "ok (j_state s)" "length a = 20" "bytes_hex a \<in> set (j_touched s)"
    and "j_preimages s = None" "decided (acc (j_state s) a)"
  shows "\<exists>m. cleanupAccount N M (bytes_hex a) s = (Inr (), s\<lparr>j_state := m\<rparr>) \<and> ok m \<and>
    acc m = (acc (j_state s))(a := if keeps_account (acc (j_state s) a) then acc (j_state s) a else None)"
proof -
  have touch: "touchAddress N M a s = (Inr (), s)"
    using assms(4,5) by (simp add: touchAddress_def touchAccount_def seqE_run noble_hex.bytesToHex_eq [OF assms(1)])
  have addr: "and_then (hexToBytes N (CHR ''0'' # CHR ''x'' # bytes_hex a)) newAddress = Inr a"
    using noble_hex.hexToBytes_bytesToHex [OF assms(1), of a] assms(3)
    by (simp add: noble_hex.bytesToHex_eq [OF assms(1)] newAddress_def)
  have get: "stateE (m_getAccount M a) s = (Inr (acc (j_state s) a), s)"
    using get_law [OF assms(2)] by (simp add: stateE_def)
  obtain m where m: "m_deleteAccount M a (j_state s) = (Inr (), m)" "ok m" "acc m = (acc (j_state s))(a := None)"
    using delete_law [OF assms(2)] by blast
  have del: "j_deleteAccount N M a s = (Inr (), s\<lparr>j_state := m\<rparr>)"
    using m(1) by (simp add: j_deleteAccount_def seqE_run touch stateE_def)
  show ?thesis
  proof (cases "keeps_account (acc (j_state s) a)")
    case True
    then have "cleanupAccount N M (bytes_hex a) s = (Inr (), s)"
      by (auto simp: cleanupAccount_def seqE_run addr get keeps_account_def whenE_run split: option.splits)
    then show ?thesis using True assms(2) by (intro exI [of _ "j_state s"]) simp
  next
    case False
    then have "cleanupAccount N M (bytes_hex a) s = (Inr (), s\<lparr>j_state := m\<rparr>)"
      using assms(6)
      by (auto simp: cleanupAccount_def seqE_run addr get keeps_account_def decided_def whenE_run del split: option.splits)
    then show ?thesis using False m by auto
  qed
qed

lemma cleanup_loop:
  assumes "noble_hex N" "ok (j_state s)" "\<forall>a \<in> set as. length a = 20 \<and> bytes_hex a \<in> set (j_touched s)"
    and "j_preimages s = None" "\<forall>a \<in> set as. decided (acc (j_state s) a)"
  shows "\<exists>m. forE (map bytes_hex as) (cleanupAccount N M) s = (Inr (), s\<lparr>j_state := m\<rparr>) \<and> ok m \<and>
    acc m = (\<lambda>a. if a \<in> set as \<and> \<not> keeps_account (acc (j_state s) a) then None else acc (j_state s) a)"
  using assms(2-)
proof (induction as arbitrary: s)
  case Nil
  then show ?case by (intro exI [of _ "j_state s"]) simp
next
  case (Cons a as)
  have "length a = 20" "bytes_hex a \<in> set (j_touched s)" "decided (acc (j_state s) a)"
    using Cons.prems by simp_all
  then obtain m where m: "cleanupAccount N M (bytes_hex a) s = (Inr (), s\<lparr>j_state := m\<rparr>)" "ok m"
    "acc m = (acc (j_state s))(a := if keeps_account (acc (j_state s) a) then acc (j_state s) a else None)"
    using cleanupAccount_step [OF assms(1) Cons.prems(1) _ _ Cons.prems(3)] by blast
  have "\<forall>b \<in> set as. decided (acc m b)"
    using Cons.prems(4) by (auto simp: m(3) decided_def)
  then obtain m' where m': "forE (map bytes_hex as) (cleanupAccount N M) (s\<lparr>j_state := m\<rparr>) = (Inr (), s\<lparr>j_state := m'\<rparr>)"
    "ok m'" "acc m' = (\<lambda>b. if b \<in> set as \<and> \<not> keeps_account (acc m b) then None else acc m b)"
    using Cons.IH [of "s\<lparr>j_state := m\<rparr>"] Cons.prems m(2) by fastforce
  then show ?case using m by (intro exI [of _ m']) (auto simp: seqE_run fun_eq_iff)
qed

lemma cleanup_deletes:
  assumes "noble_hex N" "ok (j_state s)" "j_touched s = map bytes_hex as" "\<forall>a \<in> set as. length a = 20"
    and "j_preimages s = None" "\<forall>a \<in> set as. decided (acc (j_state s) a)" "gteHardfork c ''spuriousDragon''"
  shows "\<exists>s'. cleanup N c M s = (Inr (), s') \<and> ok (j_state s') \<and> j_touched s' = [] \<and> j_warm s' = [] \<and>
    acc (j_state s') = (\<lambda>a. if a \<in> set as \<and> \<not> keeps_account (acc (j_state s) a) then None else acc (j_state s) a)"
proof -
  have "\<forall>a \<in> set as. length a = 20 \<and> bytes_hex a \<in> set (j_touched s)" using assms(3,4) by auto
  from cleanup_loop [OF assms(1,2) this assms(5,6)] show ?thesis
    by (auto simp: cleanup_def seqE_run whenE_run assms(3,7) cleanJournal_def)
qed

end

text \<open>
  C37. On the default state manager, from Spurious Dragon on, \<open>cleanup\<close> deletes exactly the touched
  accounts that are missing or empty, keeps every other account and leaves a fresh journal.
\<close>

theorem cleanup_spec:
  assumes "sm_inv (j_state s)" "j_touched s = map bytes_hex as" "\<forall>a \<in> set as. length a = 20"
    and "j_preimages s = None" "\<forall>a \<in> set as. decided (account_at rlp_noble (j_state s) a)"
    and "gteHardfork c ''spuriousDragon''"
  shows "\<exists>s'. cleanup rlp_noble c (simple_manager rlp_noble) s = (Inr (), s') \<and>
    j_touched s' = [] \<and> j_warm s' = [] \<and>
    (\<forall>a. account_at rlp_noble (j_state s') a =
      (if a \<in> set as \<and> \<not> keeps_account (account_at rlp_noble (j_state s) a) then None
       else account_at rlp_noble (j_state s) a))"
  using simple_accounts.cleanup_deletes [OF rlp_hex.noble_hex_axioms assms] by auto

theorem cleanup_spec_witness:
  "\<exists>s'. cleanup rlp_noble (mainnet_common\<lparr>hardforkSet := ''london''\<rparr>) (simple_manager rlp_noble)
      ((newJournal newSimpleState)\<lparr>j_touched := map bytes_hex [replicate 20 7]\<rparr>) = (Inr (), s') \<and> j_touched s' = []"
proof -
  have g: "gteHardfork (mainnet_common\<lparr>hardforkSet := ''london''\<rparr>) ''spuriousDragon''"
    by (simp add: gteHardfork_def hardforkGteHardfork_def mainnet_common_def hardforks_def hardforks_of_def
        mainnet_hardforks_def Mainnet_def)
  have "account_at rlp_noble newSimpleState a = None" for a
    by (simp add: account_at_view newSimpleState_inv)
      (simp add: newSimpleState_def checkpointSync_def topCopy_def sm_view_def level_view_def)
  then show ?thesis
    using cleanup_spec [of "(newJournal newSimpleState)\<lparr>j_touched := map bytes_hex [replicate 20 7]\<rparr>"
        "[replicate 20 7]", OF _ _ _ _ _ g]
    by (auto simp: newJournal_def cleanJournal_def newSimpleState_inv decided_def)
qed

end
