(* ===== verification/EvmRun.thy ===== *)
theory EvmRun
  imports EvmStack EvmMemory TransientStorage Journal
begin

unbundle bit_operations_syntax

text \<open>
  The state of one call frame, \<open>RunState\<close>, \<open>Env\<close> and \<open>RunResult\<close> of
  \<^verbatim>\<open>packages/evm/src/interpreter.ts\<close>, and the methods of its class \<open>Interpreter\<close> that the opcode
  handlers call: gas accounting, the environment getters, storage access, logs, nested calls,
  contract creation and self-destruction. What the frame shares with the rest of the EVM is the
  record \<open>world\<close>: the journal on top of a state manager, transient storage, the state gas counters
  of EIP-8037, and two objects that only record calls, the block access list of EIP-7928 and the
  access witness of EIP-6800, kept as the lists of the calls made on them. What the frame calls
  outside this file is in the parameter record \<open>ctx\<close>; \<open>runCall\<close> is \<open>EVM.runCall\<close>. Debug output
  and performance logging are left out.
\<close>

section \<open>State\<close>

record block_header =
  bh_number :: int
  bh_coinbase :: bytes
  bh_timestamp :: int
  bh_difficulty :: int
  bh_prevRandao :: bytes
  bh_gasLimit :: int
  bh_slotNumber :: "int option"
  bh_baseFeePerGas :: "int option"
  bh_blobGasPrice :: "int option"

text \<open>
  The parts of an EOF container that the handlers read, the return stack, and the
  \<open>ArrayBuffer\<close> under \<open>env.code\<close>.
\<close>

record eof_env =
  eo_dataSection :: bytes
  eo_typeSections :: "(nat \<times> nat) list"
  eo_codeSizes :: "int list"
  eo_codeStartPos :: "int list"
  eo_returnStack :: "int list"
  eo_codeBuffer :: bytes
  eo_containerSections :: "bytes list"

record env =
  e_address :: bytes
  e_caller :: bytes
  e_callData :: bytes
  e_callValue :: int
  e_code :: bytes
  e_isStatic :: bool
  e_isCreate :: bool
  e_depth :: nat
  e_gasPrice :: int
  e_origin :: bytes
  e_block :: block_header
  e_contract :: account
  e_eof :: "eof_env option"
  e_blobVersionedHashes :: "string list"
  e_createdAddresses :: "string list option"
  e_chargeCodeAccesses :: bool

type_synonym log = "bytes \<times> bytes list \<times> bytes"

record run_result =
  rr_logs :: "log list"
  rr_returnValue :: "bytes option"
  rr_selfdestruct :: "(string \<times> string) list"
  rr_createdAddresses :: "string list option"

text \<open>Calls on the block access list and on the access witness.\<close>

datatype bal_call =
    BalAddress string
  | BalStorageRead string bytes
  | BalStorageWrite string bytes bytes "bytes option"
  | BalNonce string int
  | BalBalance string int int
  | BalCode string bytes
  | BalCheckpoint
  | BalCommit
  | BalRevert

datatype witness_call =
    ReadCodeChunks bytes int int
  | ReadAccountStorage bytes int
  | WriteAccountStorage bytes int
  | ReadBasicData bytes
  | WriteBasicData bytes
  | ReadCodeHash bytes
  | ReadAccountHeader bytes
  | WriteAccountHeader bytes
  | WriteCodeChunks bytes int int
  | WitnessCommit
  | WitnessRevert

record state_gas_snapshot =
  sg_reservoir :: int
  sg_used :: int
  sg_createdAccountStateGas :: "(string \<times> int) list"
  sg_createdAccountIntrinsicStateGas :: "(string \<times> int) list"

record evm_vars =
  ev_stateGasReservoir :: int
  ev_executionStateGasUsed :: int
  ev_createdAccountStateGas :: "(string \<times> int) list"
  ev_createdAccountIntrinsicStateGas :: "(string \<times> int) list"
  ev_stateGasSnapshots :: "state_gas_snapshot list"
  ev_callPostTargetOog :: bool

record 'm world =
  wd_journal :: "'m journal"
  wd_transient :: transient
  wd_vars :: evm_vars
  wd_bal :: "bal_call list option"
  wd_witness :: "witness_call list option"

record 'm run_state =
  rs_pc :: int
  rs_opCode :: nat
  rs_memory :: bytes
  rs_memoryWordCount :: int
  rs_highestMemCost :: int
  rs_stack :: evm_stack
  rs_code :: bytes
  rs_shouldDoJumpAnalysis :: bool
  rs_validJumps :: "nat list"
  rs_cachedPushes :: "(nat \<times> int) list"
  rs_env :: env
  rs_messageGasLimit :: "int option"
  rs_createOog :: bool
  rs_callOog :: "(int \<times> int) option"
  rs_gasRefund :: int
  rs_gasLeft :: int
  rs_returnBytes :: bytes
  rs_result :: run_result
  rs_world :: "'m world"

text \<open>\<open>Message\<close>, with the fields the interpreter sets, and what it uses of an \<open>EVMResult\<close>.\<close>

record message =
  ms_caller :: bytes
  ms_gasLimit :: int
  ms_to :: "bytes option"
  ms_codeAddress :: "bytes option"
  ms_value :: int
  ms_data :: bytes
  ms_eofCallData :: "bytes option"
  ms_salt :: "bytes option"
  ms_isStatic :: bool
  ms_delegatecall :: bool
  ms_depth :: nat
  ms_gasRefund :: int
  ms_blobVersionedHashes :: "string list"
  ms_selfdestruct :: "(string \<times> string) list"
  ms_createdAddresses :: "string list option"

text \<open>The call fills the message's self-destruct map and set of created addresses in place.\<close>

record call_result =
  cr_logs :: "log list"
  cr_executionGasUsed :: int
  cr_returnValue :: bytes
  cr_exception :: "evm_error option"
  cr_gasRefund :: "int option"
  cr_createdAddress :: "bytes option"
  cr_selfdestruct :: "(string \<times> string) list"
  cr_createdAddresses :: "string list option"

text \<open>The methods of \<open>StateManagerInterface\<close> the frame calls beyond the journal's.\<close>

record 'm full_manager = "'m manager" +
  m_getCode :: "bytes \<Rightarrow> ('m, js_error, bytes) eff"
  m_getStorage :: "bytes \<Rightarrow> bytes \<Rightarrow> ('m, js_error, bytes) eff"
  m_putStorage :: "bytes \<Rightarrow> bytes \<Rightarrow> bytes \<Rightarrow> ('m, js_error, unit) eff"
  m_originalStorage :: "bytes \<Rightarrow> bytes \<Rightarrow> ('m, js_error, bytes) eff"
  m_checkChunkWitnessPresent :: "bytes \<Rightarrow> int \<Rightarrow> ('m, js_error, bool) eff"
  m_modifyAccountFields :: "bytes \<Rightarrow> account_fields \<Rightarrow> ('m, js_error, unit) eff"
  m_putCode :: "bytes \<Rightarrow> bytes \<Rightarrow> ('m, js_error, unit) eff"
  m_clearStorage :: "bytes \<Rightarrow> ('m, js_error, unit) eff"

record 'm ctx =
  cx_hex :: noble
  cx_keccak :: "bytes \<Rightarrow> bytes"
  cx_keccakNoble :: "bytes \<Rightarrow> bytes"
  cx_isPrecompile :: "bytes \<Rightarrow> bool"
  cx_maxArray :: nat
  cx_common :: common
  cx_manager :: "'m full_manager"
  cx_cliqueSigner :: "block_header \<Rightarrow> bytes"
  cx_blockHash :: "int \<Rightarrow> bytes res"
  cx_witnessGas :: "witness_call list \<Rightarrow> witness_call \<Rightarrow> int"
  cx_allowUnlimitedInitCodeSize :: bool
  cx_setupEOF :: "bytes \<Rightarrow> bool \<Rightarrow> (eof_env \<times> bytes option) option"
  cx_runCall :: "message \<Rightarrow> ('m world, js_error, call_result) eff"

type_synonym ('m, 'a) rop = "('m run_state, exc, 'a) eff"

section \<open>Primitive steps\<close>

definition trap :: "evm_error \<Rightarrow> ('m, 'a) rop" where
  "trap err = raise (Trap err)"

definition throwing :: "'a res \<Rightarrow> ('m, 'a) rop" where
  "throwing r = resE (case r of Inl e \<Rightarrow> Inl (Throw e) | Inr x \<Rightarrow> Inr x)"

text \<open>Calls of methods of the stack, the memory, the journal, the state manager.\<close>

definition stackOp :: "(evm_stack \<Rightarrow> evm_error + 'a \<times> evm_stack) \<Rightarrow> ('m, 'a) rop" where
  "stackOp f = (\<lambda>s. case f (rs_stack s) of
     Inl e \<Rightarrow> (Inl (Trap e), s) | Inr (x, st) \<Rightarrow> (Inr x, s\<lparr>rs_stack := st\<rparr>))"

definition popN :: "nat \<Rightarrow> ('m, int list) rop" where
  "popN n = stackOp (st_popN n)"

definition pop :: "('m, int) rop" where
  "pop = stackOp st_pop"

definition push :: "int \<Rightarrow> ('m, unit) rop" where
  "push v = stackOp (\<lambda>st. and_then (st_push v st) (\<lambda>st'. Inr ((), st')))"

definition peek :: "nat \<Rightarrow> ('m, int list) rop" where
  "peek n = stackOp (\<lambda>st. and_then (st_peek n st) (\<lambda>vs. Inr (vs, st)))"

definition memOp :: "'a mem_op \<Rightarrow> ('m, 'a) rop" where
  "memOp m = (\<lambda>s. case m (rs_memory s) of
     (Inl e, mem) \<Rightarrow> (Inl (Throw e), s\<lparr>rs_memory := mem\<rparr>)
   | (Inr x, mem) \<Rightarrow> (Inr x, s\<lparr>rs_memory := mem\<rparr>))"

definition worldOp :: "('m world, js_error, 'a) eff \<Rightarrow> ('m, 'a) rop" where
  "worldOp m = (\<lambda>s. case m (rs_world s) of
     (Inl e, w) \<Rightarrow> (Inl (Throw e), s\<lparr>rs_world := w\<rparr>)
   | (Inr x, w) \<Rightarrow> (Inr x, s\<lparr>rs_world := w\<rparr>))"

definition journalOp :: "('m, 'a) jop \<Rightarrow> ('m, 'a) rop" where
  "journalOp m = worldOp (\<lambda>w. case m (wd_journal w) of (r, j) \<Rightarrow> (r, w\<lparr>wd_journal := j\<rparr>))"

definition managerOp :: "('m, js_error, 'a) eff \<Rightarrow> ('m, 'a) rop" where
  "managerOp m = journalOp (stateE m)"

definition paramOf :: "'m ctx \<Rightarrow> string \<Rightarrow> ('m, int) rop" where
  "paramOf C n = throwing (param (cx_common C) n)"

definition activated :: "'m ctx \<Rightarrow> nat \<Rightarrow> bool" where
  "activated C eip = isActivatedEIP (cx_common C) eip"

text \<open>\<open>addressX.toString()\<close>, and a call on the block access list, with \<open>?.\<close> or with \<open>!\<close>.\<close>

definition addressString :: "'m ctx \<Rightarrow> bytes \<Rightarrow> string" where
  "addressString C a = bytesToHex (cx_hex C) a"

definition balCall :: "bal_call \<Rightarrow> ('m, unit) rop" where
  "balCall b = updE (\<lambda>s. s\<lparr>rs_world := (rs_world s)\<lparr>wd_bal := map_option (\<lambda>bs. bs @ [b]) (wd_bal (rs_world s))\<rparr>\<rparr>)"

definition balCallStrict :: "bal_call \<Rightarrow> ('m, unit) rop" where
  "balCallStrict b = seqE (getE (\<lambda>s. wd_bal (rs_world s))) (\<lambda>o'. case o' of
     None \<Rightarrow> raise (Throw TypeError) | Some _ \<Rightarrow> balCall b)"

text \<open>
  A call on the witness with \<open>!\<close>, whose gas depends on the calls made on it before, and one with
  \<open>?.\<close>.
\<close>

definition addWitness :: "witness_call \<Rightarrow> ('m, unit) rop" where
  "addWitness w = updE (\<lambda>s. s\<lparr>rs_world := (rs_world s)
     \<lparr>wd_witness := map_option (\<lambda>ws. ws @ [w]) (wd_witness (rs_world s))\<rparr>\<rparr>)"

definition witnessGas :: "'m ctx \<Rightarrow> witness_call \<Rightarrow> ('m, int) rop" where
  "witnessGas C w = seqE (getE (\<lambda>s. wd_witness (rs_world s))) (\<lambda>o'. case o' of
     None \<Rightarrow> raise (Throw TypeError)
   | Some ws \<Rightarrow> seqE (addWitness w) (\<lambda>_. ret (cx_witnessGas C ws w)))"

section \<open>Gas\<close>

definition useGas :: "int \<Rightarrow> ('m, unit) rop" where
  "useGas amount = seqE (updE (\<lambda>s. s\<lparr>rs_gasLeft := rs_gasLeft s - amount\<rparr>)) (\<lambda>_.
     seqE (getE rs_gasLeft) (\<lambda>g. if g < 0
       then seqE (updE (\<lambda>s. s\<lparr>rs_gasLeft := 0\<rparr>)) (\<lambda>_. trap OUT_OF_GAS) else ret ()))"

definition refundGas :: "int \<Rightarrow> ('m, unit) rop" where
  "refundGas amount = updE (\<lambda>s. s\<lparr>rs_gasRefund := rs_gasRefund s + amount\<rparr>)"

definition subRefund :: "int \<Rightarrow> ('m, unit) rop" where
  "subRefund amount = seqE (updE (\<lambda>s. s\<lparr>rs_gasRefund := rs_gasRefund s - amount\<rparr>)) (\<lambda>_.
     seqE (getE rs_gasRefund) (\<lambda>g. if g < 0
       then seqE (updE (\<lambda>s. s\<lparr>rs_gasRefund := 0\<rparr>)) (\<lambda>_. trap REFUND_EXHAUSTED) else ret ()))"

definition addStipend :: "int \<Rightarrow> ('m, unit) rop" where
  "addStipend amount = updE (\<lambda>s. s\<lparr>rs_gasLeft := rs_gasLeft s + amount\<rparr>)"

definition onVars :: "(evm_vars \<Rightarrow> evm_vars) \<Rightarrow> ('m, unit) rop" where
  "onVars f = updE (\<lambda>s. s\<lparr>rs_world := (rs_world s)\<lparr>wd_vars := f (wd_vars (rs_world s))\<rparr>\<rparr>)"

definition chargeStateGas :: "int \<Rightarrow> ('m, unit) rop" where
  "chargeStateGas amount =
     (if amount = 0 then ret ()
      else seqE (getE (\<lambda>s. ev_stateGasReservoir (wd_vars (rs_world s)))) (\<lambda>reservoir.
        let fromReservoir = (if reservoir > 0 then (if amount < reservoir then amount else reservoir) else 0);
            remaining = amount - fromReservoir in
        seqE (onVars (\<lambda>v. v\<lparr>ev_stateGasReservoir := ev_stateGasReservoir v - fromReservoir\<rparr>)) (\<lambda>_.
        seqE (whenE (remaining > 0) (useGas remaining)) (\<lambda>_.
          onVars (\<lambda>v. v\<lparr>ev_executionStateGasUsed := ev_executionStateGasUsed v + amount\<rparr>)))))"

definition refillStateGasReservoir :: "int \<Rightarrow> ('m, unit) rop" where
  "refillStateGasReservoir amount =
     (if amount = 0 then ret ()
      else onVars (\<lambda>v. v\<lparr>ev_stateGasReservoir := ev_stateGasReservoir v + amount,
        ev_executionStateGasUsed := ev_executionStateGasUsed v - amount\<rparr>))"

section \<open>Accounts and storage\<close>

definition managerOf :: "'m ctx \<Rightarrow> 'm manager" where
  "managerOf C = manager.truncate (cx_manager C)"

definition getExternalBalance :: "'m ctx \<Rightarrow> bytes \<Rightarrow> ('m, int) rop" where
  "getExternalBalance C address =
     seqE (whenE (activated C 7928) (balCall (BalAddress (addressString C address)))) (\<lambda>_.
     seqE (getE rs_env) (\<lambda>e.
     if addressEquals address (e_address e) then throwing (get_balance (e_contract e))
     else seqE (managerOp (m_getAccount (cx_manager C) address)) (\<lambda>account.
       seqE (throwing (case account of Some a \<Rightarrow> Inr a
         | None \<Rightarrow> newAccount Undef Undef Undef Undef Undef Undef)) (\<lambda>a. throwing (get_balance a)))))"

definition storageStore :: "'m ctx \<Rightarrow> bytes \<Rightarrow> bytes \<Rightarrow> ('m, unit) rop" where
  "storageStore C key v = seqE (getE (\<lambda>s. e_address (rs_env s))) (\<lambda>self.
     seqE (if activated C 7928
           then seqE (managerOp (m_originalStorage (cx_manager C) self key)) (\<lambda>o'. ret (Some o'))
           else ret None) (\<lambda>originalValue.
     seqE (managerOp (m_putStorage (cx_manager C) self key v)) (\<lambda>_.
     seqE (whenE (activated C 7928) (balCall (BalStorageWrite (addressString C self) key v originalValue))) (\<lambda>_.
     seqE (managerOp (m_getAccount (cx_manager C) self)) (\<lambda>account. case account of
       None \<Rightarrow> raise (Throw (EthereumJSError ''could not read account while persisting memory''))
     | Some a \<Rightarrow> updE (\<lambda>s. s\<lparr>rs_env := (rs_env s)\<lparr>e_contract := a\<rparr>\<rparr>))))))"

definition storageLoad :: "'m ctx \<Rightarrow> bytes \<Rightarrow> bool \<Rightarrow> bool \<Rightarrow> ('m, bytes) rop" where
  "storageLoad C key original trackBAL = seqE (getE (\<lambda>s. e_address (rs_env s))) (\<lambda>self.
     seqE (whenE (activated C 7928 \<and> trackBAL) (balCall (BalStorageRead (addressString C self) key))) (\<lambda>_.
     if original then managerOp (m_originalStorage (cx_manager C) self key)
     else managerOp (m_getStorage (cx_manager C) self key)))"

definition transientStorageStore :: "'m ctx \<Rightarrow> bytes \<Rightarrow> bytes \<Rightarrow> ('m, unit) rop" where
  "transientStorageStore C key v = seqE (getE (\<lambda>s. e_address (rs_env s))) (\<lambda>self.
     worldOp (\<lambda>w. case ts_put (cx_hex C) self key v (wd_transient w) of (r, t) \<Rightarrow> (r, w\<lparr>wd_transient := t\<rparr>)))"

definition transientStorageLoad :: "'m ctx \<Rightarrow> bytes \<Rightarrow> ('m, bytes) rop" where
  "transientStorageLoad C key = getE (\<lambda>s. ts_get (cx_hex C) (e_address (rs_env s)) key (wd_transient (rs_world s)))"

section \<open>Ending the frame, and logs\<close>

definition finish :: "bytes \<Rightarrow> ('m, unit) rop" where
  "finish returnData = seqE (updE (\<lambda>s. s\<lparr>rs_result := (rs_result s)\<lparr>rr_returnValue := Some returnData\<rparr>\<rparr>)) (\<lambda>_. trap STOP)"

definition revertFrame :: "bytes \<Rightarrow> ('m, unit) rop" where
  "revertFrame returnData = seqE (updE (\<lambda>s. s\<lparr>rs_result := (rs_result s)\<lparr>rr_returnValue := Some returnData\<rparr>\<rparr>)) (\<lambda>_. trap REVERT)"

definition pushLog :: "log \<Rightarrow> ('m, unit) rop" where
  "pushLog l = updE (\<lambda>s. s\<lparr>rs_result := (rs_result s)\<lparr>rr_logs := rr_logs (rs_result s) @ [l]\<rparr>\<rparr>)"

definition logTopics :: "bytes \<Rightarrow> int \<Rightarrow> bytes list \<Rightarrow> ('m, unit) rop" where
  "logTopics data numberOfTopics topics =
     (if numberOfTopics < 0 \<or> numberOfTopics > 4 then trap OUT_OF_RANGE
      else if int (length topics) \<noteq> numberOfTopics then trap INTERNAL_ERROR
      else seqE (getE (\<lambda>s. e_address (rs_env s))) (\<lambda>a. pushLog (a, topics, data)))"

section \<open>Getters\<close>

definition getCaller :: "'m ctx \<Rightarrow> ('m, int) rop" where
  "getCaller C = seqE (getE (\<lambda>s. e_caller (rs_env s))) (\<lambda>a. throwing (bytesToBigInt (cx_hex C) a False))"

definition getTxOrigin :: "'m ctx \<Rightarrow> ('m, int) rop" where
  "getTxOrigin C = seqE (getE (\<lambda>s. e_origin (rs_env s))) (\<lambda>a. throwing (bytesToBigInt (cx_hex C) a False))"

definition getBlockCoinbase :: "'m ctx \<Rightarrow> ('m, int) rop" where
  "getBlockCoinbase C = seqE (getE (\<lambda>s. e_block (rs_env s))) (\<lambda>b.
     seqE (throwing (consensusAlgorithm (cx_common C))) (\<lambda>alg.
     throwing (bytesToBigInt (cx_hex C)
       (if alg = ''clique'' then cx_cliqueSigner C b else bh_coinbase b) False)))"

definition getBlockPrevRandao :: "'m ctx \<Rightarrow> ('m, int) rop" where
  "getBlockPrevRandao C = seqE (getE (\<lambda>s. bh_prevRandao (e_block (rs_env s)))) (\<lambda>r.
     throwing (bytesToBigInt (cx_hex C) r False))"

definition required :: "string \<Rightarrow> int option \<Rightarrow> int res" where
  "required msg v = (case v of None \<Rightarrow> Inl (EthereumJSError msg) | Some x \<Rightarrow> Inr x)"

definition getBlockSlotNumber :: "('m, int) rop" where
  "getBlockSlotNumber = seqE (getE (\<lambda>s. bh_slotNumber (e_block (rs_env s)))) (\<lambda>v.
     throwing (required ''slotNumber is not available on this block'' v))"

definition getBlockBaseFee :: "('m, int) rop" where
  "getBlockBaseFee = seqE (getE (\<lambda>s. bh_baseFeePerGas (e_block (rs_env s)))) (\<lambda>v.
     throwing (required ''Block has no Base Fee'' v))"

definition getBlobBaseFee :: "('m, int) rop" where
  "getBlobBaseFee = seqE (getE (\<lambda>s. bh_blobGasPrice (e_block (rs_env s)))) (\<lambda>v.
     throwing (required ''Block has no Blob Base Fee'' v))"

end
