(* ===== verification/EvmUtil.thy ===== *)
theory EvmUtil
  imports EvmRun "HOL-Library.Signed_Division"
begin

unbundle bit_operations_syntax

text \<open>
  Helpers of the opcode handlers, \<^verbatim>\<open>packages/evm/src/opcodes/util.ts\<close>, and the immediate bytes
  of DUPN, SWAPN and EXCHANGE, \<^verbatim>\<open>packages/evm/src/opcodes/EIP8024.ts\<close>. BigInt division and
  remainder truncate towards zero (\<open>sdiv\<close>, \<open>smod\<close>); shifts by a negative count shift the
  other way.
\<close>

section \<open>BigInt arithmetic\<close>

abbreviation TWO_POW256 :: int where
  "TWO_POW256 \<equiv> 2 ^ 256"

abbreviation MAX_INTEGER_BIGINT :: int where
  "MAX_INTEGER_BIGINT \<equiv> 2 ^ 256 - 1"

definition bigint_shl :: "int \<Rightarrow> int \<Rightarrow> int" where
  "bigint_shl a n = (if n \<ge> 0 then a * 2 ^ nat n else a div 2 ^ nat (- n))"

definition bigint_shr :: "int \<Rightarrow> int \<Rightarrow> int" where
  "bigint_shr a n = bigint_shl a (- n)"

definition modBig :: "int \<Rightarrow> int \<Rightarrow> int" where
  "modBig a b = (let r = a smod b in if r < 0 then b + r else r)"

definition fromTwos :: "int \<Rightarrow> int" where
  "fromTwos a = asIntN 256 a"

definition toTwos :: "int \<Rightarrow> int" where
  "toTwos a = asUintN 256 a"

definition absBig :: "int \<Rightarrow> int" where
  "absBig a = (if a > 0 then a else a * - 1)"

text \<open>The loop of \<open>exponentiation\<close>: it halves the exponent until it is not positive.\<close>

function expLoop :: "int \<Rightarrow> int \<Rightarrow> int \<Rightarrow> int" where
  "expLoop t bas e =
     (if e > 0
      then expLoop (if e smod 2 \<noteq> 0 then (t * bas) smod TWO_POW256 else t)
             ((bas * bas) smod TWO_POW256) (e sdiv 2)
      else t)"
  by auto

lemma sdiv_2: "0 \<le> e \<Longrightarrow> e sdiv 2 = e div (2 :: int)"
  by (cases "e = 0") (simp_all add: signed_divide_int_def)

termination expLoop
  by (relation "measure (\<lambda>(t, bas, e). nat e)") (auto simp: sdiv_2)

declare expLoop.simps [simp del]

definition exponentiation :: "int \<Rightarrow> int \<Rightarrow> int" where
  "exponentiation bas e = expLoop 1 bas e"

definition divCeil :: "int \<Rightarrow> int \<Rightarrow> int" where
  "divCeil a b = (let d = a sdiv b; modulus = modBig a b in
     if modulus = 0 then d else if d < 0 then d - 1 else d + 1)"

text \<open>The length of \<open>x.toString(2)\<close> for a positive \<open>x\<close>.\<close>

fun bin_length :: "nat \<Rightarrow> nat" where
  "bin_length n = (if n < 2 then 1 else 1 + bin_length (n div 2))"

declare bin_length.simps [simp del]

section \<open>Addresses, storage words, slices\<close>

definition MASK_160 :: int where
  "MASK_160 = bigint_shl 1 160 - 1"

definition createAddressFromStackBigInt :: "noble \<Rightarrow> int \<Rightarrow> bytes res" where
  "createAddressFromStackBigInt N v = createAddressFromBigInt N (v AND MASK_160)"

definition setLengthLeftStorage :: "bytes \<Rightarrow> bytes res" where
  "setLengthLeftStorage v =
     (if equalsBytes v (replicate (length v) 0) then Inr [] else setLengthLeft v 32 False)"

text \<open>
  \<open>Number(offset)\<close> of a value cut to the length of an array is exact; so is \<open>Number(length)\<close>
  up to \<open>2^53\<close>, beyond which the engine refuses the array.
\<close>

definition getDataSlice :: "bytes \<Rightarrow> int \<Rightarrow> int \<Rightarrow> bytes res" where
  "getDataSlice data0 offset0 len0 =
     (let l = int (length data0);
          offset = (if offset0 > l then l else offset0);
          end' = (if offset + len0 > l then l else offset + len0);
          data = js_slice data0 (nat offset) (nat end') in
      setLengthRight data (nat len0) False)"

definition readImmediateByteOrZero :: "('m, nat) rop" where
  "readImmediateByteOrZero = seqE (getE (\<lambda>s.
       if 0 \<le> rs_pc s \<and> rs_pc s < int (length (rs_code s)) then unat (rs_code s ! nat (rs_pc s)) else 0)) (\<lambda>immediate.
     seqE (updE (\<lambda>s. s\<lparr>rs_pc := rs_pc s + 1\<rparr>)) (\<lambda>_. ret immediate))"

definition getFullname :: "nat \<Rightarrow> string \<Rightarrow> string" where
  "getFullname code n =
     (if n = ''LOG'' then n @ int_to_dec (int code - 0xa0)
      else if n = ''PUSH'' then n @ int_to_dec (int code - 0x5f)
      else if n = ''DUP'' then n @ int_to_dec (int code - 0x7f)
      else if n = ''SWAP'' then n @ int_to_dec (int code - 0x8f)
      else n)"

definition jumpIsValid :: "'m run_state \<Rightarrow> int \<Rightarrow> bool" where
  "jumpIsValid s dest = (0 \<le> dest \<and> dest < int (length (rs_validJumps s)) \<and> rs_validJumps s ! nat dest = 1)"

definition word32 :: "'m ctx \<Rightarrow> int \<Rightarrow> bytes res" where
  "word32 C v = and_then (bigIntToBytes (cx_hex C) v False) (\<lambda>b. setLengthLeft b 32 False)"

text \<open>A stored value as a number, and a number in its shortest form.\<close>

definition storedToBigInt :: "'m ctx \<Rightarrow> bytes \<Rightarrow> int res" where
  "storedToBigInt C v = (if length v \<noteq> 0 then bytesToBigInt (cx_hex C) v False else Inr 0)"

definition shortestBytes :: "'m ctx \<Rightarrow> int \<Rightarrow> bytes res" where
  "shortestBytes C val = (if val = 0 then Inr [] else bigIntToBytes (cx_hex C) val False)"

section \<open>Gas\<close>

text \<open>The subcontainer whose index is the byte of the code at \<open>pos\<close>.\<close>

definition containerAt :: "eof_env \<Rightarrow> bytes \<Rightarrow> int \<Rightarrow> bytes option" where
  "containerAt eof code pos =
     (if 0 \<le> pos \<and> pos < int (length code) \<and> unat (code ! nat pos) < length (eo_containerSections eof)
      then Some (eo_containerSections eof ! unat (code ! nat pos)) else None)"

definition maxCallGas :: "int \<Rightarrow> int \<Rightarrow> common \<Rightarrow> int" where
  "maxCallGas gasLimit gasLeft c =
     (if gteHardfork c ''tangerineWhistle''
      then let gasAllowed = gasLeft - gasLeft sdiv 64 in
        if gasLimit > gasAllowed then gasAllowed else gasLimit
      else gasLimit)"

definition subMemUsage :: "'m ctx \<Rightarrow> int \<Rightarrow> int \<Rightarrow> ('m, int) rop" where
  "subMemUsage C offset sz =
     (if sz = 0 then ret 0
      else let newMemoryWordCount = divCeil (offset + sz) 32 in
        seqE (getE rs_memoryWordCount) (\<lambda>count.
        if newMemoryWordCount \<le> count then ret 0
        else seqE (paramOf C ''memoryGas'') (\<lambda>fee.
          seqE (paramOf C ''quadCoefficientDivGas'') (\<lambda>quadCoefficient.
          if quadCoefficient = 0 then raise (Throw RangeError)
          else let words = newMemoryWordCount;
                   cost = words * fee + (words * words) sdiv quadCoefficient in
            seqE (getE rs_highestMemCost) (\<lambda>currentHighestMemCost.
            let c = (if cost > currentHighestMemCost then cost - currentHighestMemCost else cost) in
            seqE (updE (\<lambda>s. s\<lparr>rs_highestMemCost :=
                if cost > currentHighestMemCost then cost else rs_highestMemCost s\<rparr>)) (\<lambda>_.
            seqE (updE (\<lambda>s. s\<lparr>rs_memoryWordCount := newMemoryWordCount\<rparr>)) (\<lambda>_. ret c)))))))"

definition writeCallOutput :: "'m ctx \<Rightarrow> int \<Rightarrow> int \<Rightarrow> ('m, unit) rop" where
  "writeCallOutput C outOffset outLength = seqE (getE rs_returnBytes) (\<lambda>returnData.
     if length returnData > 0 then
       let memOffset = nat outOffset;
           dataLength = (if length returnData < nat outLength then length returnData else nat outLength) in
       seqE (throwing (getDataSlice returnData 0 (int dataLength))) (\<lambda>data.
       seqE (memOp (mem_extend (cx_maxArray C) memOffset dataLength)) (\<lambda>_.
         memOp (mem_write (cx_maxArray C) memOffset dataLength data)))
     else ret ())"

definition updateSstoreGas :: "'m ctx \<Rightarrow> bytes \<Rightarrow> bytes \<Rightarrow> ('m, int) rop" where
  "updateSstoreGas C currentStorage v =
     (if length v = 0 \<and> length currentStorage = 0 \<or> length v > 0 \<and> length currentStorage > 0
      then paramOf C ''sstoreResetGas''
      else if length v = 0 \<and> length currentStorage > 0
      then seqE (paramOf C ''sstoreResetGas'') (\<lambda>gas.
        seqE (paramOf C ''sstoreRefundGas'') (\<lambda>r. seqE (refundGas r) (\<lambda>_. ret gas)))
      else paramOf C ''sstoreSetGas'')"

section \<open>Immediates of EIP-8024\<close>

definition isEIP8024SingleImmediateValid :: "nat \<Rightarrow> bool" where
  "isEIP8024SingleImmediateValid immediate = (immediate \<le> 0x5a \<or> immediate \<ge> 0x80)"

definition decodeEIP8024SingleImmediate :: "nat \<Rightarrow> evm_error + nat" where
  "decodeEIP8024SingleImmediate immediate =
     (if \<not> isEIP8024SingleImmediateValid immediate then Inl INVALID_OPCODE
      else Inr ((immediate + 145) AND 0xff))"

definition isEIP8024PairImmediateValid :: "nat \<Rightarrow> bool" where
  "isEIP8024PairImmediateValid immediate = (immediate \<le> 0x51 \<or> immediate \<ge> 0x80)"

definition decodeEIP8024PairImmediate :: "nat \<Rightarrow> evm_error + nat \<times> nat" where
  "decodeEIP8024PairImmediate immediate =
     (if \<not> isEIP8024PairImmediateValid immediate then Inl INVALID_OPCODE
      else let k = immediate XOR 0x8f; q = drop_bit 4 k AND 0xf; r = k AND 0xf in
        if q < r then Inr (q + 1, r + 1) else Inr (r + 1, 29 - q))"

end
