(* ===== verification/EvmGas.thy ===== *)
theory EvmGas
  imports EvmUtil
begin

text \<open>
  The parts of the dynamic gas that several opcodes share: access costs of
  \<^verbatim>\<open>packages/evm/src/opcodes/EIP2929.ts\<close>, storage costs of \<^verbatim>\<open>EIP1283.ts\<close> and \<^verbatim>\<open>EIP2200.ts\<close>,
  the gas paths of the calls and creations of \<^verbatim>\<open>EIP7928.ts\<close>. A cost is computed in the state of
  the frame, since warming, memory growth and refunds happen while it is computed.
\<close>

definition addParam :: "'m ctx \<Rightarrow> int \<Rightarrow> string \<Rightarrow> ('m, int) rop" where
  "addParam C gas n = seqE (paramOf C n) (\<lambda>p. ret (gas + p))"

definition selfAddress :: "('m, bytes) rop" where
  "selfAddress = getE (\<lambda>s. e_address (rs_env s))"

definition stateless :: "'m ctx \<Rightarrow> bool" where
  "stateless C = (activated C 6800 \<or> activated C 7864)"

definition warmOf :: "('m journal \<Rightarrow> bool) \<Rightarrow> ('m, bool) rop" where
  "warmOf f = getE (\<lambda>s. f (wd_journal (rs_world s)))"

section \<open>Access costs, EIP-2929\<close>

definition getAddressAccessCost :: "'m ctx \<Rightarrow> bytes \<Rightarrow> bool \<Rightarrow> bool \<Rightarrow> ('m, int) rop" where
  "getAddressAccessCost C address chargeGas isSelfdestruct =
     (if \<not> activated C 2929 then ret 0
      else seqE (warmOf (isWarmedAddress (cx_hex C) address)) (\<lambda>warm.
        if \<not> warm then
          (if chargeGas \<and> \<not> activated C 7864 then paramOf C ''coldaccountaccessGas''
           else if chargeGas \<and> activated C 7864 then paramOf C ''warmstoragereadGas''
           else ret 0)
        else if chargeGas \<and> \<not> isSelfdestruct then paramOf C ''warmstoragereadGas''
        else ret 0))"

definition warmAddress :: "'m ctx \<Rightarrow> bytes \<Rightarrow> ('m, unit) rop" where
  "warmAddress C address = seqE (warmOf (isWarmedAddress (cx_hex C) address)) (\<lambda>warm.
     whenE (\<not> warm) (journalOp (updE (addWarmedAddress (cx_hex C) address))))"

definition addAddressToBAL :: "'m ctx \<Rightarrow> bytes \<Rightarrow> ('m, unit) rop" where
  "addAddressToBAL C address = whenE (activated C 7928) (balCall (BalAddress (bytesToHex (cx_hex C) address)))"

definition accessAddressEIP2929 :: "'m ctx \<Rightarrow> bytes \<Rightarrow> bool \<Rightarrow> bool \<Rightarrow> ('m, int) rop" where
  "accessAddressEIP2929 C address chargeGas isSelfdestruct =
     (if \<not> activated C 2929 then ret 0
      else seqE (getAddressAccessCost C address chargeGas isSelfdestruct) (\<lambda>cost.
        seqE (warmAddress C address) (\<lambda>_. ret cost)))"

definition accessStorageEIP2929 :: "'m ctx \<Rightarrow> bytes \<Rightarrow> bool \<Rightarrow> bool \<Rightarrow> ('m, int) rop" where
  "accessStorageEIP2929 C key isSstore chargeGas =
     (if \<not> activated C 2929 then ret 0
      else seqE selfAddress (\<lambda>address.
        seqE (warmOf (isWarmedStorage (cx_hex C) address key)) (\<lambda>warm.
        if \<not> warm then
          seqE (journalOp (addWarmedStorage (cx_hex C) address key)) (\<lambda>_.
            if chargeGas \<and> \<not> stateless C then paramOf C ''coldsloadGas'' else ret 0)
        else if chargeGas \<and> (\<not> isSstore \<or> stateless C) then paramOf C ''warmstoragereadGas''
        else ret 0)))"

datatype sstore_cost = Noop | InitRefund | CleanRefund

definition adjustSstoreGasEIP2929 :: "'m ctx \<Rightarrow> bytes \<Rightarrow> int \<Rightarrow> sstore_cost \<Rightarrow> ('m, int) rop" where
  "adjustSstoreGasEIP2929 C key defaultCost costName =
     (if \<not> activated C 2929 then ret defaultCost
      else seqE selfAddress (\<lambda>address.
        seqE (paramOf C ''warmstoragereadGas'') (\<lambda>warmRead.
        seqE (paramOf C ''coldsloadGas'') (\<lambda>coldSload.
        seqE (warmOf (isWarmedStorage (cx_hex C) address key)) (\<lambda>warm.
        if warm then
          (case costName of
             Noop \<Rightarrow> ret warmRead
           | InitRefund \<Rightarrow> seqE (paramOf C ''sstoreInitEIP2200Gas'') (\<lambda>g. ret (g - warmRead))
           | CleanRefund \<Rightarrow> seqE (paramOf C ''sstoreResetGas'') (\<lambda>g. ret (g - coldSload - warmRead)))
        else ret defaultCost)))))"

section \<open>Storage costs\<close>

definition refundParam :: "'m ctx \<Rightarrow> string \<Rightarrow> ('m, unit) rop" where
  "refundParam C n = seqE (paramOf C n) refundGas"

definition updateSstoreGasEIP1283 :: "'m ctx \<Rightarrow> bytes \<Rightarrow> bytes \<Rightarrow> bytes \<Rightarrow> ('m, int) rop" where
  "updateSstoreGasEIP1283 C currentStorage originalStorage v =
     (if equalsBytes currentStorage v then paramOf C ''netSstoreNoopGas''
      else if equalsBytes originalStorage currentStorage then
        (if length originalStorage = 0 then paramOf C ''netSstoreInitGas''
         else seqE (whenE (length v = 0) (refundParam C ''netSstoreClearRefundGas'')) (\<lambda>_.
           paramOf C ''netSstoreCleanGas''))
      else
        seqE (whenE (length originalStorage \<noteq> 0)
          (if length currentStorage = 0 then seqE (paramOf C ''netSstoreClearRefundGas'') subRefund
           else whenE (length v = 0) (refundParam C ''netSstoreClearRefundGas''))) (\<lambda>_.
        seqE (whenE (equalsBytes originalStorage v)
          (if length originalStorage = 0 then refundParam C ''netSstoreResetClearRefundGas''
           else refundParam C ''netSstoreResetRefundGas'')) (\<lambda>_.
        paramOf C ''netSstoreDirtyGas'')))"

definition updateSstoreGasEIP2200 :: "'m ctx \<Rightarrow> bytes \<Rightarrow> bytes \<Rightarrow> bytes \<Rightarrow> bytes \<Rightarrow> ('m, int) rop" where
  "updateSstoreGasEIP2200 C currentStorage originalStorage v key =
     seqE (getE rs_gasLeft) (\<lambda>gasLeft.
     seqE (paramOf C ''sstoreSentryEIP2200Gas'') (\<lambda>sentry.
     if gasLeft \<le> sentry then trap OUT_OF_GAS
     else if equalsBytes currentStorage v then
       seqE (paramOf C ''sstoreNoopEIP2200Gas'') (\<lambda>sstoreNoopCost.
         adjustSstoreGasEIP2929 C key sstoreNoopCost Noop)
     else if equalsBytes originalStorage currentStorage then
       (if length originalStorage = 0 then paramOf C ''sstoreInitEIP2200Gas''
        else seqE (whenE (length v = 0) (refundParam C ''sstoreClearRefundEIP2200Gas'')) (\<lambda>_.
          paramOf C ''sstoreCleanEIP2200Gas''))
     else
       seqE (whenE (length originalStorage > 0)
         (if length currentStorage = 0 then seqE (paramOf C ''sstoreClearRefundEIP2200Gas'') subRefund
          else whenE (length v = 0) (refundParam C ''sstoreClearRefundEIP2200Gas''))) (\<lambda>_.
       seqE (whenE (equalsBytes originalStorage v)
         (if length originalStorage = 0
          then seqE (paramOf C ''sstoreInitRefundEIP2200Gas'') (\<lambda>g.
            seqE (adjustSstoreGasEIP2929 C key g InitRefund) refundGas)
          else seqE (paramOf C ''sstoreCleanRefundEIP2200Gas'') (\<lambda>g.
            seqE (adjustSstoreGasEIP2929 C key g CleanRefund) refundGas))) (\<lambda>_.
       paramOf C ''sstoreDirtyEIP2200Gas''))))"

section \<open>Running out of gas around a call\<close>

definition canAfford :: "int \<Rightarrow> int \<Rightarrow> ('m, bool) rop" where
  "canAfford regularGas stateGas = getE (\<lambda>s.
     regularGas + stateGas \<le> rs_gasLeft s + ev_stateGasReservoir (wd_vars (rs_world s)))"

definition activeCostPerStateByte :: "'m ctx \<Rightarrow> ('m, int) rop" where
  "activeCostPerStateByte C = paramOf C ''costPerStateByte''"

definition newAccountStateGasCost :: "'m ctx \<Rightarrow> ('m, int) rop" where
  "newAccountStateGasCost C = (if \<not> activated C 8037 then ret 0
     else seqE (paramOf C ''stateBytesPerNewAccount'') (\<lambda>stateBytesPerNewAccount.
       seqE (activeCostPerStateByte C) (\<lambda>costPerStateByte. ret (stateBytesPerNewAccount * costPerStateByte))))"

definition eip7928TrapPreTarget :: "'m ctx \<Rightarrow> int \<Rightarrow> ('m, unit) rop" where
  "eip7928TrapPreTarget C gas = seqE (getE rs_gasLeft) (\<lambda>gasLeft.
     if activated C 7928 \<and> gas > gasLeft then trap OUT_OF_GAS else ret ())"

definition eip7928SchedulePostTargetCallOog :: "int \<Rightarrow> int \<Rightarrow> ('m, int) rop" where
  "eip7928SchedulePostTargetCallOog outOffset outLength =
     seqE (updE (\<lambda>s. s\<lparr>rs_callOog := Some (outOffset, outLength)\<rparr>)) (\<lambda>_.
     seqE (onVars (\<lambda>v. v\<lparr>ev_callPostTargetOog := True\<rparr>)) (\<lambda>_. getE rs_gasLeft))"

definition eip7928PostTargetCreateOog :: "'m ctx \<Rightarrow> int \<Rightarrow> ('m, int) rop" where
  "eip7928PostTargetCreateOog C gas =
     (if \<not> activated C 7928 then trap OUT_OF_GAS
      else seqE (updE (\<lambda>s. s\<lparr>rs_messageGasLimit := Some 0, rs_createOog := True\<rparr>)) (\<lambda>_. ret gas))"

definition postTargetCallOogOrTrap :: "'m ctx \<Rightarrow> int \<Rightarrow> int \<Rightarrow> ('m, int) rop" where
  "postTargetCallOogOrTrap C outOffset outLength =
     (if \<not> activated C 7928 then trap OUT_OF_GAS else eip7928SchedulePostTargetCallOog outOffset outLength)"

definition consumeEip7928PostTargetCallOog :: "'m ctx \<Rightarrow> ('m, unit) rop" where
  "consumeEip7928PostTargetCallOog C = seqE (getE rs_callOog) (\<lambda>pending. case pending of
     None \<Rightarrow> ret ()
   | Some (outOffset, outLength) \<Rightarrow>
       seqE (updE (\<lambda>s. s\<lparr>rs_callOog := None\<rparr>)) (\<lambda>_.
       seqE (writeCallOutput C outOffset outLength) (\<lambda>_. trap OUT_OF_GAS)))"

section \<open>Calls\<close>

definition accountIsDead :: "'m ctx \<Rightarrow> bytes \<Rightarrow> ('m, bool) rop" where
  "accountIsDead C address = seqE (managerOp (m_getAccount (cx_manager C) address)) (\<lambda>account.
     throwing (case account of None \<Rightarrow> Inr True | Some a \<Rightarrow> isEmpty a))"

definition getCallNewAccountPostCosts :: "'m ctx \<Rightarrow> bytes \<Rightarrow> ('m, int \<times> int) rop" where
  "getCallNewAccountPostCosts C toAddress =
     seqE (if gteHardfork (cx_common C) ''spuriousDragon'' then accountIsDead C toAddress
       else seqE (managerOp (m_getAccount (cx_manager C) toAddress)) (\<lambda>account. ret (account = None))) (\<lambda>createsNewAccount.
     if \<not> createsNewAccount then ret (0, 0)
     else seqE (paramOf C ''callNewAccountGas'') (\<lambda>regular.
       seqE (newAccountStateGasCost C) (\<lambda>state. ret (regular, state))))"

definition commitTargetAccess :: "'m ctx \<Rightarrow> bytes \<Rightarrow> ('m, unit) rop" where
  "commitTargetAccess C toAddress =
     seqE (whenE (activated C 2929) (warmAddress C toAddress)) (\<lambda>_. addAddressToBAL C toAddress)"

definition finalizeCallMessageGas :: "'m ctx \<Rightarrow> int \<Rightarrow> int \<Rightarrow> int \<Rightarrow> int \<Rightarrow> int \<Rightarrow> ('m, int) rop" where
  "finalizeCallMessageGas C gas currentGasLimit newAccountStateGas outOffset outLength =
     seqE (getE rs_gasLeft) (\<lambda>gasLeft.
     let gasLimit = maxCallGas currentGasLimit (gasLeft - gas) (cx_common C) in
     seqE (canAfford gas newAccountStateGas) (\<lambda>affordable.
     if activated C 7928 \<and> \<not> affordable then eip7928SchedulePostTargetCallOog outOffset outLength
     else if gasLimit > gasLeft - gas then postTargetCallOogOrTrap C outOffset outLength
     else if gas > gasLeft then postTargetCallOogOrTrap C outOffset outLength
     else seqE (whenE (activated C 8037 \<and> newAccountStateGas > 0) (chargeStateGas newAccountStateGas)) (\<lambda>_.
       seqE (updE (\<lambda>s. s\<lparr>rs_messageGasLimit := Some gasLimit\<rparr>)) (\<lambda>_. ret gas))))"

definition DELEGATION_7702_FLAG :: bytes where
  "DELEGATION_7702_FLAG = [0xef, 0x01, 0x00]"

definition eip7702GetAccessCost :: "'m ctx \<Rightarrow> bytes \<Rightarrow> bool \<Rightarrow> ('m, int \<times> bytes option) rop" where
  "eip7702GetAccessCost C address charge2929Gas =
     seqE (managerOp (m_getCode (cx_manager C) address)) (\<lambda>code.
     if equalsBytes (js_slice code 0 3) DELEGATION_7702_FLAG then
       let delegationAddress = js_slice code 3 24 in
       seqE (getAddressAccessCost C delegationAddress charge2929Gas False) (\<lambda>gas. ret (gas, Some delegationAddress))
     else ret (0, None))"

text \<open>The access to the target of a call, with the access witness of EIP-6800 when it is in use.\<close>

definition targetWitnessGas :: "'m ctx \<Rightarrow> int \<Rightarrow> bytes \<Rightarrow> int \<Rightarrow> bool \<Rightarrow> ('m, int \<times> bool) rop" where
  "targetWitnessGas C gas toAddress v includeValueTransfer =
     (if stateless C \<and> \<not> cx_isPrecompile C toAddress then
        seqE (witnessGas C (ReadBasicData toAddress)) (\<lambda>coldAccessGas.
        seqE (if includeValueTransfer \<and> v \<noteq> 0
          then seqE selfAddress (\<lambda>contractAddress.
            seqE (witnessGas C (WriteBasicData contractAddress)) (\<lambda>g1.
            seqE (witnessGas C (WriteBasicData toAddress)) (\<lambda>g2. ret (gas + g1 + g2))))
          else ret gas) (\<lambda>gas'. ret (gas' + coldAccessGas, coldAccessGas = 0)))
      else ret (gas, True))"

record call_gas_opts =
  co_currentGasLimit :: int
  co_toAddress :: bytes
  co_value :: int
  co_inOffset :: int
  co_inLength :: int
  co_outOffset :: int
  co_outLength :: int
  co_includeValueTransfer :: bool
  co_includeNewAccountPostCheck :: bool

definition callFamilyGas :: "'m ctx \<Rightarrow> int \<Rightarrow> call_gas_opts \<Rightarrow> ('m, int) rop" where
  "callFamilyGas C gas0 opts = (let toAddress = co_toAddress opts; v = co_value opts in
     seqE (subMemUsage C (co_inOffset opts) (co_inLength opts)) (\<lambda>m1.
     seqE (subMemUsage C (co_outOffset opts) (co_outLength opts)) (\<lambda>m2.
     let gas1 = gas0 + m1 + m2 in
     seqE (eip7928TrapPreTarget C gas1) (\<lambda>_.
     seqE (targetWitnessGas C gas1 toAddress v (co_includeValueTransfer opts)) (\<lambda>(gas2, charge2929Gas).
     seqE (getAddressAccessCost C toAddress charge2929Gas False) (\<lambda>accessCost.
     let gas3 = gas2 + accessCost in
     seqE (if co_includeValueTransfer opts \<and> v \<noteq> 0 \<and> \<not> stateless C
       then paramOf C ''callValueTransferGas'' else ret 0) (\<lambda>valueTransferGas.
     let gas4 = gas3 + valueTransferGas in
     seqE (eip7928TrapPreTarget C gas4) (\<lambda>_.
     seqE (commitTargetAccess C toAddress) (\<lambda>_.
     seqE (if co_includeNewAccountPostCheck opts \<and> (v \<noteq> 0 \<or> \<not> gteHardfork (cx_common C) ''spuriousDragon'')
       then getCallNewAccountPostCosts C toAddress else ret (0, 0)) (\<lambda>(regular, newAccountStateGas).
     let gas5 = gas4 + regular;
         finalize = (\<lambda>gas. finalizeCallMessageGas C gas (co_currentGasLimit opts) newAccountStateGas
           (co_outOffset opts) (co_outLength opts)) in
     if activated C 7702 then
       seqE (eip7702GetAccessCost C toAddress charge2929Gas) (\<lambda>(delegationGas, delegation).
       let gas6 = gas5 + delegationGas in
       case delegation of
         None \<Rightarrow> finalize gas6
       | Some delegationAddress \<Rightarrow>
           if activated C 7928 then
             seqE (getE rs_gasLeft) (\<lambda>gasLeft.
             if gas6 > gasLeft then postTargetCallOogOrTrap C (co_outOffset opts) (co_outLength opts)
             else seqE (warmAddress C delegationAddress) (\<lambda>_.
               seqE (addAddressToBAL C delegationAddress) (\<lambda>_. finalize gas6)))
           else seqE (warmAddress C delegationAddress) (\<lambda>_. finalize gas6))
     else finalize gas5))))))))))"

section \<open>Creations\<close>

definition getCreateTargetAddressBytes :: "'m ctx \<Rightarrow> bytes \<Rightarrow> bytes option \<Rightarrow> ('m, bytes) rop" where
  "getCreateTargetAddressBytes C initCode salt = seqE selfAddress (\<lambda>caller. case salt of
     Some x \<Rightarrow> throwing (generateAddress2 (cx_keccakNoble C) caller x initCode)
   | None \<Rightarrow> seqE (managerOp (m_getAccount (cx_manager C) caller)) (\<lambda>account.
       seqE (throwing (case account of None \<Rightarrow> Inr 0 | Some a \<Rightarrow> get_nonce a)) (\<lambda>nonce.
       seqE (throwing (bigIntToBytes (cx_hex C) nonce False)) (\<lambda>nonceBytes.
       throwing (generateAddress (cx_hex C) (cx_keccakNoble C) caller nonceBytes)))))"

definition initCodeWordCost :: "'m ctx \<Rightarrow> int \<Rightarrow> ('m, int) rop" where
  "initCodeWordCost C codeLength = (if activated C 3860
     then seqE (paramOf C ''initCodeWordGas'') (\<lambda>g. ret (((codeLength + 31) sdiv 32) * g)) else ret 0)"

definition create7928Gas :: "'m ctx \<Rightarrow> int \<Rightarrow> int \<Rightarrow> int \<Rightarrow> bytes option \<Rightarrow> int \<Rightarrow> ('m, int) rop" where
  "create7928Gas C gas0 offset codeLength salt extraPreTargetGas =
     seqE (if activated C 3860 then seqE (paramOf C ''maxInitCodeSize'') (\<lambda>m.
         ret (codeLength > m \<and> \<not> cx_allowUnlimitedInitCodeSize C)) else ret False) (\<lambda>oversized.
     if oversized then trap INITCODE_SIZE_VIOLATION
     else seqE (subMemUsage C offset codeLength) (\<lambda>m.
     seqE (initCodeWordCost C codeLength) (\<lambda>w.
     let gas = gas0 + m + w + extraPreTargetGas in
     seqE (eip7928TrapPreTarget C gas) (\<lambda>_.
     seqE (if codeLength \<noteq> 0
       then memOp (mem_read (cx_maxArray C) (nat offset) (nat codeLength) True) else ret []) (\<lambda>initCode.
     seqE (getCreateTargetAddressBytes C initCode salt) (\<lambda>targetAddress.
     seqE (newAccountStateGasCost C) (\<lambda>newAccountStateGas.
     seqE (canAfford gas newAccountStateGas) (\<lambda>affordable.
     if activated C 8037 \<and> \<not> affordable then trap OUT_OF_GAS
     else seqE (whenE (activated C 2929) (warmAddress C targetAddress)) (\<lambda>_.
     seqE selfAddress (\<lambda>self.
     seqE (accessAddressEIP2929 C self False False) (\<lambda>access.
     let gas' = gas + access;
         outOfGas = seqE (addAddressToBAL C targetAddress) (\<lambda>_. eip7928PostTargetCreateOog C gas');
         proceed = (\<lambda>g. seqE (getE (\<lambda>s. e_isStatic (rs_env s))) (\<lambda>static.
           if static then trap STATIC_STATE_CHANGE
           else seqE (getE rs_gasLeft) (\<lambda>gasLeft.
             let gasLimit = maxCallGas (gasLeft - g) (gasLeft - g) (cx_common C) in
             if g > gasLeft then seqE (addAddressToBAL C targetAddress) (\<lambda>_. eip7928PostTargetCreateOog C g)
             else seqE (updE (\<lambda>s. s\<lparr>rs_messageGasLimit := Some gasLimit\<rparr>)) (\<lambda>_. ret g)))) in
     seqE (canAfford gas' newAccountStateGas) (\<lambda>affordable'.
     seqE (getE rs_gasLeft) (\<lambda>gasLeft.
     if activated C 8037 then
       (if \<not> affordable' then outOfGas
        else if gas' > gasLeft then outOfGas
        else seqE (if gas' > 0 then seqE (useGas gas') (\<lambda>_. ret 0) else ret gas') (\<lambda>g.
          seqE (chargeStateGas newAccountStateGas) (\<lambda>_. proceed g)))
     else if gas' > gasLeft then outOfGas
     else proceed gas')))))))))))))"

end
