(* ===== verification/EvmOps.thy ===== *)
theory EvmOps
  imports EvmGas "HOL-Library.AList"
begin

unbundle bit_operations_syntax

text \<open>
  The opcode handlers of \<^verbatim>\<open>packages/evm/src/opcodes/functions.ts\<close> that run inside one frame:
  arithmetic, comparison, bits, environment, block, memory, storage, control flow, stack and
  logs, for legacy code and for EOF code. Each is the function stored under its opcode, on the
  state of the frame; \<open>C\<close> holds what it calls outside. \<open>Number(x)\<close> of a stack item is the item
  itself: an item above \<open>2^53\<close>, which \<open>Number\<close> rounds, is refused by the memory and by the
  comparisons with lengths that precede its use either way. An invalid jump carries its location
  in the message; here it is the error alone.
\<close>

section \<open>Shapes\<close>

text \<open>Pop a number of items, compute, push the result.\<close>

definition unop :: "(int \<Rightarrow> int) \<Rightarrow> ('m, unit) rop" where
  "unop f = seqE pop (\<lambda>a. push (f a))"

definition binop :: "(int \<Rightarrow> int \<Rightarrow> int) \<Rightarrow> ('m, unit) rop" where
  "binop f = seqE (popN 2) (\<lambda>vs. push (f (vs ! 0) (vs ! 1)))"

definition terop :: "(int \<Rightarrow> int \<Rightarrow> int \<Rightarrow> int) \<Rightarrow> ('m, unit) rop" where
  "terop f = seqE (popN 3) (\<lambda>vs. push (f (vs ! 0) (vs ! 1) (vs ! 2)))"

section \<open>Arithmetic\<close>

definition op_STOP :: "('m, unit) rop" where
  "op_STOP = trap STOP"

definition op_ADD :: "('m, unit) rop" where
  "op_ADD = binop (\<lambda>a b. modBig (a + b) TWO_POW256)"

definition op_MUL :: "('m, unit) rop" where
  "op_MUL = binop (\<lambda>a b. modBig (a * b) TWO_POW256)"

definition op_SUB :: "('m, unit) rop" where
  "op_SUB = binop (\<lambda>a b. modBig (a - b) TWO_POW256)"

definition op_DIV :: "('m, unit) rop" where
  "op_DIV = binop (\<lambda>a b. if b = 0 then 0 else modBig (a sdiv b) TWO_POW256)"

definition op_SDIV :: "('m, unit) rop" where
  "op_SDIV = binop (\<lambda>a b. if b = 0 then 0 else toTwos (fromTwos a sdiv fromTwos b))"

definition op_MOD :: "('m, unit) rop" where
  "op_MOD = binop (\<lambda>a b. if b = 0 then b else modBig a b)"

definition op_SMOD :: "('m, unit) rop" where
  "op_SMOD = binop (\<lambda>a b. toTwos (if b = 0 then b else fromTwos a smod fromTwos b))"

definition op_ADDMOD :: "('m, unit) rop" where
  "op_ADDMOD = terop (\<lambda>a b c. if c = 0 then 0 else modBig (a + b) c)"

definition op_MULMOD :: "('m, unit) rop" where
  "op_MULMOD = terop (\<lambda>a b c. if c = 0 then 0 else modBig (a * b) c)"

definition op_EXP :: "('m, unit) rop" where
  "op_EXP = binop (\<lambda>base exponent.
     if base = 2 \<and> exponent = 96 then 2 ^ 96
     else if base = 2 \<and> exponent = 160 then 2 ^ 160
     else if base = 2 \<and> exponent = 224 then 2 ^ 224
     else if exponent = 0 then 1
     else if base = 0 then base
     else exponentiation base exponent)"

definition op_SIGNEXTEND :: "('m, unit) rop" where
  "op_SIGNEXTEND = binop (\<lambda>k val.
     if k < 31 then
       let signBit = k * 8 + 7; mask = bigint_shl 1 signBit - 1 in
       if bigint_shr val signBit AND 1 \<noteq> 0 then val OR asUintN 256 (NOT mask) else val AND mask
     else val)"

section \<open>Comparison and bits\<close>

definition op_LT :: "('m, unit) rop" where
  "op_LT = binop (\<lambda>a b. if a < b then 1 else 0)"

definition op_GT :: "('m, unit) rop" where
  "op_GT = binop (\<lambda>a b. if a > b then 1 else 0)"

definition op_SLT :: "('m, unit) rop" where
  "op_SLT = binop (\<lambda>a b. if fromTwos a < fromTwos b then 1 else 0)"

definition op_SGT :: "('m, unit) rop" where
  "op_SGT = binop (\<lambda>a b. if fromTwos a > fromTwos b then 1 else 0)"

definition op_EQ :: "('m, unit) rop" where
  "op_EQ = binop (\<lambda>a b. if a = b then 1 else 0)"

definition op_ISZERO :: "('m, unit) rop" where
  "op_ISZERO = unop (\<lambda>a. if a = 0 then 1 else 0)"

definition op_AND :: "('m, unit) rop" where
  "op_AND = binop (\<lambda>a b. a AND b)"

definition op_OR :: "('m, unit) rop" where
  "op_OR = binop (\<lambda>a b. a OR b)"

definition op_XOR :: "('m, unit) rop" where
  "op_XOR = binop (\<lambda>a b. a XOR b)"

definition op_NOT :: "('m, unit) rop" where
  "op_NOT = unop (\<lambda>a. asUintN 256 (NOT a))"

definition op_BYTE :: "('m, unit) rop" where
  "op_BYTE = binop (\<lambda>pos word. if pos > 32 then 0
     else bigint_shr word ((31 - pos) * 8) AND 255)"

definition op_SHL :: "('m, unit) rop" where
  "op_SHL = binop (\<lambda>a b. if a > 256 then 0 else bigint_shl b a AND MAX_INTEGER_BIGINT)"

definition op_SHR :: "('m, unit) rop" where
  "op_SHR = binop (\<lambda>a b. if a > 256 then 0 else bigint_shr b a)"

definition op_SAR :: "('m, unit) rop" where
  "op_SAR = binop (\<lambda>a b.
     let bComp = asIntN 256 b; isSigned = bComp < 0 in
     if a > 256 then (if isSigned then MAX_INTEGER_BIGINT else 0)
     else let c = bigint_shr b a in
       if isSigned then
         let shiftedOutWidth = 255 - a;
             mask = bigint_shl (bigint_shr MAX_INTEGER_BIGINT shiftedOutWidth) shiftedOutWidth in
         c OR mask
       else c)"

definition op_CLZ :: "('m, unit) rop" where
  "op_CLZ = unop (\<lambda>x. if x = 0 then 256 else 256 - int (bin_length (nat x)))"

section \<open>Hash, environment, code and data\<close>

definition op_KECCAK256 :: "'m ctx \<Rightarrow> ('m, unit) rop" where
  "op_KECCAK256 C = seqE (popN 2) (\<lambda>vs. let offset = vs ! 0; sz = vs ! 1 in
     seqE (if sz \<noteq> 0 then memOp (mem_read (cx_maxArray C) (nat offset) (nat sz) False) else ret []) (\<lambda>data.
     seqE (throwing (js_BigInt_hex (bytesToHex (cx_hex C) (cx_keccak C data)))) push))"

definition op_ADDRESS :: "'m ctx \<Rightarrow> ('m, unit) rop" where
  "op_ADDRESS C = seqE (getE (\<lambda>s. e_address (rs_env s))) (\<lambda>a.
     seqE (throwing (bytesToBigInt (cx_hex C) a False)) push)"

definition op_BALANCE :: "'m ctx \<Rightarrow> ('m, unit) rop" where
  "op_BALANCE C = seqE pop (\<lambda>addressBigInt.
     seqE (throwing (createAddressFromStackBigInt (cx_hex C) addressBigInt)) (\<lambda>address.
     seqE (getExternalBalance C address) push))"

definition op_ORIGIN :: "'m ctx \<Rightarrow> ('m, unit) rop" where
  "op_ORIGIN C = seqE (getTxOrigin C) push"

definition op_CALLER :: "'m ctx \<Rightarrow> ('m, unit) rop" where
  "op_CALLER C = seqE (getCaller C) push"

definition op_CALLVALUE :: "('m, unit) rop" where
  "op_CALLVALUE = seqE (getE (\<lambda>s. e_callValue (rs_env s))) push"

text \<open>
  A word of an array from a position: nothing there reads as one zero byte, and a short word is
  shifted to the left.
\<close>

definition loadWord :: "'m ctx \<Rightarrow> bytes \<Rightarrow> int \<Rightarrow> ('m, unit) rop" where
  "loadWord C data pos =
     (if pos > int (length data) then push 0
      else let i = nat pos; loaded0 = js_slice data i (i + 32);
               loaded = (if length loaded0 \<noteq> 0 then loaded0 else [0]) in
        seqE (throwing (bytesToBigInt (cx_hex C) loaded False)) (\<lambda>r.
          push (if length loaded < 32 then bigint_shl r (8 * (32 - int (length loaded))) else r)))"

definition op_CALLDATALOAD :: "'m ctx \<Rightarrow> ('m, unit) rop" where
  "op_CALLDATALOAD C = seqE pop (\<lambda>pos. seqE (getE (\<lambda>s. e_callData (rs_env s))) (\<lambda>d. loadWord C d pos))"

definition op_CALLDATASIZE :: "('m, unit) rop" where
  "op_CALLDATASIZE = seqE (getE (\<lambda>s. int (length (e_callData (rs_env s))))) push"

text \<open>A slice of data copied to memory, unless its length is 0.\<close>

definition copyToMemory :: "'m ctx \<Rightarrow> bytes \<Rightarrow> int \<Rightarrow> int \<Rightarrow> int \<Rightarrow> ('m, unit) rop" where
  "copyToMemory C data memOffset dataOffset dataLength =
     (if dataLength \<noteq> 0 then
        seqE (throwing (getDataSlice data dataOffset dataLength)) (\<lambda>slice.
          memOp (mem_write (cx_maxArray C) (nat memOffset) (nat dataLength) slice))
      else ret ())"

definition op_CALLDATACOPY :: "'m ctx \<Rightarrow> ('m, unit) rop" where
  "op_CALLDATACOPY C = seqE (popN 3) (\<lambda>vs. seqE (getE (\<lambda>s. e_callData (rs_env s))) (\<lambda>d.
     copyToMemory C d (vs ! 0) (vs ! 1) (vs ! 2)))"

definition op_CODESIZE :: "('m, unit) rop" where
  "op_CODESIZE = seqE (getE (\<lambda>s. int (length (e_code (rs_env s))))) push"

definition op_CODECOPY :: "'m ctx \<Rightarrow> ('m, unit) rop" where
  "op_CODECOPY C = seqE (popN 3) (\<lambda>vs. seqE (getE (\<lambda>s. e_code (rs_env s))) (\<lambda>d.
     copyToMemory C d (vs ! 0) (vs ! 1) (vs ! 2)))"

definition EOFBYTES :: bytes where
  "EOFBYTES = [0xef, 0x00]"

definition isEOF :: "bytes \<Rightarrow> bool" where
  "isEOF code = equalsBytes EOFBYTES (js_slice code 0 (length EOFBYTES))"

definition op_EXTCODESIZE :: "'m ctx \<Rightarrow> ('m, unit) rop" where
  "op_EXTCODESIZE C = seqE pop (\<lambda>addressBigInt.
     seqE (throwing (createAddressFromStackBigInt (cx_hex C) addressBigInt)) (\<lambda>address.
     seqE (whenE (activated C 7928) (balCall (BalAddress (addressString C address)))) (\<lambda>_.
     seqE (managerOp (m_getCode (cx_manager C) address)) (\<lambda>code.
     if isEOF code then push (int (length EOFBYTES)) else push (int (length code))))))"

definition op_EXTCODECOPY :: "'m ctx \<Rightarrow> ('m, unit) rop" where
  "op_EXTCODECOPY C = seqE (popN 4) (\<lambda>vs.
     seqE (throwing (createAddressFromStackBigInt (cx_hex C) (vs ! 0))) (\<lambda>address.
     seqE (whenE (activated C 7928) (balCall (BalAddress (addressString C address)))) (\<lambda>_.
     if vs ! 3 \<noteq> 0 then
       seqE (managerOp (m_getCode (cx_manager C) address)) (\<lambda>code.
         copyToMemory C (if isEOF code then EOFBYTES else code) (vs ! 1) (vs ! 2) (vs ! 3))
     else ret ())))"

definition op_EXTCODEHASH :: "'m ctx \<Rightarrow> ('m, unit) rop" where
  "op_EXTCODEHASH C = seqE pop (\<lambda>addressBigInt.
     seqE (throwing (createAddressFromStackBigInt (cx_hex C) addressBigInt)) (\<lambda>address.
     seqE (whenE (activated C 7928) (balCall (BalAddress (addressString C address)))) (\<lambda>_.
     seqE (managerOp (m_getCode (cx_manager C) address)) (\<lambda>code.
     if isEOF code then seqE (throwing (bytesToBigInt (cx_hex C) (cx_keccakNoble C EOFBYTES) False)) push
     else seqE (managerOp (m_getAccount (cx_manager C) address)) (\<lambda>account. case account of
         None \<Rightarrow> push 0
       | Some a \<Rightarrow> seqE (throwing (isEmpty a)) (\<lambda>empty.
           if empty then push 0
           else seqE (throwing (get_codeHash a)) (\<lambda>h.
             seqE (throwing (js_BigInt_hex (bytesToHex (cx_hex C) h))) push)))))))"

definition op_RETURNDATASIZE :: "('m, unit) rop" where
  "op_RETURNDATASIZE = seqE (getE (\<lambda>s. int (length (rs_returnBytes s)))) push"

definition op_RETURNDATACOPY :: "'m ctx \<Rightarrow> ('m, unit) rop" where
  "op_RETURNDATACOPY C = seqE (popN 3) (\<lambda>vs. seqE (getE rs_returnBytes) (\<lambda>d.
     copyToMemory C d (vs ! 0) (vs ! 1) (vs ! 2)))"

definition op_GASPRICE :: "('m, unit) rop" where
  "op_GASPRICE = seqE (getE (\<lambda>s. e_gasPrice (rs_env s))) push"

section \<open>Block\<close>

definition op_BLOCKHASH :: "'m ctx \<Rightarrow> ('m, unit) rop" where
  "op_BLOCKHASH C = seqE pop (\<lambda>number.
     seqE (getE (\<lambda>s. bh_number (e_block (rs_env s)))) (\<lambda>blockNumber.
     let diff = blockNumber - number in
     if activated C 7709 then
       if number \<ge> blockNumber then push 0
       else if diff > 256 \<or> diff \<le> 0 then push 0
       else seqE (paramOf C ''historyStorageAddress'') (\<lambda>a.
         seqE (throwing (and_then (bigIntToAddressBytes (cx_hex C) a False) newAddress)) (\<lambda>historyAddress.
         seqE (paramOf C ''historyServeWindow'') (\<lambda>historyServeWindow.
         if historyServeWindow = 0 then raise (Throw RangeError)
         else seqE (throwing (word32 C (number smod historyServeWindow))) (\<lambda>key.
           seqE (whenE (activated C 6800 \<or> activated C 7864)
             (seqE (witnessGas C (ReadAccountStorage historyAddress number)) useGas)) (\<lambda>_.
           seqE (managerOp (m_getStorage (cx_manager C) historyAddress key)) (\<lambda>storage.
           seqE (throwing (bytesToBigInt (cx_hex C) storage False)) push))))))
     else if diff > 256 \<or> diff \<le> 0 then push 0
     else seqE (throwing (cx_blockHash C number)) (\<lambda>h.
       seqE (throwing (bytesToBigInt (cx_hex C) h False)) push)))"

definition op_COINBASE :: "'m ctx \<Rightarrow> ('m, unit) rop" where
  "op_COINBASE C = seqE (getBlockCoinbase C) push"

definition op_TIMESTAMP :: "('m, unit) rop" where
  "op_TIMESTAMP = seqE (getE (\<lambda>s. bh_timestamp (e_block (rs_env s)))) push"

definition op_NUMBER :: "('m, unit) rop" where
  "op_NUMBER = seqE (getE (\<lambda>s. bh_number (e_block (rs_env s)))) push"

definition op_DIFFICULTY :: "'m ctx \<Rightarrow> ('m, unit) rop" where
  "op_DIFFICULTY C = (if activated C 4399 then seqE (getBlockPrevRandao C) push
     else seqE (getE (\<lambda>s. bh_difficulty (e_block (rs_env s)))) push)"

definition op_GASLIMIT :: "('m, unit) rop" where
  "op_GASLIMIT = seqE (getE (\<lambda>s. bh_gasLimit (e_block (rs_env s)))) push"

definition op_SLOTNUM :: "('m, unit) rop" where
  "op_SLOTNUM = seqE getBlockSlotNumber push"

definition op_CHAINID :: "'m ctx \<Rightarrow> ('m, unit) rop" where
  "op_CHAINID C = push (cc_chainId (chainParams (cx_common C)))"

definition op_SELFBALANCE :: "('m, unit) rop" where
  "op_SELFBALANCE = seqE (getE (\<lambda>s. get_balance (e_contract (rs_env s)))) (\<lambda>r. seqE (throwing r) push)"

definition op_BASEFEE :: "('m, unit) rop" where
  "op_BASEFEE = seqE getBlockBaseFee push"

definition op_BLOBHASH :: "('m, unit) rop" where
  "op_BLOBHASH = seqE pop (\<lambda>index. seqE (getE (\<lambda>s. e_blobVersionedHashes (rs_env s))) (\<lambda>hashes.
     if int (length hashes) > index
     then seqE (throwing (js_BigInt_hex (hashes ! nat index))) push
     else push 0))"

definition op_BLOBBASEFEE :: "('m, unit) rop" where
  "op_BLOBBASEFEE = seqE getBlobBaseFee push"

section \<open>Stack, memory, storage\<close>

definition op_POP :: "('m, unit) rop" where
  "op_POP = seqE pop (\<lambda>_. ret ())"

definition op_MLOAD :: "'m ctx \<Rightarrow> ('m, unit) rop" where
  "op_MLOAD C = seqE pop (\<lambda>pos.
     seqE (memOp (mem_read (cx_maxArray C) (nat pos) 32 True)) (\<lambda>word.
     seqE (throwing (bytesToBigInt (cx_hex C) word False)) push))"

definition op_MSTORE :: "'m ctx \<Rightarrow> ('m, unit) rop" where
  "op_MSTORE C = seqE (popN 2) (\<lambda>vs.
     seqE (throwing (word32 C (vs ! 1))) (\<lambda>buf.
       memOp (mem_write (cx_maxArray C) (nat (vs ! 0)) 32 buf)))"

definition op_MSTORE8 :: "'m ctx \<Rightarrow> ('m, unit) rop" where
  "op_MSTORE8 C = seqE (popN 2) (\<lambda>vs.
     seqE (throwing (bigIntToBytes (cx_hex C) (vs ! 1 AND 255) False)) (\<lambda>buf.
       memOp (mem_write (cx_maxArray C) (nat (vs ! 0)) 1 buf)))"

definition op_SLOAD :: "'m ctx \<Rightarrow> ('m, unit) rop" where
  "op_SLOAD C = seqE pop (\<lambda>key.
     seqE (throwing (word32 C key)) (\<lambda>keyBuf.
     seqE (storageLoad C keyBuf False True) (\<lambda>v.
     seqE (throwing (storedToBigInt C v)) push)))"

text \<open>\<open>createdAccountStateGas\<close>, read with \<open>?? 0\<close> and set for the executing address.\<close>

definition onCreatedStateGas :: "'m ctx \<Rightarrow> (int \<Rightarrow> int) \<Rightarrow> ('m, unit) rop" where
  "onCreatedStateGas C f = seqE (getE (\<lambda>s. addressString C (e_address (rs_env s)))) (\<lambda>addrKey.
     onVars (\<lambda>v. let prior = (case map_of (ev_createdAccountStateGas v) addrKey of None \<Rightarrow> 0 | Some g \<Rightarrow> g) in
       v\<lparr>ev_createdAccountStateGas := AList.update addrKey (f prior) (ev_createdAccountStateGas v)\<rparr>))"

definition op_SSTORE :: "'m ctx \<Rightarrow> ('m, unit) rop" where
  "op_SSTORE C = seqE (popN 2) (\<lambda>vs. let key = vs ! 0; val = vs ! 1 in
     seqE (throwing (word32 C key)) (\<lambda>keyBuf.
     seqE (throwing (shortestBytes C val)) (\<lambda>v.
     let newIsZero = (val = 0) in
     seqE (if activated C 8037
       then seqE (storageLoad C keyBuf False False) (\<lambda>current.
            seqE (storageLoad C keyBuf True False) (\<lambda>original.
              ret (length current = 0, length original = 0)))
       else ret (False, False)) (\<lambda>(currentIsZero, originalIsZero).
     seqE (storageStore C keyBuf v) (\<lambda>_.
     whenE (activated C 8037 \<and> originalIsZero)
      (seqE (paramOf C ''stateBytesPerStorageSet'') (\<lambda>stateBytes.
       seqE (activeCostPerStateByte C) (\<lambda>costPerStateByte.
       let amount = stateBytes * costPerStateByte in
       if currentIsZero \<and> \<not> newIsZero then
         seqE (chargeStateGas amount) (\<lambda>_. onCreatedStateGas C (\<lambda>prior. prior + amount))
       else if \<not> currentIsZero \<and> newIsZero then
         seqE (refillStateGasReservoir amount) (\<lambda>_.
           onCreatedStateGas C (\<lambda>prior. if prior > amount then prior - amount else 0))
       else ret ()))))))))"

definition op_TLOAD :: "'m ctx \<Rightarrow> ('m, unit) rop" where
  "op_TLOAD C = seqE pop (\<lambda>key.
     seqE (throwing (word32 C key)) (\<lambda>keyBuf.
     seqE (transientStorageLoad C keyBuf) (\<lambda>v.
     seqE (throwing (storedToBigInt C v)) push)))"

definition op_TSTORE :: "'m ctx \<Rightarrow> ('m, unit) rop" where
  "op_TSTORE C = seqE (getE (\<lambda>s. e_isStatic (rs_env s))) (\<lambda>static.
     if static then trap STATIC_STATE_CHANGE
     else seqE (popN 2) (\<lambda>vs.
       seqE (throwing (word32 C (vs ! 0))) (\<lambda>keyBuf.
       seqE (throwing (shortestBytes C (vs ! 1))) (\<lambda>v. transientStorageStore C keyBuf v))))"

definition op_MCOPY :: "'m ctx \<Rightarrow> ('m, unit) rop" where
  "op_MCOPY C = seqE (popN 3) (\<lambda>vs.
     seqE (memOp (mem_read (cx_maxArray C) (nat (vs ! 1)) (nat (vs ! 2)) True)) (\<lambda>data.
       memOp (mem_write (cx_maxArray C) (nat (vs ! 0)) (nat (vs ! 2)) data)))"

definition op_PUSH0 :: "('m, unit) rop" where
  "op_PUSH0 = push 0"

definition chargePush :: "'m ctx \<Rightarrow> int \<Rightarrow> ('m, unit) rop" where
  "chargePush C numToPush = seqE (getE (\<lambda>s.
       (e_chargeCodeAccesses (rs_env s), e_address (rs_env s), int (length (rs_code s)), rs_pc s)))
     (\<lambda>(charge, contract, l, pc). whenE ((activated C 6800 \<or> activated C 7864) \<and> charge)
       (let startOffset = min l (pc + 1); endOffset = min l (startOffset + numToPush - 1) in
        seqE (witnessGas C (ReadCodeChunks contract startOffset endOffset)) useGas))"

text \<open>
  With the jump analysis done the value comes from \<open>cachedPushes\<close>. An entry that is not there
  would push \<open>undefined\<close>, which is no number: the model stops with a \<open>TypeError\<close>. A frame
  that runs legacy code has every entry it reads (\<open>legacy_control_flow\<close> in \<open>EvmControl\<close>).
\<close>

definition pushPart :: "'m ctx \<Rightarrow> int \<Rightarrow> ('m, unit) rop" where
  "pushPart C numToPush = seqE (getE id) (\<lambda>s.
     if \<not> rs_shouldDoJumpAnalysis s then
       seqE (case map_of (rs_cachedPushes s) (nat (rs_pc s)) of
           None \<Rightarrow> raise (Throw TypeError) | Some v \<Rightarrow> push v) (\<lambda>_.
         updE (\<lambda>s. s\<lparr>rs_pc := rs_pc s + numToPush\<rparr>))
     else let loaded0 = js_slice (rs_code s) (nat (rs_pc s)) (nat (rs_pc s + numToPush)) in
       seqE (throwing (if length loaded0 < nat numToPush then setLengthRight loaded0 (nat numToPush) False
         else Inr loaded0)) (\<lambda>loaded.
       seqE (updE (\<lambda>s. s\<lparr>rs_pc := rs_pc s + numToPush\<rparr>)) (\<lambda>_.
       seqE (throwing (bytesToBigInt (cx_hex C) loaded False)) push)))"

definition op_PUSH :: "'m ctx \<Rightarrow> ('m, unit) rop" where
  "op_PUSH C = seqE (getE (\<lambda>s. int (rs_opCode s) - 0x5f)) (\<lambda>numToPush.
     seqE (chargePush C numToPush) (\<lambda>_. pushPart C numToPush))"

definition stackDo :: "(evm_stack \<Rightarrow> evm_error + evm_stack) \<Rightarrow> ('m, unit) rop" where
  "stackDo f = stackOp (\<lambda>st. and_then (f st) (\<lambda>st'. Inr ((), st')))"

definition op_DUP :: "('m, unit) rop" where
  "op_DUP = seqE (getE (\<lambda>s. rs_opCode s - 0x7f)) (\<lambda>stackPos. stackDo (st_dup stackPos))"

definition op_SWAP :: "('m, unit) rop" where
  "op_SWAP = seqE (getE (\<lambda>s. rs_opCode s - 0x8f)) (\<lambda>stackPos. stackDo (st_swap stackPos))"

fun mapR :: "('a \<Rightarrow> 'e + 'b) \<Rightarrow> 'a list \<Rightarrow> 'e + 'b list" where
  "mapR f [] = Inr []"
| "mapR f (x # xs) = and_then (f x) (\<lambda>y. and_then (mapR f xs) (\<lambda>ys. Inr (y # ys)))"

definition op_LOG :: "'m ctx \<Rightarrow> ('m, unit) rop" where
  "op_LOG C = seqE (popN 2) (\<lambda>ms. let memOffset = ms ! 0; memLength = ms ! 1 in
     seqE (getE (\<lambda>s. rs_opCode s - 0xa0)) (\<lambda>topicsCount.
     seqE (popN topicsCount) (\<lambda>topics.
     seqE (throwing (mapR (word32 C) topics)) (\<lambda>topicsBuf.
     seqE (if memLength \<noteq> 0
       then memOp (mem_read (cx_maxArray C) (nat memOffset) (nat memLength) False) else ret []) (\<lambda>mem.
     logTopics mem (int topicsCount) topicsBuf)))))"

section \<open>Control flow\<close>

definition jumpTo :: "int \<Rightarrow> ('m, unit) rop" where
  "jumpTo dest = seqE (getE id) (\<lambda>s.
     if dest > int (length (e_code (rs_env s))) then trap INVALID_JUMP
     else if \<not> jumpIsValid s dest then trap INVALID_JUMP
     else updE (\<lambda>s. s\<lparr>rs_pc := dest\<rparr>))"

definition op_JUMP :: "('m, unit) rop" where
  "op_JUMP = seqE pop jumpTo"

definition op_JUMPI :: "('m, unit) rop" where
  "op_JUMPI = seqE (popN 2) (\<lambda>vs. if vs ! 1 \<noteq> 0 then jumpTo (vs ! 0) else ret ())"

definition op_PC :: "('m, unit) rop" where
  "op_PC = seqE (getE (\<lambda>s. rs_pc s - 1)) push"

definition op_MSIZE :: "('m, unit) rop" where
  "op_MSIZE = seqE (getE (\<lambda>s. rs_memoryWordCount s * 32)) push"

definition op_GAS :: "('m, unit) rop" where
  "op_GAS = seqE (getE rs_gasLeft) push"

definition op_JUMPDEST :: "('m, unit) rop" where
  "op_JUMPDEST = ret ()"

definition immediateOp :: "(nat \<Rightarrow> evm_error + 'i) \<Rightarrow> ('i \<Rightarrow> evm_stack \<Rightarrow> evm_error + evm_stack) \<Rightarrow> 'm ctx \<Rightarrow> ('m, unit) rop" where
  "immediateOp decodeFn f C =
     (if \<not> activated C 8024 then trap INVALID_OPCODE
      else seqE readImmediateByteOrZero (\<lambda>immediate. case decodeFn immediate of
          Inl err \<Rightarrow> trap err | Inr i \<Rightarrow> stackDo (f i)))"

definition op_DUPN :: "'m ctx \<Rightarrow> ('m, unit) rop" where
  "op_DUPN = immediateOp decodeEIP8024SingleImmediate st_dup"

definition op_SWAPN :: "'m ctx \<Rightarrow> ('m, unit) rop" where
  "op_SWAPN = immediateOp decodeEIP8024SingleImmediate st_swap"

definition op_EXCHANGE :: "'m ctx \<Rightarrow> ('m, unit) rop" where
  "op_EXCHANGE = immediateOp decodeEIP8024PairImmediate (\<lambda>(x, y). st_exchange x y)"

definition returnData :: "'m ctx \<Rightarrow> ('m, bytes) rop" where
  "returnData C = seqE (popN 2) (\<lambda>vs. if vs ! 1 \<noteq> 0
     then memOp (mem_read (cx_maxArray C) (nat (vs ! 0)) (nat (vs ! 1)) False) else ret [])"

definition op_RETURN :: "'m ctx \<Rightarrow> ('m, unit) rop" where
  "op_RETURN C = seqE (returnData C) finish"

definition op_REVERT :: "'m ctx \<Rightarrow> ('m, unit) rop" where
  "op_REVERT C = seqE (returnData C) revertFrame"

section \<open>EOF code\<close>

text \<open>
  Opcodes that exist only in an EOF frame: they trap in a legacy one. A jump table index read
  past the code makes the program counter \<open>NaN\<close>, which ends the loop as the end of the code does.
\<close>

definition withEof :: "(eof_env \<Rightarrow> ('m, unit) rop) \<Rightarrow> ('m, unit) rop" where
  "withEof f = seqE (getE (\<lambda>s. e_eof (rs_env s))) (\<lambda>e. case e of
     None \<Rightarrow> trap INVALID_OPCODE | Some x \<Rightarrow> f x)"

definition onEof :: "(eof_env \<Rightarrow> eof_env) \<Rightarrow> ('m, unit) rop" where
  "onEof f = updE (\<lambda>s. s\<lparr>rs_env := (rs_env s)\<lparr>e_eof := map_option f (e_eof (rs_env s))\<rparr>\<rparr>)"

definition op_DATALOAD :: "'m ctx \<Rightarrow> ('m, unit) rop" where
  "op_DATALOAD C = withEof (\<lambda>eof. seqE pop (loadWord C (eo_dataSection eof)))"

definition immediateBytes :: "'m run_state \<Rightarrow> bytes" where
  "immediateBytes s = js_slice (rs_code s) (nat (rs_pc s)) (nat (rs_pc s + 2))"

definition op_DATALOADN :: "'m ctx \<Rightarrow> ('m, unit) rop" where
  "op_DATALOADN C = withEof (\<lambda>eof.
     seqE (getE immediateBytes) (\<lambda>b. seqE (throwing (bytesToBigInt (cx_hex C) b False)) (\<lambda>toLoad.
     seqE (throwing (bytesToBigInt (cx_hex C) (js_slice (eo_dataSection eof) (nat toLoad) (nat toLoad + 32)) False)) (\<lambda>data.
     seqE (push data) (\<lambda>_. updE (\<lambda>s. s\<lparr>rs_pc := rs_pc s + 2\<rparr>))))))"

definition op_DATASIZE :: "('m, unit) rop" where
  "op_DATASIZE = withEof (\<lambda>eof. push (int (length (eo_dataSection eof))))"

definition op_DATACOPY :: "'m ctx \<Rightarrow> ('m, unit) rop" where
  "op_DATACOPY C = withEof (\<lambda>eof. seqE (popN 3) (\<lambda>vs.
     copyToMemory C (eo_dataSection eof) (vs ! 0) (vs ! 1) (vs ! 2)))"

text \<open>\<open>DataView.getInt16\<close>, big-endian.\<close>

definition getInt16 :: "bytes \<Rightarrow> int \<Rightarrow> int res" where
  "getInt16 buffer pos =
     (if pos < 0 \<or> pos + 2 > int (length buffer) then Inl RangeError
      else Inr (asIntN 16 (int (unat (buffer ! nat pos)) * 256 + int (unat (buffer ! nat (pos + 1))))))"

definition op_RJUMP :: "('m, unit) rop" where
  "op_RJUMP = withEof (\<lambda>eof. seqE (getE rs_pc) (\<lambda>pc.
     seqE (throwing (getInt16 (eo_codeBuffer eof) pc)) (\<lambda>rjumpDest.
       updE (\<lambda>s. s\<lparr>rs_pc := rs_pc s + (2 + rjumpDest)\<rparr>))))"

definition op_RJUMPI :: "('m, unit) rop" where
  "op_RJUMPI = withEof (\<lambda>eof. seqE pop (\<lambda>cond.
     seqE (whenE (cond > 0)
       (seqE (getE rs_pc) (\<lambda>pc. seqE (throwing (getInt16 (eo_codeBuffer eof) pc)) (\<lambda>rjumpDest.
          updE (\<lambda>s. s\<lparr>rs_pc := rs_pc s + rjumpDest\<rparr>))))) (\<lambda>_.
     updE (\<lambda>s. s\<lparr>rs_pc := rs_pc s + 2\<rparr>))))"

definition op_RJUMPV :: "('m, unit) rop" where
  "op_RJUMPV = withEof (\<lambda>eof. seqE (getE (\<lambda>s. (e_code (rs_env s), rs_pc s))) (\<lambda>(code, pc).
     if \<not> (0 \<le> pc \<and> pc < int (length code)) then
       seqE pop (\<lambda>_. updE (\<lambda>s. s\<lparr>rs_pc := int (length (rs_code s))\<rparr>))
     else let jumptableEntries = int (unat (code ! nat pc)); jumptableSize = (jumptableEntries + 1) * 2 in
       seqE (updE (\<lambda>s. s\<lparr>rs_pc := rs_pc s + 1\<rparr>)) (\<lambda>_.
       seqE pop (\<lambda>jumptableCase.
       if jumptableCase \<le> jumptableEntries then
         seqE (throwing (getInt16 (eo_codeBuffer eof) (pc + 1 + jumptableCase * 2))) (\<lambda>rjumpDest.
           updE (\<lambda>s. s\<lparr>rs_pc := rs_pc s + (jumptableSize + rjumpDest)\<rparr>))
       else updE (\<lambda>s. s\<lparr>rs_pc := rs_pc s + jumptableSize\<rparr>)))))"

text \<open>The positions of the code sections, filled in as far as they are asked for.\<close>

fun extendPositions :: "nat \<Rightarrow> int list \<Rightarrow> int list \<Rightarrow> int list" where
  "extendPositions 0 sizes pos = pos"
| "extendPositions (Suc n) sizes pos =
     extendPositions n sizes (pos @ [last pos + sizes ! (length pos - 1)])"

definition getCodePosition :: "nat \<Rightarrow> eof_env \<Rightarrow> int \<times> eof_env" where
  "getCodePosition section eof =
     (let ps = eo_codeStartPos eof in
      if section < length ps \<and> ps ! section \<noteq> 0 then (ps ! section, eof)
      else let ps' = extendPositions (section + 1 - length ps) (eo_codeSizes eof) ps in
        (last ps', eof\<lparr>eo_codeStartPos := ps'\<rparr>))"

definition enterSection :: "nat \<Rightarrow> ('m, unit) rop" where
  "enterSection sectionTarget = withEof (\<lambda>eof. case getCodePosition sectionTarget eof of (p, eof') \<Rightarrow>
     seqE (onEof (\<lambda>_. eof')) (\<lambda>_. updE (\<lambda>s. s\<lparr>rs_pc := p\<rparr>)))"

definition checkSection :: "'m ctx \<Rightarrow> eof_env \<Rightarrow> ('m, nat) rop" where
  "checkSection C eof =
     seqE (getE immediateBytes) (\<lambda>b. seqE (throwing (bytesToInt (cx_hex C) b)) (\<lambda>target.
     seqE (getE (\<lambda>s. int (len (rs_stack s)))) (\<lambda>stackItems.
     if nat target < length (eo_typeSections eof) then
       case eo_typeSections eof ! nat target of (inputs, maxStackHeight) \<Rightarrow>
         if stackItems > 1024 - int maxStackHeight + int inputs then trap (EOFError ''Stack overflow'')
         else ret (nat target)
     else raise (Throw TypeError))))"

definition op_CALLF :: "'m ctx \<Rightarrow> ('m, unit) rop" where
  "op_CALLF C = withEof (\<lambda>eof. seqE (checkSection C eof) (\<lambda>sectionTarget.
     if length (eo_returnStack eof) \<ge> 1024 then trap (EOFError ''Return stack overflow'')
     else seqE (getE rs_pc) (\<lambda>pc.
       seqE (onEof (\<lambda>e. e\<lparr>eo_returnStack := eo_returnStack e @ [pc + 2]\<rparr>)) (\<lambda>_.
         enterSection sectionTarget))))"

definition op_RETF :: "('m, unit) rop" where
  "op_RETF = withEof (\<lambda>eof. if eo_returnStack eof = []
     then trap (EOFError ''Trying to return to undefined function'')
     else seqE (onEof (\<lambda>e. e\<lparr>eo_returnStack := butlast (eo_returnStack e)\<rparr>)) (\<lambda>_.
       updE (\<lambda>s. s\<lparr>rs_pc := last (eo_returnStack eof)\<rparr>)))"

definition op_JUMPF :: "'m ctx \<Rightarrow> ('m, unit) rop" where
  "op_JUMPF C = withEof (\<lambda>eof. seqE (checkSection C eof) enterSection)"

definition op_RETURNDATALOAD :: "'m ctx \<Rightarrow> ('m, unit) rop" where
  "op_RETURNDATALOAD C = withEof (\<lambda>_. seqE pop (\<lambda>pos. seqE (getE rs_returnBytes) (\<lambda>d. loadWord C d pos)))"

end
