(* ===== verification/EvmCalls.thy ===== *)
theory EvmCalls
  imports EvmOps
begin

text \<open>
  The opcodes that leave the frame: message calls, contract creation and self-destruction
  (\<open>call\<close>, \<open>callCode\<close>, \<open>callStatic\<close>, \<open>callDelegate\<close>, \<open>_baseCall\<close>, \<open>create\<close>, \<open>_selfDestruct\<close>,
  \<open>_getReturnCode\<close> of \<^verbatim>\<open>packages/evm/src/interpreter.ts\<close>, the logs of
  \<^verbatim>\<open>packages/evm/src/eip7708.ts\<close>, the handlers of \<^verbatim>\<open>opcodes/functions.ts\<close>). \<open>cx_runCall\<close> is
  \<open>EVM.runCall\<close>: it acts on the world the frame shares with the rest of the EVM. An account is a
  value here: the frame's own account is changed in its environment and put back explicitly.
\<close>

section \<open>Messages\<close>

definition callMessage :: "'m run_state \<Rightarrow> int \<Rightarrow> int \<Rightarrow> bytes \<Rightarrow> message" where
  "callMessage s gasLimit v data = (let e = rs_env s in
     \<lparr>ms_caller = e_address e, ms_gasLimit = gasLimit, ms_to = None, ms_codeAddress = None,
      ms_value = v, ms_data = data, ms_eofCallData = None, ms_salt = None, ms_isStatic = e_isStatic e,
      ms_delegatecall = False, ms_depth = e_depth e + 1, ms_gasRefund = 0,
      ms_blobVersionedHashes = e_blobVersionedHashes e, ms_selfdestruct = [], ms_createdAddresses = None\<rparr>)"

text \<open>\<open>set.add\<close>, \<open>map.set\<close> for every entry of another.\<close>

definition addAll :: "string list \<Rightarrow> string list \<Rightarrow> string list" where
  "addAll items set0 = foldl (\<lambda>acc x. if x \<in> set acc then acc else acc @ [x]) set0 items"

definition setAll :: "(string \<times> string) list \<Rightarrow> (string \<times> string) list \<Rightarrow> (string \<times> string) list" where
  "setAll es m = foldl (\<lambda>acc (k, v). AList.update k v acc) m es"

definition onResult :: "(run_result \<Rightarrow> run_result) \<Rightarrow> ('m, unit) rop" where
  "onResult f = updE (\<lambda>s. s\<lparr>rs_result := f (rs_result s)\<rparr>)"

definition clearReturn :: "('m, unit) rop" where
  "clearReturn = updE (\<lambda>s. s\<lparr>rs_returnBytes := []\<rparr>)"

definition newSet :: "string list option \<Rightarrow> string list" where
  "newSet o' = (case o' of None \<Rightarrow> [] | Some xs \<Rightarrow> xs)"

definition getReturnCode :: "call_result \<Rightarrow> bool \<Rightarrow> ('m, int) rop" where
  "getReturnCode results isEOFCreate = getE (\<lambda>s.
     if e_eof (rs_env s) = None \<or> isEOFCreate
     then (if cr_exception results \<noteq> None then 0 else 1)
     else case cr_exception results of
         Some err \<Rightarrow> (if err = REVERT then 1 else 2)
       | None \<Rightarrow> 0)"

text \<open>What both kinds of call do with the result of a call that succeeded.\<close>

definition absorb :: "'m ctx \<Rightarrow> call_result \<Rightarrow> ('m, unit) rop" where
  "absorb C results =
     seqE (onResult (\<lambda>r. r\<lparr>rr_selfdestruct := setAll (cr_selfdestruct results) (rr_selfdestruct r)\<rparr>)) (\<lambda>_.
     seqE (whenE (activated C 6780)
       (if newSet (cr_createdAddresses results) = [] then ret ()
        else seqE (getE (\<lambda>s. rr_createdAddresses (rs_result s))) (\<lambda>mine. case mine of
          None \<Rightarrow> raise (Throw TypeError)
        | Some xs \<Rightarrow> onResult (\<lambda>r. r\<lparr>rr_createdAddresses := Some (addAll (newSet (cr_createdAddresses results)) xs)\<rparr>)))) (\<lambda>_.
     seqE (getE (\<lambda>s. e_address (rs_env s))) (\<lambda>self.
     seqE (managerOp (m_getAccount (cx_manager C) self)) (\<lambda>account. case account of
       None \<Rightarrow> raise (Throw (EthereumJSError ''could not read contract account''))
     | Some a \<Rightarrow> updE (\<lambda>s. s\<lparr>rs_env := (rs_env s)\<lparr>e_contract := a\<rparr>,
         rs_gasRefund := (case cr_gasRefund results of None \<Rightarrow> 0 | Some g \<Rightarrow> g)\<rparr>)))))"

definition runCallAndLog :: "'m ctx \<Rightarrow> message \<Rightarrow> ('m, call_result) rop" where
  "runCallAndLog C msg = seqE (worldOp (cx_runCall C msg)) (\<lambda>results.
     seqE (onResult (\<lambda>r. r\<lparr>rr_logs := rr_logs r @ cr_logs results\<rparr>)) (\<lambda>_.
     seqE (useGas (cr_executionGasUsed results)) (\<lambda>_. ret results)))"

definition baseCall :: "'m ctx \<Rightarrow> message \<Rightarrow> ('m, int) rop" where
  "baseCall C msg0 = seqE (getE id) (\<lambda>s.
     let msg = msg0\<lparr>ms_selfdestruct := rr_selfdestruct (rs_result s), ms_gasRefund := rs_gasRefund s,
           ms_createdAddresses := (if activated C 6780 then Some (newSet (rr_createdAddresses (rs_result s)))
             else ms_createdAddresses msg0)\<rparr> in
     seqE clearReturn (\<lambda>_.
     seqE (paramOf C ''stackLimit'') (\<lambda>stackLimit.
     seqE (if int (e_depth (rs_env s)) \<ge> stackLimit then ret True
       else if ms_delegatecall msg then ret False
       else seqE (throwing (get_balance (e_contract (rs_env s)))) (\<lambda>b. ret (b < ms_value msg))) (\<lambda>refused.
     if refused then ret 0
     else seqE (runCallAndLog C msg) (\<lambda>results.
       seqE (whenE (cr_exception results = None \<or> cr_exception results = Some REVERT)
         (updE (\<lambda>s. s\<lparr>rs_returnBytes := cr_returnValue results\<rparr>))) (\<lambda>_.
       seqE (whenE (cr_exception results = None) (absorb C results)) (\<lambda>_.
       getReturnCode results False)))))))"

definition call :: "'m ctx \<Rightarrow> int \<Rightarrow> bytes \<Rightarrow> int \<Rightarrow> bytes \<Rightarrow> ('m, int) rop" where
  "call C gasLimit address v data = seqE (getE id) (\<lambda>s.
     baseCall C ((callMessage s gasLimit v data)\<lparr>ms_to := Some address\<rparr>))"

definition callCode :: "'m ctx \<Rightarrow> int \<Rightarrow> bytes \<Rightarrow> int \<Rightarrow> bytes \<Rightarrow> ('m, int) rop" where
  "callCode C gasLimit address v data = seqE (getE id) (\<lambda>s.
     baseCall C ((callMessage s gasLimit v data)
       \<lparr>ms_to := Some (e_address (rs_env s)), ms_codeAddress := Some address\<rparr>))"

definition callStatic :: "'m ctx \<Rightarrow> int \<Rightarrow> bytes \<Rightarrow> int \<Rightarrow> bytes \<Rightarrow> ('m, int) rop" where
  "callStatic C gasLimit address v data = seqE (getE id) (\<lambda>s.
     baseCall C ((callMessage s gasLimit v data)\<lparr>ms_to := Some address, ms_isStatic := True\<rparr>))"

definition callDelegate :: "'m ctx \<Rightarrow> int \<Rightarrow> bytes \<Rightarrow> int \<Rightarrow> bytes \<Rightarrow> ('m, int) rop" where
  "callDelegate C gasLimit address v data = seqE (getE id) (\<lambda>s.
     baseCall C ((callMessage s gasLimit v data)
       \<lparr>ms_caller := e_caller (rs_env s), ms_to := Some (e_address (rs_env s)),
        ms_codeAddress := Some address, ms_delegatecall := True\<rparr>))"

section \<open>Contract creation\<close>

definition newAccountStateGas :: "'m ctx \<Rightarrow> ('m, int) rop" where
  "newAccountStateGas C = seqE (paramOf C ''stateBytesPerNewAccount'') (\<lambda>stateBytesPerNewAccount.
     seqE (activeCostPerStateByte C) (\<lambda>costPerStateByte. ret (stateBytesPerNewAccount * costPerStateByte)))"

definition refundCreatePreCharge :: "'m ctx \<Rightarrow> ('m, unit) rop" where
  "refundCreatePreCharge C = whenE (activated C 8037) (seqE (newAccountStateGas C) (\<lambda>g.
     onVars (\<lambda>v. v\<lparr>ev_stateGasReservoir := ev_stateGasReservoir v + g,
       ev_executionStateGasUsed := ev_executionStateGasUsed v - g\<rparr>)))"

definition refuseCreate :: "'m ctx \<Rightarrow> ('m, int) rop" where
  "refuseCreate C = seqE (refundCreatePreCharge C) (\<lambda>_. ret 0)"

text \<open>The creation once the checks before it have passed.\<close>

definition createFrame :: "'m ctx \<Rightarrow> int \<Rightarrow> int \<Rightarrow> bytes \<Rightarrow> bytes option \<Rightarrow> bytes option \<Rightarrow>
    (string \<times> string) list \<Rightarrow> ('m, int) rop" where
  "createFrame C gasLimit v codeToRun salt eofCallData selfdestruct = seqE (getE id) (\<lambda>s.
     let message = (callMessage s gasLimit v codeToRun)
           \<lparr>ms_eofCallData := eofCallData, ms_salt := salt, ms_isStatic := False,
            ms_selfdestruct := selfdestruct, ms_gasRefund := rs_gasRefund s,
            ms_createdAddresses := (if activated C 6780
              then Some (newSet (rr_createdAddresses (rs_result s))) else None)\<rparr> in
     seqE (runCallAndLog C message) (\<lambda>results.
     seqE (whenE (cr_exception results = Some REVERT)
       (updE (\<lambda>s. s\<lparr>rs_returnBytes := cr_returnValue results\<rparr>))) (\<lambda>_.
     if cr_exception results = None \<or> cr_exception results = Some CODESTORE_OUT_OF_GAS then
       seqE (absorb C results) (\<lambda>_. case cr_createdAddress results of
           Some a \<Rightarrow> throwing (bytesToBigInt (cx_hex C) a False)
         | None \<Rightarrow> getReturnCode results True)
     else getReturnCode results True)))"

definition create :: "'m ctx \<Rightarrow> int \<Rightarrow> int \<Rightarrow> bytes \<Rightarrow> bytes option \<Rightarrow> bytes option \<Rightarrow> ('m, int) rop" where
  "create C gasLimit v codeToRun salt eofCallData = seqE (getE id) (\<lambda>s.
     let self = e_address (rs_env s); contract = e_contract (rs_env s) in
     seqE clearReturn (\<lambda>_.
     seqE (paramOf C ''stackLimit'') (\<lambda>stackLimit.
     seqE (if int (e_depth (rs_env s)) \<ge> stackLimit then ret True
       else seqE (throwing (get_balance contract)) (\<lambda>b. ret (b < v))) (\<lambda>refused.
     if refused then refuseCreate C
     else seqE (throwing (get_nonce contract)) (\<lambda>nonce.
     if nonce \<ge> 2 ^ 64 - 1 then refuseCreate C
     else let contract' = contract\<lparr>acc_nonce := Some (nonce + 1)\<rparr> in
       seqE (updE (\<lambda>s. s\<lparr>rs_env := (rs_env s)\<lparr>e_contract := contract'\<rparr>\<rparr>)) (\<lambda>_.
       seqE (journalOp (j_putAccount (cx_hex C) (managerOf C) self (Some contract'))) (\<lambda>_.
       seqE (whenE (activated C 7928) (balCallStrict (BalNonce (addressString C self) (nonce + 1)))) (\<lambda>_.
       seqE (if activated C 3860
         then seqE (paramOf C ''maxInitCodeSize'') (\<lambda>m.
           ret (int (length codeToRun) > m \<and> \<not> cx_allowUnlimitedInitCodeSize C))
         else ret False) (\<lambda>oversized.
       if oversized then refuseCreate C
       else createFrame C gasLimit v codeToRun salt eofCallData (rr_selfdestruct (rs_result s)))))))))))"

definition create2 :: "'m ctx \<Rightarrow> int \<Rightarrow> int \<Rightarrow> bytes \<Rightarrow> bytes \<Rightarrow> ('m, int) rop" where
  "create2 C gasLimit v data salt = create C gasLimit v data (Some salt) None"

section \<open>Self-destruction\<close>

definition EIP7708_SYSTEM_ADDRESS :: bytes where
  "EIP7708_SYSTEM_ADDRESS = replicate 19 0xff @ [0xfe]"

definition EIP7708_TRANSFER_TOPIC :: bytes where
  "EIP7708_TRANSFER_TOPIC =
     [0xdd, 0xf2, 0x52, 0xad, 0x1b, 0xe2, 0xc8, 0x9b, 0x69, 0xc2, 0xb0, 0x68, 0xfc, 0x37, 0x8d, 0xaa,
      0x95, 0x2b, 0xa7, 0xf1, 0x63, 0xc4, 0xa1, 0x16, 0x28, 0xf5, 0x5a, 0x4d, 0xf5, 0x23, 0xb3, 0xef]"

definition EIP7708_BURN_TOPIC :: bytes where
  "EIP7708_BURN_TOPIC =
     [0xcc, 0x16, 0xf5, 0xdb, 0xb4, 0x87, 0x32, 0x80, 0x81, 0x5c, 0x1e, 0xe0, 0x9d, 0xbd, 0x06, 0x73,
      0x6c, 0xff, 0xcc, 0x18, 0x44, 0x12, 0xcf, 0x7a, 0x71, 0xa0, 0xfd, 0xb7, 0x5d, 0x39, 0x7c, 0xa5]"

definition transferLog :: "'m ctx \<Rightarrow> bytes \<Rightarrow> bytes \<Rightarrow> int \<Rightarrow> log res" where
  "transferLog C from to v = and_then (setLengthLeft from 32 False) (\<lambda>fromTopic.
     and_then (setLengthLeft to 32 False) (\<lambda>toTopic.
     and_then (word32 C v) (\<lambda>data.
       Inr (EIP7708_SYSTEM_ADDRESS, [EIP7708_TRANSFER_TOPIC, fromTopic, toTopic], data))))"

definition burnLog :: "'m ctx \<Rightarrow> bytes \<Rightarrow> int \<Rightarrow> log res" where
  "burnLog C account v = and_then (setLengthLeft account 32 False) (\<lambda>accountTopic.
     and_then (word32 C v) (\<lambda>data.
       Inr (EIP7708_SYSTEM_ADDRESS, [EIP7708_BURN_TOPIC, accountTopic], data)))"

text \<open>The beneficiary receives the balance; the result says whether it was a new account.\<close>

definition payBeneficiary :: "'m ctx \<Rightarrow> bytes \<Rightarrow> int \<Rightarrow> ('m, bool) rop" where
  "payBeneficiary C toAddress contractBalance =
     seqE (managerOp (m_getAccount (cx_manager C) toAddress)) (\<lambda>toAccount0.
     seqE (throwing (case toAccount0 of None \<Rightarrow> Inr True | Some a \<Rightarrow> isEmpty a)) (\<lambda>beneficiaryWasNew.
     seqE (throwing (case toAccount0 of Some a \<Rightarrow> Inr a
       | None \<Rightarrow> newAccount Undef Undef Undef Undef Undef Undef)) (\<lambda>toAccount.
     seqE (throwing (get_balance toAccount)) (\<lambda>originalBalance.
     let paid = toAccount\<lparr>acc_balance := Some (originalBalance + contractBalance)\<rparr> in
     seqE (journalOp (j_putAccount (cx_hex C) (managerOf C) toAddress (Some paid))) (\<lambda>_.
     seqE (whenE (activated C 7928) (balCallStrict
       (BalBalance (addressString C toAddress) (originalBalance + contractBalance) originalBalance))) (\<lambda>_.
     ret beneficiaryWasNew))))))"

definition selfDestruct :: "'m ctx \<Rightarrow> bytes \<Rightarrow> ('m, unit) rop" where
  "selfDestruct C toAddress = seqE (getE id) (\<lambda>s.
     let self = e_address (rs_env s); key = addressString C self; toSelf = equalsBytes toAddress self in
     seqE (whenE (map_of (rr_selfdestruct (rs_result s)) key = None)
       (seqE (paramOf C ''selfdestructRefundGas'') refundGas)) (\<lambda>_.
     seqE (onResult (\<lambda>r. r\<lparr>rr_selfdestruct := AList.update key (addressString C toAddress) (rr_selfdestruct r)\<rparr>)) (\<lambda>_.
     seqE (throwing (get_balance (e_contract (rs_env s)))) (\<lambda>contractBalance.
     seqE (whenE (activated C 7708 \<and> contractBalance > 0 \<and> \<not> toSelf)
       (seqE (throwing (transferLog C self toAddress contractBalance)) pushLog)) (\<lambda>_.
     seqE (if toSelf then ret False else payBeneficiary C toAddress contractBalance) (\<lambda>beneficiaryWasNew.
     seqE (whenE (activated C 8037 \<and> \<not> toSelf \<and> beneficiaryWasNew \<and> contractBalance > 0)
       (seqE (newAccountStateGas C) chargeStateGas)) (\<lambda>_.
     seqE (if \<not> activated C 6780 then ret True
       else case e_createdAddresses (rs_env s) of
           None \<Rightarrow> raise (Throw TypeError)
         | Some created \<Rightarrow> ret (key \<in> set created \<or> \<not> toSelf)) (\<lambda>doModify.
     seqE (whenE (activated C 7708 \<and> contractBalance > 0 \<and> toSelf \<and> doModify)
       (seqE (throwing (burnLog C self contractBalance)) pushLog)) (\<lambda>_.
     seqE (whenE doModify
       (seqE (managerOp (m_modifyAccountFields (cx_manager C) self
          \<lparr>af_nonce = None, af_balance = Some 0, af_storageRoot = None, af_codeHash = None, af_codeSize = None\<rparr>)) (\<lambda>_.
        whenE (activated C 7928) (balCallStrict (BalBalance key 0 contractBalance))))) (\<lambda>_.
     trap STOP))))))))))"

section \<open>Handlers\<close>

text \<open>
  \<open>messageGasLimit\<close> is set by the gas handler of the same step; an unset one, which would make
  the limit \<open>undefined\<close>, stops the model with a \<open>TypeError\<close>.
\<close>

definition takeGasLimit :: "('m, int) rop" where
  "takeGasLimit = seqE (getE rs_messageGasLimit) (\<lambda>g. case g of
     None \<Rightarrow> raise (Throw TypeError)
   | Some gasLimit \<Rightarrow> seqE (updE (\<lambda>s. s\<lparr>rs_messageGasLimit := None\<rparr>)) (\<lambda>_. ret gasLimit))"

definition inputData :: "'m ctx \<Rightarrow> int \<Rightarrow> int \<Rightarrow> ('m, bytes) rop" where
  "inputData C inOffset inLength = (if inLength \<noteq> 0
     then memOp (mem_read (cx_maxArray C) (nat inOffset) (nat inLength) True) else ret [])"

definition checkInitCode :: "'m ctx \<Rightarrow> int \<Rightarrow> ('m, unit) rop" where
  "checkInitCode C codeLength = whenE (activated C 3860)
     (seqE (paramOf C ''maxInitCodeSize'') (\<lambda>m.
       if codeLength > m \<and> \<not> cx_allowUnlimitedInitCodeSize C then trap INITCODE_SIZE_VIOLATION else ret ()))"

definition createWith :: "'m ctx \<Rightarrow> int \<Rightarrow> int \<Rightarrow> int \<Rightarrow> (int \<Rightarrow> bytes \<Rightarrow> ('m, int) rop) \<Rightarrow> ('m, unit) rop" where
  "createWith C v offset codeLength k =
     seqE (checkInitCode C codeLength) (\<lambda>_.
     seqE takeGasLimit (\<lambda>gasLimit.
     seqE (getE rs_createOog) (\<lambda>oog.
     if oog then seqE (updE (\<lambda>s. s\<lparr>rs_createOog := False\<rparr>)) (\<lambda>_. push 0)
     else seqE (inputData C offset codeLength) (\<lambda>data.
       if isEOF data then push 0 else seqE (k gasLimit data) push))))"

definition op_CREATE :: "'m ctx \<Rightarrow> ('m, unit) rop" where
  "op_CREATE C = seqE (popN 3) (\<lambda>vs. createWith C (vs ! 0) (vs ! 1) (vs ! 2)
     (\<lambda>gasLimit data. create C gasLimit (vs ! 0) data None None))"

definition op_CREATE2 :: "'m ctx \<Rightarrow> ('m, unit) rop" where
  "op_CREATE2 C = seqE (getE (\<lambda>s. e_isStatic (rs_env s))) (\<lambda>static.
     if static then trap STATIC_STATE_CHANGE
     else seqE (popN 4) (\<lambda>vs. createWith C (vs ! 0) (vs ! 1) (vs ! 2)
       (\<lambda>gasLimit data. seqE (throwing (word32 C (vs ! 3))) (\<lambda>salt. create2 C gasLimit (vs ! 0) data salt))))"

text \<open>
  EOFCREATE creates from a subcontainer, with the input as call data. Without a container of that
  index the gas handler has thrown before.
\<close>

definition eofcreate :: "'m ctx \<Rightarrow> int \<Rightarrow> int \<Rightarrow> bytes \<Rightarrow> bytes \<Rightarrow> bytes \<Rightarrow> ('m, int) rop" where
  "eofcreate C gasLimit v containerData salt callData = create C gasLimit v containerData (Some salt) (Some callData)"

definition op_EOFCREATE :: "'m ctx \<Rightarrow> ('m, unit) rop" where
  "op_EOFCREATE C = withEof (\<lambda>eof. seqE (getE (\<lambda>s. e_isStatic (rs_env s))) (\<lambda>static.
     if static then trap STATIC_STATE_CHANGE
     else seqE (getE (\<lambda>s. containerAt eof (e_code (rs_env s)) (rs_pc s))) (\<lambda>containerCode.
       seqE (popN 4) (\<lambda>vs. seqE takeGasLimit (\<lambda>gasLimit. seqE (inputData C (vs ! 2) (vs ! 3)) (\<lambda>data.
       seqE (updE (\<lambda>s. s\<lparr>rs_pc := rs_pc s + 1\<rparr>)) (\<lambda>_.
       seqE (throwing (word32 C (vs ! 1))) (\<lambda>salt. case containerCode of
         None \<Rightarrow> raise (Throw TypeError)
       | Some container \<Rightarrow> seqE (eofcreate C gasLimit (vs ! 0) container salt data) push))))))))"

text \<open>The stipend is added to the gas of the frame and to the limit of the call.\<close>

definition withStipend :: "'m ctx \<Rightarrow> int \<Rightarrow> int \<Rightarrow> ('m, int) rop" where
  "withStipend C v gasLimit = (if v \<noteq> 0
     then seqE (paramOf C ''callStipendGas'') (\<lambda>callStipend.
       seqE (addStipend callStipend) (\<lambda>_. ret (gasLimit + callStipend)))
     else ret gasLimit)"

definition finishCall :: "'m ctx \<Rightarrow> int \<Rightarrow> int \<Rightarrow> int \<Rightarrow> ('m, unit) rop" where
  "finishCall C outOffset outLength r = seqE (writeCallOutput C outOffset outLength) (\<lambda>_. push r)"

definition op_CALL :: "'m ctx \<Rightarrow> ('m, unit) rop" where
  "op_CALL C = seqE (popN 7) (\<lambda>vs.
     seqE (throwing (createAddressFromStackBigInt (cx_hex C) (vs ! 1))) (\<lambda>toAddress.
     seqE (inputData C (vs ! 3) (vs ! 4)) (\<lambda>data.
     seqE takeGasLimit (\<lambda>gasLimit0.
     seqE (withStipend C (vs ! 2) gasLimit0) (\<lambda>gasLimit.
     seqE (call C gasLimit toAddress (vs ! 2) data) (\<lambda>r. finishCall C (vs ! 5) (vs ! 6) r))))))"

definition op_CALLCODE :: "'m ctx \<Rightarrow> ('m, unit) rop" where
  "op_CALLCODE C = seqE (popN 7) (\<lambda>vs.
     seqE (throwing (createAddressFromStackBigInt (cx_hex C) (vs ! 1))) (\<lambda>toAddress.
     seqE takeGasLimit (\<lambda>gasLimit0.
     seqE (withStipend C (vs ! 2) gasLimit0) (\<lambda>gasLimit.
     seqE (inputData C (vs ! 3) (vs ! 4)) (\<lambda>data.
     seqE (callCode C gasLimit toAddress (vs ! 2) data) (\<lambda>r. finishCall C (vs ! 5) (vs ! 6) r))))))"

definition op_DELEGATECALL :: "'m ctx \<Rightarrow> ('m, unit) rop" where
  "op_DELEGATECALL C = seqE (getE (\<lambda>s. e_callValue (rs_env s))) (\<lambda>v.
     seqE (popN 6) (\<lambda>vs.
     seqE (throwing (createAddressFromStackBigInt (cx_hex C) (vs ! 1))) (\<lambda>toAddress.
     seqE (inputData C (vs ! 2) (vs ! 3)) (\<lambda>data.
     seqE takeGasLimit (\<lambda>gasLimit.
     seqE (callDelegate C gasLimit toAddress v data) (\<lambda>r. finishCall C (vs ! 4) (vs ! 5) r))))))"

definition op_STATICCALL :: "'m ctx \<Rightarrow> ('m, unit) rop" where
  "op_STATICCALL C = seqE (popN 6) (\<lambda>vs.
     seqE (throwing (createAddressFromStackBigInt (cx_hex C) (vs ! 1))) (\<lambda>toAddress.
     seqE takeGasLimit (\<lambda>gasLimit.
     seqE (inputData C (vs ! 2) (vs ! 3)) (\<lambda>data.
     seqE (callStatic C gasLimit toAddress 0 data) (\<lambda>r. finishCall C (vs ! 4) (vs ! 5) r)))))"

text \<open>
  The calls of EOF code. The gas handler marks a call that is not to be made with the limit -1.
\<close>

definition refuseExtCall :: "('m, unit) rop" where
  "refuseExtCall = seqE (push 1) (\<lambda>_. clearReturn)"

definition op_EXTCALL :: "'m ctx \<Rightarrow> ('m, unit) rop" where
  "op_EXTCALL C = withEof (\<lambda>_. seqE (popN 4) (\<lambda>vs. seqE takeGasLimit (\<lambda>gasLimit.
     if gasLimit = - 1 then refuseExtCall
     else seqE (throwing (createAddressFromStackBigInt (cx_hex C) (vs ! 0))) (\<lambda>toAddress.
       seqE (inputData C (vs ! 1) (vs ! 2)) (\<lambda>data.
       seqE (call C gasLimit toAddress (vs ! 3) data) push)))))"

definition op_EXTDELEGATECALL :: "'m ctx \<Rightarrow> ('m, unit) rop" where
  "op_EXTDELEGATECALL C = withEof (\<lambda>_. seqE (getE (\<lambda>s. e_callValue (rs_env s))) (\<lambda>v.
     seqE (popN 3) (\<lambda>vs. seqE takeGasLimit (\<lambda>gasLimit.
     if gasLimit = - 1 then refuseExtCall
     else seqE (throwing (createAddressFromStackBigInt (cx_hex C) (vs ! 0))) (\<lambda>toAddress.
       seqE (managerOp (m_getCode (cx_manager C) toAddress)) (\<lambda>code.
       if \<not> isEOF code then refuseExtCall
       else seqE (inputData C (vs ! 1) (vs ! 2)) (\<lambda>data.
         seqE (callDelegate C gasLimit toAddress v data) push)))))))"

definition op_EXTSTATICCALL :: "'m ctx \<Rightarrow> ('m, unit) rop" where
  "op_EXTSTATICCALL C = withEof (\<lambda>_. seqE (popN 3) (\<lambda>vs. seqE takeGasLimit (\<lambda>gasLimit.
     if gasLimit = - 1 then refuseExtCall
     else seqE (throwing (createAddressFromStackBigInt (cx_hex C) (vs ! 0))) (\<lambda>toAddress.
       seqE (inputData C (vs ! 1) (vs ! 2)) (\<lambda>data.
       seqE (callStatic C gasLimit toAddress 0 data) push)))))"

definition op_SELFDESTRUCT :: "'m ctx \<Rightarrow> ('m, unit) rop" where
  "op_SELFDESTRUCT C = seqE pop (\<lambda>a.
     seqE (throwing (createAddressFromStackBigInt (cx_hex C) a)) (\<lambda>toAddress. selfDestruct C toAddress))"

end
