(* ===== verification/EvmDynGas.thy ===== *)
theory EvmDynGas
  imports EvmGas
begin

text \<open>
  The dynamic gas of the opcodes, the map \<open>dynamicGasHandlers\<close> of
  \<^verbatim>\<open>packages/evm/src/opcodes/gas.ts\<close>: each takes the gas so far, the base fee, and answers the
  gas the step will charge.
\<close>

definition memGas :: "'m ctx \<Rightarrow> int \<Rightarrow> int \<Rightarrow> int \<Rightarrow> ('m, int) rop" where
  "memGas C gas offset sz = seqE (subMemUsage C offset sz) (\<lambda>m. ret (gas + m))"

definition wordGas :: "'m ctx \<Rightarrow> int \<Rightarrow> string \<Rightarrow> int \<Rightarrow> ('m, int) rop" where
  "wordGas C gas n sz = seqE (paramOf C n) (\<lambda>p. ret (gas + p * divCeil sz 32))"

definition stackAddress :: "'m ctx \<Rightarrow> int \<Rightarrow> ('m, bytes) rop" where
  "stackAddress C a = throwing (createAddressFromStackBigInt (cx_hex C) a)"

section \<open>Computation, memory, logs\<close>

definition gas_EXP :: "'m ctx \<Rightarrow> int \<Rightarrow> ('m, int) rop" where
  "gas_EXP C gas = seqE (peek 2) (\<lambda>vs. let exponent = vs ! 1 in
     if exponent = 0 then ret gas
     else let bits = int (bin_length (nat exponent)); byteLength = (bits + 7) div 8 in
       if byteLength < 1 \<or> byteLength > 32 then trap OUT_OF_RANGE
       else seqE (paramOf C ''expByteGas'') (\<lambda>expPricePerByte. ret (gas + byteLength * expPricePerByte)))"

definition gas_KECCAK256 :: "'m ctx \<Rightarrow> int \<Rightarrow> ('m, int) rop" where
  "gas_KECCAK256 C gas = seqE (peek 2) (\<lambda>vs. seqE (memGas C gas (vs ! 0) (vs ! 1)) (\<lambda>g.
     wordGas C g ''keccak256WordGas'' (vs ! 1)))"

definition copyGas :: "'m ctx \<Rightarrow> int \<Rightarrow> int \<Rightarrow> ('m, int) rop" where
  "copyGas C gas dataLength =
     (if dataLength \<noteq> 0 then wordGas C gas ''copyGas'' dataLength else ret gas)"

definition gas_CALLDATACOPY :: "'m ctx \<Rightarrow> int \<Rightarrow> ('m, int) rop" where
  "gas_CALLDATACOPY C gas = seqE (peek 3) (\<lambda>vs. seqE (memGas C gas (vs ! 0) (vs ! 2)) (\<lambda>g.
     copyGas C g (vs ! 2)))"

definition codeChunksGas :: "'m ctx \<Rightarrow> int \<Rightarrow> bytes \<Rightarrow> int \<Rightarrow> int \<Rightarrow> int \<Rightarrow> ('m, int) rop" where
  "codeChunksGas C gas address codeOffset dataLength codeSize =
     (let codeEnd = (if codeOffset + dataLength > codeSize then codeSize else codeOffset + dataLength) in
      seqE (witnessGas C (ReadCodeChunks address codeOffset codeEnd)) (\<lambda>w. ret (gas + w)))"

definition gas_CODECOPY :: "'m ctx \<Rightarrow> int \<Rightarrow> ('m, int) rop" where
  "gas_CODECOPY C gas = seqE (peek 3) (\<lambda>vs. seqE (memGas C gas (vs ! 0) (vs ! 2)) (\<lambda>g.
     if vs ! 2 \<noteq> 0 then
       seqE (wordGas C g ''copyGas'' (vs ! 2)) (\<lambda>g'.
       seqE (getE rs_env) (\<lambda>e.
       if stateless C \<and> e_chargeCodeAccesses e
       then codeChunksGas C g' (e_address e) (vs ! 1) (vs ! 2) (int (length (e_code e)))
       else ret g'))
     else ret g))"

definition gas_RETURNDATACOPY :: "'m ctx \<Rightarrow> int \<Rightarrow> ('m, int) rop" where
  "gas_RETURNDATACOPY C gas = seqE (peek 3) (\<lambda>vs. seqE (getE id) (\<lambda>s.
     if vs ! 1 + vs ! 2 > int (length (rs_returnBytes s)) \<and> e_eof (rs_env s) = None then trap OUT_OF_GAS
     else seqE (memGas C gas (vs ! 0) (vs ! 2)) (\<lambda>g. copyGas C g (vs ! 2))))"

definition gas_mem :: "'m ctx \<Rightarrow> int \<Rightarrow> int \<Rightarrow> ('m, int) rop" where
  "gas_mem C sz gas = seqE (peek 1) (\<lambda>vs. memGas C gas (vs ! 0) sz)"

definition gas_MLOAD :: "'m ctx \<Rightarrow> int \<Rightarrow> ('m, int) rop" where
  "gas_MLOAD C = gas_mem C 32"

definition gas_MSTORE :: "'m ctx \<Rightarrow> int \<Rightarrow> ('m, int) rop" where
  "gas_MSTORE C = gas_mem C 32"

definition gas_MSTORE8 :: "'m ctx \<Rightarrow> int \<Rightarrow> ('m, int) rop" where
  "gas_MSTORE8 C = gas_mem C 1"

definition gas_MCOPY :: "'m ctx \<Rightarrow> int \<Rightarrow> ('m, int) rop" where
  "gas_MCOPY C gas = seqE (peek 3) (\<lambda>vs. let wordsCopied = (vs ! 2 + 31) sdiv 32 in
     seqE (memGas C (gas + 3 * wordsCopied) (vs ! 1) (vs ! 2)) (\<lambda>g. memGas C g (vs ! 0) (vs ! 2)))"

definition gas_LOG :: "'m ctx \<Rightarrow> int \<Rightarrow> ('m, int) rop" where
  "gas_LOG C gas = seqE (getE id) (\<lambda>s.
     if e_isStatic (rs_env s) then trap STATIC_STATE_CHANGE
     else seqE (peek 2) (\<lambda>vs.
       let topicsCount = int (rs_opCode s) - 0xa0 in
       if topicsCount < 0 \<or> topicsCount > 4 then trap OUT_OF_RANGE
       else seqE (memGas C gas (vs ! 0) (vs ! 1)) (\<lambda>g.
         seqE (paramOf C ''logTopicGas'') (\<lambda>topicGas. seqE (paramOf C ''logDataGas'') (\<lambda>dataGas.
           ret (g + (topicGas * topicsCount + vs ! 1 * dataGas)))))))"

definition gas_RETURN :: "'m ctx \<Rightarrow> int \<Rightarrow> ('m, int) rop" where
  "gas_RETURN C gas = seqE (peek 2) (\<lambda>vs. memGas C gas (vs ! 0) (vs ! 1))"

definition gas_REVERT :: "'m ctx \<Rightarrow> int \<Rightarrow> ('m, int) rop" where
  "gas_REVERT C = gas_RETURN C"

definition gas_DATACOPY :: "'m ctx \<Rightarrow> int \<Rightarrow> ('m, int) rop" where
  "gas_DATACOPY C gas = seqE (getE (\<lambda>s. e_eof (rs_env s))) (\<lambda>eof. case eof of
     None \<Rightarrow> trap INVALID_OPCODE | Some _ \<Rightarrow> gas_CALLDATACOPY C gas)"

section \<open>Accounts and storage\<close>

definition accessGas :: "'m ctx \<Rightarrow> int \<Rightarrow> bytes \<Rightarrow> bool \<Rightarrow> ('m, int) rop" where
  "accessGas C gas address charge2929Gas =
     seqE (accessAddressEIP2929 C address charge2929Gas False) (\<lambda>g. ret (gas + g))"

text \<open>The gas of the witness, and whether the EIP-2929 cost is still to be charged.\<close>

definition witnessCost :: "'m ctx \<Rightarrow> bool \<Rightarrow> int \<Rightarrow> witness_call \<Rightarrow> ('m, int \<times> bool) rop" where
  "witnessCost C inUse gas w =
     (if inUse then seqE (witnessGas C w) (\<lambda>coldAccessGas. ret (gas + coldAccessGas, coldAccessGas = 0))
      else ret (gas, True))"

definition gas_BALANCE :: "'m ctx \<Rightarrow> int \<Rightarrow> ('m, int) rop" where
  "gas_BALANCE C gas = seqE (peek 1) (\<lambda>vs. seqE (stackAddress C (vs ! 0)) (\<lambda>address.
     seqE (witnessCost C (stateless C) gas (ReadBasicData address)) (\<lambda>(g, charge).
       accessGas C g address charge)))"

text \<open>Whether the witness charges a read of the code of an account.\<close>

definition codeWitness :: "'m ctx \<Rightarrow> bytes \<Rightarrow> ('m, bool) rop" where
  "codeWitness C address = (if stateless C \<and> \<not> cx_isPrecompile C address
     then seqE (paramOf C ''systemAddress'') (\<lambda>a. seqE (stackAddress C a) (\<lambda>systemAddress.
       ret (\<not> addressEquals address systemAddress)))
     else ret False)"

definition gas_EXTCODESIZE :: "'m ctx \<Rightarrow> int \<Rightarrow> ('m, int) rop" where
  "gas_EXTCODESIZE C gas = seqE (peek 1) (\<lambda>vs. seqE (stackAddress C (vs ! 0)) (\<lambda>address.
     seqE (codeWitness C address) (\<lambda>inUse.
     seqE (witnessCost C inUse gas (ReadBasicData address)) (\<lambda>(g, charge).
       accessGas C g address charge))))"

definition gas_EXTCODECOPY :: "'m ctx \<Rightarrow> int \<Rightarrow> ('m, int) rop" where
  "gas_EXTCODECOPY C gas = seqE (peek 4) (\<lambda>vs. seqE (stackAddress C (vs ! 0)) (\<lambda>address.
     seqE (memGas C gas (vs ! 1) (vs ! 3)) (\<lambda>g0.
     seqE (codeWitness C address) (\<lambda>inUse.
     seqE (witnessCost C inUse g0 (ReadBasicData address)) (\<lambda>(g1, charge).
     seqE (accessGas C g1 address charge) (\<lambda>g2.
     if vs ! 3 \<noteq> 0 then
       seqE (wordGas C g2 ''copyGas'' (vs ! 3)) (\<lambda>g3.
       if stateless C then
         seqE (managerOp (m_getCode (cx_manager C) address)) (\<lambda>code.
           codeChunksGas C g3 address (vs ! 2) (vs ! 3) (int (length code)))
       else ret g3)
     else ret g2))))))"

definition gas_EXTCODEHASH :: "'m ctx \<Rightarrow> int \<Rightarrow> ('m, int) rop" where
  "gas_EXTCODEHASH C gas = seqE (peek 1) (\<lambda>vs. seqE (stackAddress C (vs ! 0)) (\<lambda>address.
     seqE (codeWitness C address) (\<lambda>inUse.
     seqE (witnessCost C inUse gas (ReadCodeHash address)) (\<lambda>(g, charge).
       accessGas C g address charge))))"

definition gas_SLOAD :: "'m ctx \<Rightarrow> int \<Rightarrow> ('m, int) rop" where
  "gas_SLOAD C gas = seqE (peek 1) (\<lambda>vs. seqE (throwing (word32 C (vs ! 0))) (\<lambda>keyBuf.
     seqE selfAddress (\<lambda>address.
     seqE (witnessCost C (stateless C) gas (ReadAccountStorage address (vs ! 0))) (\<lambda>(g, charge).
     seqE (accessStorageEIP2929 C keyBuf False charge) (\<lambda>a. ret (g + a))))))"

definition gas_SSTORE :: "'m ctx \<Rightarrow> int \<Rightarrow> ('m, int) rop" where
  "gas_SSTORE C gas = seqE (getE (\<lambda>s. e_isStatic (rs_env s))) (\<lambda>static.
     if static then trap STATIC_STATE_CHANGE
     else seqE (peek 2) (\<lambda>vs. let key = vs ! 0; val = vs ! 1 in
       seqE (throwing (word32 C key)) (\<lambda>keyBytes.
       seqE (throwing (shortestBytes C val)) (\<lambda>v0.
       seqE (storageLoad C keyBytes False False) (\<lambda>current0.
       seqE (throwing (setLengthLeftStorage current0)) (\<lambda>currentStorage.
       seqE (storageLoad C keyBytes True False) (\<lambda>original0.
       seqE (throwing (setLengthLeftStorage original0)) (\<lambda>originalStorage.
       seqE (if hardforkSet (cx_common C) = ''constantinople'' then
               seqE (throwing (setLengthLeftStorage v0)) (\<lambda>v.
                 updateSstoreGasEIP1283 C currentStorage originalStorage v)
             else if gteHardfork (cx_common C) ''istanbul'' then
               (if \<not> stateless C then
                  seqE (throwing (setLengthLeftStorage v0)) (\<lambda>v.
                    updateSstoreGasEIP2200 C currentStorage originalStorage v keyBytes)
                else ret 0)
             else seqE (throwing (setLengthLeftStorage v0)) (\<lambda>v.
               updateSstoreGas C currentStorage v)) (\<lambda>cost.
       seqE selfAddress (\<lambda>address.
       seqE (whenE (activated C 7928) (balCall (BalStorageRead (addressString C address) keyBytes))) (\<lambda>_.
       seqE (witnessCost C (stateless C) (gas + cost) (WriteAccountStorage address key)) (\<lambda>(g, charge).
       seqE (accessStorageEIP2929 C keyBytes True charge) (\<lambda>a. ret (g + a))))))))))))))"

section \<open>Calls and creations\<close>

definition callOpts :: "int list \<Rightarrow> bytes \<Rightarrow> bool \<Rightarrow> call_gas_opts" where
  "callOpts vs toAddress newAccountCheck =
     \<lparr>co_currentGasLimit = vs ! 0, co_toAddress = toAddress, co_value = vs ! 2, co_inOffset = vs ! 3,
      co_inLength = vs ! 4, co_outOffset = vs ! 5, co_outLength = vs ! 6,
      co_includeValueTransfer = True, co_includeNewAccountPostCheck = newAccountCheck\<rparr>"

definition gas_CALL :: "'m ctx \<Rightarrow> int \<Rightarrow> ('m, int) rop" where
  "gas_CALL C gas = seqE (peek 7) (\<lambda>vs. seqE (getE (\<lambda>s. e_isStatic (rs_env s))) (\<lambda>static.
     if static \<and> vs ! 2 \<noteq> 0 then trap STATIC_STATE_CHANGE
     else seqE (stackAddress C (vs ! 1)) (\<lambda>toAddress. callFamilyGas C gas (callOpts vs toAddress True))))"

definition gas_CALLCODE :: "'m ctx \<Rightarrow> int \<Rightarrow> ('m, int) rop" where
  "gas_CALLCODE C gas = seqE (peek 7) (\<lambda>vs. seqE (stackAddress C (vs ! 1)) (\<lambda>toAddress.
     callFamilyGas C gas (callOpts vs toAddress False)))"

definition gas_valueless :: "'m ctx \<Rightarrow> int \<Rightarrow> ('m, int) rop" where
  "gas_valueless C gas = seqE (peek 6) (\<lambda>vs. seqE (stackAddress C (vs ! 1)) (\<lambda>toAddress.
     callFamilyGas C gas \<lparr>co_currentGasLimit = vs ! 0, co_toAddress = toAddress, co_value = 0,
       co_inOffset = vs ! 2, co_inLength = vs ! 3, co_outOffset = vs ! 4, co_outLength = vs ! 5,
       co_includeValueTransfer = False, co_includeNewAccountPostCheck = False\<rparr>))"

definition gas_DELEGATECALL :: "'m ctx \<Rightarrow> int \<Rightarrow> ('m, int) rop" where
  "gas_DELEGATECALL C = gas_valueless C"

definition gas_STATICCALL :: "'m ctx \<Rightarrow> int \<Rightarrow> ('m, int) rop" where
  "gas_STATICCALL C = gas_valueless C"

text \<open>The end of both creations before EIP-7928: the state gas of EIP-8037, the gas of the child.\<close>

definition createTail :: "'m ctx \<Rightarrow> int \<Rightarrow> ('m, int) rop" where
  "createTail C gas0 =
     seqE (if activated C 8037 then
         seqE (newAccountStateGasCost C) (\<lambda>newAccountStateGas.
         seqE (if gas0 > 0 then seqE (useGas gas0) (\<lambda>_. ret 0) else ret gas0) (\<lambda>gas.
         seqE (chargeStateGas newAccountStateGas) (\<lambda>_. ret gas)))
       else ret gas0) (\<lambda>gas.
     seqE (getE rs_gasLeft) (\<lambda>gasLeft.
     let gasLimit = maxCallGas (gasLeft - gas) (gasLeft - gas) (cx_common C) in
     seqE (updE (\<lambda>s. s\<lparr>rs_messageGasLimit := Some gasLimit\<rparr>)) (\<lambda>_. ret gas)))"

definition gas_CREATE :: "'m ctx \<Rightarrow> int \<Rightarrow> ('m, int) rop" where
  "gas_CREATE C gas = seqE (peek 3) (\<lambda>vs. let offset = vs ! 1; codeLength = vs ! 2 in
     if activated C 7928 then create7928Gas C gas offset codeLength None 0
     else seqE (getE (\<lambda>s. e_isStatic (rs_env s))) (\<lambda>static.
       if static then trap STATIC_STATE_CHANGE
       else seqE selfAddress (\<lambda>self.
         seqE (accessAddressEIP2929 C self False False) (\<lambda>a.
         seqE (initCodeWordCost C codeLength) (\<lambda>w.
         seqE (memGas C (gas + a + w) offset codeLength) (createTail C))))))"

definition gas_CREATE2 :: "'m ctx \<Rightarrow> int \<Rightarrow> ('m, int) rop" where
  "gas_CREATE2 C gas = seqE (peek 4) (\<lambda>vs. let offset = vs ! 1; codeLength = vs ! 2 in
     seqE (throwing (word32 C (vs ! 3))) (\<lambda>salt.
     if activated C 7928 then
       seqE (paramOf C ''keccak256WordGas'') (\<lambda>k.
         create7928Gas C gas offset codeLength (Some salt) (k * divCeil codeLength 32))
     else seqE (getE (\<lambda>s. e_isStatic (rs_env s))) (\<lambda>static.
       if static then trap STATIC_STATE_CHANGE
       else seqE (memGas C gas offset codeLength) (\<lambda>g.
         seqE selfAddress (\<lambda>self.
         seqE (accessAddressEIP2929 C self False False) (\<lambda>a.
         seqE (initCodeWordCost C codeLength) (\<lambda>w.
         seqE (wordGas C (g + a + w) ''keccak256WordGas'' codeLength) (createTail C))))))))"

text \<open>The gas handler of EOFCREATE reads the container index before the program counter has moved.\<close>

definition gas_EOFCREATE :: "'m ctx \<Rightarrow> int \<Rightarrow> ('m, int) rop" where
  "gas_EOFCREATE C gas = seqE (getE id) (\<lambda>s. case e_eof (rs_env s) of
     None \<Rightarrow> trap INVALID_OPCODE
   | Some eof \<Rightarrow> seqE (peek 4) (\<lambda>vs. seqE (memGas C gas (vs ! 2) (vs ! 3)) (\<lambda>g.
       case containerAt eof (e_code (rs_env s)) (rs_pc s + 1) of
         None \<Rightarrow> raise (Throw TypeError)
       | Some container \<Rightarrow> seqE (wordGas C g ''keccak256WordGas'' (int (length container))) (\<lambda>g'.
           seqE (getE rs_gasLeft) (\<lambda>gasLeft.
           let gasLimit = maxCallGas (gasLeft - g') (gasLeft - g') (cx_common C) in
           seqE (updE (\<lambda>s. s\<lparr>rs_messageGasLimit := Some gasLimit\<rparr>)) (\<lambda>_. ret g'))))))"

definition gas_RETURNCONTRACT :: "'m ctx \<Rightarrow> int \<Rightarrow> ('m, int) rop" where
  "gas_RETURNCONTRACT C gas = seqE (peek 2) (\<lambda>vs. memGas C gas (vs ! 0) (vs ! 1))"

text \<open>The three calls of EOF code; only EXTCALL carries a value.\<close>

definition gas_EXT :: "'m ctx \<Rightarrow> nat \<Rightarrow> bool \<Rightarrow> int \<Rightarrow> ('m, int) rop" where
  "gas_EXT C items carriesValue gas0 = seqE (getE id) (\<lambda>s.
     if e_eof (rs_env s) = None then trap INVALID_OPCODE
     else seqE (peek items) (\<lambda>vs. let toAddr = vs ! 0; v = (if carriesValue then vs ! 3 else 0) in
       if e_isStatic (rs_env s) \<and> v \<noteq> 0 then trap STATIC_STATE_CHANGE
       else seqE (if v > 0 then addParam C gas0 ''callValueTransferGas'' else ret gas0) (\<lambda>gas1.
       if toAddr > 2 ^ 160 - 1 then trap (EOFError ''invalid extcall target: address > 20 bytes'')
       else seqE (memGas C gas1 (vs ! 1) (vs ! 2)) (\<lambda>gas2.
         seqE (stackAddress C toAddr) (\<lambda>toAddress.
         seqE (accessGas C gas2 toAddress True) (\<lambda>gas3.
         seqE (if v > 0 then accountIsDead C toAddress else ret False) (\<lambda>deadAccount.
         seqE (if deadAccount then addParam C gas3 ''callNewAccountGas'' else ret gas3) (\<lambda>gas.
         seqE (paramOf C ''minRetainedGas'') (\<lambda>minRetainedGas.
         seqE (paramOf C ''minCalleeGas'') (\<lambda>minCalleeGas.
         seqE (getE rs_gasLeft) (\<lambda>gasLeft.
         let currentGasAvailable = gasLeft - gas;
             reducedGas = currentGasAvailable sdiv 64;
             gasLimit = (if reducedGas < minRetainedGas then currentGasAvailable - minRetainedGas
               else currentGasAvailable - reducedGas) in
         seqE (paramOf C ''stackLimit'') (\<lambda>stackLimit.
         seqE (if int (e_depth (rs_env s)) \<ge> stackLimit then ret True
           else seqE (if carriesValue then seqE (throwing (get_balance (e_contract (rs_env s)))) (\<lambda>b. ret (b < v))
                      else ret False) (\<lambda>poor. ret (poor \<or> gasLimit < minCalleeGas))) (\<lambda>refused.
         seqE (updE (\<lambda>s. s\<lparr>rs_messageGasLimit := Some (if refused then - 1 else gasLimit)\<rparr>)) (\<lambda>_.
           ret gas))))))))))))))"

definition gas_EXTCALL :: "'m ctx \<Rightarrow> int \<Rightarrow> ('m, int) rop" where
  "gas_EXTCALL C = gas_EXT C 4 True"

definition gas_EXTDELEGATECALL :: "'m ctx \<Rightarrow> int \<Rightarrow> ('m, int) rop" where
  "gas_EXTDELEGATECALL C = gas_EXT C 3 False"

definition gas_EXTSTATICCALL :: "'m ctx \<Rightarrow> int \<Rightarrow> ('m, int) rop" where
  "gas_EXTSTATICCALL C = gas_EXT C 3 False"

section \<open>Self-destruction\<close>

definition selfDestructNewAccountGas :: "'m ctx \<Rightarrow> bytes \<Rightarrow> int \<Rightarrow> ('m, int) rop" where
  "selfDestructNewAccountGas C toAddress balance =
     (if gteHardfork (cx_common C) ''spuriousDragon'' then
        (if balance > 0 then seqE (accountIsDead C toAddress) (\<lambda>dead.
           if dead then paramOf C ''callNewAccountGas'' else ret 0) else ret 0)
      else if gteHardfork (cx_common C) ''tangerineWhistle'' then
        seqE (managerOp (m_getAccount (cx_manager C) toAddress)) (\<lambda>account.
          if account = None then paramOf C ''callNewAccountGas'' else ret 0)
      else ret 0)"

definition selfDestructWitnessGas :: "'m ctx \<Rightarrow> int \<Rightarrow> bytes \<Rightarrow> bytes \<Rightarrow> int \<Rightarrow> ('m, int \<times> bool) rop" where
  "selfDestructWitnessGas C gas contractAddress toAddress balance =
     seqE (getE (\<lambda>s. e_chargeCodeAccesses (rs_env s))) (\<lambda>charge.
     if stateless C \<and> charge then
       seqE (witnessGas C (ReadBasicData contractAddress)) (\<lambda>g1.
       seqE (if balance > 0 then witnessGas C (WriteBasicData contractAddress) else ret 0) (\<lambda>g2.
       seqE (witnessGas C (ReadBasicData toAddress)) (\<lambda>g3.
       seqE (if balance > 0 then witnessGas C (WriteBasicData toAddress) else ret 0) (\<lambda>g4.
         ret (gas + g1 + g2 + (g3 + g4), g3 + g4 = 0)))))
     else ret (gas, True))"

definition gas_SELFDESTRUCT :: "'m ctx \<Rightarrow> int \<Rightarrow> ('m, int) rop" where
  "gas_SELFDESTRUCT C gas0 = seqE (getE (\<lambda>s. e_isStatic (rs_env s))) (\<lambda>static.
     if static then trap STATIC_STATE_CHANGE
     else seqE (peek 1) (\<lambda>vs. seqE (stackAddress C (vs ! 0)) (\<lambda>toAddress.
       seqE selfAddress (\<lambda>contractAddress.
       seqE (getExternalBalance C contractAddress) (\<lambda>balance.
       seqE (selfDestructNewAccountGas C toAddress balance) (\<lambda>newAccountGas.
       seqE (selfDestructWitnessGas C gas0 contractAddress toAddress balance) (\<lambda>(gas1, charge2929Gas).
       seqE (getAddressAccessCost C toAddress charge2929Gas True) (\<lambda>coldAccessCost.
       let gas = gas1 + coldAccessCost in
       seqE (getE rs_gasLeft) (\<lambda>gasLeft.
       seqE (whenE (activated C 7928 \<and> gas \<le> gasLeft) (addAddressToBAL C toAddress)) (\<lambda>_.
       seqE (whenE (activated C 2929) (warmAddress C toAddress)) (\<lambda>_.
       ret (gas + newAccountGas))))))))))))"

end
