(* ===== verification/EvmCodes.thy ===== *)
theory EvmCodes
  imports EvmUtil "HOL-Library.AList"
begin

text \<open>
  The opcode tables of \<^verbatim>\<open>packages/evm/src/opcodes/codes.ts\<close> and \<open>getOpcodesForHF\<close>, which
  builds the list of a hardfork with the fees its parameters give. Custom opcodes are left out.
\<close>

section \<open>Tables\<close>

record opcode_entry =
  en_name :: string
  en_isAsync :: bool
  en_dynamicGas :: bool

record opcode =
  oc_code :: nat
  oc_name :: string
  oc_fullName :: string
  oc_fee :: int
  oc_isAsync :: bool
  oc_dynamicGas :: bool
  oc_isInvalid :: bool

definition op_default :: "string \<Rightarrow> opcode_entry" where
  "op_default n = \<lparr>en_name = n, en_isAsync = False, en_dynamicGas = False\<rparr>"

definition op_dynamic :: "string \<Rightarrow> opcode_entry" where
  "op_dynamic n = \<lparr>en_name = n, en_isAsync = False, en_dynamicGas = True\<rparr>"

definition op_async :: "string \<Rightarrow> opcode_entry" where
  "op_async n = \<lparr>en_name = n, en_isAsync = True, en_dynamicGas = False\<rparr>"

definition op_both :: "string \<Rightarrow> opcode_entry" where
  "op_both n = \<lparr>en_name = n, en_isAsync = True, en_dynamicGas = True\<rparr>"

type_synonym opcode_entries = "(nat \<times> opcode_entry) list"

definition opcodes :: opcode_entries where
  "opcodes =
    [(0x00, op_default ''STOP''), (0x01, op_default ''ADD''), (0x02, op_default ''MUL''),
     (0x03, op_default ''SUB''), (0x04, op_default ''DIV''), (0x05, op_default ''SDIV''),
     (0x06, op_default ''MOD''), (0x07, op_default ''SMOD''), (0x08, op_default ''ADDMOD''),
     (0x09, op_default ''MULMOD''), (0x0a, op_dynamic ''EXP''), (0x0b, op_default ''SIGNEXTEND''),
     (0x10, op_default ''LT''), (0x11, op_default ''GT''), (0x12, op_default ''SLT''),
     (0x13, op_default ''SGT''), (0x14, op_default ''EQ''), (0x15, op_default ''ISZERO''),
     (0x16, op_default ''AND''), (0x17, op_default ''OR''), (0x18, op_default ''XOR''),
     (0x19, op_default ''NOT''), (0x1a, op_default ''BYTE''), (0x20, op_dynamic ''KECCAK256''),
     (0x30, op_async ''ADDRESS''), (0x31, op_both ''BALANCE''), (0x32, op_async ''ORIGIN''),
     (0x33, op_async ''CALLER''), (0x34, op_async ''CALLVALUE''),
     (0x35, op_async ''CALLDATALOAD''), (0x36, op_async ''CALLDATASIZE''),
     (0x37, op_both ''CALLDATACOPY''), (0x38, op_default ''CODESIZE''),
     (0x39, op_dynamic ''CODECOPY''), (0x3a, op_default ''GASPRICE''),
     (0x3b, op_both ''EXTCODESIZE''), (0x3c, op_both ''EXTCODECOPY''),
     (0x40, op_async ''BLOCKHASH''), (0x41, op_async ''COINBASE''), (0x42, op_async ''TIMESTAMP''),
     (0x43, op_async ''NUMBER''), (0x44, op_async ''DIFFICULTY''), (0x45, op_async ''GASLIMIT''),
     (0x50, op_default ''POP''), (0x51, op_dynamic ''MLOAD''), (0x52, op_dynamic ''MSTORE''),
     (0x53, op_dynamic ''MSTORE8''), (0x54, op_both ''SLOAD''), (0x55, op_both ''SSTORE''),
     (0x56, op_default ''JUMP''), (0x57, op_default ''JUMPI''), (0x58, op_default ''PC''),
     (0x59, op_default ''MSIZE''), (0x5a, op_default ''GAS''), (0x5b, op_default ''JUMPDEST''),
     (0x60, op_default ''PUSH''), (0x61, op_default ''PUSH''), (0x62, op_default ''PUSH''),
     (0x63, op_default ''PUSH''), (0x64, op_default ''PUSH''), (0x65, op_default ''PUSH''),
     (0x66, op_default ''PUSH''), (0x67, op_default ''PUSH''), (0x68, op_default ''PUSH''),
     (0x69, op_default ''PUSH''), (0x6a, op_default ''PUSH''), (0x6b, op_default ''PUSH''),
     (0x6c, op_default ''PUSH''), (0x6d, op_default ''PUSH''), (0x6e, op_default ''PUSH''),
     (0x6f, op_default ''PUSH''), (0x70, op_default ''PUSH''), (0x71, op_default ''PUSH''),
     (0x72, op_default ''PUSH''), (0x73, op_default ''PUSH''), (0x74, op_default ''PUSH''),
     (0x75, op_default ''PUSH''), (0x76, op_default ''PUSH''), (0x77, op_default ''PUSH''),
     (0x78, op_default ''PUSH''), (0x79, op_default ''PUSH''), (0x7a, op_default ''PUSH''),
     (0x7b, op_default ''PUSH''), (0x7c, op_default ''PUSH''), (0x7d, op_default ''PUSH''),
     (0x7e, op_default ''PUSH''), (0x7f, op_default ''PUSH''), (0x80, op_default ''DUP''),
     (0x81, op_default ''DUP''), (0x82, op_default ''DUP''), (0x83, op_default ''DUP''),
     (0x84, op_default ''DUP''), (0x85, op_default ''DUP''), (0x86, op_default ''DUP''),
     (0x87, op_default ''DUP''), (0x88, op_default ''DUP''), (0x89, op_default ''DUP''),
     (0x8a, op_default ''DUP''), (0x8b, op_default ''DUP''), (0x8c, op_default ''DUP''),
     (0x8d, op_default ''DUP''), (0x8e, op_default ''DUP''), (0x8f, op_default ''DUP''),
     (0x90, op_default ''SWAP''), (0x91, op_default ''SWAP''), (0x92, op_default ''SWAP''),
     (0x93, op_default ''SWAP''), (0x94, op_default ''SWAP''), (0x95, op_default ''SWAP''),
     (0x96, op_default ''SWAP''), (0x97, op_default ''SWAP''), (0x98, op_default ''SWAP''),
     (0x99, op_default ''SWAP''), (0x9a, op_default ''SWAP''), (0x9b, op_default ''SWAP''),
     (0x9c, op_default ''SWAP''), (0x9d, op_default ''SWAP''), (0x9e, op_default ''SWAP''),
     (0x9f, op_default ''SWAP''), (0xa0, op_dynamic ''LOG''), (0xa1, op_dynamic ''LOG''),
     (0xa2, op_dynamic ''LOG''), (0xa3, op_dynamic ''LOG''), (0xa4, op_dynamic ''LOG''),
     (0xf0, op_both ''CREATE''), (0xf1, op_both ''CALL''), (0xf2, op_both ''CALLCODE''),
     (0xf3, op_dynamic ''RETURN''), (0xfe, op_default ''INVALID''),
     (0xff, op_both ''SELFDESTRUCT'')]"

definition hardforkOpcodes :: "(string \<times> opcode_entries) list" where
  "hardforkOpcodes =
    [(''homestead'', [(0xf4, op_both ''DELEGATECALL'')]),
     (''tangerineWhistle'', [(0x54, op_both ''SLOAD''), (0xf1, op_both ''CALL''), (0xf2, op_both ''CALLCODE''),
       (0x3b, op_both ''EXTCODESIZE''), (0x3c, op_both ''EXTCODECOPY''),
       (0xf4, op_both ''DELEGATECALL''), (0xff, op_both ''SELFDESTRUCT''),
       (0x31, op_both ''BALANCE'')]),
     (''byzantium'', [(0xfd, op_dynamic ''REVERT''), (0xfa, op_both ''STATICCALL''),
       (0x3d, op_async ''RETURNDATASIZE''), (0x3e, op_both ''RETURNDATACOPY'')]),
     (''constantinople'', [(0x1b, op_default ''SHL''), (0x1c, op_default ''SHR''), (0x1d, op_default ''SAR''),
       (0x3f, op_both ''EXTCODEHASH''), (0xf5, op_both ''CREATE2'')]),
     (''istanbul'', [(0x46, op_default ''CHAINID''), (0x47, op_default ''SELFBALANCE'')]),
     (''paris'', [(0x44, op_async ''PREVRANDAO'')])]"

definition eipOpcodes :: "(nat \<times> opcode_entries) list" where
  "eipOpcodes =
    [(8024, [(0xe6, op_default ''DUPN''), (0xe7, op_default ''SWAPN''), (0xe8, op_default ''EXCHANGE'')]),
     (1153, [(0x5c, op_default ''TLOAD''), (0x5d, op_default ''TSTORE'')]),
     (3198, [(0x48, op_default ''BASEFEE'')]),
     (3855, [(0x5f, op_default ''PUSH0'')]),
     (4200, [(0xe0, op_default ''RJUMP''), (0xe1, op_default ''RJUMPI''), (0xe2, op_default ''RJUMPV'')]),
     (4750, [(0xe3, op_default ''CALLF''), (0xe4, op_default ''RETF'')]),
     (4844, [(0x49, op_default ''BLOBHASH'')]),
     (5656, [(0x5e, op_dynamic ''MCOPY'')]),
     (6206, [(0xe5, op_default ''JUMPF'')]),
     (7069, [(0xf7, op_default ''RETURNDATALOAD''), (0xf8, op_both ''EXTCALL''),
       (0xf9, op_both ''EXTDELEGATECALL''), (0xfb, op_both ''EXTSTATICCALL'')]),
     (7480, [(0xd0, op_default ''DATALOAD''), (0xd1, op_default ''DATALOADN''),
       (0xd2, op_default ''DATASIZE''), (0xd3, op_dynamic ''DATACOPY'')]),
     (7516, [(0x4a, op_default ''BLOBBASEFEE'')]),
     (7843, [(0x4b, op_async ''SLOTNUM'')]),
     (7620, [(0xec, op_both ''EOFCREATE''), (0xee, op_both ''RETURNCONTRACT'')]),
     (7939, [(0x1e, op_default ''CLZ'')])]"

section \<open>The list of a hardfork\<close>

text \<open>Object spread: later entries replace earlier ones of the same key.\<close>

definition extendWith :: "opcode_entries \<Rightarrow> opcode_entries \<Rightarrow> opcode_entries" where
  "extendWith es extra = foldl (\<lambda>acc (k, v). AList.update k v acc) es extra"

definition opcodeBuilder :: "common \<Rightarrow> opcode_entries" where
  "opcodeBuilder c =
     (let afterForks = foldl (\<lambda>es (hf, extra). if gteHardfork c hf then extendWith es extra else es)
        opcodes hardforkOpcodes in
      foldl (\<lambda>es (eip, extra). if isActivatedEIP c eip then extendWith es extra else es)
        afterForks eipOpcodes)"

text \<open>
  The base fee is a parameter named after the opcode. The test \<open>baseFee === undefined\<close> that
  follows in the code never holds of a number.
\<close>

definition baseFee :: "common \<Rightarrow> string \<Rightarrow> int res" where
  "baseFee c n = param c (map lower_char n @ ''Gas'')"

definition newOpcode :: "nat \<Rightarrow> opcode_entry \<Rightarrow> int \<Rightarrow> opcode" where
  "newOpcode code e fee =
     \<lparr>oc_code = code, oc_name = en_name e, oc_fullName = getFullname code (en_name e), oc_fee = fee,
      oc_isAsync = en_isAsync e, oc_dynamicGas = en_dynamicGas e, oc_isInvalid = (en_name e = ''INVALID'')\<rparr>"

fun createOpcodes :: "common \<Rightarrow> opcode_entries \<Rightarrow> (nat \<times> opcode) list res" where
  "createOpcodes c [] = Inr []"
| "createOpcodes c ((code, e) # es) = and_then (baseFee c (en_name e)) (\<lambda>fee.
     and_then (createOpcodes c es) (\<lambda>os. Inr ((code, newOpcode code e fee) # os)))"

type_synonym opcode_map = "nat \<Rightarrow> opcode option"

definition getOpcodesForHF :: "common \<Rightarrow> opcode_map res" where
  "getOpcodesForHF c = and_then (createOpcodes c (opcodeBuilder c)) (\<lambda>ops.
     Inr (\<lambda>i. case map_of ops i of Some x \<Rightarrow> Some x | None \<Rightarrow> map_of ops 0xfe))"

section \<open>Every byte has an opcode\<close>

lemma extendWith_other: "k \<notin> fst ` set extra \<Longrightarrow> map_of (extendWith es extra) k = map_of es k"
  unfolding extendWith_def
proof (induction extra arbitrary: es)
  case (Cons x extra)
  then show ?case by (cases x) (simp add: update_conv')
qed simp

lemma foldl_extend_other: "\<forall>(a, extra) \<in> set xs. k \<notin> fst ` set extra \<Longrightarrow>
    map_of (foldl (\<lambda>es (a, extra). if P a then extendWith es extra else es) es0 xs) k = map_of es0 k"
  by (induction xs arbitrary: es0) (auto simp: extendWith_other)

lemma opcodeBuilder_invalid: "map_of (opcodeBuilder c) 0xfe = Some (op_default ''INVALID'')"
proof -
  have "\<forall>(a, extra) \<in> set hardforkOpcodes. 0xfe \<notin> fst ` set extra" by (simp add: hardforkOpcodes_def)
  moreover have "\<forall>(a, extra) \<in> set eipOpcodes. 0xfe \<notin> fst ` set extra" by (simp add: eipOpcodes_def)
  moreover have "map_of opcodes 0xfe = Some (op_default ''INVALID'')" by (simp add: opcodes_def)
  ultimately show ?thesis by (simp add: opcodeBuilder_def foldl_extend_other)
qed

lemma createOpcodes_map: "createOpcodes c es = Inr ops \<Longrightarrow>
    (case map_of es k of None \<Rightarrow> map_of ops k = None
     | Some e \<Rightarrow> \<exists>fee. map_of ops k = Some (newOpcode k e fee) \<and> baseFee c (en_name e) = Inr fee)"
  by (induction es arbitrary: ops) (auto simp: and_then_Inr_iff split: option.splits)

definition codes_ok :: "opcode_map \<Rightarrow> bool" where
  "codes_ok T \<longleftrightarrow> (\<forall>i < 256. \<exists>info. T i = Some info \<and> (oc_code info = i \<or> oc_isInvalid info))"

lemma getOpcodesForHF_ok:
  assumes "getOpcodesForHF c = Inr T"
  shows "codes_ok T"
proof -
  obtain ops where ops: "createOpcodes c (opcodeBuilder c) = Inr ops"
    and T: "T = (\<lambda>i. case map_of ops i of Some x \<Rightarrow> Some x | None \<Rightarrow> map_of ops 0xfe)"
    using assms by (auto simp: getOpcodesForHF_def and_then_Inr_iff)
  obtain fee where inv: "map_of ops 0xfe = Some (newOpcode 0xfe (op_default ''INVALID'') fee)"
    using createOpcodes_map [where k = "0xfe", OF ops] by (auto simp: opcodeBuilder_invalid)
  have "oc_code x = i" if "map_of ops i = Some x" for i x
    using createOpcodes_map [where k = i, OF ops] that by (auto simp: newOpcode_def split: option.splits)
  then show ?thesis unfolding codes_ok_def T
    by (auto simp: inv newOpcode_def op_default_def split: option.splits)
qed

end
