(* ===== verification/EvmLoop.thy ===== *)
theory EvmLoop
  imports EvmCalls EvmDynGas EvmCodes
begin

text \<open>
  \<open>run\<close>, \<open>runStep\<close> and \<open>_getValidJumpDestinations\<close> of \<^verbatim>\<open>packages/evm/src/interpreter.ts\<close> over
  the handlers of \<^verbatim>\<open>opcodes/functions.ts\<close> and \<^verbatim>\<open>opcodes/gas.ts\<close>. The loop takes fuel, one
  unit for each opcode: \<open>None\<close> means that it ran out. The step event and the timers are left out.
  \<open>cx_setupEOF\<close> stands for parsing and validating an EOF container. RETURNCONTRACT
  (0xee), which parses a nested container, has no handler here: a step on it throws.
\<close>

section \<open>Jump analysis\<close>

record analysis =
  an_jumps :: "nat list"
  an_pushes :: "(nat \<times> int) list"
  an_opcodes :: "(nat \<times> opcode option) list"

definition skipsImmediate :: "nat \<Rightarrow> nat \<Rightarrow> bool" where
  "skipsImmediate opcode immediate =
     (if opcode = 0xe8 then isEIP8024PairImmediateValid immediate
      else isEIP8024SingleImmediateValid immediate)"

definition pushBytesAt :: "bytes \<Rightarrow> nat \<Rightarrow> nat \<Rightarrow> bytes res" where
  "pushBytesAt code i bytesToPush =
     (let pushBytes = js_slice code (i + 1) (i + 1 + bytesToPush) in
      if length pushBytes < bytesToPush then setLengthRight pushBytes bytesToPush False else Inr pushBytes)"

function analyseFrom :: "noble \<Rightarrow> bool \<Rightarrow> opcode_map \<Rightarrow> bytes \<Rightarrow> nat \<Rightarrow> analysis \<Rightarrow> analysis res" where
  "analyseFrom N act8024 T code i a =
     (if length code \<le> i then Inr a
      else let opcode = unat (code ! i);
               a1 = a\<lparr>an_opcodes := an_opcodes a @ [(i, T opcode)]\<rparr> in
        if opcode \<le> 0x7f then
          (if opcode \<ge> 0x60 then
             let bytesToPush = opcode - 0x5f in
             and_then (pushBytesAt code i bytesToPush) (\<lambda>pushBytes.
             and_then (bytesToBigInt N pushBytes False) (\<lambda>push.
               analyseFrom N act8024 T code (i + bytesToPush + 1)
                 (a1\<lparr>an_pushes := an_pushes a1 @ [(i + 1, push)]\<rparr>)))
           else if opcode = 0x5b then
             analyseFrom N act8024 T code (i + 1) (a1\<lparr>an_jumps := (an_jumps a1)[i := 1]\<rparr>)
           else analyseFrom N act8024 T code (i + 1) a1)
        else if act8024 \<and> (opcode = 0xe6 \<or> opcode = 0xe7 \<or> opcode = 0xe8) then
          (if length code \<le> i + 1 then analyseFrom N act8024 T code (i + 1) a1
           else if skipsImmediate opcode (unat (code ! (i + 1)))
           then analyseFrom N act8024 T code (i + 2) a1
           else analyseFrom N act8024 T code (i + 1) a1)
        else analyseFrom N act8024 T code (i + 1) a1)"
  by auto

termination analyseFrom
  by (relation "measure (\<lambda>(N, act, T, code, i, a). length code - i)") auto

declare analyseFrom.simps [simp del]

definition getValidJumpDestinations :: "noble \<Rightarrow> bool \<Rightarrow> opcode_map \<Rightarrow> bytes \<Rightarrow> analysis res" where
  "getValidJumpDestinations N act8024 T code =
     analyseFrom N act8024 T code 0 \<lparr>an_jumps = replicate (length code) 0, an_pushes = [], an_opcodes = []\<rparr>"

section \<open>The handlers\<close>

definition handlers :: "'m ctx \<Rightarrow> (nat \<times> ('m, unit) rop) list" where
  "handlers C =
    [(0x00, op_STOP), (0x01, op_ADD), (0x02, op_MUL), (0x03, op_SUB), (0x04, op_DIV),
     (0x05, op_SDIV), (0x06, op_MOD), (0x07, op_SMOD), (0x08, op_ADDMOD), (0x09, op_MULMOD),
     (0x0a, op_EXP), (0x0b, op_SIGNEXTEND), (0x10, op_LT), (0x11, op_GT), (0x12, op_SLT),
     (0x13, op_SGT), (0x14, op_EQ), (0x15, op_ISZERO), (0x16, op_AND), (0x17, op_OR),
     (0x18, op_XOR), (0x19, op_NOT), (0x1a, op_BYTE), (0x1b, op_SHL), (0x1c, op_SHR),
     (0x1d, op_SAR), (0x1e, op_CLZ), (0x20, op_KECCAK256 C), (0x30, op_ADDRESS C),
     (0x31, op_BALANCE C), (0x32, op_ORIGIN C), (0x33, op_CALLER C), (0x34, op_CALLVALUE),
     (0x35, op_CALLDATALOAD C), (0x36, op_CALLDATASIZE), (0x37, op_CALLDATACOPY C),
     (0x38, op_CODESIZE), (0x39, op_CODECOPY C), (0x3a, op_GASPRICE), (0x3b, op_EXTCODESIZE C),
     (0x3c, op_EXTCODECOPY C), (0x3d, op_RETURNDATASIZE), (0x3e, op_RETURNDATACOPY C),
     (0x3f, op_EXTCODEHASH C), (0x40, op_BLOCKHASH C), (0x41, op_COINBASE C), (0x42, op_TIMESTAMP),
     (0x43, op_NUMBER), (0x44, op_DIFFICULTY C), (0x45, op_GASLIMIT), (0x46, op_CHAINID C),
     (0x47, op_SELFBALANCE), (0x48, op_BASEFEE), (0x49, op_BLOBHASH), (0x4a, op_BLOBBASEFEE),
     (0x4b, op_SLOTNUM), (0x50, op_POP), (0x51, op_MLOAD C), (0x52, op_MSTORE C),
     (0x53, op_MSTORE8 C), (0x54, op_SLOAD C), (0x55, op_SSTORE C), (0x56, op_JUMP),
     (0x57, op_JUMPI), (0x58, op_PC), (0x59, op_MSIZE), (0x5a, op_GAS), (0x5b, op_JUMPDEST),
     (0x5c, op_TLOAD C), (0x5d, op_TSTORE C), (0x5e, op_MCOPY C), (0x5f, op_PUSH0),
     (0xd0, op_DATALOAD C), (0xd1, op_DATALOADN C), (0xd2, op_DATASIZE), (0xd3, op_DATACOPY C),
     (0xe0, op_RJUMP), (0xe1, op_RJUMPI), (0xe2, op_RJUMPV), (0xe3, op_CALLF C), (0xe4, op_RETF),
     (0xe5, op_JUMPF C), (0xe6, op_DUPN C), (0xe7, op_SWAPN C), (0xe8, op_EXCHANGE C), (0xec, op_EOFCREATE C),
     (0xf0, op_CREATE C), (0xf1, op_CALL C), (0xf2, op_CALLCODE C), (0xf3, op_RETURN C),
     (0xf4, op_DELEGATECALL C), (0xf5, op_CREATE2 C), (0xf7, op_RETURNDATALOAD C),
     (0xf8, op_EXTCALL C), (0xf9, op_EXTDELEGATECALL C), (0xfa, op_STATICCALL C),
     (0xfb, op_EXTSTATICCALL C), (0xfd, op_REVERT C), (0xff, op_SELFDESTRUCT C)]"

text \<open>The ranges filled in after the map: PUSH1 to PUSH32, DUP1 to DUP16, SWAP1 to SWAP16, LOG0 to LOG4.\<close>

definition opHandler :: "'m ctx \<Rightarrow> nat \<Rightarrow> ('m, unit) rop option" where
  "opHandler C code =
     (if 0x60 \<le> code \<and> code \<le> 0x7f then Some (op_PUSH C)
      else if 0x80 \<le> code \<and> code \<le> 0x8f then Some op_DUP
      else if 0x90 \<le> code \<and> code \<le> 0x9f then Some op_SWAP
      else if 0xa0 \<le> code \<and> code \<le> 0xa4 then Some (op_LOG C)
      else map_of (handlers C) code)"

definition gasHandlers :: "'m ctx \<Rightarrow> (nat \<times> (int \<Rightarrow> ('m, int) rop)) list" where
  "gasHandlers C =
    [(0x0a, gas_EXP C), (0x20, gas_KECCAK256 C), (0x31, gas_BALANCE C), (0x37, gas_CALLDATACOPY C),
     (0x39, gas_CODECOPY C), (0x3b, gas_EXTCODESIZE C), (0x3c, gas_EXTCODECOPY C),
     (0x3e, gas_RETURNDATACOPY C), (0x3f, gas_EXTCODEHASH C), (0x51, gas_MLOAD C),
     (0x52, gas_MSTORE C), (0x53, gas_MSTORE8 C), (0x54, gas_SLOAD C), (0x55, gas_SSTORE C),
     (0x5e, gas_MCOPY C), (0xd3, gas_DATACOPY C), (0xec, gas_EOFCREATE C),
     (0xee, gas_RETURNCONTRACT C), (0xf0, gas_CREATE C), (0xf1, gas_CALL C),
     (0xf2, gas_CALLCODE C), (0xf3, gas_RETURN C), (0xf4, gas_DELEGATECALL C),
     (0xf5, gas_CREATE2 C), (0xf8, gas_EXTCALL C), (0xf9, gas_EXTDELEGATECALL C),
     (0xfa, gas_STATICCALL C), (0xfb, gas_EXTSTATICCALL C), (0xfd, gas_REVERT C),
     (0xff, gas_SELFDESTRUCT C)]"

definition gasHandler :: "'m ctx \<Rightarrow> nat \<Rightarrow> (int \<Rightarrow> ('m, int) rop) option" where
  "gasHandler C code =
     (if 0xa0 \<le> code \<and> code \<le> 0xa4 then Some (gas_LOG C) else map_of (gasHandlers C) code)"

section \<open>One step\<close>

text \<open>A handler that is not there is \<open>undefined\<close>, and calling it throws.\<close>

definition runHandler :: "'x option \<Rightarrow> ('x \<Rightarrow> ('m, 'a) rop) \<Rightarrow> ('m, 'a) rop" where
  "runHandler h f = (case h of None \<Rightarrow> raise (Throw TypeError) | Some x \<Rightarrow> f x)"

definition stepGas :: "'m ctx \<Rightarrow> opcode \<Rightarrow> ('m, int) rop" where
  "stepGas C info =
     seqE (if oc_dynamicGas info
       then runHandler (gasHandler C (oc_code info)) (\<lambda>h. h (oc_fee info))
       else ret (oc_fee info)) (\<lambda>gas.
     seqE (getE id) (\<lambda>s.
     if stateless C \<and> e_chargeCodeAccesses (rs_env s)
     then seqE (witnessGas C (ReadCodeChunks (e_address (rs_env s)) (rs_pc s) (rs_pc s))) (\<lambda>w. ret (gas + w))
     else ret gas))"

definition runStep :: "'m ctx \<Rightarrow> opcode \<Rightarrow> ('m, unit) rop" where
  "runStep C info =
     seqE (stepGas C info) (\<lambda>gas.
     if oc_isInvalid info then trap INVALID_OPCODE
     else seqE (useGas gas) (\<lambda>_.
       seqE (updE (\<lambda>s. s\<lparr>rs_pc := rs_pc s + 1\<rparr>)) (\<lambda>_.
       seqE (consumeEip7928PostTargetCallOog C) (\<lambda>_.
       seqE (runHandler (opHandler C (oc_code info)) id) (\<lambda>_.
         addWitness WitnessCommit)))))"

section \<open>The loop\<close>

text \<open>
  Fetching the opcode at the program counter. Before the analysis the loop reads the code; the
  first JUMP, JUMPI or MCOPY runs it, and from then on the loop reads the opcodes it cached.
\<close>

type_synonym opcode_cache = "(nat \<times> opcode option) list option"

definition needsAnalysis :: "nat \<Rightarrow> bool" where
  "needsAnalysis opCode = (opCode = 0x56 \<or> opCode = 0x57 \<or> opCode = 0x5e)"

definition fetch :: "'m ctx \<Rightarrow> opcode_map \<Rightarrow> opcode_cache \<Rightarrow> ('m, opcode_cache \<times> opcode) rop" where
  "fetch C T cache = seqE (getE id) (\<lambda>s. let pc = rs_pc s in
     if pc < 0 then raise (Throw TypeError)
     else case cache of
       Some cached \<Rightarrow> (case map_of cached (nat pc) of
           Some (Some info) \<Rightarrow>
             seqE (updE (\<lambda>s. s\<lparr>rs_opCode := oc_code info\<rparr>)) (\<lambda>_. ret (cache, info))
         | _ \<Rightarrow> raise (Throw TypeError))
     | None \<Rightarrow>
         let opCode = unat (rs_code s ! nat pc) in
         seqE (if needsAnalysis opCode then
             seqE (throwing (getValidJumpDestinations (cx_hex C) (activated C 8024) T (rs_code s))) (\<lambda>a.
             seqE (updE (\<lambda>s. s\<lparr>rs_validJumps := an_jumps a, rs_cachedPushes := an_pushes a,
               rs_shouldDoJumpAnalysis := False\<rparr>)) (\<lambda>_. ret (Some (an_opcodes a))))
           else ret None) (\<lambda>cache'.
         seqE (updE (\<lambda>s. s\<lparr>rs_opCode := opCode\<rparr>)) (\<lambda>_.
           runHandler (T opCode) (\<lambda>info. ret (cache', info)))))"

text \<open>Under EIP-7864 an invalid opcode may be a code chunk missing from the witness.\<close>

definition checkChunk :: "'m ctx \<Rightarrow> ('m, unit) rop" where
  "checkChunk C = seqE (getE id) (\<lambda>s.
     if rs_opCode s = 0xfe \<and> activated C 7864 \<and> e_chargeCodeAccesses (rs_env s) then
       seqE (managerOp (m_checkChunkWitnessPresent (cx_manager C) (e_address (rs_env s)) (rs_pc s))) (\<lambda>present.
         if present then ret () else raise (Throw (PlainError ''Invalid witness with missing codeChunk'')))
     else ret ())"

definition nextOpcode :: "'m ctx \<Rightarrow> opcode_map \<Rightarrow> opcode_cache \<Rightarrow> ('m, opcode_cache \<times> opcode) rop" where
  "nextOpcode C T cache = seqE (fetch C T cache) (\<lambda>r. seqE (checkChunk C) (\<lambda>_. ret r))"

text \<open>
  The loop: the result is the exception error of the frame, or the error of the language that it
  threw. The access witness is rolled back when a step fails.
\<close>

fun runLoop :: "'m ctx \<Rightarrow> opcode_map \<Rightarrow> nat \<Rightarrow> opcode_cache \<Rightarrow> 'm run_state \<Rightarrow>
    ((js_error + evm_error option) \<times> 'm run_state) option" where
  "runLoop C T 0 cache s = None"
| "runLoop C T (Suc n) cache s =
     (if rs_pc s \<ge> int (length (rs_code s)) then Some (Inr None, s)
      else case nextOpcode C T cache s of
        (Inl (Throw e), s1) \<Rightarrow> Some (Inl e, s1)
      | (Inl (Trap e), s1) \<Rightarrow> Some (Inr (Some e), s1)
      | (Inr (cache', info), s1) \<Rightarrow>
          (case runStep C info s1 of
             (Inr (), s2) \<Rightarrow> runLoop C T n cache' s2
           | (Inl e, s2) \<Rightarrow>
               let s3 = snd (addWitness WitnessRevert s2) in
               Some (case e of
                 Throw je \<Rightarrow> (Inl je, s3)
               | Trap STOP \<Rightarrow> (Inr None, s3)
               | Trap ee \<Rightarrow> (Inr (Some ee), s3))))"

section \<open>Running a frame\<close>

definition newRunState :: "env \<Rightarrow> int \<Rightarrow> int \<Rightarrow> log list \<Rightarrow> 'm world \<Rightarrow> 'm run_state" where
  "newRunState e gasLeft gasRefund initialLogs w =
     \<lparr>rs_pc = 0, rs_opCode = 0xfe, rs_memory = new_memory, rs_memoryWordCount = 0, rs_highestMemCost = 0,
      rs_stack = new_stack None, rs_code = [], rs_shouldDoJumpAnalysis = True, rs_validJumps = [],
      rs_cachedPushes = [], rs_env = e, rs_messageGasLimit = None, rs_createOog = False,
      rs_callOog = None, rs_gasRefund = gasRefund, rs_gasLeft = gasLeft, rs_returnBytes = [],
      rs_result = \<lparr>rr_logs = initialLogs, rr_returnValue = None, rr_selfdestruct = [],
        rr_createdAddresses = None\<rparr>,
      rs_world = w\<rparr>"

definition byteAt :: "bytes \<Rightarrow> nat \<Rightarrow> nat option" where
  "byteAt code i = (if i < length code then Some (unat (code ! i)) else None)"

definition installEOF :: "eof_env \<times> bytes option \<Rightarrow> 'm run_state \<Rightarrow> 'm run_state" where
  "installEOF parsed s = (case parsed of (eof, txCallData) \<Rightarrow>
     let (pc, eof') = getCodePosition 0 eof in
     s\<lparr>rs_env := (rs_env s)\<lparr>e_eof := Some eof',
         e_callData := (case txCallData of None \<Rightarrow> e_callData (rs_env s) | Some d \<Rightarrow> d)\<rparr>,
       rs_pc := pc\<rparr>)"

text \<open>What \<open>run\<close> does before the loop: an error of the frame, or the state the loop starts in.\<close>

definition setupRun :: "'m ctx \<Rightarrow> bytes \<Rightarrow> 'm run_state \<Rightarrow> (evm_error \<times> 'm run_state) + 'm run_state" where
  "setupRun C code s =
     (if \<not> activated C 3540 \<or> byteAt code 0 \<noteq> Some 0xef then Inr (s\<lparr>rs_code := code\<rparr>)
      else if byteAt code 1 \<noteq> Some 0x00 then Inl (INVALID_BYTECODE_RESULT, s)
      else if byteAt code 2 \<noteq> Some 0x01 then Inl (INVALID_EOF_FORMAT, s)
      else let s1 = s\<lparr>rs_code := code\<rparr>; isTxCreate = (e_isCreate (rs_env s) \<and> e_depth (rs_env s) = 0) in
        case cx_setupEOF C code isTxCreate of
          None \<Rightarrow> Inl (INVALID_EOF_FORMAT, s1)
        | Some parsed \<Rightarrow> Inr (installEOF parsed s1))"

definition runFrame :: "'m ctx \<Rightarrow> opcode_map \<Rightarrow> nat \<Rightarrow> bytes \<Rightarrow> int option \<Rightarrow> 'm run_state \<Rightarrow>
    ((js_error + evm_error option) \<times> 'm run_state) option" where
  "runFrame C T fuel code optsPc s =
     (case setupRun C code s of
        Inl (err, s1) \<Rightarrow> Some (Inr (Some err), s1)
      | Inr s1 \<Rightarrow>
          let pc = (case optsPc of Some p \<Rightarrow> p | None \<Rightarrow> rs_pc s1); s2 = s1\<lparr>rs_pc := pc\<rparr> in
          if pc \<noteq> 0 \<and> (pc < 0 \<or> pc \<ge> int (length (rs_code s2)))
          then Some (Inl (EthereumJSError ''Internal error: program counter not in range''), s2)
          else runLoop C T fuel None s2)"

end
