(* ===== verification/EvmWords.thy ===== *)
theory EvmWords
  imports EvmLoop
begin

unbundle bit_operations_syntax

text \<open>
  The arithmetic, comparison and bit opcodes of \<open>EvmOps\<close> compute on BigInts; here they are shown
  to be the operations of 256-bit words. Stack items are the unsigned values of words. The first
  part relates the BigInt formulas of the handlers to word operations, one lemma for each
  opcode; the second lifts them to the handlers on the state of a frame.
\<close>

section \<open>BigInt formulas are word operations\<close>

type_synonym u256 = "256 word"

lemma sdiv_nonneg: "0 \<le> a \<Longrightarrow> 0 \<le> b \<Longrightarrow> a sdiv b = a div (b :: int)"
  by (cases "a = 0"; cases "b = 0") (auto simp: signed_divide_int_def)

lemma smod_nonneg: "0 \<le> a \<Longrightarrow> 0 \<le> (b::int) \<Longrightarrow> a smod b = a mod b"
  by (cases "a = 0") (auto simp: signed_modulo_int_def signed_divide_int_def minus_div_mult_eq_mod)

lemma smod_neg: "a < 0 \<Longrightarrow> 0 < (b::int) \<Longrightarrow> a smod b = - ((- a) mod b)"
  by (simp add: signed_modulo_int_def signed_divide_int_def minus_div_mult_eq_mod [symmetric])

lemma modBig_pos: "0 < b \<Longrightarrow> modBig a b = a mod b"
proof (cases "0 \<le> a")
  case False
  assume b: "0 < b"
  have "- (- a mod b) < 0 \<longleftrightarrow> - a mod b \<noteq> 0" using b pos_mod_sign [of b "- a"] by linarith
  then show ?thesis using b False zmod_zminus1_eq_if [of "- a" b]
    by (simp add: modBig_def smod_neg Let_def)
next
  case True
  assume b: "0 < b"
  then have "\<not> a mod b < 0" using pos_mod_sign [OF b, of a] by (simp only: not_less)
  then show ?thesis using b smod_nonneg [OF True, of b] by (simp add: modBig_def Let_def)
qed

lemma asIntN_signed: "asIntN (Suc n) i = signed_take_bit n i"
proof -
  let ?m = "i mod 2 ^ Suc n"
  have m: "0 \<le> ?m" "?m < 2 ^ Suc n" by auto
  have "(i + 2 ^ n) mod 2 ^ Suc n = (?m + 2 ^ n) mod 2 ^ Suc n" by (simp only: mod_add_left_eq)
  also have "\<dots> = (if ?m < 2 ^ n then ?m + 2 ^ n else ?m - 2 ^ n)"
  proof (cases "?m < 2 ^ n")
    case False
    have "?m + 2 ^ n = ?m - 2 ^ n + 2 ^ Suc n" by simp
    then have "(?m + 2 ^ n) mod 2 ^ Suc n = (?m - 2 ^ n + 2 ^ Suc n) mod 2 ^ Suc n" by (rule arg_cong)
    also have "\<dots> = (?m - 2 ^ n) mod 2 ^ Suc n" by (rule mod_add_self2)
    also have "\<dots> = ?m - 2 ^ n" 
      using False m(2) zero_less_power [of "2 :: int" n] by (intro mod_pos_pos_trivial) linarith+
    finally show ?thesis using False by simp
  qed (use m in simp)
  finally show ?thesis
    by (simp add: asIntN_def Let_def signed_take_bit_eq_take_bit_shift take_bit_eq_mod)
qed
lemma u_range: "0 \<le> uint (x::u256)" "uint x < 2^256"
  using uint_bounded [of x] by auto
lemma uint_of_int: "0 \<le> i \<Longrightarrow> i < 2 ^ 256 \<Longrightarrow> uint (word_of_int i :: u256) = i"
  by (simp add: uint_word_of_int)
lemma uint_small_mod: "uint (x :: u256) mod 2 ^ 256 = uint x"
  by (rule mod_pos_pos_trivial) (use u_range in auto)

lemma w_add: "modBig (uint (x :: u256) + uint y) TWO_POW256 = uint (x + y)"
  by (simp add: modBig_pos uint_word_ariths)

lemma w_sub: "modBig (uint (x :: u256) - uint y) TWO_POW256 = uint (x - y)"
  by (simp add: modBig_pos uint_word_ariths)

lemma w_mul: "modBig (uint (x :: u256) * uint y) TWO_POW256 = uint (x * y)"
  by (simp add: modBig_pos uint_word_ariths)

lemma toTwos_uint: "toTwos i = uint (word_of_int i :: u256)"
  by (simp add: toTwos_def asUintN_def uint_word_of_int)

lemma w_div: "(if uint y = 0 then 0 else modBig (uint (x::u256) sdiv uint y) TWO_POW256) = uint (x div y)"
proof (cases "uint y = 0")
  case False
  have "modBig (uint x sdiv uint y) TWO_POW256 = uint (x div y) mod 2 ^ 256"
    using u_range [of x] u_range[of y] by (simp add: modBig_pos sdiv_nonneg uint_div)
  then show ?thesis using False uint_small_mod [of "x div y"] by simp
qed (simp add: uint_div)
lemma fromTwos_sint: "fromTwos (uint (x::u256)) = sint x"
  using asIntN_signed [of 255 "uint x"] by (simp add: fromTwos_def sint_uint)
lemma uint_pos: "y \<noteq> 0 \<Longrightarrow> 0 < uint (y::u256)"
  using u_range(1)[of y] by (metis order.not_eq_order_implies_strict uint_0_iff)
lemma w_mod: "(if uint y = 0 then uint y else modBig (uint (x::u256)) (uint y)) = uint (if y = 0 then 0 else x mod y)"
  by (cases "y = 0") (auto simp: modBig_pos uint_mod uint_pos dest: uint_pos)
lemma w_modc: "c \<noteq> 0 \<Longrightarrow> modBig i (uint c) = uint (word_of_int (i mod uint c) :: u256)" for c :: u256
proof -
  assume "c \<noteq> 0"
  then have c: "0 < uint c" by (rule uint_pos)
  have "i mod uint c < 2 ^ 256" using pos_mod_bound [OF c, of i] u_range(2) [of c] by (rule less_trans)
  then show ?thesis using c by (simp add: modBig_pos uint_of_int)
qed
lemma w_not: "asUintN 256 (NOT (uint (x::u256))) = uint (NOT x)"
  unfolding asUintN_def take_bit_eq_mod[symmetric] unsigned_not_eq by simp
lemma expLoop_pow: "0 \<le> t \<Longrightarrow> 0 \<le> b \<Longrightarrow> 0 \<le> e \<Longrightarrow> expLoop t b e mod TWO_POW256 = (t * b ^ nat e) mod TWO_POW256"
proof (induction t b e rule: expLoop.induct)
  case (1 t b e)
  show ?case
  proof (cases "e > 0")
    case True
    let ?M = TWO_POW256
    let ?t = "if e smod 2 \<noteq> 0 then (t * b) smod ?M else t"
    have t': "0 \<le> ?t" "?t mod ?M = (if odd e then t * b else t) mod ?M"
      using 1 True by (auto simp: smod_nonneg odd_iff_mod_2_eq_one)
    have b': "0 \<le> (b * b) smod ?M" "(b * b) smod ?M mod ?M = (b * b) mod ?M"
      using 1 by (simp_all add: smod_nonneg)
    have "expLoop t b e = expLoop ?t ((b * b) smod ?M) (e sdiv 2)"
      using True by (simp add: expLoop.simps [of t b e])
    also have "\<dots> mod ?M = (?t * ((b * b) smod ?M) ^ nat (e sdiv 2)) mod ?M"
      by (rule "1.IH" [OF True t'(1) b'(1)]) (use True in \<open>simp add: sdiv_nonneg pos_imp_zdiv_nonneg_iff\<close>)
    also have "\<dots> = ((if odd e then t * b else t) * (b * b) ^ nat (e div 2)) mod ?M"
    proof (rule mod_mult_cong [OF t'(2)])
      have "((b * b) smod ?M) ^ k mod ?M = (b * b) ^ k mod ?M" for k
        by (simp only: power_mod [of "(b * b) smod ?M" ?M k, symmetric] b'(2) power_mod)
      moreover have "e sdiv 2 = e div 2" using True by (simp add: sdiv_nonneg)
      ultimately show "((b * b) smod ?M) ^ nat (e sdiv 2) mod ?M = (b * b) ^ nat (e div 2) mod ?M" by simp
    qed
    also have "(if odd e then t * b else t) * (b * b) ^ nat (e div 2) = t * b ^ nat e"
    proof -
      have "nat e = (if odd e then Suc (2 * nat (e div 2)) else 2 * nat (e div 2))"
        using True by (auto elim!: oddE evenE)
      then show ?thesis by (simp add: power_mult power2_eq_square)
    qed
    finally show ?thesis by simp
  qed (use 1 in \<open>simp add: expLoop.simps [of t b e] expLoop.simps [of t b 0]\<close>)
qed
lemma expLoop_range: "0 \<le> t \<Longrightarrow> 0 \<le> b \<Longrightarrow> t < TWO_POW256 \<Longrightarrow> 0 \<le> expLoop t b e \<and> expLoop t b e < TWO_POW256"
proof (induction t b e rule: expLoop.induct)
  case (1 t b e)
  then show ?case by (subst (1 2) expLoop.simps) (auto simp: smod_nonneg)
qed
lemma exponentiation_power: "0 \<le> b \<Longrightarrow> 0 \<le> e \<Longrightarrow> exponentiation b e = b ^ nat e mod TWO_POW256"
  using expLoop_pow [of 1 b e] expLoop_range [of 1 b e] by (simp add: exponentiation_def)
lemma bigint_shl_push: "0 \<le> n \<Longrightarrow> bigint_shl b n = push_bit (nat n) b"
  by (simp add: bigint_shl_def push_bit_eq_mult)
lemma bigint_shr_drop: "0 \<le> n \<Longrightarrow> bigint_shr b n = drop_bit (nat n) b"
  by (auto simp: bigint_shr_def bigint_shl_def drop_bit_eq_div)
lemma max_mask: "MAX_INTEGER_BIGINT = mask 256"
  by (simp add: mask_eq_exp_minus_1)
lemma uint_unat: "uint (a :: u256) = int (unat a)"
  by (metis nat_uint_eq int_nat_eq u_range(1))
lemma u_gt: "256 < uint (a :: u256) \<longleftrightarrow> 256 < unat a"
  unfolding uint_unat by presburger
lemma u_sub: "unat (a :: u256) \<le> 255 \<Longrightarrow> 255 - uint a = int (255 - unat a)"
  unfolding uint_unat by (simp del: of_nat_unat add: of_nat_diff)
lemma w_shl: "(if uint a > 256 then 0 else bigint_shl (uint b) (uint a) AND MAX_INTEGER_BIGINT) = uint (push_bit (unat a) b)"
  for a b :: u256
proof -
  have "uint (push_bit (unat a) b) = push_bit (unat a) (uint b) AND mask 256"
    by (simp add: unsigned_push_bit_eq take_bit_eq_mask)
  moreover have "push_bit (unat a) b = 0" if "uint a > 256"
  proof -
    have "256 < unat a" using that by (simp add: u_gt)
    then show ?thesis by (intro bit_eqI) (auto simp: bit_push_bit_iff dest: bit_imp_le_length)
  qed
  ultimately show ?thesis
    by (auto simp only: bigint_shl_push max_mask u_range(1) nat_uint_eq if_True if_False unsigned_0 split: if_splits)
qed
lemma w_shr: "(if uint a > 256 then 0 else bigint_shr (uint b) (uint a)) = uint (drop_bit (unat a) b)"
  for a b :: u256
proof -
  have d: "uint (drop_bit (unat a) b) = drop_bit (unat a) (uint b)"
    by (rule bit_eqI) (auto simp: bit_uint_iff bit_drop_bit_eq Bit_Operations.bit_drop_bit_eq dest: bit_imp_le_length)
  moreover have "drop_bit (unat a) b = 0" if "uint a > 256"
  proof -
    have "256 < unat a" using that by (simp add: u_gt)
    then show ?thesis by (intro bit_eqI) (auto simp: bit_drop_bit_eq dest: bit_imp_le_length)
  qed
  ultimately show ?thesis
    by (auto simp only: bigint_shr_drop u_range(1) nat_uint_eq if_True if_False unsigned_0 split: if_splits)
qed
lemma bit_u: "bit (uint (x :: u256)) n \<longleftrightarrow> bit x n"
  by (auto simp: bit_uint_iff dest: bit_imp_le_length)

lemma w_sar:
  fixes a b :: u256
  shows "(let isSigned = asIntN 256 (uint b) < 0 in
      if uint a > 256 then (if isSigned then MAX_INTEGER_BIGINT else 0)
      else let c = bigint_shr (uint b) (uint a) in
        if isSigned then c OR bigint_shl (bigint_shr MAX_INTEGER_BIGINT (255 - uint a)) (255 - uint a)
        else c) = uint (signed_drop_bit (unat a) b)"
proof -
  have sgn: "asIntN 256 (uint b) < 0 \<longleftrightarrow> bit b 255"
    using asIntN_signed [of 255 "uint b"] by (simp add: bit_u)
  have big: "bit (signed_drop_bit n b) i \<longleftrightarrow> i < 256 \<and> bit b (if 256 - n \<le> i then 255 else n + i)" for n i
    by (auto simp: bit_signed_drop_bit_iff dest: bit_imp_le_length)
  show ?thesis
  proof (cases "uint a > 256")
    case True
    then have "256 < unat a" by (simp add: u_gt)
    then have "signed_drop_bit (unat a) b = (if bit b 255 then - 1 else 0)"
      by (intro bit_word_eqI) (auto simp: big)
    then show ?thesis using True sgn by (simp add: Let_def unsigned_minus_1_eq_mask mask_eq_exp_minus_1)
  next
    case False
    then have le: "unat a \<le> 256" by (simp add: u_gt)
    define E where "E = bigint_shl (bigint_shr MAX_INTEGER_BIGINT (255 - uint a)) (255 - uint a)"
    have E_bit: "bit E i \<longleftrightarrow> i < 256 \<and> 255 - unat a \<le> i" for i
    proof (cases "unat a = 256")
      case True
      have "bigint_shl (bigint_shr MAX_INTEGER_BIGINT (- 1)) (- 1) = MAX_INTEGER_BIGINT"
        by (simp add: bigint_shr_def bigint_shl_def)
      moreover have "255 - uint a = - 1" unfolding uint_unat True by simp
      ultimately have "E = mask 256" by (simp only: E_def max_mask)
      then show ?thesis by (simp only:) (auto simp: bit_mask_iff True)
    next
      case False
      then have "255 - uint a = int (255 - unat a)" using le by (intro u_sub) simp
      then have "E = push_bit (255 - unat a) (drop_bit (255 - unat a) (mask 256))"
        by (simp only: E_def bigint_shl_push bigint_shr_drop max_mask of_nat_0_le_iff nat_int)
      then show ?thesis
        by (simp only:) (auto simp: bit_push_bit_iff Bit_Operations.bit_drop_bit_eq bit_mask_iff)
    qed
    have c: "bit (bigint_shr (uint b) (uint a)) i \<longleftrightarrow> bit b (unat a + i)" for i
      by (simp add: bigint_shr_drop u_range Bit_Operations.bit_drop_bit_eq bit_u)
    have edge: "bit b (unat a + i) = bit b 255" if "i < 256 - unat a" "255 - unat a \<le> i" for i
    proof -
      have "unat a + i = 255" using that le by linarith
      then show ?thesis by simp
    qed
    have "(if bit b 255 then bigint_shr (uint b) (uint a) OR E else bigint_shr (uint b) (uint a))
        = uint (signed_drop_bit (unat a) b)"
      by (rule bit_eqI) (use le edge in \<open>auto simp: bit_or_iff E_bit c bit_u big not_le dest: bit_imp_le_length\<close>)
    then show ?thesis using False sgn by (simp only: Let_def if_False E_def)
  qed
qed

lemma w_byte:
  fixes i x :: u256
  shows "(if uint i > 32 then 0 else bigint_shr (uint x) ((31 - uint i) * 8) AND 255) =
    uint (if unat i < 32 then drop_bit (8 * (31 - unat i)) x AND 255 else 0)"
proof -
  consider "32 < unat i" | "unat i = 32" | "unat i < 32" by linarith
  then show ?thesis
  proof cases
    case 1
    then have "32 < uint i" unfolding uint_unat by linarith
    with 1 show ?thesis by simp
  next
    case 2
    then have "uint i = 32" unfolding uint_unat by simp
    moreover have "push_bit 8 (uint x) AND mask 8 = 0"
      by (rule bit_eqI) (auto simp: Bit_Operations.bit_and_iff Bit_Operations.bit_mask_iff bit_push_bit_iff)
    ultimately show ?thesis using 2 by (simp add: bigint_shr_def bigint_shl_push mask_eq_exp_minus_1)
  next
    case 3
    then have "(31 - uint i) * 8 = int (8 * (31 - unat i))" "\<not> 32 < uint i" unfolding uint_unat by (simp del: of_nat_unat, presburger)
    moreover have "drop_bit n (uint x) AND 255 = uint (drop_bit n x AND 255)" for n
      by (rule bit_eqI) (auto simp: bit_uint_iff bit_and_iff Bit_Operations.bit_and_iff bit_drop_bit_eq Bit_Operations.bit_drop_bit_eq bit_u unsigned_and_eq dest: bit_imp_le_length)
    ultimately show ?thesis using 3 by (simp only: bigint_shr_drop of_nat_0_le_iff nat_int if_True if_False)
  qed
qed

lemma w_signextend:
  fixes k x :: u256
  shows "(if uint k < 31 then
       let signBit = uint k * 8 + 7; mask = bigint_shl 1 signBit - 1 in
       if bigint_shr (uint x) signBit AND 1 \<noteq> 0 then uint x OR asUintN 256 (NOT mask) else uint x AND mask
     else uint x) = uint (if unat k < 31 then signed_take_bit (8 * unat k + 7) x else x)"
proof (cases "unat k < 31")
  case True
  let ?n = "8 * unat k + 7"
  have n: "uint k * 8 + 7 = int ?n" "uint k < 31" using True unfolding uint_unat by presburger+
  have m: "bigint_shl 1 (int ?n) - 1 = mask ?n"
    by (simp add: bigint_shl_push push_bit_of_1 mask_eq_exp_minus_1 del: of_nat_add of_nat_mult)
  have b: "bigint_shr (uint x) (int ?n) AND 1 \<noteq> 0 \<longleftrightarrow> bit x ?n"
    by (simp add: bigint_shr_drop and_one_eq odd_iff_mod_2_eq_one [symmetric] bit_u [symmetric] bit_iff_odd_drop_bit del: of_nat_add of_nat_mult)
  have a: "asUintN 256 j = take_bit 256 j" for j by (simp add: asUintN_def take_bit_eq_mod)
  have s: "bit (signed_take_bit ?n x) i \<longleftrightarrow> i < 256 \<and> bit x (min i ?n)" for i
    by (auto simp: Bit_Operations.bit_signed_take_bit_iff possible_bit_def min.commute)
  have "(if bit x ?n then uint x OR take_bit 256 (NOT (mask ?n)) else uint x AND mask ?n) = uint (signed_take_bit ?n x)"
  proof (rule bit_eqI)
    fix i
    show "bit (if bit x ?n then uint x OR take_bit 256 (NOT (mask ?n)) else uint x AND mask ?n) i
        \<longleftrightarrow> bit (uint (signed_take_bit ?n x)) i"
      by (cases "i = ?n") (auto simp: s bit_u Bit_Operations.bit_or_iff Bit_Operations.bit_and_iff
        Bit_Operations.bit_mask_iff bit_not_int_iff Bit_Operations.bit_take_bit_iff min_def dest: bit_imp_le_length)
  qed
  then show ?thesis using True n(2) by (simp only: n(1) m b a Let_def if_True)
next
  case False
  then have "\<not> uint k < 31" unfolding uint_unat by presburger
  with False show ?thesis by simp
qed

lemma bin_length_bounds: "0 < n \<Longrightarrow> 2 ^ (bin_length n - 1) \<le> n \<and> n < 2 ^ bin_length n"
proof (induction n rule: bin_length.induct)
  case (1 n)
  show ?case
  proof (cases "n < 2")
    case False
    then have "2 ^ (bin_length (n div 2) - 1) \<le> n div 2" "n div 2 < 2 ^ bin_length (n div 2)"
      "0 < bin_length (n div 2)" using 1 by (auto simp: bin_length.simps [of "n div 2"])
    then show ?thesis using False by (cases "bin_length (n div 2)") (auto simp: bin_length.simps [of n])
  qed (use 1 in \<open>simp add: bin_length.simps [of n]\<close>)
qed

text \<open>The number of zero bits before the first one bit, from bit 255 down.\<close>

definition leading_zeros :: "u256 \<Rightarrow> nat" where
  "leading_zeros x = length (takeWhile (\<lambda>i. \<not> bit x i) (rev [0..<256]))"

lemma takeWhile_top:
  assumes "m < n" "P m" "\<And>i. m < i \<Longrightarrow> i < n \<Longrightarrow> \<not> P i"
  shows "length (takeWhile (\<lambda>i. \<not> P i) (rev [0..<n])) = n - 1 - m"
  using assms
proof (induction n)
  case (Suc n)
  then show ?case by (cases "m = n") (auto simp: less_Suc_eq Suc_diff_Suc)
qed simp

lemma w_clz: "(if uint x = 0 then 256 else 256 - int (bin_length (nat (uint x)))) = uint (word_of_nat (leading_zeros x) :: u256)"
proof (cases "x = 0")
  case True
  have "leading_zeros x = 256"
    unfolding leading_zeros_def True by (subst takeWhile_eq_all_conv [THEN iffD2]) simp_all
  then show ?thesis using True by simp
next
  case False
  let ?l = "bin_length (unat x)"
  have l: "2 ^ (?l - 1) \<le> unat x" "unat x < 2 ^ ?l" "0 < ?l"
    using bin_length_bounds [of "unat x"] False by (auto simp: unat_gt_0 bin_length.simps [of "unat x"])
  have "2 ^ (?l - 1) < (2 :: nat) ^ 256" 
    by (rule order.strict_trans1 [OF l(1)]) (use unsigned_less [where 'a = nat and w = x] in simp)
  then have le: "?l - 1 < 256" by (rule power_less_imp_less_exp [rotated]) simp
  have u: "bit x i \<longleftrightarrow> odd (unat x div 2 ^ i)" for i
    using bit_iff_odd [of "unat x" i] bit_unsigned_iff [where 'a = nat and w = x and n = i]
    by (auto dest: bit_imp_le_length)
  have "leading_zeros x = 256 - 1 - (?l - 1)"
    unfolding leading_zeros_def
  proof (rule takeWhile_top [OF le])
    have "unat x div 2 ^ (?l - 1) = 1"
      using l by (intro div_nat_eqI) (auto simp: power_eq_if)
    then show "bit x (?l - 1)" using u by simp
    show "\<not> bit x i" if "?l - 1 < i" "i < 256" for i
    proof -
      have "(2::nat) ^ ?l \<le> 2 ^ i" by (rule power_increasing) (use that in auto)
      with l(2) have "unat x < 2 ^ i" by (rule order.strict_trans2)
      then have "unat x div 2 ^ i = 0" by (rule div_less)
      then show ?thesis by (simp add: u)
    qed
  qed
  then have "leading_zeros x = 256 - ?l" using l(3) by simp
  then have "uint (word_of_nat (leading_zeros x) :: u256) = int (256 - ?l)"
    by (simp only: unsigned_of_nat) (simp add: take_bit_nat_eq_self)
  then show ?thesis using False le by (simp add: uint_0_iff)
qed

definition alu :: "(nat \<times> nat \<times> (u256 list \<Rightarrow> u256)) list" where
  "alu =
    [(0x01, 2, \<lambda>v. v ! 0 + v ! 1),
     (0x02, 2, \<lambda>v. v ! 0 * v ! 1),
     (0x03, 2, \<lambda>v. v ! 0 - v ! 1),
     (0x04, 2, \<lambda>v. v ! 0 div v ! 1),
     (0x05, 2, \<lambda>v. word_of_int (sint (v ! 0) sdiv sint (v ! 1))),
     (0x06, 2, \<lambda>v. if v ! 1 = 0 then 0 else v ! 0 mod v ! 1),
     (0x07, 2, \<lambda>v. if v ! 1 = 0 then 0 else word_of_int (sint (v ! 0) smod sint (v ! 1))),
     (0x08, 3, \<lambda>v. if v ! 2 = 0 then 0 else word_of_int ((uint (v ! 0) + uint (v ! 1)) mod uint (v ! 2))),
     (0x09, 3, \<lambda>v. if v ! 2 = 0 then 0 else word_of_int ((uint (v ! 0) * uint (v ! 1)) mod uint (v ! 2))),
     (0x0a, 2, \<lambda>v. v ! 0 ^ unat (v ! 1)),
     (0x0b, 2, \<lambda>v. if unat (v ! 0) < 31 then signed_take_bit (8 * unat (v ! 0) + 7) (v ! 1) else v ! 1),
     (0x10, 2, \<lambda>v. of_bool (v ! 0 < v ! 1)),
     (0x11, 2, \<lambda>v. of_bool (v ! 0 > v ! 1)),
     (0x12, 2, \<lambda>v. of_bool (sint (v ! 0) < sint (v ! 1))),
     (0x13, 2, \<lambda>v. of_bool (sint (v ! 0) > sint (v ! 1))),
     (0x14, 2, \<lambda>v. of_bool (v ! 0 = v ! 1)),
     (0x15, 1, \<lambda>v. of_bool (v ! 0 = 0)),
     (0x16, 2, \<lambda>v. v ! 0 AND v ! 1),
     (0x17, 2, \<lambda>v. v ! 0 OR v ! 1),
     (0x18, 2, \<lambda>v. v ! 0 XOR v ! 1),
     (0x19, 1, \<lambda>v. NOT (v ! 0)),
     (0x1a, 2, \<lambda>v. if unat (v ! 0) < 32 then drop_bit (8 * (31 - unat (v ! 0))) (v ! 1) AND 255 else 0),
     (0x1b, 2, \<lambda>v. push_bit (unat (v ! 0)) (v ! 1)),
     (0x1c, 2, \<lambda>v. drop_bit (unat (v ! 0)) (v ! 1)),
     (0x1d, 2, \<lambda>v. signed_drop_bit (unat (v ! 0)) (v ! 1)),
     (0x1e, 1, \<lambda>v. word_of_nat (leading_zeros (v ! 0)))]"

lemma stackOp_run: "stackOp f s = (case f (rs_stack s) of
     Inl e \<Rightarrow> (Inl (Trap e), s) | Inr (x, st) \<Rightarrow> (Inr x, s\<lparr>rs_stack := st\<rparr>))"
  by (simp add: stackOp_def)

definition computes :: "nat \<Rightarrow> (int list \<Rightarrow> int) \<Rightarrow> ('m, unit) rop \<Rightarrow> bool" where
  "computes n f h \<longleftrightarrow> (\<forall>s. stack_inv (rs_stack s) \<longrightarrow>
     (if length (stack_abs (rs_stack s)) < n then h s = (Inl (Trap STACK_UNDERFLOW), s)
      else \<exists>st. h s = (Inr (), s\<lparr>rs_stack := st\<rparr>) \<and> stack_inv st \<and> maxHeight st = maxHeight (rs_stack s) \<and>
        stack_abs st = f (take n (stack_abs (rs_stack s))) # drop n (stack_abs (rs_stack s))))"

lemma computes_popN:
  assumes "0 < n" shows "computes n f (seqE (popN n) (\<lambda>vs. push (f vs)))"
  unfolding computes_def
proof (intro allI impI)
  fix s :: "'a run_state"
  assume inv: "stack_inv (rs_stack s)"
  let ?xs = "stack_abs (rs_stack s)"
  show "if length ?xs < n then seqE (popN n) (\<lambda>vs. push (f vs)) s = (Inl (Trap STACK_UNDERFLOW), s)
    else \<exists>st. seqE (popN n) (\<lambda>vs. push (f vs)) s = (Inr (), s\<lparr>rs_stack := st\<rparr>) \<and> stack_inv st \<and>
      maxHeight st = maxHeight (rs_stack s) \<and> stack_abs st = f (take n ?xs) # drop n ?xs"
  proof (cases "length ?xs < n")
    case True
    then show ?thesis using st.popN_underflow [OF inv True] by (simp add: seqE_run popN_def stackOp_run)
  next
    case False
    then obtain s1 s2 where "st_popN n (rs_stack s) = Inr (take n ?xs, s1)" "st_push (f (take n ?xs)) s1 = Inr s2"
      "stack_inv s2" "stack_abs s2 = f (take n ?xs) # drop n ?xs" "maxHeight s2 = maxHeight (rs_stack s)"
      using st.popN_push [OF inv assms, of "f (take n ?xs)"] by (auto simp: not_less)
    then show ?thesis using False by (auto simp: seqE_run popN_def push_def stackOp_run)
  qed
qed

lemma computes_binop: "computes 2 (\<lambda>vs. f (vs ! 0) (vs ! 1)) (binop f)"
  unfolding binop_def by (rule computes_popN) simp
lemma computes_terop: "computes 3 (\<lambda>vs. f (vs ! 0) (vs ! 1) (vs ! 2)) (terop f)"
  unfolding terop_def by (rule computes_popN) simp
lemma pop_popN: "st_pop s = and_then (st_popN 1 s) (\<lambda>(vs, s'). Inr (vs ! 0, s'))"
  by (auto simp: st_pop_def st_popN_def Let_def)
lemma computes_unop: "computes 1 (\<lambda>vs. f (vs ! 0)) (unop f :: ('m, unit) rop)"
proof -
  have "(unop f :: ('m, unit) rop) = seqE (popN 1) (\<lambda>vs. push (f (vs ! 0)))"
    by (auto simp: unop_def seqE_run fun_eq_iff pop_def popN_def stackOp_run pop_popN split: sum.splits)
  then show ?thesis by (simp only:) (rule computes_popN, simp)
qed


lemma w_power: "uint ((x :: u256) ^ n) = uint x ^ n mod TWO_POW256"
proof -
  have "x ^ n = word_of_int (uint x ^ n)" by simp
  then show ?thesis by (simp only: uint_word_of_int) simp
qed

lemma if_cascade:
  assumes "a \<Longrightarrow> b1 \<Longrightarrow> p1 = r" "a \<Longrightarrow> b2 \<Longrightarrow> p2 = r" "a \<Longrightarrow> b3 \<Longrightarrow> p3 = r"
    "c \<Longrightarrow> q = r" "d \<Longrightarrow> \<not> c \<Longrightarrow> u = r" "e = r"
  shows "(if a \<and> b1 then p1 else if a \<and> b2 then p2 else if a \<and> b3 then p3 else if c then q
    else if d then u else e) = r"
  using assms by auto

lemma w_exp:
  fixes x y :: u256
  shows "(if uint x = 2 \<and> uint y = 96 then 2 ^ 96
     else if uint x = 2 \<and> uint y = 160 then 2 ^ 160
     else if uint x = 2 \<and> uint y = 224 then 2 ^ 224
     else if uint y = 0 then 1
     else if uint x = 0 then uint x
     else exponentiation (uint x) (uint y)) = uint (x ^ unat y)"
proof (rule if_cascade)
  have y: "unat y = nat (uint y)" by simp
  have two: "2 ^ k = uint (x ^ unat y)" if "uint x = 2" "uint y = int k" "(2::int) ^ k < 2 ^ 256" for k
    using that unfolding w_power y by (simp del: nat_uint_eq)
  show "2 ^ 96 = uint (x ^ unat y)" if "uint x = 2" "uint y = 96" using two [of 96] that by simp
  show "2 ^ 160 = uint (x ^ unat y)" if "uint x = 2" "uint y = 160" using two [of 160] that by simp
  show "2 ^ 224 = uint (x ^ unat y)" if "uint x = 2" "uint y = 224" using two [of 224] that by simp
  show "1 = uint (x ^ unat y)" if "uint y = 0" using that unfolding w_power y by simp
  show "uint x = uint (x ^ unat y)" if "uint x = 0" "uint y \<noteq> 0"
  proof -
    have "0 < nat (uint y)" using that(2) u_range(1) [of y] by linarith
    then show ?thesis using that(1) unfolding w_power y by (simp add: zero_power del: nat_uint_eq)
  qed
  show "exponentiation (uint x) (uint y) = uint (x ^ unat y)"
    unfolding w_power y by (rule exponentiation_power) (rule u_range)+
qed

definition alu_ok :: "nat \<Rightarrow> (int list \<Rightarrow> int) \<Rightarrow> (u256 list \<Rightarrow> u256) \<Rightarrow> bool" where
  "alu_ok n f g \<longleftrightarrow> (\<forall>ws. length ws = n \<longrightarrow> f (map uint ws) = uint (g ws))"

definition alu_step :: "'m ctx \<Rightarrow> nat \<Rightarrow> nat \<Rightarrow> (u256 list \<Rightarrow> u256) \<Rightarrow> bool" where
  "alu_step C code n g \<longleftrightarrow> (\<exists>f h. opHandler C code = Some h \<and> computes n f h \<and> alu_ok n f g)"

lemma alu_stepI: "opHandler C code = Some h \<Longrightarrow> computes n f h \<Longrightarrow> alu_ok n f g \<Longrightarrow> alu_step C code n g"
  unfolding alu_step_def by blast

lemma alu_unop:
  assumes "opHandler C code = Some (unop f)" "\<And>x :: u256. f (uint x) = uint (g [x])"
  shows "alu_step C code 1 g"
  by (rule alu_stepI [OF assms(1) computes_unop]) (auto simp: alu_ok_def length_Suc_conv assms(2))

lemma alu_binop:
  assumes "opHandler C code = Some (binop f)" "\<And>x y :: u256. f (uint x) (uint y) = uint (g [x, y])"
  shows "alu_step C code 2 g"
  by (rule alu_stepI [OF assms(1) computes_binop]) (auto simp: alu_ok_def length_Suc_conv numeral_2_eq_2 assms(2))

lemma alu_terop:
  assumes "opHandler C code = Some (terop f)" "\<And>x y z :: u256. f (uint x) (uint y) (uint z) = uint (g [x, y, z])"
  shows "alu_step C code 3 g"
  by (rule alu_stepI [OF assms(1) computes_terop]) (auto simp: alu_ok_def length_Suc_conv numeral_3_eq_3 assms(2))

lemma alu_step_run:
  assumes "alu_step C code n g" "stack_inv (rs_stack s)" "map uint ws = stack_abs (rs_stack s)"
  shows "\<exists>h. opHandler C code = Some h \<and>
    (if length ws < n then h s = (Inl (Trap STACK_UNDERFLOW), s)
     else \<exists>st. h s = (Inr (), s\<lparr>rs_stack := st\<rparr>) \<and> stack_inv st \<and>
       stack_abs st = map uint (g (take n ws) # drop n ws))"
proof -
  obtain f h where h: "opHandler C code = Some h" "computes n f h" "alu_ok n f g"
    using assms(1) by (auto simp: alu_step_def)
  have "f (take n (map uint ws)) = uint (g (take n ws))" if "n \<le> length ws"
    using h(3) that by (auto simp: alu_ok_def take_map)
  moreover have len: "length (stack_abs (rs_stack s)) = length ws" by (metis assms(3) length_map)
  moreover have "if length (stack_abs (rs_stack s)) < n then h s = (Inl (Trap STACK_UNDERFLOW), s)
      else \<exists>st. h s = (Inr (), s\<lparr>rs_stack := st\<rparr>) \<and> stack_inv st \<and> maxHeight st = maxHeight (rs_stack s) \<and>
        stack_abs st = f (take n (stack_abs (rs_stack s))) # drop n (stack_abs (rs_stack s))"
    using h(2) assms(2) unfolding computes_def by blast
  ultimately show ?thesis using h(1) by (auto simp: not_less drop_map assms(3) [symmetric])
qed


lemma alu_arg: "[x] ! 0 = x" "[x, y] ! 0 = x" "[x, y] ! 1 = y"
  "[x, y, z] ! 0 = x" "[x, y, z] ! 1 = y" "[x, y, z] ! 2 = z"
  by simp_all

lemma w_zero: "uint (x :: u256) = 0 \<longleftrightarrow> x = 0"
  by (rule uint_0_iff)

lemma w_sdiv: "(if uint (y :: u256) = 0 then 0 else toTwos (fromTwos (uint (x :: u256)) sdiv fromTwos (uint y))) =
    uint (word_of_int (sint x sdiv sint y) :: u256)"
  by (auto simp: toTwos_uint fromTwos_sint w_zero)

lemma w_smod: "toTwos (if uint (y :: u256) = 0 then uint y else fromTwos (uint (x :: u256)) smod fromTwos (uint y)) =
    uint (if y = 0 then 0 else word_of_int (sint x smod sint y) :: u256)"
  by (auto simp: toTwos_uint fromTwos_sint w_zero)

lemma w_addmod: "(if uint (z :: u256) = 0 then 0 else modBig i (uint z)) =
    uint (if z = 0 then 0 else word_of_int (i mod uint z) :: u256)"
  by (simp add: w_zero w_modc)

lemma w_bool: "(uint (x :: u256) < uint y) = (x < y)" "(fromTwos (uint x) < fromTwos (uint y)) = (sint x < sint y)"
  "(uint x = uint y) = (x = y)" "(if P then 1 else 0) = uint (of_bool P :: u256)"
  by (simp_all add: fromTwos_sint word_less_def word_uint_eq_iff [symmetric])

lemma w_bits: "uint (x :: u256) AND uint y = uint (x AND y)" "uint x OR uint y = uint (x OR y)"
  "uint x XOR uint y = uint (x XOR y)"
  by (simp_all add: unsigned_and_eq unsigned_or_eq unsigned_xor_eq)

lemma alu_steps: "list_all (\<lambda>(code, n, g). alu_step C code n g) alu"
proof -
  note H = opHandler_def handlers_def
  have A: "opHandler C 0x01 = Some op_ADD" "opHandler C 0x02 = Some op_MUL" "opHandler C 0x03 = Some op_SUB"
    "opHandler C 0x04 = Some op_DIV" "opHandler C 0x05 = Some op_SDIV" "opHandler C 0x06 = Some op_MOD"
    "opHandler C 0x07 = Some op_SMOD" "opHandler C 0x08 = Some op_ADDMOD" "opHandler C 0x09 = Some op_MULMOD"
    "opHandler C 0x0a = Some op_EXP" "opHandler C 0x0b = Some op_SIGNEXTEND"
    by (simp_all add: H)
  have B: "opHandler C 0x10 = Some op_LT" "opHandler C 0x11 = Some op_GT" "opHandler C 0x12 = Some op_SLT"
    "opHandler C 0x13 = Some op_SGT" "opHandler C 0x14 = Some op_EQ" "opHandler C 0x15 = Some op_ISZERO"
    "opHandler C 0x16 = Some op_AND" "opHandler C 0x17 = Some op_OR" "opHandler C 0x18 = Some op_XOR"
    "opHandler C 0x19 = Some op_NOT" "opHandler C 0x1a = Some op_BYTE" "opHandler C 0x1b = Some op_SHL"
    "opHandler C 0x1c = Some op_SHR" "opHandler C 0x1d = Some op_SAR" "opHandler C 0x1e = Some op_CLZ"
    by (simp_all add: H)
  show ?thesis
    unfolding alu_def list.pred_inject case_prod_conv
  proof (intro conjI TrueI)
    show "alu_step C 0x01 2 (\<lambda>v. v ! 0 + v ! 1)"
      by (rule alu_binop [OF A(1) [unfolded op_ADD_def]]) (simp only: alu_arg w_add)
    show "alu_step C 0x02 2 (\<lambda>v. v ! 0 * v ! 1)"
      by (rule alu_binop [OF A(2) [unfolded op_MUL_def]]) (simp only: alu_arg w_mul)
    show "alu_step C 0x03 2 (\<lambda>v. v ! 0 - v ! 1)"
      by (rule alu_binop [OF A(3) [unfolded op_SUB_def]]) (simp only: alu_arg w_sub)
    show "alu_step C 0x04 2 (\<lambda>v. v ! 0 div v ! 1)"
      by (rule alu_binop [OF A(4) [unfolded op_DIV_def]]) (simp only: alu_arg w_div)
    show "alu_step C 0x05 2 (\<lambda>v. word_of_int (sint (v ! 0) sdiv sint (v ! 1)))"
      by (rule alu_binop [OF A(5) [unfolded op_SDIV_def]]) (simp only: alu_arg w_sdiv)
    show "alu_step C 0x06 2 (\<lambda>v. if v ! 1 = 0 then 0 else v ! 0 mod v ! 1)"
      by (rule alu_binop [OF A(6) [unfolded op_MOD_def]]) (simp only: alu_arg w_mod)
    show "alu_step C 0x07 2 (\<lambda>v. if v ! 1 = 0 then 0 else word_of_int (sint (v ! 0) smod sint (v ! 1)))"
      by (rule alu_binop [OF A(7) [unfolded op_SMOD_def]]) (simp only: alu_arg w_smod)
    show "alu_step C 0x08 3 (\<lambda>v. if v ! 2 = 0 then 0 else word_of_int ((uint (v ! 0) + uint (v ! 1)) mod uint (v ! 2)))"
      by (rule alu_terop [OF A(8) [unfolded op_ADDMOD_def]]) (simp only: alu_arg w_addmod)
    show "alu_step C 0x09 3 (\<lambda>v. if v ! 2 = 0 then 0 else word_of_int ((uint (v ! 0) * uint (v ! 1)) mod uint (v ! 2)))"
      by (rule alu_terop [OF A(9) [unfolded op_MULMOD_def]]) (simp only: alu_arg w_addmod)
    show "alu_step C 0x0a 2 (\<lambda>v. v ! 0 ^ unat (v ! 1))"
      by (rule alu_binop [OF A(10) [unfolded op_EXP_def]]) (simp only: alu_arg w_exp)
    show "alu_step C 0x0b 2 (\<lambda>v. if unat (v ! 0) < 31 then signed_take_bit (8 * unat (v ! 0) + 7) (v ! 1) else v ! 1)"
      by (rule alu_binop [OF A(11) [unfolded op_SIGNEXTEND_def]]) (simp only: alu_arg w_signextend)
    show "alu_step C 0x10 2 (\<lambda>v. of_bool (v ! 0 < v ! 1))"
      by (rule alu_binop [OF B(1) [unfolded op_LT_def]]) (simp only: alu_arg w_bool w_zero)
    show "alu_step C 0x11 2 (\<lambda>v. of_bool (v ! 0 > v ! 1))"
      by (rule alu_binop [OF B(2) [unfolded op_GT_def]]) (simp only: alu_arg w_bool w_zero)
    show "alu_step C 0x12 2 (\<lambda>v. of_bool (sint (v ! 0) < sint (v ! 1)))"
      by (rule alu_binop [OF B(3) [unfolded op_SLT_def]]) (simp only: alu_arg w_bool w_zero)
    show "alu_step C 0x13 2 (\<lambda>v. of_bool (sint (v ! 0) > sint (v ! 1)))"
      by (rule alu_binop [OF B(4) [unfolded op_SGT_def]]) (simp only: alu_arg w_bool w_zero)
    show "alu_step C 0x14 2 (\<lambda>v. of_bool (v ! 0 = v ! 1))"
      by (rule alu_binop [OF B(5) [unfolded op_EQ_def]]) (simp only: alu_arg w_bool w_zero)
    show "alu_step C 0x15 1 (\<lambda>v. of_bool (v ! 0 = 0))"
      by (rule alu_unop [OF B(6) [unfolded op_ISZERO_def]]) (simp only: alu_arg w_bool w_zero)
    show "alu_step C 0x16 2 (\<lambda>v. v ! 0 AND v ! 1)"
      by (rule alu_binop [OF B(7) [unfolded op_AND_def]]) (simp only: alu_arg w_bits)
    show "alu_step C 0x17 2 (\<lambda>v. v ! 0 OR v ! 1)"
      by (rule alu_binop [OF B(8) [unfolded op_OR_def]]) (simp only: alu_arg w_bits)
    show "alu_step C 0x18 2 (\<lambda>v. v ! 0 XOR v ! 1)"
      by (rule alu_binop [OF B(9) [unfolded op_XOR_def]]) (simp only: alu_arg w_bits)
    show "alu_step C 0x19 1 (\<lambda>v. NOT (v ! 0))"
      by (rule alu_unop [OF B(10) [unfolded op_NOT_def]]) (simp only: alu_arg w_not)
    show "alu_step C 0x1a 2 (\<lambda>v. if unat (v ! 0) < 32 then drop_bit (8 * (31 - unat (v ! 0))) (v ! 1) AND 255 else 0)"
      by (rule alu_binop [OF B(11) [unfolded op_BYTE_def]]) (simp only: alu_arg w_byte)
    show "alu_step C 0x1b 2 (\<lambda>v. push_bit (unat (v ! 0)) (v ! 1))"
      by (rule alu_binop [OF B(12) [unfolded op_SHL_def]]) (simp only: alu_arg w_shl)
    show "alu_step C 0x1c 2 (\<lambda>v. drop_bit (unat (v ! 0)) (v ! 1))"
      by (rule alu_binop [OF B(13) [unfolded op_SHR_def]]) (simp only: alu_arg w_shr)
    show "alu_step C 0x1d 2 (\<lambda>v. signed_drop_bit (unat (v ! 0)) (v ! 1))"
      by (rule alu_binop [OF B(14) [unfolded op_SAR_def]]) (simp only: alu_arg Let_def w_sar [unfolded Let_def])
    show "alu_step C 0x1e 1 (\<lambda>v. word_of_nat (leading_zeros (v ! 0)))"
      by (rule alu_unop [OF B(15) [unfolded op_CLZ_def]]) (simp only: alu_arg w_clz)
  qed simp
qed

text \<open>
  C15. The arithmetic, comparison and bit opcodes ADD to SIGNEXTEND and LT to CLZ are the
  operations of 256-bit words in \<open>alu\<close>: on a stack of words each pops its operands and pushes
  the word the operation gives, and changes nothing else of the frame; with too few operands it
  ends with a stack underflow and changes nothing at all.
\<close>

theorem arith_ops_words:
  assumes "(code, n, g) \<in> set alu" and "stack_inv (rs_stack s)" and "map uint ws = stack_abs (rs_stack s)"
  shows "\<exists>h. opHandler C code = Some h \<and>
    (if length ws < n then h s = (Inl (Trap STACK_UNDERFLOW), s)
     else \<exists>st. h s = (Inr (), s\<lparr>rs_stack := st\<rparr>) \<and> stack_inv st \<and>
       stack_abs st = map uint (g (take n ws) # drop n ws))"
proof -
  have "alu_step C code n g" using alu_steps [of C] assms(1) by (auto simp: list_all_iff)
  then show ?thesis using assms(2, 3) by (rule alu_step_run)
qed

definition stack_of :: "int list \<Rightarrow> evm_stack" where
  "stack_of xs = \<lparr>store = xs, maxHeight = 1024, len = length xs\<rparr>"

theorem arith_ops_words_witness:
  "\<forall>(C :: unit ctx) e w. \<exists>h st. opHandler C 0x05 = Some h \<and> stack_abs st = [2 ^ 256 - 14, 9] \<and>
     h ((newRunState e 0 0 [] w)\<lparr>rs_stack := stack_of [9, 7, 2 ^ 256 - 100]\<rparr>) =
       (Inr (), (newRunState e 0 0 [] w)\<lparr>rs_stack := st\<rparr>)"
proof (intro allI)
  fix C :: "unit ctx" and e and w :: "unit world"
  let ?s = "(newRunState e 0 0 [] w)\<lparr>rs_stack := stack_of [9, 7, 2 ^ 256 - 100]\<rparr>"
  let ?g = "\<lambda>v :: u256 list. word_of_int (sint (v ! 0) sdiv sint (v ! 1)) :: u256"
  have g: "(0x05, 2, ?g) \<in> set alu" by (simp add: alu_def)
  have inv: "stack_inv (rs_stack ?s)" by (simp add: stack_inv_def stack_of_def)
  define ws :: "u256 list" where "ws = [- 100, 7, 9]"
  have ws: "map uint ws = stack_abs (rs_stack ?s)" by (simp add: stack_abs_def stack_of_def ws_def)
  have r: "\<not> length ws < 2" "map uint (?g (take 2 ws) # drop 2 ws) = [2 ^ 256 - 14, 9]"
    by (simp_all add: ws_def)
  obtain h where h: "opHandler C 0x05 = Some h" "if length ws < 2 then h ?s = (Inl (Trap STACK_UNDERFLOW), ?s)
      else \<exists>st. h ?s = (Inr (), ?s\<lparr>rs_stack := st\<rparr>) \<and> stack_inv st \<and>
        stack_abs st = map uint (?g (take 2 ws) # drop 2 ws)"
    using arith_ops_words [OF g inv ws, of C] by blast
  then obtain st where "h ?s = (Inr (), ?s\<lparr>rs_stack := st\<rparr>)" "stack_abs st = [2 ^ 256 - 14, 9]"
    using r by (simp only: if_False) blast
  then show "\<exists>h st. opHandler C 0x05 = Some h \<and> stack_abs st = [2 ^ 256 - 14, 9] \<and>
      h ?s = (Inr (), (newRunState e 0 0 [] w)\<lparr>rs_stack := st\<rparr>)"
    using h(1) by auto
qed

end
