(* ===== verification/EvmFrame.thy ===== *)
theory EvmFrame
  imports EvmLoop
begin

text \<open>
  What every opcode handler respects. The locale \<open>frame_relation\<close> is the contract of a relation
  between the frame before and after a computation: the steps the handlers are made of respect
  it, so all handlers do. \<open>EvmControl\<close> uses it for the code and the program counter. \<open>ok\<close> says which amounts of gas may be charged.
\<close>

definition may :: "('s, 'e, 'a) eff \<Rightarrow> 'a \<Rightarrow> bool" where
  "may m x \<longleftrightarrow> (\<exists>s s'. m s = (Inr x, s'))"

lemma mayI: "m s = (Inr x, s') \<Longrightarrow> may m x"
  by (auto simp: may_def)

lemma may_seqE: "may (seqE m f) y \<Longrightarrow> \<exists>x. may m x \<and> may (f x) y"
  unfolding may_def seqE_def by (fastforce split: prod.splits sum.splits)

lemma may_ret [simp]: "may (ret x) y \<longleftrightarrow> y = x"
  by (auto simp: may_def)

lemma may_fails [simp]: "\<not> may (raise e) y" "\<not> may (trap te) y"
  by (auto simp: may_def trap_def)

text \<open>Opcodes whose handlers move the program counter, and those that add a stipend to the gas.\<close>

definition pcOpcodes :: "nat set" where
  "pcOpcodes = {0x56, 0x57, 0xd1, 0xe0, 0xe1, 0xe2, 0xe3, 0xe4, 0xe5, 0xe6, 0xe7, 0xe8, 0xec} \<union> {0x60..0x7f}"

definition stipendOpcodes :: "nat set" where
  "stipendOpcodes = {0xf1, 0xf2}"

text \<open>The world after a call of the state manager.\<close>

definition after :: "('m, js_error, 'a) eff \<Rightarrow> 'm world \<Rightarrow> 'm world" where
  "after m w = w\<lparr>wd_journal := (wd_journal w)\<lparr>j_state := snd (m (j_state (wd_journal w)))\<rparr>\<rparr>"

named_theorems frame_intros \<open>rules by which a computation respects the relation of a frame\<close>

locale frame_relation =
  fixes R :: "'m run_state \<Rightarrow> 'm run_state \<Rightarrow> bool" and W :: "'m world \<Rightarrow> 'm world \<Rightarrow> bool"
    and ok :: "int \<Rightarrow> bool" and C :: "'m ctx"
  assumes R_refl: "R s s"
    and R_trans: "R s s' \<Longrightarrow> R s' s'' \<Longrightarrow> R s s''"
    and R_stack: "R s (s\<lparr>rs_stack := st\<rparr>)"
    and R_memory: "R s (s\<lparr>rs_memory := mem\<rparr>)"
    and R_wordCount: "R s (s\<lparr>rs_memoryWordCount := n\<rparr>)"
    and R_memCost: "R s (s\<lparr>rs_highestMemCost := n\<rparr>)"
    and R_world: "W (rs_world s) w \<Longrightarrow> R s (s\<lparr>rs_world := w\<rparr>)"
    and R_result: "R s (s\<lparr>rs_result := r\<rparr>)"
    and R_contract: "R s (s\<lparr>rs_env := (rs_env s)\<lparr>e_contract := a\<rparr>\<rparr>)"
    and R_eof: "R s (s\<lparr>rs_env := (rs_env s)\<lparr>e_eof := map_option f (e_eof (rs_env s))\<rparr>\<rparr>)"
    and R_returnBytes: "R s (s\<lparr>rs_returnBytes := bs\<rparr>)"
    and R_messageGasLimit: "R s (s\<lparr>rs_messageGasLimit := gl\<rparr>)"
    and R_createOog: "R s (s\<lparr>rs_createOog := b\<rparr>)"
    and R_callOog: "R s (s\<lparr>rs_callOog := co\<rparr>)"
    and R_gasRefund: "R s (s\<lparr>rs_gasRefund := n\<rparr>)"
    and R_useGas: "ok amount \<Longrightarrow> R s (snd (useGas amount s))"
    and ok_pos: "0 < x \<Longrightarrow> ok x"
    and ok_witness: "ok (cx_witnessGas C ws wc)"
    and ok_runCall: "cx_runCall C msg w = (Inr cr, w') \<Longrightarrow> ok (cr_executionGasUsed cr)"
    and W_runCall: "0 < ms_depth msg \<Longrightarrow> cx_runCall C msg w = (Inr cr, w') \<Longrightarrow> W w w'"
    and W_vars: "W w (w\<lparr>wd_vars := v\<rparr>)"
    and W_bal: "W w (w\<lparr>wd_bal := bl\<rparr>)"
    and W_witness: "W w (w\<lparr>wd_witness := wi\<rparr>)"
    and W_transient: "W w (w\<lparr>wd_transient := snd (ts_put N ad sk sv (wd_transient w))\<rparr>)"
    and W_warmAddress: "W w (w\<lparr>wd_journal := addWarmedAddress N ad (wd_journal w)\<rparr>)"
    and W_warmStorage: "W w (w\<lparr>wd_journal := snd (addWarmedStorage N ad sk (wd_journal w))\<rparr>)"
    and W_putAccount: "W w (w\<lparr>wd_journal := snd (j_putAccount N (managerOf C) ad ac (wd_journal w))\<rparr>)"
    and W_getAccount: "W w (after (m_getAccount (cx_manager C) ad) w)"
    and W_getCode: "W w (after (m_getCode (cx_manager C) ad) w)"
    and W_getStorage: "W w (after (m_getStorage (cx_manager C) ad sk) w)"
    and W_originalStorage: "W w (after (m_originalStorage (cx_manager C) ad sk) w)"
    and W_checkChunk: "W w (after (m_checkChunkWitnessPresent (cx_manager C) ad i) w)"
    and W_putStorage: "W w (after (m_putStorage (cx_manager C) ad sk sv) w)"
    and W_modify: "W w (after (m_modifyAccountFields (cx_manager C) ad fs) w)"
begin

text \<open>A computation respects the relation unless it throws an error of the language.\<close>

definition steps :: "('m, 'a) rop \<Rightarrow> bool" where
  "steps m \<longleftrightarrow> (\<forall>s. (\<forall>je. fst (m s) \<noteq> Inl (Throw je)) \<longrightarrow> R s (snd (m s)))"

lemma stepsI: "(\<And>s. R s (snd (m s))) \<Longrightarrow> steps m"
  by (simp add: steps_def)

lemma stepsD: "steps m \<Longrightarrow> m s = (r, s') \<Longrightarrow> (\<And>je. r \<noteq> Inl (Throw je)) \<Longrightarrow> R s s'"
  by (metis steps_def fst_conv snd_conv)

lemma steps_seqE:
  assumes "steps m" and "\<And>x. may m x \<Longrightarrow> steps (f x)"
  shows "steps (seqE m f)"
  unfolding steps_def
proof (intro allI impI)
  fix s assume n: "\<forall>je. fst (seqE m f s) \<noteq> Inl (Throw je)"
  obtain r s' where m: "m s = (r, s')" by (cases "m s")
  then have "R s s'" using stepsD [OF assms(1) m] n by (cases r) (auto simp: seqE_run)
  moreover have "R s' (snd (f x s'))" if "r = Inr x" for x
    using stepsD [OF assms(2) [OF mayI]] m n that by (metis prod.collapse seqE_Inr)
  ultimately show "R s (snd (seqE m f s))"
    using m by (cases r) (auto simp: seqE_run intro: R_trans)
qed

lemma steps_pure: "steps (ret x)" "steps (raise e)" "steps (trap te)" "steps (getE g)" "steps (resE r)"
    "steps (throwing q)" "steps (paramOf C n)"
  by (auto intro!: stepsI R_refl simp: trap_def throwing_def paramOf_def)

lemma steps_if: "(c \<Longrightarrow> steps m) \<Longrightarrow> (\<not> c \<Longrightarrow> steps m') \<Longrightarrow> steps (if c then m else m')"
  by simp

lemma steps_whenE: "(c \<Longrightarrow> steps m) \<Longrightarrow> steps (whenE c m)"
  by (auto simp: whenE_def steps_pure)

lemma steps_option: "(v = None \<Longrightarrow> steps m) \<Longrightarrow> (\<And>x. v = Some x \<Longrightarrow> steps (f x)) \<Longrightarrow>
    steps (case v of None \<Rightarrow> m | Some x \<Rightarrow> f x)"
  by (cases v) auto

lemma steps_sum: "(\<And>x. v = Inl x \<Longrightarrow> steps (g x)) \<Longrightarrow> (\<And>x. v = Inr x \<Longrightarrow> steps (f x)) \<Longrightarrow>
    steps (case v of Inl x \<Rightarrow> g x | Inr x \<Rightarrow> f x)"
  by (cases v) auto

lemma steps_prod: "(\<And>x y. v = (x, y) \<Longrightarrow> steps (f x y)) \<Longrightarrow> steps (case v of (x, y) \<Rightarrow> f x y)"
  by (cases v) auto

lemma steps_sstore_cost: "steps m1 \<Longrightarrow> steps m2 \<Longrightarrow> steps m3 \<Longrightarrow>
    steps (case v of Noop \<Rightarrow> m1 | InitRefund \<Rightarrow> m2 | CleanRefund \<Rightarrow> m3)"
  by (cases v) auto

lemma steps_Let: "steps (f v) \<Longrightarrow> steps (Let v f)"
  by simp

lemma steps_stackOp: "steps (stackOp f)" "steps (popN n)" "steps pop" "steps (push v)" "steps (peek n)"
    "steps (stackDo g)"
proof -
  show *: "steps (stackOp f)" for f :: "evm_stack \<Rightarrow> evm_error + 'x \<times> evm_stack"
    by (rule stepsI) (auto simp: stackOp_def R_refl R_stack split: sum.splits)
  show "steps (popN n)" "steps pop" "steps (push v)" "steps (peek n)" "steps (stackDo g)"
    by (simp_all add: popN_def pop_def push_def peek_def stackDo_def *)
qed

lemma steps_worldOp: "(\<And>w r w'. m w = (Inr r, w') \<Longrightarrow> W w w') \<Longrightarrow> steps (worldOp m)"
  unfolding steps_def
proof (intro allI impI)
  fix s :: "'m run_state"
  assume W: "\<And>w r w'. m w = (Inr r, w') \<Longrightarrow> W w w'" and n: "\<forall>je. fst (worldOp m s) \<noteq> Inl (Throw je)"
  obtain r w where m: "m (rs_world s) = (r, w)" by (cases "m (rs_world s)")
  then obtain x where r: "r = Inr x" using n by (cases r) (auto simp: worldOp_def)
  have "R s (s\<lparr>rs_world := w\<rparr>)" using W [of "rs_world s"] m r by (simp add: R_world)
  then show "R s (snd (worldOp m s))" using m r by (simp add: worldOp_def)
qed

lemma steps_journalOp: "(\<And>w. W w (w\<lparr>wd_journal := snd (m (wd_journal w))\<rparr>)) \<Longrightarrow> steps (journalOp m)"
  unfolding journalOp_def by (rule steps_worldOp) (auto simp: split_beta)

lemma steps_managerOp: "(\<And>w. W w (after m w)) \<Longrightarrow> steps (managerOp m)"
  unfolding managerOp_def by (rule steps_journalOp) (simp add: stateE_def split_beta after_def)

lemma steps_runCall: "0 < ms_depth msg \<Longrightarrow> steps (worldOp (cx_runCall C msg))"
  by (rule steps_worldOp) (rule W_runCall)

lemma steps_world: "steps (onVars g)" "steps (balCall b)" "steps (addWitness wc)"
    "steps (journalOp (updE (addWarmedAddress N ad)))" "steps (journalOp (addWarmedStorage N ad sk))"
    "steps (journalOp (j_putAccount N (managerOf C) ad ac))"
  by (rule steps_journalOp stepsI, simp add: onVars_def balCall_def addWitness_def
      R_world W_vars W_bal W_witness W_warmAddress W_warmStorage W_putAccount)+

lemma steps_manager: "steps (managerOp (m_getAccount (cx_manager C) a))" "steps (managerOp (m_getCode (cx_manager C) a))"
    "steps (managerOp (m_getStorage (cx_manager C) a k))" "steps (managerOp (m_originalStorage (cx_manager C) a k))"
    "steps (managerOp (m_checkChunkWitnessPresent (cx_manager C) a i))" "steps (managerOp (m_putStorage (cx_manager C) a k x))"
    "steps (managerOp (m_modifyAccountFields (cx_manager C) a fs))"
  by (rule steps_managerOp, simp add: W_getAccount W_getCode W_getStorage W_originalStorage W_checkChunk W_putStorage W_modify)+

lemma steps_memOp: "steps (memOp m)"
  by (rule stepsI) (auto simp: memOp_def R_memory split: prod.splits sum.splits)

lemma steps_updates: "steps (onResult g)" "steps clearReturn" "steps (refundGas x)" "steps (subRefund x)"
    "steps (finish bs)" "steps (revertFrame bs)" "steps (pushLog l)" "steps (onEof h)"
  by (auto simp: onResult_def clearReturn_def refundGas_def subRefund_def finish_def revertFrame_def
      pushLog_def onEof_def R_result R_returnBytes R_gasRefund R_eof steps_pure
      intro!: stepsI intro: R_refl R_trans [OF R_gasRefund R_gasRefund]
      simp: seqE_run trap_def)

lemma steps_updE:
  "steps (updE (\<lambda>s. s\<lparr>rs_env := (rs_env s)\<lparr>e_contract := a\<rparr>\<rparr>))"
  "steps (updE (\<lambda>s. s\<lparr>rs_env := (rs_env s)\<lparr>e_contract := a\<rparr>, rs_gasRefund := n\<rparr>))"
  "steps (updE (\<lambda>s. s\<lparr>rs_returnBytes := bs\<rparr>))"
  "steps (updE (\<lambda>s. s\<lparr>rs_messageGasLimit := gl\<rparr>))"
  "steps (updE (\<lambda>s. s\<lparr>rs_messageGasLimit := gl, rs_createOog := b\<rparr>))"
  "steps (updE (\<lambda>s. s\<lparr>rs_createOog := b\<rparr>))"
  "steps (updE (\<lambda>s. s\<lparr>rs_callOog := co\<rparr>))"
  "steps (updE (\<lambda>s. s\<lparr>rs_memoryWordCount := k\<rparr>))"
  "steps (updE (\<lambda>s. s\<lparr>rs_highestMemCost := hc s\<rparr>))"
  by (auto intro!: stepsI R_contract R_returnBytes R_messageGasLimit R_createOog R_callOog R_wordCount R_memCost
      R_trans [OF R_contract R_gasRefund, simplified] R_trans [OF R_messageGasLimit R_createOog, simplified])

lemma steps_useGas: "ok amount \<Longrightarrow> steps (useGas amount)"
  by (rule stepsI) (rule R_useGas)

lemmas [frame_intros] = steps_pure steps_stackOp steps_world steps_manager steps_memOp steps_updates steps_updE
  steps_if steps_whenE steps_option steps_sum steps_prod steps_sstore_cost steps_Let steps_seqE

section \<open>Gas, storage, environment\<close>

lemma steps_witnessGas [frame_intros]: "steps (witnessGas C w)"
  unfolding witnessGas_def by (intro frame_intros)

lemma ok_witnessGas: "may (witnessGas C w) g \<Longrightarrow> ok g"
  unfolding witnessGas_def by (auto dest!: may_seqE simp: ok_witness split: option.splits)

lemma steps_chargeStateGas [frame_intros]: "steps (chargeStateGas amount)"
  unfolding chargeStateGas_def by (intro frame_intros steps_useGas ok_pos)

lemma steps_refill [frame_intros]: "steps (refillStateGasReservoir amount)"
  unfolding refillStateGasReservoir_def by (intro frame_intros)

lemma steps_storage [frame_intros]: "steps (storageStore C key v)" "steps (storageLoad C key orig track)"
    "steps (transientStorageStore C key v)" "steps (transientStorageLoad C key)" "steps (getExternalBalance C a)"
    "steps (balCallStrict bc)"
  unfolding storageStore_def storageLoad_def transientStorageStore_def transientStorageLoad_def
    getExternalBalance_def balCallStrict_def
  by (intro frame_intros steps_worldOp; (auto simp: split_beta W_transient)?)+

lemma steps_getters [frame_intros]: "steps (getCaller C)" "steps (getTxOrigin C)" "steps (getBlockCoinbase C)"
    "steps (getBlockPrevRandao C)" "steps getBlockSlotNumber" "steps getBlockBaseFee" "steps getBlobBaseFee"
    "steps (logTopics d k ts)" "steps (writeCallOutput C x y)" "steps (updateSstoreGas C b1 b2)"
    "steps (subMemUsage C x y)"
  unfolding getCaller_def getTxOrigin_def getBlockCoinbase_def getBlockPrevRandao_def getBlockSlotNumber_def
    getBlockBaseFee_def getBlobBaseFee_def logTopics_def writeCallOutput_def updateSstoreGas_def subMemUsage_def
  by (intro frame_intros)+

section \<open>Handlers\<close>

lemma steps_shapes [frame_intros]: "steps (unop f1)" "steps (binop f2)" "steps (terop f3)"
    "steps (loadWord C d x)" "steps (copyToMemory C d x y z)" "steps (activeCostPerStateByte C)"
    "steps (onCreatedStateGas C f4)" "steps (returnData C)" "(\<And>e. steps (f5 e)) \<Longrightarrow> steps (withEof f5)"
  unfolding unop_def binop_def terop_def loadWord_def copyToMemory_def activeCostPerStateByte_def
    onCreatedStateGas_def returnData_def withEof_def
  by (intro frame_intros; assumption?)+

lemma steps_arithmetic [frame_intros]:
    "steps op_STOP" "steps op_ADD" "steps op_MUL" "steps op_SUB" "steps op_DIV" "steps op_SDIV"
    "steps op_MOD" "steps op_SMOD" "steps op_ADDMOD" "steps op_MULMOD" "steps op_EXP"
    "steps op_SIGNEXTEND"
  unfolding op_STOP_def op_ADD_def op_MUL_def op_SUB_def op_DIV_def op_SDIV_def op_MOD_def
    op_SMOD_def op_ADDMOD_def op_MULMOD_def op_EXP_def op_SIGNEXTEND_def
  by (intro frame_intros)+

lemma steps_bits [frame_intros]:
    "steps op_LT" "steps op_GT" "steps op_SLT" "steps op_SGT" "steps op_EQ" "steps op_ISZERO"
    "steps op_AND" "steps op_OR" "steps op_XOR" "steps op_NOT" "steps op_BYTE" "steps op_SHL"
    "steps op_SHR" "steps op_SAR" "steps op_CLZ"
  unfolding op_LT_def op_GT_def op_SLT_def op_SGT_def op_EQ_def op_ISZERO_def op_AND_def op_OR_def
    op_XOR_def op_NOT_def op_BYTE_def op_SHL_def op_SHR_def op_SAR_def op_CLZ_def
  by (intro frame_intros)+

lemma steps_environment [frame_intros]:
    "steps (op_KECCAK256 C)" "steps (op_ADDRESS C)" "steps (op_BALANCE C)" "steps (op_ORIGIN C)"
    "steps (op_CALLER C)" "steps op_CALLVALUE" "steps (op_CALLDATALOAD C)" "steps op_CALLDATASIZE"
    "steps (op_CALLDATACOPY C)" "steps op_CODESIZE" "steps (op_CODECOPY C)"
    "steps (op_EXTCODESIZE C)" "steps (op_EXTCODECOPY C)" "steps (op_EXTCODEHASH C)"
    "steps op_RETURNDATASIZE" "steps (op_RETURNDATACOPY C)" "steps op_GASPRICE"
  unfolding op_KECCAK256_def op_ADDRESS_def op_BALANCE_def op_ORIGIN_def op_CALLER_def
    op_CALLVALUE_def op_CALLDATALOAD_def op_CALLDATASIZE_def op_CALLDATACOPY_def op_CODESIZE_def
    op_CODECOPY_def op_EXTCODESIZE_def op_EXTCODECOPY_def op_EXTCODEHASH_def op_RETURNDATASIZE_def
    op_RETURNDATACOPY_def op_GASPRICE_def
  by (intro frame_intros)+

lemma steps_block [frame_intros]:
    "steps (op_BLOCKHASH C)" "steps (op_COINBASE C)" "steps op_TIMESTAMP" "steps op_NUMBER"
    "steps (op_DIFFICULTY C)" "steps op_GASLIMIT" "steps op_SLOTNUM" "steps (op_CHAINID C)"
    "steps op_SELFBALANCE" "steps op_BASEFEE" "steps op_BLOBHASH" "steps op_BLOBBASEFEE"
  unfolding op_BLOCKHASH_def op_COINBASE_def op_TIMESTAMP_def op_NUMBER_def op_DIFFICULTY_def
    op_GASLIMIT_def op_SLOTNUM_def op_CHAINID_def op_SELFBALANCE_def op_BASEFEE_def
    op_BLOBHASH_def op_BLOBBASEFEE_def
  by ((intro frame_intros steps_useGas ok_witnessGas; assumption?)+)

lemma steps_storage_ops [frame_intros]:
    "steps op_POP" "steps (op_MLOAD C)" "steps (op_MSTORE C)" "steps (op_MSTORE8 C)"
    "steps (op_SLOAD C)" "steps (op_SSTORE C)" "steps (op_TLOAD C)" "steps (op_TSTORE C)"
    "steps (op_MCOPY C)" "steps op_PUSH0" "steps op_DUP" "steps op_SWAP" "steps (op_LOG C)"
    "steps op_PC" "steps op_MSIZE" "steps op_GAS" "steps op_JUMPDEST" "steps (op_RETURN C)"
    "steps (op_REVERT C)"
  unfolding op_POP_def op_MLOAD_def op_MSTORE_def op_MSTORE8_def op_SLOAD_def op_SSTORE_def
    op_TLOAD_def op_TSTORE_def op_MCOPY_def op_PUSH0_def op_DUP_def op_SWAP_def op_LOG_def
    op_PC_def op_MSIZE_def op_GAS_def op_JUMPDEST_def op_RETURN_def op_REVERT_def
  by (intro frame_intros)+

lemma steps_eof [frame_intros]:
    "steps (op_DATALOAD C)" "steps op_DATASIZE" "steps (op_DATACOPY C)"
    "steps (op_RETURNDATALOAD C)"
  unfolding op_DATALOAD_def op_DATASIZE_def op_DATACOPY_def op_RETURNDATALOAD_def
  by (intro frame_intros)+


section \<open>Calls and creations\<close>

lemma steps_runCallAndLog [frame_intros]: "0 < ms_depth msg \<Longrightarrow> steps (runCallAndLog C msg)"
proof -
  have "ok (cr_executionGasUsed r)" if m: "may (worldOp (cx_runCall C msg)) r" for r
  proof -
    obtain s s' where "worldOp (cx_runCall C msg) s = (Inr r, s')" using m by (auto simp: may_def)
    then show ?thesis
      by (cases "cx_runCall C msg (rs_world s)"; cases "fst (cx_runCall C msg (rs_world s))")
        (auto simp: worldOp_def intro: ok_runCall)
  qed
  then show "0 < ms_depth msg \<Longrightarrow> ?thesis"
    unfolding runCallAndLog_def by (intro frame_intros steps_useGas steps_runCall)
qed

lemma nested_depth [simp]: "0 < ms_depth (callMessage s g v d)"
  by (simp add: callMessage_def Let_def)

lemma steps_call_parts [frame_intros]:
    "steps (getReturnCode res0 t1)" "steps (absorb C res1)" "steps (newAccountStateGas C)"
    "steps (refundCreatePreCharge C)" "steps (refuseCreate C)"
  unfolding getReturnCode_def absorb_def newAccountStateGas_def refundCreatePreCharge_def
    refuseCreate_def
  by ((intro frame_intros; assumption?)+)

lemma steps_createFrame [frame_intros]: "steps (createFrame C i1 i2 b3 salt4 salt5 sd6)"
  unfolding createFrame_def by (intro frame_intros; simp)+

lemma steps_baseCall: "0 < ms_depth msg1 \<Longrightarrow> steps (baseCall C msg1)"
  unfolding baseCall_def by (intro frame_intros; simp)+

lemma steps_calls [frame_intros]:
    "steps (call C i1 b2 i3 b4)" "steps (callCode C i1 b2 i3 b4)"
    "steps (callStatic C i1 b2 i3 b4)" "steps (callDelegate C i1 b2 i3 b4)"
  unfolding call_def callCode_def callStatic_def callDelegate_def
  by (intro frame_intros; rule steps_baseCall; simp)+

lemma steps_creates [frame_intros]: "steps (create C i1 i2 b3 salt4 salt5)" "steps (create2 C i1 i2 b3 b4)"
    "steps (eofcreate C i1 i2 b3 b4 b5)"
  unfolding create_def create2_def eofcreate_def by ((intro frame_intros; assumption?)+)

lemma steps_destruct [frame_intros]:
    "steps (payBeneficiary C b1 i2)" "steps (selfDestruct C b1)"
  unfolding payBeneficiary_def selfDestruct_def
  by ((intro frame_intros; assumption?)+)

lemma steps_frame_end [frame_intros]:
    "steps takeGasLimit" "steps (inputData C i1 i2)" "steps (checkInitCode C i1)"
    "steps (finishCall C i1 i2 i3)" "steps refuseExtCall"
  unfolding takeGasLimit_def inputData_def checkInitCode_def finishCall_def refuseExtCall_def
  by ((intro frame_intros; assumption?)+)

lemma steps_createWith [frame_intros]: "(\<And>g d. steps (k g d)) \<Longrightarrow> steps (createWith C v offset l k)"
  unfolding createWith_def by (intro frame_intros; assumption?)+

lemma steps_closures [frame_intros]:
    "steps (op_CREATE C)" "steps (op_CREATE2 C)" "steps (op_DELEGATECALL C)"
    "steps (op_STATICCALL C)" "steps (op_EXTCALL C)" "steps (op_EXTDELEGATECALL C)"
    "steps (op_EXTSTATICCALL C)" "steps (op_SELFDESTRUCT C)"
  unfolding op_CREATE_def op_CREATE2_def op_DELEGATECALL_def op_STATICCALL_def op_EXTCALL_def
    op_EXTDELEGATECALL_def op_EXTSTATICCALL_def op_SELFDESTRUCT_def
  by ((intro frame_intros; assumption?)+)


section \<open>Dynamic gas\<close>

lemma steps_access [frame_intros]:
    "steps (addParam C i1 n2)" "steps selfAddress" "steps (warmOf q0)"
    "steps (getAddressAccessCost C b1 t2 t3)" "steps (warmAddress C b1)"
    "steps (addAddressToBAL C b1)" "steps (accessAddressEIP2929 C b1 t2 t3)"
    "steps (accessStorageEIP2929 C b1 t2 t3)" "steps (adjustSstoreGasEIP2929 C b1 i2 sc3)"
    "steps (refundParam C n1)"
  unfolding addParam_def selfAddress_def warmOf_def getAddressAccessCost_def warmAddress_def
    addAddressToBAL_def accessAddressEIP2929_def accessStorageEIP2929_def
    adjustSstoreGasEIP2929_def refundParam_def
  by ((intro frame_intros; assumption?)+)

lemma steps_sstore_gas [frame_intros]:
    "steps (updateSstoreGasEIP1283 C b1 b2 b3)"
    "steps (updateSstoreGasEIP2200 C b1 b2 b3 b4)"
  unfolding updateSstoreGasEIP1283_def updateSstoreGasEIP2200_def
  by ((intro frame_intros; assumption?)+)

lemma steps_call_gas [frame_intros]:
    "steps (canAfford i0 i1)" "steps (newAccountStateGasCost C)"
    "steps (eip7928TrapPreTarget C i1)" "steps (eip7928SchedulePostTargetCallOog i0 i1)"
    "steps (eip7928PostTargetCreateOog C i1)" "steps (postTargetCallOogOrTrap C i1 i2)"
    "steps (consumeEip7928PostTargetCallOog C)" "steps (accountIsDead C b1)"
    "steps (getCallNewAccountPostCosts C b1)" "steps (commitTargetAccess C b1)"
    "steps (finalizeCallMessageGas C i1 i2 i3 i4 i5)"
    "steps (eip7702GetAccessCost C b1 t2)" "steps (targetWitnessGas C i1 b2 i3 t4)"
  unfolding canAfford_def newAccountStateGasCost_def eip7928TrapPreTarget_def
    eip7928SchedulePostTargetCallOog_def eip7928PostTargetCreateOog_def
    postTargetCallOogOrTrap_def consumeEip7928PostTargetCallOog_def accountIsDead_def
    getCallNewAccountPostCosts_def commitTargetAccess_def finalizeCallMessageGas_def
    eip7702GetAccessCost_def targetWitnessGas_def
  by ((intro frame_intros; assumption?)+)

lemma steps_callFamilyGas [frame_intros]:
    "steps (callFamilyGas C i1 opts2)"
  unfolding callFamilyGas_def
  by ((intro frame_intros; assumption?)+)

lemma steps_create_gas [frame_intros]:
    "steps (getCreateTargetAddressBytes C b1 salt2)" "steps (initCodeWordCost C i1)"
    "steps (create7928Gas C i1 i2 i3 salt4 i5)"
  unfolding getCreateTargetAddressBytes_def initCodeWordCost_def create7928Gas_def
  by ((intro frame_intros steps_useGas ok_pos; assumption?)+)

lemma steps_gas_parts [frame_intros]:
    "steps (memGas C i1 i2 i3)" "steps (wordGas C i1 n2 i3)" "steps (stackAddress C i1)"
    "steps (copyGas C i1 i2)" "steps (codeChunksGas C i1 b2 i3 i4 i5)"
    "steps (accessGas C i1 b2 t3)" "steps (witnessCost C t1 i2 wc3)"
    "steps (codeWitness C b1)" "steps (gas_mem C i1 i2)"
    "steps (selfDestructNewAccountGas C b1 i2)"
    "steps (selfDestructWitnessGas C i1 b2 b3 i4)"
  unfolding memGas_def wordGas_def stackAddress_def copyGas_def codeChunksGas_def accessGas_def
    witnessCost_def codeWitness_def gas_mem_def selfDestructNewAccountGas_def
    selfDestructWitnessGas_def
  by ((intro frame_intros; assumption?)+)

lemma steps_createTail [frame_intros]:
    "steps (createTail C i1)"
  unfolding createTail_def
  by ((intro frame_intros steps_useGas ok_pos; assumption?)+)

lemma steps_gas_handlers [frame_intros]:
    "steps (gas_EXP C i1)" "steps (gas_KECCAK256 C i1)" "steps (gas_CALLDATACOPY C i1)"
    "steps (gas_CODECOPY C i1)" "steps (gas_RETURNDATACOPY C i1)" "steps (gas_MLOAD C i1)"
    "steps (gas_MSTORE C i1)" "steps (gas_MSTORE8 C i1)" "steps (gas_MCOPY C i1)"
    "steps (gas_LOG C i1)" "steps (gas_RETURN C i1)" "steps (gas_REVERT C i1)"
    "steps (gas_DATACOPY C i1)" "steps (gas_BALANCE C i1)" "steps (gas_EXTCODESIZE C i1)"
    "steps (gas_EXTCODECOPY C i1)" "steps (gas_EXTCODEHASH C i1)" "steps (gas_SLOAD C i1)"
    "steps (gas_SSTORE C i1)"
  unfolding gas_EXP_def gas_KECCAK256_def gas_CALLDATACOPY_def gas_CODECOPY_def
    gas_RETURNDATACOPY_def gas_MLOAD_def gas_MSTORE_def gas_MSTORE8_def gas_MCOPY_def gas_LOG_def
    gas_RETURN_def gas_REVERT_def gas_DATACOPY_def gas_BALANCE_def gas_EXTCODESIZE_def
    gas_EXTCODECOPY_def gas_EXTCODEHASH_def gas_SLOAD_def gas_SSTORE_def
  by ((intro frame_intros; assumption?)+)

lemma steps_gas_closures [frame_intros]:
    "steps (gas_CALL C i1)" "steps (gas_CALLCODE C i1)" "steps (gas_valueless C i1)"
    "steps (gas_DELEGATECALL C i1)" "steps (gas_STATICCALL C i1)" "steps (gas_CREATE C i1)"
    "steps (gas_CREATE2 C i1)" "steps (gas_EXT C k1 t2 i3)" "steps (gas_EXTCALL C i1)"
    "steps (gas_EXTDELEGATECALL C i1)" "steps (gas_EXTSTATICCALL C i1)"
    "steps (gas_SELFDESTRUCT C i1)" "steps (gas_EOFCREATE C i1)" "steps (gas_RETURNCONTRACT C i1)"
  unfolding gas_CALL_def gas_CALLCODE_def gas_valueless_def gas_DELEGATECALL_def
    gas_STATICCALL_def gas_CREATE_def gas_CREATE2_def gas_EXT_def gas_EXTCALL_def
    gas_EXTDELEGATECALL_def gas_EXTSTATICCALL_def gas_SELFDESTRUCT_def gas_EOFCREATE_def gas_RETURNCONTRACT_def
  by ((intro frame_intros; assumption?)+)


section \<open>The maps of handlers\<close>

lemma steps_gasHandler: "gasHandler C code = Some h \<Longrightarrow> steps (h gas)"
proof -
  have "list_all (\<lambda>(c, h). \<forall>gas. steps (h gas)) (gasHandlers C)"
    by (simp add: gasHandlers_def frame_intros)
  moreover assume "gasHandler C code = Some h"
  ultimately show ?thesis
    by (auto simp: gasHandler_def list_all_iff frame_intros dest!: map_of_SomeD split: if_splits)
qed

lemma steps_stepGas [frame_intros]: "steps (stepGas C info)"
  unfolding stepGas_def runHandler_def
  by ((intro frame_intros steps_gasHandler; assumption?)+)

lemma steps_handler:
  assumes "opHandler C code = Some h" and "code \<notin> pcOpcodes" and "code \<notin> stipendOpcodes"
  shows "steps h"
proof -
  have "list_all (\<lambda>(c, h). c \<in> pcOpcodes \<or> c \<in> stipendOpcodes \<or> steps h) (handlers C)"
    by (simp add: handlers_def frame_intros pcOpcodes_def stipendOpcodes_def)
  then show ?thesis using assms
    by (auto simp: opHandler_def list_all_iff frame_intros pcOpcodes_def dest!: map_of_SomeD split: if_splits)
qed

end

text \<open>A relation that lets the program counter move.\<close>

locale frame_relation_pc = frame_relation +
  assumes R_pc: "R s (s\<lparr>rs_pc := p\<rparr>)"
begin

lemma steps_pc: "steps (updE (\<lambda>s. s\<lparr>rs_pc := f s\<rparr>))"
  by (rule stepsI) (simp add: R_pc)

lemmas [frame_intros] = steps_pc

lemma steps_jump_parts [frame_intros]: "steps (jumpTo d)" "steps readImmediateByteOrZero"
    "steps (checkSection C x)" "steps (enterSection n)" "steps (immediateOp df g C)"
  unfolding jumpTo_def readImmediateByteOrZero_def checkSection_def enterSection_def immediateOp_def
  by ((intro frame_intros; assumption?)+)

lemma steps_jumps [frame_intros]:
    "steps op_JUMP" "steps op_JUMPI" "steps (op_DUPN C)" "steps (op_SWAPN C)"
    "steps (op_EXCHANGE C)" "steps (op_DATALOADN C)" "steps op_RJUMP" "steps op_RJUMPI"
    "steps op_RJUMPV" "steps (op_CALLF C)" "steps op_RETF" "steps (op_JUMPF C)" "steps (op_EOFCREATE C)"
  unfolding op_JUMP_def op_JUMPI_def op_DUPN_def op_SWAPN_def op_EXCHANGE_def op_DATALOADN_def
    op_RJUMP_def op_RJUMPI_def op_RJUMPV_def op_CALLF_def op_RETF_def op_JUMPF_def op_EOFCREATE_def
  by ((intro frame_intros; assumption?)+)

lemma steps_PUSH [frame_intros]: "steps (op_PUSH C)"
  unfolding op_PUSH_def chargePush_def pushPart_def by ((intro frame_intros steps_useGas ok_witnessGas; assumption?)+)

lemma steps_handler_pc:
  assumes "opHandler C code = Some h" and "code \<notin> stipendOpcodes"
  shows "steps h"
proof (cases "code \<in> pcOpcodes")
  case True
  have "list_all (\<lambda>(c, h). c \<in> pcOpcodes \<longrightarrow> steps h) (handlers C)"
    by (simp add: handlers_def frame_intros pcOpcodes_def)
  then show ?thesis using True assms
    by (auto simp: opHandler_def list_all_iff frame_intros dest!: map_of_SomeD split: if_splits)
qed (use steps_handler assms in blast)

end

end
