(* ===== verification/EvmSample.thy ===== *)
theory EvmSample
  imports EvmFrame
begin

text \<open>
  A concrete context to run frames in: the simple state manager, a chain before the first
  hardforks, no nested calls and an opcode table with a fee of 3 for every opcode. The witnesses
  of the interpreter's properties run in it.
\<close>

text \<open>The simple state manager; it has no \<open>checkChunkWitnessPresent\<close>.\<close>

definition full_simple :: "noble \<Rightarrow> (bytes \<Rightarrow> bytes) \<Rightarrow> simple_state full_manager" where
  "full_simple N k = manager.extend (simple_manager N)
     \<lparr>m_getCode = getCode N, m_getStorage = getStorage N, m_putStorage = putStorage N,
      m_originalStorage = getStorage N, m_checkChunkWitnessPresent = (\<lambda>_ _. raise TypeError),
      m_modifyAccountFields = modifyAccountFields N, m_putCode = putCode N k,
      m_clearStorage = (\<lambda>_. clearStorage)\<rparr>"

definition sample_manager :: "simple_state full_manager" where
  "sample_manager = full_simple rlp_noble (\<lambda>_. replicate 32 0)"

definition sample_ctx :: "simple_state ctx" where
  "sample_ctx = \<lparr>cx_hex = rlp_noble, cx_keccak = (\<lambda>_. replicate 32 0), cx_keccakNoble = (\<lambda>_. replicate 32 0),
     cx_isPrecompile = (\<lambda>_. False), cx_maxArray = 2 ^ 32, cx_common = small_common,
     cx_manager = sample_manager, cx_cliqueSigner = (\<lambda>_. replicate 20 0),
     cx_blockHash = (\<lambda>_. Inr (replicate 32 0)), cx_witnessGas = (\<lambda>_ _. 0),
     cx_allowUnlimitedInitCodeSize = False, cx_setupEOF = (\<lambda>_ _. None),
     cx_runCall = (\<lambda>_. raise (PlainError ''no calls''))\<rparr>"

definition sample_env :: env where
  "sample_env = \<lparr>e_address = replicate 20 1, e_caller = replicate 20 2, e_callData = [], e_callValue = 0,
     e_code = [], e_isStatic = True, e_isCreate = False, e_depth = 0, e_gasPrice = 0, e_origin = replicate 20 2,
     e_block = \<lparr>bh_number = 1, bh_coinbase = replicate 20 0, bh_timestamp = 0, bh_difficulty = 0,
       bh_prevRandao = replicate 32 0, bh_gasLimit = 1000000, bh_slotNumber = None,
       bh_baseFeePerGas = None, bh_blobGasPrice = None\<rparr>,
     e_contract = no_account, e_eof = None, e_blobVersionedHashes = [], e_createdAddresses = None,
     e_chargeCodeAccesses = False\<rparr>"

definition sample_world :: "simple_state world" where
  "sample_world = \<lparr>wd_journal = newJournal newSimpleState, wd_transient = new_transient,
     wd_vars = \<lparr>ev_stateGasReservoir = 0, ev_executionStateGasUsed = 0, ev_createdAccountStateGas = [],
       ev_createdAccountIntrinsicStateGas = [], ev_stateGasSnapshots = [],
       ev_callPostTargetOog = False\<rparr>,
     wd_bal = None, wd_witness = None\<rparr>"

definition sample_codes :: opcode_map where
  "sample_codes i = Some (newOpcode i (op_default ''ANY'') 3)"

definition sample_state :: "bytes \<Rightarrow> simple_state run_state" where
  "sample_state code = (newRunState sample_env 100 0 [] sample_world)\<lparr>rs_code := code\<rparr>"

lemma sample_codes_ok: "codes_ok sample_codes"
  by (simp add: codes_ok_def sample_codes_def newOpcode_def op_default_def)

lemma sample_hex [simp]: "cx_hex sample_ctx = rlp_noble" "noble_hex (cx_hex sample_ctx)"
  using rlp_hex.noble_hex_axioms by (simp_all add: sample_ctx_def)

lemma sample_eips [simp]: "activated sample_ctx n \<longleftrightarrow> n = 1" "\<not> stateless sample_ctx"
  by (simp_all add: activated_def sample_ctx_def small_common_def isActivatedEIP_def stateless_def)

end
