(* ===== verification/EvmControl.thy ===== *)
theory EvmControl
  imports EvmFrame EvmSample
begin

text \<open>
  The control flow of legacy code. Instruction starts are the positions a reader of the code
  reaches instruction by instruction; the jump analysis finds exactly the JUMPDESTs among them
  and the data of the PUSHes. The loop is the step relation \<open>loop_step\<close>; along it the program
  counter stays on instruction starts, so the cached opcodes and pushes the loop reads are
  always there and are those of the code.
\<close>

section \<open>Instruction starts\<close>

definition next_instr :: "bool \<Rightarrow> bytes \<Rightarrow> nat \<Rightarrow> nat" where
  "next_instr act8024 code i =
     (let opcode = unat (code ! i) in
      if 0x60 \<le> opcode \<and> opcode \<le> 0x7f then i + (opcode - 0x5f) + 1
      else if act8024 \<and> opcode \<in> {0xe6, 0xe7, 0xe8} \<and> i + 1 < length code \<and>
        skipsImmediate opcode (unat (code ! (i + 1))) then i + 2
      else i + 1)"

inductive starts :: "bool \<Rightarrow> bytes \<Rightarrow> nat \<Rightarrow> bool" for act8024 code where
  first: "starts act8024 code 0"
| step: "starts act8024 code i \<Longrightarrow> i < length code \<Longrightarrow> starts act8024 code (next_instr act8024 code i)"

definition pushValue :: "bytes \<Rightarrow> nat \<Rightarrow> nat \<Rightarrow> int" where
  "pushValue code pos n = int (be_nat (js_slice code pos (pos + n) @ replicate (pos + n - length code) 0))"

lemma next_instr_gt: "i < next_instr act code i"
  by (auto simp: next_instr_def Let_def)

section \<open>The jump analysis\<close>

text \<open>What the analysis has found once it stands at position \<open>i\<close>.\<close>

definition analysed :: "bool \<Rightarrow> opcode_map \<Rightarrow> bytes \<Rightarrow> nat \<Rightarrow> analysis \<Rightarrow> bool" where
  "analysed act T code i a \<longleftrightarrow>
     length (an_jumps a) = length code \<and>
     (\<forall>j < length code. an_jumps a ! j = (if j < i \<and> starts act code j \<and> unat (code ! j) = 0x5b then 1 else 0)) \<and>
     (\<forall>j. map_of (an_opcodes a) j =
       (if j < i \<and> j < length code \<and> starts act code j then Some (T (unat (code ! j))) else None)) \<and>
     (\<forall>j. j < i \<and> j < length code \<and> starts act code j \<and> 0x60 \<le> unat (code ! j) \<and> unat (code ! j) \<le> 0x7f \<longrightarrow>
       map_of (an_pushes a) (j + 1) = Some (pushValue code (j + 1) (unat (code ! j) - 0x5f))) \<and>
     (\<forall>p v. (p, v) \<in> set (an_pushes a) \<longrightarrow> p \<le> i)"

lemma starts_between:
  "starts act code i \<Longrightarrow> starts act code j \<Longrightarrow> i < j \<Longrightarrow> next_instr act code i \<le> j"
proof (induction j arbitrary: i rule: less_induct)
  case (less j)
  from less.prems(2, 3) obtain k where k: "starts act code k" "j = next_instr act code k"
    by (auto elim: starts.cases)
  consider "i < k" | "i = k" | "k < i" by linarith
  then show ?case
  proof cases
    case 1
    then show ?thesis using less.IH [of k i] k less.prems(1) next_instr_gt [of k act code] by simp
  next
    case 3
    then show ?thesis using less.IH [of i k] k less.prems by simp
  qed (use k in simp)
qed

lemma starts_below:
  assumes "starts act code i" and "i < length code"
  shows "j < next_instr act code i \<and> starts act code j \<longleftrightarrow> j < i \<and> starts act code j \<or> j = i"
  using starts_between [OF assms(1), of j] assms next_instr_gt [of i act code]
  by (cases "j = i"; cases "i < j") auto

lemma analysed_step:
  fixes a :: analysis
  assumes a: "analysed act T code i a" and i: "starts act code i" "i < length code"
  defines "opc \<equiv> unat (code ! i)"
  shows "analysed act T code (next_instr act code i)
    (a\<lparr>an_opcodes := an_opcodes a @ [(i, T opc)],
       an_pushes := (if 0x60 \<le> opc \<and> opc \<le> 0x7f
         then an_pushes a @ [(i + 1, pushValue code (i + 1) (opc - 0x5f))] else an_pushes a),
       an_jumps := (if opc = 0x5b then (an_jumps a)[i := 1] else an_jumps a)\<rparr>)" (is "analysed _ _ _ ?n ?a")
proof -
  note below = starts_below [OF i]
  have n: "i < ?n" by (rule next_instr_gt)
  have "length (an_jumps ?a) = length code" using a by (simp add: analysed_def)
  moreover have "an_jumps ?a ! j = (if j < ?n \<and> starts act code j \<and> unat (code ! j) = 0x5b then 1 else 0)"
    if "j < length code" for j
    using a that below [of j] by (cases "j = i") (auto simp: analysed_def opc_def)
  moreover have "map_of (an_opcodes ?a) j =
      (if j < ?n \<and> j < length code \<and> starts act code j then Some (T (unat (code ! j))) else None)" for j
    using a below [of j] i by (cases "j = i") (auto simp: analysed_def opc_def map_add_def)
  moreover have "map_of (an_pushes ?a) (j + 1) = Some (pushValue code (j + 1) (unat (code ! j) - 0x5f))"
    if "j < ?n" "j < length code" "starts act code j" "0x60 \<le> unat (code ! j)" "unat (code ! j) \<le> 0x7f" for j
  proof (cases "j = i")
    case True
    have "i + 1 \<notin> fst ` set (an_pushes a)" using a by (fastforce simp: analysed_def)
    then have "map_of (an_pushes a) (i + 1) = None" by (simp only: map_of_eq_None_iff not_False_eq_True)
    then show ?thesis using True that by (simp add: opc_def map_add_def)
  next
    case False
    then have "map_of (an_pushes a) (j + 1) = Some (pushValue code (j + 1) (unat (code ! j) - 0x5f))"
      using a that below [of j] by (auto simp: analysed_def)
    then show ?thesis using False by (simp add: map_add_def)
  qed
  moreover have "p \<le> ?n" if "(p, v) \<in> set (an_pushes ?a)" for p v
    using a that n by (fastforce simp: analysed_def split: if_splits)
  ultimately show ?thesis unfolding analysed_def by blast
qed

lemma pushBytesAt_value:
  assumes "noble_hex N" and "i < length code"
  obtains bs where "pushBytesAt code i n = Inr bs" "bytesToBigInt N bs False = Inr (pushValue code (i + 1) n)"
proof -
  let ?b = "js_slice code (i + 1) (i + 1 + n)"
  have l: "length ?b = min n (length code - (i + 1))" by (simp add: length_js_slice)
  have "pushBytesAt code i n = Inr (?b @ replicate (i + 1 + n - length code) 0)"
  proof (cases "length ?b < n")
    case True
    then have "n - length ?b = i + 1 + n - length code" using l assms(2) by auto
    then show ?thesis using True by (simp add: pushBytesAt_def setLengthRight_def setLength_def Let_def)
  next
    case False
    then have "i + 1 + n - length code = 0" using l assms(2) by auto
    then show ?thesis using False by (simp add: pushBytesAt_def Let_def)
  qed
  then show ?thesis using that by (simp add: pushValue_def noble_hex.bytesToBigInt_eq [OF assms(1)])
qed

lemma analyseFrom_step:
  assumes "noble_hex N" and i: "i < length code"
  defines "opc \<equiv> unat (code ! i)"
  shows "analyseFrom N act T code i a = analyseFrom N act T code (next_instr act code i)
    (a\<lparr>an_opcodes := an_opcodes a @ [(i, T opc)],
       an_pushes := (if 0x60 \<le> opc \<and> opc \<le> 0x7f
         then an_pushes a @ [(i + 1, pushValue code (i + 1) (opc - 0x5f))] else an_pushes a),
       an_jumps := (if opc = 0x5b then (an_jumps a)[i := 1] else an_jumps a)\<rparr>)"
proof -
  obtain bs where bs: "pushBytesAt code i (opc - 0x5f) = Inr bs"
    "bytesToBigInt N bs False = Inr (pushValue code (i + 1) (opc - 0x5f))"
    using pushBytesAt_value [OF assms(1, 2)] by blast
  consider "0x60 \<le> opc" "opc \<le> 0x7f" | "opc = 0x5b" | "opc < 0x60" "opc \<noteq> 0x5b" | "0x7f < opc" by linarith
  then show ?thesis
  proof cases
    case 1
    then show ?thesis using i bs
      by (subst analyseFrom.simps) (simp add: Let_def next_instr_def opc_def)
  next
    case 2
    then show ?thesis using i
      by (subst analyseFrom.simps) (simp add: Let_def next_instr_def opc_def)
  next
    case 3
    then show ?thesis using i
      by (subst analyseFrom.simps) (auto simp add: Let_def next_instr_def opc_def)
  next
    case 4
    then show ?thesis using i
      by (subst analyseFrom.simps) (auto simp add: Let_def next_instr_def opc_def not_le not_less)
  qed
qed

lemma analyseFrom_spec:
  assumes "noble_hex N"
  shows "analysed act T code i a \<Longrightarrow> starts act code i \<Longrightarrow>
    \<exists>a' k. analyseFrom N act T code i a = Inr a' \<and> length code \<le> k \<and> analysed act T code k a'"
proof (induction "length code - i" arbitrary: i a rule: less_induct)
  case less
  show ?case
  proof (cases "length code \<le> i")
    case False
    then have i: "i < length code" by simp
    have "length code - next_instr act code i < length code - i"
      using next_instr_gt [of i act code] i by linarith
    from less.hyps [OF this analysed_step [OF less.prems i] starts.step [OF less.prems(2) i]] show ?thesis
      unfolding analyseFrom_step [OF assms i, of act T a] .
  qed (use less.prems in \<open>auto simp: analyseFrom.simps [of N act T code i a]\<close>)
qed

definition analysis_ok :: "bool \<Rightarrow> opcode_map \<Rightarrow> bytes \<Rightarrow> analysis \<Rightarrow> bool" where
  "analysis_ok act T code a \<longleftrightarrow>
     length (an_jumps a) = length code \<and>
     (\<forall>j < length code. an_jumps a ! j = (if starts act code j \<and> unat (code ! j) = 0x5b then 1 else 0)) \<and>
     (\<forall>j. map_of (an_opcodes a) j =
       (if j < length code \<and> starts act code j then Some (T (unat (code ! j))) else None)) \<and>
     (\<forall>j. j < length code \<and> starts act code j \<and> 0x60 \<le> unat (code ! j) \<and> unat (code ! j) \<le> 0x7f \<longrightarrow>
       map_of (an_pushes a) (j + 1) = Some (pushValue code (j + 1) (unat (code ! j) - 0x5f)))"

lemma getValidJumpDestinations_ok:
  assumes "noble_hex N"
  shows "\<exists>a. getValidJumpDestinations N act T code = Inr a \<and> analysis_ok act T code a"
proof -
  let ?a = "\<lparr>an_jumps = replicate (length code) 0, an_pushes = [], an_opcodes = []\<rparr>"
  have "analysed act T code 0 ?a" by (simp add: analysed_def)
  from analyseFrom_spec [OF assms this starts.first] show ?thesis
    by (fastforce simp: getValidJumpDestinations_def analysis_ok_def analysed_def)
qed

section \<open>What the handlers keep\<close>

definition env_fixed :: "env \<Rightarrow> env \<Rightarrow> bool" where
  "env_fixed e e' \<longleftrightarrow> e'\<lparr>e_contract := e_contract e, e_eof := e_eof e\<rparr> = e \<and> (e_eof e = None \<longrightarrow> e_eof e' = None)"

definition frame_fixed :: "'m run_state \<Rightarrow> 'm run_state \<Rightarrow> bool" where
  "frame_fixed s s' \<longleftrightarrow> rs_code s' = rs_code s \<and> rs_opCode s' = rs_opCode s \<and>
     rs_validJumps s' = rs_validJumps s \<and> rs_cachedPushes s' = rs_cachedPushes s \<and>
     rs_shouldDoJumpAnalysis s' = rs_shouldDoJumpAnalysis s \<and> env_fixed (rs_env s) (rs_env s')"

definition control_kept :: "'m run_state \<Rightarrow> 'm run_state \<Rightarrow> bool" where
  "control_kept s s' \<longleftrightarrow> frame_fixed s s' \<and> rs_pc s' = rs_pc s"

lemma env_fixed_refl [simp]: "env_fixed e e"
  by (simp add: env_fixed_def)

lemma env_fixed_trans: "env_fixed e e' \<Longrightarrow> env_fixed e' e'' \<Longrightarrow> env_fixed e e''"
  by (cases e; cases e'; cases e'') (auto simp: env_fixed_def)

lemma env_fixed_updates [simp]: "env_fixed e (e\<lparr>e_contract := a\<rparr>)"
    "env_fixed e (e\<lparr>e_eof := map_option f (e_eof e)\<rparr>)"
  by (cases e, simp add: env_fixed_def)+

lemma useGas_state: "snd (useGas amount s) = s\<lparr>rs_gasLeft := max 0 (rs_gasLeft s - amount)\<rparr>"
  by (auto simp: useGas_def seqE_run trap_def max_def)

interpretation fixed: frame_relation_pc frame_fixed "\<lambda>_ _. True" "\<lambda>_. True" C for C :: "'m ctx"
  by unfold_locales (auto simp: frame_fixed_def useGas_state intro: env_fixed_trans)

interpretation ctl: frame_relation control_kept "\<lambda>_ _. True" "\<lambda>_. True" C for C :: "'m ctx"
  by unfold_locales (auto simp: control_kept_def frame_fixed_def useGas_state intro: env_fixed_trans)

lemma ctl_stipend: "ctl.steps (addStipend amount)" "ctl.steps (withStipend C v g)"
proof -
  show *: "ctl.steps (addStipend amount)" for amount
    by (rule ctl.stepsI) (simp add: addStipend_def control_kept_def frame_fixed_def)
  show "ctl.steps (withStipend C v g)"
    unfolding withStipend_def by (intro frame_intros *)
qed

lemma ctl_handler:
  assumes "opHandler C code = Some h" and "code \<notin> pcOpcodes"
  shows "ctl.steps h"
proof (cases "code \<in> stipendOpcodes")
  case True
  have "ctl.steps (op_CALL C)" "ctl.steps (op_CALLCODE C)"
    unfolding op_CALL_def op_CALLCODE_def by (intro frame_intros ctl_stipend)+
  then show ?thesis using True assms(1)
    by (auto simp: stipendOpcodes_def opHandler_def handlers_def)
qed (use ctl.steps_handler assms in blast)

section \<open>The loop as a step relation\<close>

inductive loop_step :: "'m ctx \<Rightarrow> opcode_map \<Rightarrow> opcode_cache \<times> 'm run_state \<Rightarrow> opcode_cache \<times> 'm run_state \<Rightarrow> bool"
  for C T where
  "rs_pc s < int (length (rs_code s)) \<Longrightarrow> nextOpcode C T cache s = (Inr (cache', info), s1) \<Longrightarrow>
    runStep C info s1 = (Inr (), s2) \<Longrightarrow> loop_step C T (cache, s) (cache', s2)"

lemma seqE_InrE:
  assumes "seqE m f s = (Inr y, s')"
  obtains x s1 where "m s = (Inr x, s1)" "f x s1 = (Inr y, s')"
  using assms by (auto simp: seqE_run split: prod.splits sum.splits)

lemma ctl_run: "ctl.steps m \<Longrightarrow> m s = (Inr x, s') \<Longrightarrow> control_kept s s'"
  using ctl.stepsD [of m s "Inr x" s'] by simp

lemma control_kept_trans: "control_kept s s' \<Longrightarrow> control_kept s' s'' \<Longrightarrow> control_kept s s''"
  by (rule ctl.R_trans)

lemma jumpTo_run: "jumpTo d s = (Inr (), s') \<Longrightarrow>
    s' = s\<lparr>rs_pc := d\<rparr> \<and> 0 \<le> d \<and> nat d < length (rs_validJumps s) \<and> rs_validJumps s ! nat d = 1"
  by (auto simp: jumpTo_def jumpIsValid_def seqE_run trap_def split: if_splits)

lemma withEof_legacy: "e_eof (rs_env s) = None \<Longrightarrow> withEof f s = (Inl (Trap INVALID_OPCODE), s)"
  by (simp add: withEof_def seqE_run trap_def)

text \<open>Where the program counter is after a handler of legacy code that succeeds.\<close>

definition moves :: "bool \<Rightarrow> 'm run_state \<Rightarrow> 'm run_state \<Rightarrow> bool" where
  "moves act s s' \<longleftrightarrow> frame_fixed s s' \<and>
     (rs_pc s' = rs_pc s \<and> rs_opCode s \<notin> {0x60..0x7f} \<and> \<not> (act \<and> rs_opCode s \<in> {0xe6, 0xe7, 0xe8}) \<or>
      rs_opCode s \<in> {0x56, 0x57} \<and> 0 \<le> rs_pc s' \<and> nat (rs_pc s') < length (rs_validJumps s) \<and>
        rs_validJumps s ! nat (rs_pc s') = 1 \<or>
      rs_opCode s \<in> {0x60..0x7f} \<and> rs_pc s' = rs_pc s + (int (rs_opCode s) - 0x5f) \<or>
      act \<and> rs_opCode s \<in> {0xe6, 0xe7, 0xe8} \<and> rs_pc s' = rs_pc s + 1 \<and>
        (0 \<le> rs_pc s \<and> rs_pc s < int (length (rs_code s)) \<longrightarrow>
          skipsImmediate (rs_opCode s) (unat (rs_code s ! nat (rs_pc s)))))"

lemma moves_jump:
  assumes "op_JUMP s = (Inr (), s') \<or> op_JUMPI s = (Inr (), s')" and "rs_opCode s \<in> {0x56, 0x57}"
  shows "moves act s s'"
proof -
  obtain s1 d where s1: "control_kept s s1" and r: "jumpTo d s1 = (Inr (), s') \<or> s' = s1"
  proof (cases "op_JUMP s = (Inr (), s')")
    case True
    then obtain d s1 where "pop s = (Inr d, s1)" "jumpTo d s1 = (Inr (), s')"
      unfolding op_JUMP_def by (rule seqE_InrE)
    then show ?thesis using that ctl_run [OF ctl.steps_stackOp(3)] by blast
  next
    case False
    then have "op_JUMPI s = (Inr (), s')" using assms(1) by simp
    then obtain vs s1 where "popN 2 s = (Inr vs, s1)"
      "(if vs ! 1 \<noteq> 0 then jumpTo (vs ! 0) else ret ()) s1 = (Inr (), s')"
      unfolding op_JUMPI_def by (rule seqE_InrE)
    moreover from this(1) have "control_kept s s1" by (rule ctl_run [OF ctl.steps_stackOp(2)])
    ultimately show ?thesis by (cases "vs ! 1 = 0") (auto intro: that)
  qed
  from r show ?thesis
  proof
    assume "jumpTo d s1 = (Inr (), s')"
    then show ?thesis using jumpTo_run [of d s1 s'] s1 assms(2)
      by (auto simp: moves_def control_kept_def frame_fixed_def)
  qed (use s1 assms(2) in \<open>auto simp: moves_def control_kept_def\<close>)
qed

lemma ctl_chargePush: "ctl.steps (chargePush C n)"
  unfolding chargePush_def by ((intro frame_intros ctl.steps_useGas; simp?)+)

lemma moves_push:
  assumes "op_PUSH C s = (Inr (), s')" and "rs_opCode s \<in> {0x60..0x7f}"
  shows "moves act s s'"
proof -
  note steps = fixed.steps_PUSH [of C]
  have "frame_fixed s s'" using fixed.stepsD [OF steps assms(1)] by simp
  moreover have "rs_pc s' = rs_pc s + (int (rs_opCode s) - 0x5f)"
  proof -
    let ?n = "int (rs_opCode s) - 0x5f"
    obtain s1 where s1: "control_kept s s1" and r: "pushPart C ?n s1 = (Inr (), s')"
      using assms(1) unfolding op_PUSH_def by (auto elim!: seqE_InrE dest: ctl_run [OF ctl_chargePush])
    have "rs_pc t' = rs_pc t" if "push v t = (Inr (), t')" for v t t'
      using ctl_run [OF ctl.steps_stackOp(4) that] by (simp add: control_kept_def)
    note pc = this
    have thr: "t' = t" if "throwing q t = (Inr x, t')" for q :: "'x res" and t t' x
      using that by (auto simp: throwing_def)
    have "rs_pc s' = rs_pc s1 + ?n"
    proof (cases "rs_shouldDoJumpAnalysis s1")
      case True
      then obtain q loaded t1 v where t1: "throwing q s1 = (Inr loaded, t1)"
        and q: "seqE (throwing (bytesToBigInt (cx_hex C) loaded False)) push (t1\<lparr>rs_pc := rs_pc t1 + ?n\<rparr>) = (Inr (), s')"
        using r unfolding pushPart_def Let_def by (auto elim!: seqE_InrE)
      from q obtain v t2 where "throwing (bytesToBigInt (cx_hex C) loaded False) (t1\<lparr>rs_pc := rs_pc t1 + ?n\<rparr>) = (Inr v, t2)"
        "push v t2 = (Inr (), s')" by (rule seqE_InrE)
      then show ?thesis using pc [of v t2 s'] thr [OF t1] thr by fastforce
    next
      case False
      then obtain v t1 where "push v s1 = (Inr (), t1)" "s' = t1\<lparr>rs_pc := rs_pc t1 + ?n\<rparr>"
        using r unfolding pushPart_def by (auto elim!: seqE_InrE split: option.splits)
      then show ?thesis using pc [of v s1 t1] by simp
    qed
    then show ?thesis using s1 by (simp add: control_kept_def)
  qed
  ultimately show ?thesis using assms(2) by (simp add: moves_def)
qed

lemma moves_immediate:
  assumes "opHandler C (rs_opCode s) = Some h" and "h s = (Inr (), s')" and "rs_opCode s \<in> {0xe6, 0xe7, 0xe8}"
  shows "moves (activated C 8024) s s'"
proof -
  have imm: "moves (activated C 8024) s s'"
    if "immediateOp df f C s = (Inr (), s')" and valid: "\<And>k i. df k = Inr i \<Longrightarrow> skipsImmediate (rs_opCode s) k" for df f
  proof -
    let ?k = "if 0 \<le> rs_pc s \<and> rs_pc s < int (length (rs_code s)) then unat (rs_code s ! nat (rs_pc s)) else 0"
    let ?s1 = "s\<lparr>rs_pc := rs_pc s + 1\<rparr>"
    have act: "activated C 8024" and r: "(case df ?k of Inl err \<Rightarrow> trap err | Inr i \<Rightarrow> stackDo (f i)) ?s1 = (Inr (), s')"
      using that(1) by (auto simp: immediateOp_def readImmediateByteOrZero_def seqE_run trap_def split: if_splits)
    then obtain i where i: "df ?k = Inr i" "stackDo (f i) ?s1 = (Inr (), s')" by (cases "df ?k") (auto simp: trap_def)
    have "control_kept ?s1 s'" using ctl_run [OF ctl.steps_stackOp(6) i(2)] .
    then show ?thesis using act assms(3) valid [OF i(1)] by (auto simp: moves_def control_kept_def frame_fixed_def)
  qed
  have "rs_opCode s = 0xe6 \<and> h = op_DUPN C \<or> rs_opCode s = 0xe7 \<and> h = op_SWAPN C \<or> rs_opCode s = 0xe8 \<and> h = op_EXCHANGE C"
    using assms(1, 3) by (auto simp: opHandler_def handlers_def)
  then show ?thesis
  proof (elim disjE conjE)
    assume "rs_opCode s = 0xe8" "h = op_EXCHANGE C"
    then show ?thesis using assms(2) unfolding op_EXCHANGE_def
      by (intro imm) (auto simp: skipsImmediate_def decodeEIP8024PairImmediate_def split: if_splits)
  qed (use assms(2) in \<open>auto simp: op_DUPN_def op_SWAPN_def skipsImmediate_def
      decodeEIP8024SingleImmediate_def intro!: imm split: if_splits\<close>)
qed

lemma moves_handler:
  assumes h: "opHandler C (rs_opCode s) = Some h" "h s = (Inr (), s')" and "e_eof (rs_env s) = None"
  shows "moves (activated C 8024) s s'"
proof -
  consider "rs_opCode s \<notin> pcOpcodes" | "rs_opCode s \<in> {0x56, 0x57}" | "rs_opCode s \<in> {0x60..0x7f}"
    | "rs_opCode s \<in> {0xe6, 0xe7, 0xe8}" | "rs_opCode s \<in> {0xd1, 0xe0, 0xe1, 0xe2, 0xe3, 0xe4, 0xe5, 0xec}"
    by (auto simp: pcOpcodes_def)
  then show ?thesis
  proof cases
    case 1
    then have "control_kept s s'" using ctl_run [OF ctl_handler [OF h(1)] h(2)] by simp
    then show ?thesis using 1 by (auto simp: moves_def control_kept_def pcOpcodes_def)
  next
    case 2
    then have "h = op_JUMP \<or> h = op_JUMPI" using h(1) by (auto simp: opHandler_def handlers_def)
    then show ?thesis using moves_jump h(2) 2 by blast
  next
    case 3
    then have "h = op_PUSH C" using h(1) by (auto simp: opHandler_def)
    then show ?thesis using moves_push h(2) 3 by blast
  next
    case 4
    then show ?thesis using moves_immediate h by blast
  next
    case 5
    then have "h \<in> {op_DATALOADN C, op_RJUMP, op_RJUMPI, op_RJUMPV, op_CALLF C, op_RETF, op_JUMPF C, op_EOFCREATE C}"
      using h(1) by (auto simp: opHandler_def handlers_def)
    then show ?thesis using h(2) withEof_legacy [OF assms(3)]
      by (auto simp: op_DATALOADN_def op_RJUMP_def op_RJUMPI_def op_RJUMPV_def op_CALLF_def op_RETF_def op_JUMPF_def op_EOFCREATE_def)
  qed
qed

section \<open>Legacy code runs on instruction starts\<close>

text \<open>What the loop knows of the code before and after the analysis.\<close>

definition code_inv :: "'m ctx \<Rightarrow> opcode_map \<Rightarrow> bytes \<Rightarrow> opcode_cache \<Rightarrow> 'm run_state \<Rightarrow> bool" where
  "code_inv C T code cache s \<longleftrightarrow> rs_code s = code \<and> e_eof (rs_env s) = None \<and>
     (case cache of
        None \<Rightarrow> rs_shouldDoJumpAnalysis s
      | Some cached \<Rightarrow> \<not> rs_shouldDoJumpAnalysis s \<and> (\<exists>a. analysis_ok (activated C 8024) T code a \<and>
          cached = an_opcodes a \<and> rs_validJumps s = an_jumps a \<and> rs_cachedPushes s = an_pushes a))"

definition pc_inv :: "bool \<Rightarrow> bytes \<Rightarrow> int \<Rightarrow> bool" where
  "pc_inv act code pc \<longleftrightarrow> 0 \<le> pc \<and> (pc < int (length code) \<longrightarrow> starts act code (nat pc))"

lemma code_inv_fixed: "frame_fixed s s' \<Longrightarrow> code_inv C T code cache s \<Longrightarrow> code_inv C T code cache s'"
  by (auto simp: code_inv_def frame_fixed_def env_fixed_def split: option.splits)

lemma fetch_run:
  assumes "noble_hex (cx_hex C)" and T: "codes_ok T" and inv: "code_inv C T code cache s"
    and pc: "pc_inv (activated C 8024) code (rs_pc s)" "rs_pc s < int (length code)"
  obtains cache' info s1 where "fetch C T cache s = (Inr (cache', info), s1)"
    "T (unat (code ! nat (rs_pc s))) = Some info" "code_inv C T code cache' s1" "rs_pc s1 = rs_pc s"
    "oc_isInvalid info \<or> rs_opCode s1 = unat (code ! nat (rs_pc s)) \<and> oc_code info = rs_opCode s1"
    "needsAnalysis (unat (code ! nat (rs_pc s))) \<Longrightarrow> cache' \<noteq> None"
proof -
  let ?i = "nat (rs_pc s)" and ?op = "unat (code ! nat (rs_pc s))"
  have i: "0 \<le> rs_pc s" "?i < length code" "starts (activated C 8024) code ?i"
    using pc by (auto simp: pc_inv_def)
  have "?op < 256" using unsigned_less [where 'a = nat and w = "code ! ?i"] by simp
  then obtain info where info: "T ?op = Some info" "oc_code info = ?op \<or> oc_isInvalid info"
    using T unfolding codes_ok_def by blast
  show ?thesis
  proof (cases cache)
    case None
    obtain a where a: "getValidJumpDestinations (cx_hex C) (activated C 8024) T code = Inr a"
      "analysis_ok (activated C 8024) T code a" using getValidJumpDestinations_ok [OF assms(1)] by blast
    show ?thesis
    proof (cases "needsAnalysis ?op")
      case True
      let ?s1 = "s\<lparr>rs_validJumps := an_jumps a, rs_cachedPushes := an_pushes a,
        rs_shouldDoJumpAnalysis := False, rs_opCode := ?op\<rparr>"
      have "fetch C T cache s = (Inr (Some (an_opcodes a), info), ?s1)"
        using True None a i info inv
        by (simp add: fetch_def seqE_run throwing_def runHandler_def Let_def code_inv_def)
      then show ?thesis using that [of "Some (an_opcodes a)" info ?s1] info inv a(2) by (auto simp: code_inv_def)
    next
      case False
      have "fetch C T cache s = (Inr (None, info), s\<lparr>rs_opCode := ?op\<rparr>)"
        using False None i info inv by (simp add: fetch_def seqE_run runHandler_def Let_def code_inv_def)
      then show ?thesis using that [of None info "s\<lparr>rs_opCode := ?op\<rparr>"] info inv None False
        by (auto simp: code_inv_def)
    qed
  next
    case (Some cached)
    then have "map_of cached ?i = Some (Some info)"
      using inv i info by (auto simp: code_inv_def analysis_ok_def)
    then have "fetch C T cache s = (Inr (cache, info), s\<lparr>rs_opCode := oc_code info\<rparr>)"
      using Some i by (simp add: fetch_def seqE_run)
    then show ?thesis using that [of cache info "s\<lparr>rs_opCode := oc_code info\<rparr>"] info inv Some
      by (auto simp: code_inv_def)
  qed
qed

lemma ctl_checkChunk: "ctl.steps (checkChunk C)"
  unfolding checkChunk_def by ((intro frame_intros; simp?)+)

text \<open>A step that succeeds is a handler run after the gas is paid and the counter has moved on.\<close>

lemma runStep_parts:
  assumes "runStep C info s = (Inr (), s')"
  obtains s1 s2 h s3 where "control_kept s s1" "\<not> oc_isInvalid info" "control_kept (s1\<lparr>rs_pc := rs_pc s1 + 1\<rparr>) s2"
    "opHandler C (oc_code info) = Some h" "h s2 = (Inr (), s3)" "control_kept s3 s'"
proof -
  obtain gas t1 where t1: "stepGas C info s = (Inr gas, t1)" and valid: "\<not> oc_isInvalid info"
    and r: "seqE (useGas gas) (\<lambda>_. seqE (updE (\<lambda>s. s\<lparr>rs_pc := rs_pc s + 1\<rparr>)) (\<lambda>_.
       seqE (consumeEip7928PostTargetCallOog C) (\<lambda>_.
       seqE (runHandler (opHandler C (oc_code info)) id) (\<lambda>_. addWitness WitnessCommit)))) t1 = (Inr (), s')"
    using assms unfolding runStep_def by (auto simp: trap_def elim!: seqE_InrE split: if_splits)
  from r obtain u s1 where s1: "useGas gas t1 = (Inr u, s1)"
    and r: "seqE (consumeEip7928PostTargetCallOog C) (\<lambda>_.
       seqE (runHandler (opHandler C (oc_code info)) id) (\<lambda>_. addWitness WitnessCommit)) (s1\<lparr>rs_pc := rs_pc s1 + 1\<rparr>) = (Inr (), s')"
    by (auto elim!: seqE_InrE)
  from r obtain v s2 where s2: "consumeEip7928PostTargetCallOog C (s1\<lparr>rs_pc := rs_pc s1 + 1\<rparr>) = (Inr v, s2)"
    and r: "seqE (runHandler (opHandler C (oc_code info)) id) (\<lambda>_. addWitness WitnessCommit) s2 = (Inr (), s')"
    by (rule seqE_InrE)
  from r obtain s3 where h: "runHandler (opHandler C (oc_code info)) id s2 = (Inr (), s3)" "addWitness WitnessCommit s3 = (Inr (), s')"
    by (auto elim!: seqE_InrE)
  have consume: "ctl.steps (consumeEip7928PostTargetCallOog C)" by (intro frame_intros)
  have "control_kept s t1" "control_kept t1 s1" "control_kept (s1\<lparr>rs_pc := rs_pc s1 + 1\<rparr>) s2" "control_kept s3 s'"
    using ctl_run [OF ctl.steps_stepGas t1] ctl_run [OF ctl.steps_useGas s1]
      ctl_run [OF consume s2] ctl_run [OF ctl.steps_world(3) h(2)] by simp_all
  then show ?thesis using that [of s1 s2 _ s3] valid h control_kept_trans
    by (cases "opHandler C (oc_code info)") (auto simp: runHandler_def)
qed

lemma moves_pc:
  assumes m: "moves (activated C 8024) s s'" and inv: "code_inv C T code cache s"
    and i: "starts (activated C 8024) code i" "i < length code" "rs_pc s = int i + 1"
    and opc: "rs_opCode s = unat (code ! i)" and jump: "needsAnalysis (rs_opCode s) \<Longrightarrow> cache \<noteq> None"
  shows "pc_inv (activated C 8024) code (rs_pc s')"
proof -
  let ?act = "activated C 8024"
  have nxt: "starts ?act code (next_instr ?act code i)" using starts.step [OF i(1, 2)] .
  have code: "rs_code s = code" using inv by (simp add: code_inv_def)
  have at_next: ?thesis if "rs_pc s' = int (next_instr ?act code i)"
    using nxt that by (simp add: pc_inv_def)
  consider "rs_pc s' = rs_pc s" "rs_opCode s \<notin> {0x60..0x7f}" "\<not> (?act \<and> rs_opCode s \<in> {0xe6, 0xe7, 0xe8})"
    | "rs_opCode s \<in> {0x56, 0x57}" "0 \<le> rs_pc s'" "nat (rs_pc s') < length (rs_validJumps s)"
      "rs_validJumps s ! nat (rs_pc s') = 1"
    | "rs_opCode s \<in> {0x60..0x7f}" "rs_pc s' = rs_pc s + (int (rs_opCode s) - 0x5f)"
    | "?act" "rs_opCode s \<in> {0xe6, 0xe7, 0xe8}" "rs_pc s' = rs_pc s + 1"
      "rs_pc s < int (length code) \<longrightarrow> skipsImmediate (rs_opCode s) (unat (code ! nat (rs_pc s)))"
    using m i(3) code unfolding moves_def by auto
  then show ?thesis
  proof cases
    case 1
    then show ?thesis using i opc by (intro at_next) (auto simp: next_instr_def Let_def)
  next
    case 2
    then obtain a where "analysis_ok ?act T code a" "rs_validJumps s = an_jumps a"
      using jump inv by (auto simp: code_inv_def needsAnalysis_def split: option.splits)
    then show ?thesis using 2 by (auto simp: pc_inv_def analysis_ok_def split: if_splits)
  next
    case 3
    then show ?thesis using i opc by (intro at_next) (auto simp: next_instr_def Let_def)
  next
    case 4
    show ?thesis
    proof (cases "i + 1 < length code")
      case True
      then have "skipsImmediate (unat (code ! i)) (unat (code ! (i + 1)))"
        using 4 i(3) opc by (auto simp: nat_add_distrib)
      then show ?thesis using 4 i opc True by (intro at_next) (auto simp: next_instr_def Let_def)
    qed (use 4 i(3) in \<open>auto simp: pc_inv_def\<close>)
  qed
qed

text \<open>A step of the loop is a handler that moves the counter from just after the opcode.\<close>

lemma legacy_moves:
  assumes "noble_hex (cx_hex C)" and "codes_ok T"
    and "loop_step C T (cache, s) (cache', s')"
    and "code_inv C T code cache s" and "pc_inv (activated C 8024) code (rs_pc s)"
  obtains s3 where "code_inv C T code cache' s3" "code_inv C T code cache' s'" "rs_pc s3 = rs_pc s + 1"
    "rs_opCode s3 = unat (code ! nat (rs_pc s))"
    "needsAnalysis (rs_opCode s3) \<Longrightarrow> cache' \<noteq> None"
    "moves (activated C 8024) s3 s'"
proof -
  obtain info s1 where pc: "rs_pc s < int (length (rs_code s))"
    and n: "nextOpcode C T cache s = (Inr (cache', info), s1)" and run: "runStep C info s1 = (Inr (), s')"
    using assms(3) by (auto elim: loop_step.cases)
  have pc': "rs_pc s < int (length code)" using pc assms(4) by (simp add: code_inv_def)
  let ?i = "nat (rs_pc s)"
  obtain t1 where t1: "code_inv C T code cache' t1" "rs_pc t1 = rs_pc s"
    "oc_isInvalid info \<or> rs_opCode t1 = unat (code ! ?i) \<and> oc_code info = rs_opCode t1"
    "needsAnalysis (unat (code ! ?i)) \<Longrightarrow> cache' \<noteq> None" and chk: "control_kept t1 s1"
  proof -
    obtain c1 i1 t1 where f: "fetch C T cache s = (Inr (c1, i1), t1)" "code_inv C T code c1 t1" "rs_pc t1 = rs_pc s"
      "oc_isInvalid i1 \<or> rs_opCode t1 = unat (code ! ?i) \<and> oc_code i1 = rs_opCode t1"
      "needsAnalysis (unat (code ! ?i)) \<Longrightarrow> c1 \<noteq> None"
      using fetch_run [OF assms(1, 2, 4, 5) pc'] by metis
    then obtain u where "checkChunk C t1 = (Inr u, s1)" "c1 = cache'" "i1 = info"
      using n unfolding nextOpcode_def by (auto elim!: seqE_InrE)
    then show ?thesis using that [of t1] f ctl_run [OF ctl_checkChunk] by blast
  qed
  obtain s2 s3 h s4 where p: "control_kept s1 s2" "\<not> oc_isInvalid info" "control_kept (s2\<lparr>rs_pc := rs_pc s2 + 1\<rparr>) s3"
    "opHandler C (oc_code info) = Some h" "h s3 = (Inr (), s4)" "control_kept s4 s'"
    using runStep_parts [OF run] by blast
  have k: "frame_fixed t1 s2" "rs_pc s2 = rs_pc s" "frame_fixed (s2\<lparr>rs_pc := rs_pc s2 + 1\<rparr>) s3" "rs_pc s3 = rs_pc s + 1"
    using chk p(1, 3) t1(2) fixed.R_trans by (auto simp: control_kept_def)
  then have f13: "frame_fixed t1 s3" by (auto simp: frame_fixed_def intro: env_fixed_trans)
  then have inv3: "code_inv C T code cache' s3" using code_inv_fixed t1(1) by blast
  have opc: "rs_opCode s3 = unat (code ! ?i)" "oc_code info = rs_opCode s3"
    using f13 t1(3) p(2) by (auto simp: frame_fixed_def)
  have "moves (activated C 8024) s3 s4"
    using moves_handler [of C s3 h s4] p(4, 5) opc(2) inv3 by (simp add: code_inv_def)
  moreover have "frame_fixed s3 s'" "rs_pc s' = rs_pc s4"
    using calculation p(6) fixed.R_trans by (auto simp: moves_def control_kept_def)
  ultimately have mv: "moves (activated C 8024) s3 s'" by (simp add: moves_def)
  show ?thesis
    by (rule that [OF inv3 code_inv_fixed [OF \<open>frame_fixed s3 s'\<close> inv3] k(4) opc(1) _ mv])
      (use opc(1) t1(4) in auto)
qed

lemma legacy_step:
  assumes "noble_hex (cx_hex C)" and "codes_ok T"
    and "loop_step C T (cache, s) (cache', s')"
    and "code_inv C T code cache s" and "pc_inv (activated C 8024) code (rs_pc s)"
  shows "code_inv C T code cache' s' \<and> pc_inv (activated C 8024) code (rs_pc s')"
proof -
  have i: "starts (activated C 8024) code (nat (rs_pc s))" "nat (rs_pc s) < length code" "0 \<le> rs_pc s"
    using assms(3-5) by (auto simp: pc_inv_def code_inv_def elim: loop_step.cases)
  obtain s3 where s3: "code_inv C T code cache' s3" "code_inv C T code cache' s'" "rs_pc s3 = rs_pc s + 1"
    "rs_opCode s3 = unat (code ! nat (rs_pc s))" "needsAnalysis (rs_opCode s3) \<Longrightarrow> cache' \<noteq> None"
    "moves (activated C 8024) s3 s'"
    using legacy_moves [OF assms] by blast
  have "pc_inv (activated C 8024) code (rs_pc s')"
    by (rule moves_pc [OF s3(6, 1) i(1, 2)]) (use s3(3-5) i(3) in auto)
  then show ?thesis using s3(2) by blast
qed

text \<open>Without a jump the counter grows.\<close>

lemma moves_forward: "moves act s s' \<Longrightarrow> rs_opCode s \<notin> {0x56, 0x57} \<Longrightarrow> rs_pc s \<le> rs_pc s'"
  by (auto simp: moves_def)

definition straight :: "bool \<Rightarrow> bytes \<Rightarrow> bool" where
  "straight act code \<longleftrightarrow> (\<forall>i < length code. starts act code i \<longrightarrow> unat (code ! i) \<notin> {0x56, 0x57})"

lemma legacy_forward:
  assumes "noble_hex (cx_hex C)" and "codes_ok T"
    and "loop_step C T (cache, s) (cache', s')"
    and "code_inv C T code cache s" and "pc_inv (activated C 8024) code (rs_pc s)"
    and "straight (activated C 8024) code"
  shows "rs_pc s < rs_pc s'"
proof -
  have i: "starts (activated C 8024) code (nat (rs_pc s))" "nat (rs_pc s) < length code"
    using assms(3-5) by (auto simp: pc_inv_def code_inv_def elim: loop_step.cases)
  then have opc: "unat (code ! nat (rs_pc s)) \<notin> {0x56, 0x57}" using assms(6) by (simp add: straight_def)
  obtain s3 where "rs_pc s3 = rs_pc s + 1" "rs_opCode s3 = unat (code ! nat (rs_pc s))"
    "moves (activated C 8024) s3 s'"
    using legacy_moves [OF assms(1-5)] by blast
  then show ?thesis using moves_forward [of _ s3 s'] opc by force
qed

lemma runLoop_Suc:
  obtains (stop) r where "runLoop C T (Suc n) cache s = Some r"
  | (step) cache' s' where "loop_step C T (cache, s) (cache', s')"
      "runLoop C T (Suc n) cache s = runLoop C T n cache' s'"
proof -
  obtain f s1 where n: "nextOpcode C T cache s = (f, s1)" by (cases "nextOpcode C T cache s")
  show ?thesis
  proof (cases "rs_pc s \<ge> int (length (rs_code s))")
    case True
    then show ?thesis using that(1) by simp
  next
    case pc: False
    show ?thesis
    proof (cases f)
      case (Inl e)
      then show ?thesis using n pc that(1) by (cases e) simp_all
    next
      case (Inr ci)
      obtain cache' info where ci: "ci = (cache', info)" by (cases ci)
      obtain r s2 where r: "runStep C info s1 = (r, s2)" by (cases "runStep C info s1")
      show ?thesis
      proof (cases r)
        case (Inl e)
        then show ?thesis using n Inr ci r pc that(1) by (simp add: Let_def)
      next
        case (Inr u)
        then have "loop_step C T (cache, s) (cache', s2)"
          using n \<open>f = Inr ci\<close> ci r pc by (auto intro: loop_step.intros)
        moreover have "runLoop C T (Suc n) cache s = runLoop C T n cache' s2"
          using n \<open>f = Inr ci\<close> ci r pc Inr by (simp split: unit.split)
        ultimately show ?thesis by (rule that(2))
      qed
    qed
  qed
qed

lemma straight_line_fuel:
  assumes "noble_hex (cx_hex C)" and "codes_ok T" and "straight (activated C 8024) code"
  shows "code_inv C T code cache s \<Longrightarrow> pc_inv (activated C 8024) code (rs_pc s) \<Longrightarrow>
    length code - nat (rs_pc s) < n \<Longrightarrow> \<exists>r. runLoop C T n cache s = Some r"
proof (induction n arbitrary: cache s)
  case (Suc n)
  show ?case
  proof (cases rule: runLoop_Suc [of C T n cache s])
    case (step cache' s')
    have "rs_pc s < rs_pc s'" "0 \<le> rs_pc s" "rs_pc s < int (length code)"
      using legacy_forward [OF assms(1, 2) step(1) Suc.prems(1, 2) assms(3)] Suc.prems step(1)
      by (auto simp: pc_inv_def code_inv_def elim: loop_step.cases)
    then have "length code - nat (rs_pc s') < n" using Suc.prems(3) by linarith
    then show ?thesis unfolding step(2)
      using Suc.IH legacy_step [OF assms(1, 2) step(1) Suc.prems(1, 2)] by blast
  qed blast
qed simp

lemma legacy_reach:
  assumes "noble_hex (cx_hex C)" and "codes_ok T"
    and "(loop_step C T)\<^sup>*\<^sup>* x y" and "code_inv C T code (fst x) (snd x) \<and> pc_inv (activated C 8024) code (rs_pc (snd x))"
  shows "code_inv C T code (fst y) (snd y) \<and> pc_inv (activated C 8024) code (rs_pc (snd y))"
  using assms(3, 4)
proof (induction rule: rtranclp_induct)
  case (step y z)
  then show ?case using legacy_step [OF assms(1, 2), of "fst y" "snd y" "fst z" "snd z" code] by simp
qed simp

section \<open>Properties\<close>

text \<open>
  C16. The jump analysis of any code returns; its array marks exactly the JUMPDEST bytes that
  start an instruction, and for every PUSH that starts one it stores the number that follows it,
  padded with zeros at the end of the code.
\<close>

theorem jump_analysis_spec:
  assumes "noble_hex N"
  shows "\<exists>a. getValidJumpDestinations N act8024 T code = Inr a \<and> length (an_jumps a) = length code \<and>
    (\<forall>j. j < length code \<longrightarrow> (an_jumps a ! j = 1 \<longleftrightarrow> starts act8024 code j \<and> code ! j = 0x5b)) \<and>
    (\<forall>j. j < length code \<and> starts act8024 code j \<and> 0x60 \<le> unat (code ! j) \<and> unat (code ! j) \<le> 0x7f \<longrightarrow>
      map_of (an_pushes a) (j + 1) = Some (pushValue code (j + 1) (unat (code ! j) - 0x5f)))"
proof -
  have "code ! j = 0x5b \<longleftrightarrow> unat (code ! j) = 0x5b" for j by (simp add: word_unat_eq_iff)
  then show ?thesis using getValidJumpDestinations_ok [OF assms, of act8024 T code]
    by (auto simp: analysis_ok_def)
qed

theorem jump_analysis_spec_witness:
  "\<exists>a. getValidJumpDestinations rlp_noble False sample_codes [0x60, 0x5b, 0x5b] = Inr a \<and>
     an_jumps a ! 1 \<noteq> 1 \<and> an_jumps a ! 2 = 1 \<and> map_of (an_pushes a) 1 = Some 0x5b"
proof -
  let ?code = "[0x60, 0x5b, 0x5b] :: bytes"
  have n: "next_instr False ?code 0 = 2" by (simp add: next_instr_def)
  have 2: "starts False ?code 2" using starts.step [OF starts.first, of ?code False] n by simp
  have 1: "\<not> starts False ?code 1"
    using starts_between [OF starts.first, of False ?code 1] n by auto
  have v: "pushValue ?code 1 1 = 0x5b" by (simp add: pushValue_def js_slice_def be_nat_def)
  obtain a where "getValidJumpDestinations rlp_noble False sample_codes ?code = Inr a"
    and j: "\<forall>j. j < length ?code \<longrightarrow> (an_jumps a ! j = 1 \<longleftrightarrow> starts False ?code j \<and> ?code ! j = 0x5b)"
    and p: "\<forall>j. j < length ?code \<and> starts False ?code j \<and> 0x60 \<le> unat (?code ! j) \<and> unat (?code ! j) \<le> 0x7f \<longrightarrow>
      map_of (an_pushes a) (j + 1) = Some (pushValue ?code (j + 1) (unat (?code ! j) - 0x5f))"
    using jump_analysis_spec [OF rlp_hex.noble_hex_axioms, of False sample_codes ?code] by blast
  moreover have "an_jumps a ! 1 \<noteq> 1" using j [rule_format, of 1] 1 by simp
  moreover have "an_jumps a ! 2 = 1" using j [rule_format, of 2] 2 by simp
  moreover have "map_of (an_pushes a) 1 = Some 0x5b"
    using p [rule_format, of 0] starts.first [of False ?code] v by simp
  ultimately show ?thesis by blast
qed

text \<open>
  C14. Legacy code never runs off its instructions: from a fresh frame, whatever the gas, the
  storage, the calls and the jumps do, the program counter of a running frame is the start of an
  instruction, never inside the data of a PUSH, and the loop fetches the opcode the code has
  there; no cache entry it reads is missing.
\<close>

theorem legacy_control_flow:
  assumes "noble_hex (cx_hex C)" and "codes_ok T" and "e_eof e = None"
    and "(loop_step C T)\<^sup>*\<^sup>* (None, (newRunState e gasLeft refund logs w)\<lparr>rs_code := code\<rparr>) (cache, s)"
    and "rs_pc s < int (length code)"
  shows "0 \<le> rs_pc s \<and> starts (activated C 8024) code (nat (rs_pc s)) \<and>
    (\<exists>cache' info s'. fetch C T cache s = (Inr (cache', info), s') \<and>
      T (unat (code ! nat (rs_pc s))) = Some info)"
proof -
  let ?s0 = "(newRunState e gasLeft refund logs w)\<lparr>rs_code := code\<rparr>"
  have "code_inv C T code None ?s0 \<and> pc_inv (activated C 8024) code (rs_pc ?s0)"
    using assms(3) by (simp add: code_inv_def newRunState_def pc_inv_def starts.first)
  then have inv: "code_inv C T code cache s \<and> pc_inv (activated C 8024) code (rs_pc s)"
    using legacy_reach [OF assms(1, 2, 4), of code] by simp
  then obtain cache' info s' where "fetch C T cache s = (Inr (cache', info), s')"
    "T (unat (code ! nat (rs_pc s))) = Some info"
    using fetch_run [OF assms(1, 2) conjunct1 [OF inv] conjunct2 [OF inv] assms(5)] by metis
  then show ?thesis using inv assms(5) by (auto simp: pc_inv_def)
qed

lemma sample_push:
  "\<exists>s. loop_step sample_ctx sample_codes (None, sample_state [0x60, 0x5b, 0x5b]) (None, s) \<and>
     rs_pc s = 2 \<and> rs_gasLeft s = 97"
  unfolding loop_step.simps
  by (auto simp: sample_state_def newRunState_def nextOpcode_def fetch_def needsAnalysis_def seqE_run runHandler_def
   Let_def sample_codes_def newOpcode_def op_default_def checkChunk_def runStep_def stepGas_def useGas_def
   consumeEip7928PostTargetCallOog_def opHandler_def op_PUSH_def chargePush_def pushPart_def
   throwing_def rlp_hex.bytesToBigInt_eq push_def stackOp_def st_push_def new_stack_def put_at_def addWitness_def
   js_slice_def be_nat_def sample_env_def whenE_def)

theorem legacy_control_flow_witness:
  "\<exists>s. (loop_step sample_ctx sample_codes)\<^sup>*\<^sup>* (None, sample_state [0x60, 0x5b, 0x5b]) (None, s) \<and>
     rs_pc s = 2 \<and> starts False [0x60, 0x5b, 0x5b] 2"
proof -
  obtain s where s: "loop_step sample_ctx sample_codes (None, sample_state [0x60, 0x5b, 0x5b]) (None, s)" "rs_pc s = 2"
    using sample_push by blast
  then have r: "(loop_step sample_ctx sample_codes)\<^sup>*\<^sup>* (None, sample_state [0x60, 0x5b, 0x5b]) (None, s)" by blast
  have "starts (activated sample_ctx 8024) [0x60, 0x5b, 0x5b] (nat (rs_pc s))"
    using legacy_control_flow [where C = sample_ctx and T = sample_codes and e = sample_env and s = s and
        code = "[0x60, 0x5b, 0x5b]", OF sample_hex(2) sample_codes_ok _ r [unfolded sample_state_def]] s(2)
    by (simp add: sample_env_def)
  then show ?thesis using r s(2) by auto
qed

text \<open>
  C18. Code without JUMP and JUMPI always returns, whatever its opcodes do: the loop ends within
  one iteration per byte of the code and one more.
\<close>

theorem straight_line_returns:
  assumes "noble_hex (cx_hex C)" and "codes_ok T" and "e_eof e = None"
    and "straight (activated C 8024) code" and "length code < fuel"
  shows "\<exists>r. runLoop C T fuel None ((newRunState e gasLeft refund logs w)\<lparr>rs_code := code\<rparr>) = Some r"
  by (rule straight_line_fuel [OF assms(1, 2, 4)])
    (use assms(3, 5) in \<open>auto simp: code_inv_def newRunState_def pc_inv_def starts.first\<close>)

theorem straight_line_returns_witness:
  "\<exists>r. runLoop sample_ctx sample_codes 4 None (sample_state [0x60, 0x5b, 0x5b]) = Some r"
  unfolding sample_state_def
proof (rule straight_line_returns)
  show "straight (activated sample_ctx 8024) [0x60, 0x5b, 0x5b]"
    by (auto simp: straight_def less_Suc_eq numeral_3_eq_3 nth_Cons split: nat.splits)
qed (simp_all add: sample_codes_ok sample_env_def rlp_hex.noble_hex_axioms)

end
