(* ===== verification/EvmSafety.thy ===== *)
theory EvmSafety
  imports EvmControl EvmSample
begin

text \<open>
  Static frames: which opcodes write to the state, and that none of them completes a step when
  the frame is static, because its gas handler or its handler checks the flag first. The gas of
  a CREATE under EIP-7928 checks it last; everything before the check leaves the flag and, until
  gas is charged, the gas of the frame alone.
\<close>

section \<open>Steps that fail\<close>

text \<open>An exception of the frame or of the language, not the regular end of the frame.\<close>

definition fails :: "('m, 'a) rop \<Rightarrow> 'm run_state \<Rightarrow> bool" where
  "fails m s \<longleftrightarrow> (\<exists>e. fst (m s) = Inl e \<and> e \<noteq> Trap STOP)"

text \<open>The static flag is kept, and with \<open>g\<close> the gas left and the variables of the interpreter.\<close>

definition kept :: "bool \<Rightarrow> 'm run_state \<Rightarrow> 'm run_state \<Rightarrow> bool" where
  "kept g s s' \<longleftrightarrow> e_isStatic (rs_env s') = e_isStatic (rs_env s) \<and>
     (g \<longrightarrow> rs_gasLeft s' = rs_gasLeft s \<and> wd_vars (rs_world s') = wd_vars (rs_world s))"

definition calm :: "bool \<Rightarrow> ('m, 'a) rop \<Rightarrow> bool" where
  "calm g m \<longleftrightarrow> (\<forall>s. case m s of (Inl e, s') \<Rightarrow> e \<noteq> Trap STOP | (Inr x, s') \<Rightarrow> kept g s s')"

named_theorems calm_intros \<open>computations that keep the static flag\<close>

lemma kept_self [simp]: "kept g s s"
  by (simp add: kept_def)

lemma kept_twice: "kept g s s' \<Longrightarrow> kept g s' s'' \<Longrightarrow> kept g s s''"
  by (simp add: kept_def)

lemma calm_seqE: "calm g m \<Longrightarrow> (\<And>x. calm g (f x)) \<Longrightarrow> calm g (seqE m f)"
  unfolding calm_def seqE_run by (fastforce split: prod.splits sum.splits intro: kept_twice)

lemma calm_pure: "calm g (ret x)" "calm g (raise (Throw je))" "calm g (getE f)" "calm g (throwing r)" "calm g (paramOf C n)"
  by (auto simp: calm_def throwing_def paramOf_def split: sum.splits)

lemma calm_trap: "te \<noteq> STOP \<Longrightarrow> calm g (trap te)"
  by (simp add: calm_def trap_def)

lemma calm_updE: "(\<And>s. kept g s (f s)) \<Longrightarrow> calm g (updE f)"
  by (simp add: calm_def)

lemma calm_if: "(c \<Longrightarrow> calm g m) \<Longrightarrow> (\<not> c \<Longrightarrow> calm g m') \<Longrightarrow> calm g (if c then m else m')"
  by simp

lemma calm_whenE: "calm g m \<Longrightarrow> calm g (whenE c m)"
  by (simp add: whenE_def calm_pure)

lemma calm_option: "calm g m \<Longrightarrow> (\<And>x. calm g (f x)) \<Longrightarrow> calm g (case v of None \<Rightarrow> m | Some x \<Rightarrow> f x)"
  by (cases v) auto

lemma calm_prod: "(\<And>x y. calm g (f x y)) \<Longrightarrow> calm g (case v of (x, y) \<Rightarrow> f x y)"
  by (cases v) auto

lemma calm_Let: "calm g (f v) \<Longrightarrow> calm g (Let v f)"
  by simp

lemma calm_peek: "calm g (peek n)"
proof -
  have "st_peek n st \<noteq> Inl STOP" for st
  proof -
    have "peekLoop k i l \<noteq> Inl STOP" for k i l
      by (induction k i l rule: peekLoop.induct) (auto simp: and_then_Inl_iff)
    then show ?thesis by (simp add: st_peek_def)
  qed
  then show ?thesis
    by (auto simp: calm_def peek_def stackOp_def kept_def and_then_Inl_iff and_then_Inr_iff split: sum.splits)
qed

lemma calm_ops: "calm g (memOp m)" "calm g (journalOp j)" "calm g (managerOp e)" "calm g (balCall b)" "calm g (addWitness w)"
  "calm g (witnessGas C w)"
proof -
  show 1: "calm g (journalOp j)" for j :: "('m, 'x) jop"
    by (auto simp: calm_def journalOp_def worldOp_def kept_def split: prod.splits sum.splits)
  show "calm g (managerOp e)" by (simp add: managerOp_def 1)
  show 2: "calm g (addWitness w)" for w by (simp add: calm_def addWitness_def kept_def)
  show "calm g (witnessGas C w)" unfolding witnessGas_def
    by (intro calm_seqE calm_option calm_pure 2)
  show "calm g (memOp m)" "calm g (balCall b)"
    by (auto simp: calm_def memOp_def balCall_def kept_def split: prod.splits sum.splits)
qed

lemmas [calm_intros] = calm_pure calm_peek calm_ops calm_if calm_whenE calm_option calm_prod calm_Let calm_seqE

lemma calm_gas [calm_intros]: "calm False (useGas amount)" "calm False (onVars f)"
  by (simp_all add: calm_def useGas_def onVars_def seqE_run trap_def kept_def)

lemma calm_chargeStateGas [calm_intros]: "calm False (chargeStateGas amount)"
  unfolding chargeStateGas_def by (intro calm_intros)

lemma calm_parts [calm_intros]: "calm g (subMemUsage C x y)" "calm g (initCodeWordCost C n)" "calm g selfAddress"
    "calm g (eip7928TrapPreTarget C x)" "calm g (getCreateTargetAddressBytes C bs salt)"
    "calm g (newAccountStateGasCost C)" "calm g (canAfford x y)" "calm g (warmAddress C bs)"
    "calm g (accessAddressEIP2929 C bs c d)" "calm g (memGas C x y z)" "calm g (wordGas C x str y)"
    "calm g (writeCallOutput C x y)" "calm g (consumeEip7928PostTargetCallOog C)"
  unfolding subMemUsage_def initCodeWordCost_def selfAddress_def eip7928TrapPreTarget_def
    getCreateTargetAddressBytes_def newAccountStateGasCost_def activeCostPerStateByte_def canAfford_def warmAddress_def
    warmOf_def accessAddressEIP2929_def getAddressAccessCost_def memGas_def wordGas_def writeCallOutput_def
    consumeEip7928PostTargetCallOog_def
  by (intro calm_intros calm_trap calm_updE; simp add: kept_def)+

lemma fails_trap [simp]: "fails (trap te) s \<longleftrightarrow> te \<noteq> STOP"
  by (simp add: fails_def trap_def)

lemma fails_throw [simp]: "fails (raise (Throw je)) s"
  by (simp add: fails_def)

lemma fails_first: "fails m s \<Longrightarrow> fails (seqE m f) s"
  by (cases "m s") (auto simp: fails_def)

lemma fails_then:
  assumes "calm g m" and "\<And>x s'. m s = (Inr x, s') \<Longrightarrow> kept g s s' \<Longrightarrow> fails (f x) s'"
  shows "fails (seqE m f) s"
proof (cases "m s")
  case (Pair r s')
  then show ?thesis using assms(1) [unfolded calm_def, rule_format, of s] assms(2)
    by (cases r) (auto simp: fails_def)
qed

lemma fails_getE: "fails (f (h s)) s \<Longrightarrow> fails (seqE (getE h) f) s"
  by (simp add: fails_def seqE_run)

lemma fails_if: "(c \<Longrightarrow> fails m s) \<Longrightarrow> (\<not> c \<Longrightarrow> fails m' s) \<Longrightarrow> fails (if c then m else m') s"
  by simp

lemma fails_static: "e_isStatic (rs_env s) \<Longrightarrow>
    fails (seqE (getE (\<lambda>s. e_isStatic (rs_env s))) (\<lambda>static. if static then trap STATIC_STATE_CHANGE else m)) s"
  by (rule fails_getE) simp

section \<open>Creation under EIP-7928\<close>

lemma pre_target_paid: "eip7928TrapPreTarget C gas s = (Inr x, s') \<Longrightarrow> activated C 7928 \<Longrightarrow> gas \<le> rs_gasLeft s' \<and> s' = s"
  by (auto simp: eip7928TrapPreTarget_def seqE_run trap_def split: if_splits)

text \<open>Its own address costs a frame nothing here.\<close>

lemma access_free: "accessAddressEIP2929 C a False d s = (Inr x, s') \<Longrightarrow> x = 0"
  by (auto simp: accessAddressEIP2929_def getAddressAccessCost_def warmOf_def seqE_run split: if_splits prod.splits sum.splits)

lemma kept_static: "kept g s s' \<Longrightarrow> e_isStatic (rs_env s) \<Longrightarrow> e_isStatic (rs_env s')"
  by (simp add: kept_def)

lemma static_end:
  assumes st: "e_isStatic (rs_env s)" and "gas \<le> rs_gasLeft s"
    and "activated C 8037 \<Longrightarrow> gas + n \<le> rs_gasLeft s + ev_stateGasReservoir (wd_vars (rs_world s))"
  shows "fails (seqE (canAfford gas n) (\<lambda>affordable. seqE (getE rs_gasLeft) (\<lambda>gasLeft.
     if activated C 8037 then
       (if \<not> affordable then oog else if gas > gasLeft then oog
        else seqE (if gas > 0 then seqE (useGas gas) (\<lambda>_. ret 0) else ret gas) (\<lambda>g.
          seqE (chargeStateGas n) (\<lambda>_. seqE (getE (\<lambda>s. e_isStatic (rs_env s))) (\<lambda>static.
            if static then trap STATIC_STATE_CHANGE else k g))))
     else if gas > gasLeft then oog
     else seqE (getE (\<lambda>s. e_isStatic (rs_env s))) (\<lambda>static. if static then trap STATIC_STATE_CHANGE else k gas)))) s"
proof -
  have charged: "fails (seqE (if gas > 0 then seqE (useGas gas) (\<lambda>_. ret 0) else ret gas) (\<lambda>g.
      seqE (chargeStateGas n) (\<lambda>_. seqE (getE (\<lambda>s. e_isStatic (rs_env s))) (\<lambda>static.
        if static then trap STATIC_STATE_CHANGE else k g)))) s"
    by (rule fails_then [where g = False], intro calm_intros)
      (rule fails_then [where g = False], intro calm_intros, rule fails_static, simp add: kept_def st)
  then show ?thesis unfolding canAfford_def
    by (intro fails_getE) (use assms in \<open>auto intro: fails_static\<close>)
qed

lemma static_create7928:
  assumes "activated C 7928" and "e_isStatic (rs_env s)"
  shows "fails (create7928Gas C gas0 offset codeLength salt extra) s"
  unfolding create7928Gas_def Let_def
  apply (rule fails_then [where g = True], (intro calm_intros)[1])
  apply (rule fails_if, simp)
  apply (rule fails_then [where g = True], (intro calm_intros)[1])
  apply (rule fails_then [where g = True], (intro calm_intros)[1])
  apply (rule fails_then [where g = True], (intro calm_intros)[1])
  apply (drule pre_target_paid [OF _ assms(1)], erule conjE)
  apply (rule fails_then [where g = True], (intro calm_intros)[1])
  apply (rule fails_then [where g = True], (intro calm_intros)[1])
  apply (rule fails_then [where g = True], (intro calm_intros)[1])
  apply (subst (1) canAfford_def, rule fails_getE)
  apply (rule fails_if, simp)
  apply (rule fails_then [where g = True], (intro calm_intros)[1])
  apply (rule fails_then [where g = True], (intro calm_intros)[1])
  apply (rule fails_then [where g = True], (intro calm_intros)[1])
  apply (drule access_free, simp only: add_0_right)
  apply (rule static_end)
  by (use assms in \<open>simp_all add: kept_def\<close>)

section \<open>The opcodes that write\<close>

text \<open>
  The opcodes that change the state: storage, transient storage, logs, creations, the destruction
  of the contract, and calls that carry a value.
\<close>

definition writesState :: "'m run_state \<Rightarrow> nat \<Rightarrow> bool" where
  "writesState s code \<longleftrightarrow> code \<in> {0x55, 0x5d, 0xa0, 0xa1, 0xa2, 0xa3, 0xa4, 0xec, 0xf0, 0xf5, 0xff} \<or>
     code = 0xf1 \<and> 2 < length (stack_abs (rs_stack s)) \<and> stack_abs (rs_stack s) ! 2 \<noteq> 0 \<or>
     code = 0xf8 \<and> 3 < length (stack_abs (rs_stack s)) \<and> stack_abs (rs_stack s) ! 3 \<noteq> 0"

lemma peek_run: "stack_inv (rs_stack s) \<Longrightarrow> peek n s =
    (if length (stack_abs (rs_stack s)) < n then (Inl (Trap STACK_UNDERFLOW), s)
     else (Inr (take n (stack_abs (rs_stack s))), s))"
  by (simp add: peek_def stackOp_def peek_spec)

lemma static_creates:
  assumes "e_isStatic (rs_env s)"
  shows "fails (gas_CREATE C gas) s" and "fails (gas_CREATE2 C gas) s"
proof -
  show "fails (gas_CREATE C gas) s" unfolding gas_CREATE_def Let_def
    by (rule fails_then [where g = True], rule calm_intros, rule fails_if)
      (auto simp: kept_def assms intro!: static_create7928 fails_static)
  show "fails (gas_CREATE2 C gas) s" unfolding gas_CREATE2_def Let_def
    apply (rule fails_then [where g = True], rule calm_intros)
    apply (rule fails_then [where g = True], rule calm_intros, rule fails_if)
     apply (rule fails_then [where g = True], rule calm_intros)
     apply (auto simp: kept_def assms intro!: static_create7928 fails_static)
    done
qed

lemma static_gas:
  assumes "e_isStatic (rs_env s)" and "stack_inv (rs_stack s)"
    and "writesState s code" "code \<notin> {0x5d, 0xec}" and "gasHandler C code = Some h"
  shows "fails (h gas) s"
proof -
  consider "code \<in> {0x55, 0xa0, 0xa1, 0xa2, 0xa3, 0xa4, 0xff}" | "code \<in> {0xf0, 0xf5}"
    | "code = 0xf1" "2 < length (stack_abs (rs_stack s))" "stack_abs (rs_stack s) ! 2 \<noteq> 0"
    | "code = 0xf8" "3 < length (stack_abs (rs_stack s))" "stack_abs (rs_stack s) ! 3 \<noteq> 0"
    using assms(3, 4) by (auto simp: writesState_def)
  then show ?thesis
  proof cases
    case 1
    then have "h \<in> {gas_SSTORE C, gas_LOG C, gas_SELFDESTRUCT C}"
      using assms(5) by (auto simp: gasHandler_def gasHandlers_def)
    then show ?thesis using assms(1)
      by (auto simp: gas_SSTORE_def gas_LOG_def gas_SELFDESTRUCT_def intro!: fails_static fails_getE)
  next
    case 2
    then have "h \<in> {gas_CREATE C, gas_CREATE2 C}"
      using assms(5) by (auto simp: gasHandler_def gasHandlers_def)
    then show ?thesis using static_creates [OF assms(1)] by auto
  next
    case 3
    then have "h = gas_CALL C" using assms(5) by (simp add: gasHandler_def gasHandlers_def)
    then show ?thesis using 3 assms(1)
      by (auto simp: fails_def gas_CALL_def seqE_run peek_run [OF assms(2)] trap_def)
  next
    case 4
    then have "h = gas_EXT C 4 True" using assms(5) by (simp add: gasHandler_def gasHandlers_def gas_EXTCALL_def)
    then show ?thesis using 4 assms(1)
      by (auto simp: fails_def gas_EXT_def seqE_run peek_run [OF assms(2)] trap_def Let_def)
  qed
qed

lemma static_handlers:
  assumes "e_isStatic (rs_env s)"
  shows "fails (op_TSTORE C) s" "fails (op_EOFCREATE C) s"
  using assms by (auto simp: op_TSTORE_def op_EOFCREATE_def withEof_def intro!: fails_static fails_getE split: option.split)

lemma calm_EOFCREATE: "calm g (gas_EOFCREATE C x)"
  unfolding gas_EOFCREATE_def by (intro calm_intros calm_trap calm_updE; simp add: kept_def)

section \<open>Their entries in the tables\<close>

lemma extendWith_from: "map_of (extendWith es extra) k = Some e \<Longrightarrow> map_of es k = Some e \<or> (k, e) \<in> set extra"
  unfolding extendWith_def
proof (induction extra arbitrary: es)
  case (Cons x extra)
  obtain k' v where x: "x = (k', v)" by (cases x)
  from Cons.prems have "map_of (AList.update k' v es) k = Some e \<or> (k, e) \<in> set extra"
    by (intro Cons.IH) (simp add: x)
  then show ?case by (auto simp: x update_conv' split: if_splits)
qed simp

lemma foldl_extend_from: "map_of (foldl (\<lambda>es (a, extra). if P a then extendWith es extra else es) es0 xs) k = Some e \<Longrightarrow>
    map_of es0 k = Some e \<or> (\<exists>(a, extra) \<in> set xs. (k, e) \<in> set extra)"
proof (induction xs arbitrary: es0)
  case (Cons x xs)
  obtain a extra where x: "x = (a, extra)" by (cases x)
  from Cons.prems have "map_of (if P a then extendWith es0 extra else es0) k = Some e \<or> (\<exists>(a, extra) \<in> set xs. (k, e) \<in> set extra)"
    by (intro Cons.IH) (simp add: x)
  then show ?case using extendWith_from [of es0 extra k e] by (auto simp: x split: if_splits)
qed simp

definition gasWriters :: "nat set" where
  "gasWriters = {0x55, 0xa0, 0xa1, 0xa2, 0xa3, 0xa4, 0xf0, 0xf1, 0xf5, 0xf8, 0xff}"

text \<open>In every list of every hardfork these have a dynamic gas handler.\<close>

lemma writers_dynamic:
  assumes "map_of (opcodeBuilder c) k = Some e" and "k \<in> gasWriters"
  shows "en_dynamicGas e"
proof -
  have dyn: "list_all (\<lambda>(k, e). k \<in> gasWriters \<longrightarrow> en_dynamicGas e) opcodes"
    "list_all (\<lambda>(a, es). list_all (\<lambda>(k, e). k \<in> gasWriters \<longrightarrow> en_dynamicGas e) es) hardforkOpcodes"
    "list_all (\<lambda>(a, es). list_all (\<lambda>(k, e). k \<in> gasWriters \<longrightarrow> en_dynamicGas e) es) eipOpcodes"
    by (simp_all add: opcodes_def hardforkOpcodes_def eipOpcodes_def gasWriters_def op_default_def op_dynamic_def
        op_async_def op_both_def)
  from assms(1) have "map_of opcodes k = Some e \<or> (\<exists>(a, es) \<in> set hardforkOpcodes. (k, e) \<in> set es) \<or>
      (\<exists>(a, es) \<in> set eipOpcodes. (k, e) \<in> set es)"
    unfolding opcodeBuilder_def Let_def by (blast dest: foldl_extend_from)
  then show ?thesis using dyn assms(2) by (fastforce simp: list_all_iff dest: map_of_SomeD)
qed

lemma table_entry:
  assumes "getOpcodesForHF c = Inr T" and "T code = Some info"
  shows "oc_isInvalid info \<and> \<not> oc_dynamicGas info \<or> oc_code info = code \<and> (code \<in> gasWriters \<longrightarrow> oc_dynamicGas info)"
proof -
  obtain ops where ops: "createOpcodes c (opcodeBuilder c) = Inr ops"
    and T: "T = (\<lambda>i. case map_of ops i of Some x \<Rightarrow> Some x | None \<Rightarrow> map_of ops 0xfe)"
    using assms(1) by (auto simp: getOpcodesForHF_def and_then_Inr_iff)
  show ?thesis
  proof (cases "map_of ops code")
    case None
    then have "map_of ops 0xfe = Some info" using assms(2) by (simp add: T)
    then show ?thesis using createOpcodes_map [where k = "0xfe", OF ops]
      by (auto simp: opcodeBuilder_invalid newOpcode_def op_default_def)
  next
    case (Some x)
    then obtain e fee where "map_of (opcodeBuilder c) code = Some e" "info = newOpcode code e fee"
      using createOpcodes_map [where k = code, OF ops] assms(2) by (auto simp: T split: option.splits)
    then show ?thesis using writers_dynamic by (auto simp: newOpcode_def)
  qed
qed

lemma runStep_invalid: "oc_isInvalid info \<Longrightarrow> \<not> oc_dynamicGas info \<Longrightarrow> fails (runStep C info) s"
  unfolding runStep_def stepGas_def
  by (rule fails_then [where g = True], intro calm_intros) (auto intro: calm_intros)

text \<open>
  C17. In a static frame nothing is written. With the opcode table of any hardfork, SSTORE,
  TSTORE, the LOGs, CREATE, CREATE2, EOFCREATE, SELFDESTRUCT, and CALL and EXTCALL with a value
  end the frame with an exception in whatever state it is: they neither complete a step nor end
  it regularly, under EIP-7928 too, where CREATE checks the flag only after its gas is charged.
\<close>

theorem static_frame_safe:
  assumes "getOpcodesForHF c = Inr T" and "T code = Some info"
    and "e_isStatic (rs_env s)" and "stack_inv (rs_stack s)" and "writesState s code"
  shows "\<exists>e. fst (runStep C info s) = Inl e \<and> e \<noteq> Trap STOP"
proof -
  have "code \<in> gasWriters \<or> code \<in> {0x5d, 0xec}" using assms(5) by (auto simp: writesState_def gasWriters_def)
  then consider "oc_isInvalid info" "\<not> oc_dynamicGas info" | "oc_code info = code" "code \<in> {0x5d, 0xec}"
    | "oc_code info = code" "oc_dynamicGas info" "code \<notin> {0x5d, 0xec}"
    using table_entry [OF assms(1, 2)] by blast
  then have "fails (runStep C info) s"
  proof cases
    case 1
    then show ?thesis by (rule runStep_invalid)
  next
    case 2
    have "calm True (runHandler (gasHandler C code) (\<lambda>h. h (oc_fee info)))"
    proof -
      have "gasHandler C 0x5d = None" "gasHandler C 0xec = Some (gas_EOFCREATE C)"
        by (simp_all add: gasHandler_def gasHandlers_def)
      then show ?thesis using 2(2) calm_EOFCREATE by (auto simp: runHandler_def calm_pure)
    qed
    then have gas: "calm True (stepGas C info)" unfolding stepGas_def 2(1) by (intro calm_intros)
    have h: "fails (runHandler (opHandler C code) id) s'" if "e_isStatic (rs_env s')" for s'
    proof -
      have "opHandler C 0x5d = Some (op_TSTORE C)" "opHandler C 0xec = Some (op_EOFCREATE C)"
        by (simp_all add: opHandler_def handlers_def)
      then show ?thesis using 2(2) static_handlers [OF that] by (auto simp: runHandler_def)
    qed
    show ?thesis unfolding runStep_def
      apply (rule fails_then [OF gas], rule fails_if, simp)
      apply (rule fails_then [where g = False], rule calm_intros)
      apply (rule fails_then [where g = False], rule calm_updE, simp add: kept_def)
      apply (rule fails_then [where g = False], intro calm_intros, rule fails_first)
      unfolding 2(1)
      apply (rule h)
      using assms(3) by (simp add: kept_def)
  next
    case 3
    have "fails (runHandler (gasHandler C code) (\<lambda>h. h (oc_fee info))) s"
      using static_gas [OF assms(3-5) 3(3), of C] by (auto simp: runHandler_def split: option.split)
    then show ?thesis unfolding runStep_def stepGas_def using 3 by (intro fails_first) simp
  qed
  then show ?thesis by (simp add: fails_def)
qed

section \<open>A table and a static frame\<close>

text \<open>A chain whose parameters give every opcode of the tables a fee of 3.\<close>

definition table_entries :: opcode_entries where
  "table_entries = opcodes @ concat (map snd hardforkOpcodes) @ concat (map snd eipOpcodes)"

definition table_common :: common where
  "table_common = small_common\<lparr>paramsCache :=
     map (\<lambda>(k, e). (map lower_char (en_name e) @ ''Gas'', Some 3)) table_entries @
     [(''logTopicGas'', Some 3), (''logDataGas'', Some 3)]\<rparr>"

lemma table_fee: "(k, e) \<in> set table_entries \<Longrightarrow> baseFee table_common (en_name e) = Inr 3"
proof -
  assume "(k, e) \<in> set table_entries"
  then have "(map lower_char (en_name e) @ ''Gas'', Some 3) \<in> set (paramsCache table_common)"
    by (force simp: table_common_def)
  moreover have "\<forall>x \<in> set (paramsCache table_common). snd x = Some 3" by (auto simp: table_common_def)
  ultimately have "map_of (paramsCache table_common) (map lower_char (en_name e) @ ''Gas'') = Some (Some 3)"
    by (metis map_of_SomeD map_of_eq_None_iff option.exhaust_sel snd_conv weak_map_of_SomeI image_eqI fst_conv)
  then show ?thesis by (simp add: baseFee_def param_def)
qed

lemma set_update_subset: "set (AList.update k v es) \<subseteq> insert (k, v) (set es)"
  by (induction es) auto

lemma set_extendWith: "set (extendWith es extra) \<subseteq> set es \<union> set extra"
  unfolding extendWith_def
proof (induction extra arbitrary: es)
  case (Cons x extra)
  then show ?case using set_update_subset [of "fst x" "snd x" es] by (cases x) fastforce
qed simp

lemma set_foldl_extend: "set (foldl (\<lambda>es (a, extra). if P a then extendWith es extra else es) es0 xs) \<subseteq>
    set es0 \<union> set (concat (map snd xs))"
proof (induction xs arbitrary: es0)
  case (Cons x xs)
  obtain a extra where x: "x = (a, extra)" by (cases x)
  show ?case using Cons [of "if P a then extendWith es0 extra else es0"] set_extendWith [of es0 extra]
    by (auto simp: x split: if_splits)
qed simp

lemma opcodeBuilder_entries: "set (opcodeBuilder c) \<subseteq> set table_entries"
proof -
  let ?forks = "foldl (\<lambda>es (hf, extra). if gteHardfork c hf then extendWith es extra else es) opcodes hardforkOpcodes"
  have "set (opcodeBuilder c) \<subseteq> set ?forks \<union> set (concat (map snd eipOpcodes))"
    unfolding opcodeBuilder_def Let_def by (rule set_foldl_extend)
  moreover have "set ?forks \<subseteq> set opcodes \<union> set (concat (map snd hardforkOpcodes))" by (rule set_foldl_extend)
  ultimately show ?thesis by (auto simp: table_entries_def)
qed

lemma createOpcodes_total: "(\<And>k e. (k, e) \<in> set es \<Longrightarrow> baseFee c (en_name e) = Inr 3) \<Longrightarrow> \<exists>ops. createOpcodes c es = Inr ops"
proof (induction es)
  case (Cons x es)
  then show ?case by (cases x) fastforce
qed simp

lemma table_log: "\<exists>T. getOpcodesForHF table_common = Inr T \<and> T 0xa0 = Some (newOpcode 0xa0 (op_dynamic ''LOG'') 3)"
proof -
  obtain ops where ops: "createOpcodes table_common (opcodeBuilder table_common) = Inr ops"
    using createOpcodes_total [of "opcodeBuilder table_common" table_common] table_fee opcodeBuilder_entries by blast
  have "\<forall>(a, extra) \<in> set hardforkOpcodes. 0xa0 \<notin> fst ` set extra" by (simp add: hardforkOpcodes_def)
  moreover have "\<forall>(a, extra) \<in> set eipOpcodes. 0xa0 \<notin> fst ` set extra" by (simp add: eipOpcodes_def)
  moreover have "map_of opcodes 0xa0 = Some (op_dynamic ''LOG'')" by (simp add: opcodes_def)
  ultimately have e: "map_of (opcodeBuilder table_common) 0xa0 = Some (op_dynamic ''LOG'')"
    by (simp add: opcodeBuilder_def foldl_extend_other)
  then have "(0xa0, op_dynamic ''LOG'') \<in> set table_entries" using opcodeBuilder_entries by (blast dest: map_of_SomeD)
  then have "baseFee table_common (en_name (op_dynamic ''LOG'')) = Inr 3" by (rule table_fee)
  then have "map_of ops 0xa0 = Some (newOpcode 0xa0 (op_dynamic ''LOG'') 3)"
    using createOpcodes_map [where k = "0xa0", OF ops] e by auto
  then show ?thesis using ops by (simp add: getOpcodesForHF_def)
qed

definition table_ctx :: "simple_state ctx" where
  "table_ctx = sample_ctx\<lparr>cx_common := table_common\<rparr>"

text \<open>A LOG0 of an empty range with its two arguments on the stack, in a frame that is static or not.\<close>

definition log_state :: "bool \<Rightarrow> simple_state run_state" where
  "log_state static = (sample_state [0xa0])\<lparr>rs_opCode := 0xa0, rs_stack := \<lparr>store = [0, 0], maxHeight = 1024, len = 2\<rparr>,
     rs_env := sample_env\<lparr>e_isStatic := static\<rparr>\<rparr>"

lemma table_params: "paramOf table_ctx ''logTopicGas'' = ret 3" "paramOf table_ctx ''logDataGas'' = ret 3"
proof -
  have "map_of (paramsCache table_common) k = Some (Some 3)" if "k \<in> {''logTopicGas'', ''logDataGas''}" for k
  proof -
    have "k \<in> fst ` set (paramsCache table_common)" using that by (auto simp: table_common_def)
    moreover have "\<forall>x \<in> set (paramsCache table_common). snd x = Some 3" by (auto simp: table_common_def)
    ultimately show ?thesis
      by (metis map_of_SomeD map_of_eq_None_iff option.exhaust_sel snd_conv)
  qed
  then show "paramOf table_ctx ''logTopicGas'' = ret 3" "paramOf table_ctx ''logDataGas'' = ret 3"
    by (simp_all add: paramOf_def throwing_def param_def table_ctx_def fun_eq_iff)
qed

lemma log_not_static: "fst (runStep table_ctx (newOpcode 0xa0 (op_dynamic ''LOG'') 3) (log_state False)) = Inr ()"
proof -
  have s: "\<not> stateless table_ctx"
    by (simp add: stateless_def table_ctx_def activated_def table_common_def small_common_def isActivatedEIP_def)
  have h: "gasHandler table_ctx 0xa0 = Some (gas_LOG table_ctx)" "opHandler table_ctx 0xa0 = Some (op_LOG table_ctx)"
    by (simp_all add: gasHandler_def opHandler_def)
  show ?thesis
    by (simp add: runStep_def stepGas_def seqE_run newOpcode_def op_dynamic_def runHandler_def h s gas_LOG_def
        log_state_def sample_state_def newRunState_def peek_def stackOp_def st_peek_def numeral_2_eq_2 memGas_def
        subMemUsage_def table_params useGas_def consumeEip7928PostTargetCallOog_def op_LOG_def popN_def st_popN_def
        throwing_def logTopics_def pushLog_def addWitness_def)
qed

theorem static_frame_safe_witness:
  "\<exists>T info. getOpcodesForHF table_common = Inr T \<and> T 0xa0 = Some info \<and>
     (\<exists>e. fst (runStep table_ctx info (log_state True)) = Inl e \<and> e \<noteq> Trap STOP) \<and>
     fst (runStep table_ctx info (log_state False)) = Inr ()"
proof -
  obtain T where T: "getOpcodesForHF table_common = Inr T" "T 0xa0 = Some (newOpcode 0xa0 (op_dynamic ''LOG'') 3)"
    using table_log by blast
  have "\<exists>e. fst (runStep table_ctx (newOpcode 0xa0 (op_dynamic ''LOG'') 3) (log_state True)) = Inl e \<and> e \<noteq> Trap STOP"
    by (rule static_frame_safe [OF T]) (simp_all add: log_state_def stack_inv_def writesState_def)
  then show ?thesis using T log_not_static by blast
qed

end
