(* ===== verification/Evm.thy ===== *)
theory Evm
  imports EvmFrame
begin

text \<open>
  \<^verbatim>\<open>packages/evm/src/evm.ts\<close>: the execution of a message, a call or a creation, around the frame
  of the interpreter. A message takes a checkpoint of the journal, moves the value, runs the
  code and commits or reverts. Nested messages run through the same functions: \<open>runMessage\<close>
  closes the circle between \<open>EVM.runCall\<close> and the interpreter, with a bound on the nesting and
  \<open>em_steps\<close> opcodes for each frame; \<open>OutOfFuel\<close> is the error when they run out. Precompiles are a
  parameter. Events, timers and debug output are left out. An \<open>EVMError\<close> that leaves
  \<open>runCall\<close> as an exception (a creation that sends more than the caller owns) is a \<open>PlainError\<close>.
\<close>

section \<open>The parameters of an EVM\<close>

type_synonym precompile = "bytes \<Rightarrow> int \<Rightarrow> call_result res"

record 'm evm =
  em_ctx :: "'m ctx"
  em_opcodes :: opcode_map
  em_precompile :: "bytes \<Rightarrow> precompile option"
  em_allowUnlimitedContractSize :: bool
  em_block :: block_header
  em_gasPrice :: int
  em_origin :: bytes
  em_steps :: nat

type_synonym ('m, 'a) wop = "('m world, js_error, 'a) eff"

text \<open>Calls of methods of the journal, the state manager, transient storage and the two recorders.\<close>

definition journalW :: "('m, 'a) jop \<Rightarrow> ('m, 'a) wop" where
  "journalW m = (\<lambda>w. case m (wd_journal w) of (r, j) \<Rightarrow> (r, w\<lparr>wd_journal := j\<rparr>))"

definition managerW :: "('m, js_error, 'a) eff \<Rightarrow> ('m, 'a) wop" where
  "managerW m = journalW (stateE m)"

definition transientW :: "'a ts_op \<Rightarrow> ('m, 'a) wop" where
  "transientW m = (\<lambda>w. case m (wd_transient w) of (r, t) \<Rightarrow> (r, w\<lparr>wd_transient := t\<rparr>))"

definition varsW :: "(evm_vars \<Rightarrow> evm_vars) \<Rightarrow> ('m, unit) wop" where
  "varsW f = updE (\<lambda>w. w\<lparr>wd_vars := f (wd_vars w)\<rparr>)"

text \<open>On the block access list with \<open>?.\<close> and with \<open>!\<close>, on the access witness with \<open>?.\<close> and with \<open>!\<close>.\<close>

definition balW :: "bal_call \<Rightarrow> ('m, unit) wop" where
  "balW b = updE (\<lambda>w. w\<lparr>wd_bal := map_option (\<lambda>bs. bs @ [b]) (wd_bal w)\<rparr>)"

definition balStrictW :: "bal_call \<Rightarrow> ('m, unit) wop" where
  "balStrictW b = seqE (getE wd_bal) (\<lambda>l. if l = None then raise TypeError else balW b)"

definition noteW :: "witness_call \<Rightarrow> ('m, unit) wop" where
  "noteW c = updE (\<lambda>w. w\<lparr>wd_witness := map_option (\<lambda>cs. cs @ [c]) (wd_witness w)\<rparr>)"

definition witnessW :: "'m ctx \<Rightarrow> witness_call \<Rightarrow> ('m, int) wop" where
  "witnessW C c = seqE (getE wd_witness) (\<lambda>l. case l of
     None \<Rightarrow> raise TypeError
   | Some cs \<Rightarrow> seqE (noteW c) (\<lambda>_. ret (cx_witnessGas C cs c)))"

fun witnessSum :: "'m ctx \<Rightarrow> witness_call list \<Rightarrow> ('m, int) wop" where
  "witnessSum C [] = ret 0"
| "witnessSum C (c # cs) = seqE (witnessW C c) (\<lambda>g. seqE (witnessSum C cs) (\<lambda>gs. ret (g + gs)))"

definition paramW :: "'m ctx \<Rightarrow> string \<Rightarrow> ('m, int) wop" where
  "paramW C n = resE (param (cx_common C) n)"

definition accountOr :: "account option \<Rightarrow> account res" where
  "accountOr x = (case x of Some a \<Rightarrow> Inr a | None \<Rightarrow> newAccount Undef Undef Undef Undef Undef Undef)"

definition getAccountW :: "'m ctx \<Rightarrow> bytes \<Rightarrow> ('m, account option) wop" where
  "getAccountW C a = managerW (m_getAccount (cx_manager C) a)"

definition accountW :: "'m ctx \<Rightarrow> bytes \<Rightarrow> ('m, account) wop" where
  "accountW C a = seqE (getAccountW C a) (\<lambda>x. resE (accountOr x))"

definition putAccountW :: "'m ctx \<Rightarrow> bytes \<Rightarrow> account \<Rightarrow> ('m, unit) wop" where
  "putAccountW C a x = journalW (j_putAccount (cx_hex C) (managerOf C) a (Some x))"

section \<open>Results\<close>

definition emptyResult :: "message \<Rightarrow> int \<Rightarrow> evm_error option \<Rightarrow> call_result" where
  "emptyResult msg gasUsed err =
     \<lparr>cr_logs = [], cr_executionGasUsed = gasUsed, cr_returnValue = [], cr_exception = err,
      cr_gasRefund = None, cr_createdAddress = None, cr_selfdestruct = ms_selfdestruct msg,
      cr_createdAddresses = ms_createdAddresses msg\<rparr>"

text \<open>\<open>{ ...result, ...OOGResult(gas) }\<close> and its siblings.\<close>

definition failed :: "evm_error \<Rightarrow> int \<Rightarrow> call_result \<Rightarrow> call_result" where
  "failed err gasUsed r = r\<lparr>cr_returnValue := [], cr_executionGasUsed := gasUsed, cr_exception := Some err\<rparr>"

definition OOGResult :: "message \<Rightarrow> int \<Rightarrow> call_result" where
  "OOGResult msg gasLimit = emptyResult msg gasLimit (Some OUT_OF_GAS)"

definition defaultBlock :: block_header where
  "defaultBlock = \<lparr>bh_number = 0, bh_coinbase = replicate 20 0, bh_timestamp = 0, bh_difficulty = 0,
     bh_prevRandao = replicate 32 0, bh_gasLimit = 0, bh_slotNumber = None, bh_baseFeePerGas = None,
     bh_blobGasPrice = None\<rparr>"

section \<open>Moving value\<close>

definition MAX_INTEGER :: int where
  "MAX_INTEGER = 2 ^ 256 - 1"

text \<open>\<open>Inl\<close> is the \<open>EVMError\<close> they throw, which a call catches. Accounts are values here; the
  code lowers the balance of an account object it may share with the state before it throws, in a
  frame that is then reverted.\<close>

definition reduceSenderBalance :: "'m ctx \<Rightarrow> account \<Rightarrow> message \<Rightarrow> ('m, evm_error + unit) wop" where
  "reduceSenderBalance C account msg = seqE (resE (get_balance account)) (\<lambda>originalBalance.
     let newBalance = originalBalance - ms_value msg in
     if newBalance < 0 then ret (Inl INSUFFICIENT_BALANCE)
     else seqE (whenE (activated C 7928) (balStrictW
         (BalBalance (addressString C (ms_caller msg)) newBalance originalBalance))) (\<lambda>_.
       seqE (putAccountW C (ms_caller msg) (account\<lparr>acc_balance := Some newBalance\<rparr>)) (\<lambda>_. ret (Inr ()))))"

definition addToBalance :: "'m ctx \<Rightarrow> bytes \<Rightarrow> account \<Rightarrow> message \<Rightarrow> ('m, evm_error + unit) wop" where
  "addToBalance C to toAccount msg = seqE (resE (get_balance toAccount)) (\<lambda>originalBalance.
     let newBalance = originalBalance + ms_value msg in
     if newBalance > MAX_INTEGER then ret (Inl VALUE_OVERFLOW)
     else seqE (whenE (activated C 7928)
         (seqE (balStrictW (BalAddress (addressString C to))) (\<lambda>_.
            whenE (ms_value msg \<noteq> 0) (balStrictW (BalBalance (addressString C to) newBalance originalBalance))))) (\<lambda>_.
       seqE (putAccountW C to (toAccount\<lparr>acc_balance := Some newBalance\<rparr>)) (\<lambda>_. ret (Inr ()))))"

definition firstError :: "evm_error + unit \<Rightarrow> evm_error option \<Rightarrow> evm_error option" where
  "firstError r old = (case r of Inl e \<Rightarrow> Some e | Inr _ \<Rightarrow> old)"

definition generateAddressW :: "'m ctx \<Rightarrow> message \<Rightarrow> bytes \<Rightarrow> ('m, bytes) wop" where
  "generateAddressW C msg code =
     seqE (case ms_salt msg of
         Some salt \<Rightarrow> resE (generateAddress2 (cx_keccakNoble C) (ms_caller msg) salt code)
       | None \<Rightarrow> seqE (accountW C (ms_caller msg)) (\<lambda>acc.
           seqE (resE (get_nonce acc)) (\<lambda>nonce.
           resE (and_then (bigIntToBytes (cx_hex C) (nonce - 1) False)
             (generateAddress (cx_hex C) (cx_keccakNoble C) (ms_caller msg)))))) (\<lambda>addr.
     resE (newAddress addr))"

text \<open>The log of a transfer between two different accounts under EIP-7708.\<close>

definition transferLogs :: "'m ctx \<Rightarrow> bool \<Rightarrow> bytes \<Rightarrow> bytes \<Rightarrow> int \<Rightarrow> evm_error option \<Rightarrow> log list res" where
  "transferLogs C delegatecall caller to v err =
     (if activated C 7708 \<and> \<not> delegatecall \<and> v > 0 \<and> caller \<noteq> to \<and> err = None
      then and_then (transferLog C caller to v) (\<lambda>l. Inr [l]) else Inr [])"

text \<open>Gas for touching the witness: what is left, or nothing when it is not enough.\<close>

definition chargeWitness :: "'m ctx \<Rightarrow> witness_call list \<Rightarrow> int \<Rightarrow> ('m, int option) wop" where
  "chargeWitness C calls gasLimit = seqE (witnessSum C calls) (\<lambda>g.
     if gasLimit - g < 0 then seqE (noteW WitnessRevert) (\<lambda>_. ret None)
     else seqE (noteW WitnessCommit) (\<lambda>_. ret (Some (gasLimit - g))))"

definition stateless68 :: "'m ctx \<Rightarrow> bool" where
  "stateless68 C \<longleftrightarrow> activated C 6800 \<or> activated C 7864"

section \<open>The frame of the interpreter\<close>

definition frameEnv :: "'m evm \<Rightarrow> message \<Rightarrow> bytes \<Rightarrow> bytes \<Rightarrow> bool \<Rightarrow> bool \<Rightarrow> account \<Rightarrow> env" where
  "frameEnv E msg to code isCreate chargeCode contract =
     \<lparr>e_address = to, e_caller = ms_caller msg, e_callData = ms_data msg, e_callValue = ms_value msg,
      e_code = code, e_isStatic = ms_isStatic msg, e_isCreate = isCreate, e_depth = ms_depth msg,
      e_gasPrice = em_gasPrice E, e_origin = em_origin E, e_block = em_block E, e_contract = contract,
      e_eof = None, e_blobVersionedHashes = ms_blobVersionedHashes msg,
      e_createdAddresses = ms_createdAddresses msg, e_chargeCodeAccesses = chargeCode\<rparr>"

text \<open>
  \<open>runInterpreter\<close>. The map of self-destructed accounts and the set of created ones are those of
  the message, filled in place by the frame and dropped on an error.
\<close>

definition runInterpreter :: "'m evm \<Rightarrow> 'm ctx \<Rightarrow> message \<Rightarrow> bytes \<Rightarrow> bytes \<Rightarrow> int \<Rightarrow> bool \<Rightarrow> bool \<Rightarrow> log list \<Rightarrow> int option \<Rightarrow>
    ('m, call_result) wop" where
  "runInterpreter E C msg to code gasLimit isCreate chargeCode initialLogs pc =
     seqE (accountW C to) (\<lambda>contract.
     seqE (resE (consensusType (cx_common C))) (\<lambda>_. \<lambda>w.
       let s0 = newRunState (frameEnv E msg to code isCreate chargeCode contract) gasLimit (ms_gasRefund msg) initialLogs w;
           s1 = s0\<lparr>rs_result := (rs_result s0)\<lparr>rr_selfdestruct := ms_selfdestruct msg,
                     rr_createdAddresses := ms_createdAddresses msg\<rparr>\<rparr> in
       case runFrame C (em_opcodes E) (em_steps E) code pc s1 of
         None \<Rightarrow> (Inl OutOfFuel, w)
       | Some (Inl e, s) \<Rightarrow> (Inl e, rs_world s)
       | Some (Inr err, s) \<Rightarrow>
           let res = rs_result s;
               gasUsed = (if err \<noteq> None \<and> err \<noteq> Some REVERT \<and> err \<noteq> Some INVALID_EOF_FORMAT
                          then gasLimit else gasLimit - rs_gasLeft s) in
           (Inr \<lparr>cr_logs = (if err = None then rr_logs res else []), cr_executionGasUsed = gasUsed,
                 cr_returnValue = (case rr_returnValue res of None \<Rightarrow> [] | Some b \<Rightarrow> b), cr_exception = err,
                 cr_gasRefund = Some (rs_gasRefund s), cr_createdAddress = None,
                 cr_selfdestruct = (if err = None then rr_selfdestruct res else []),
                 cr_createdAddresses = (if err = None then rr_createdAddresses res else Some [])\<rparr>,
            snd (noteW WitnessCommit (rs_world s)))))"

definition postMessageCleanup :: "'m ctx \<Rightarrow> ('m, unit) wop" where
  "postMessageCleanup C = whenE (activated C 1153) (transientW ts_clear)"

section \<open>Calls\<close>

text \<open>\<open>_loadCode\<close>: a precompile, or the code and whether its chunks are charged.\<close>

definition loadCode :: "'m evm \<Rightarrow> 'm ctx \<Rightarrow> message \<Rightarrow> bytes \<Rightarrow> bytes option \<Rightarrow> ('m, precompile + bytes \<times> bool) wop" where
  "loadCode E C msg codeAddress code = (case code of
     Some c \<Rightarrow> ret (Inr (c, False))
   | None \<Rightarrow> (case em_precompile E codeAddress of
       Some p \<Rightarrow> ret (Inl p)
     | None \<Rightarrow> seqE (managerW (m_getCode (cx_manager C) codeAddress)) (\<lambda>c.
         if activated C 7702 \<and> equalsBytes (js_slice c 0 3) DELEGATION_7702_FLAG then
           seqE (resE (newAddress (js_slice c 3 24))) (\<lambda>address.
           seqE (managerW (m_getCode (cx_manager C) address)) (\<lambda>c'.
           seqE (whenE (activated C 7928) (balW (BalAddress (addressString C address)))) (\<lambda>_.
           seqE (whenE (ms_depth msg = 0)
             (journalW (updE (addAlwaysWarmAddress (addressString C address) False)))) (\<lambda>_.
           ret (Inr (c', True))))))
         else ret (Inr (c, True)))))"

text \<open>The transfer of value by a call; the last error of the two steps counts.\<close>

definition transferValue :: "'m ctx \<Rightarrow> message \<Rightarrow> bytes \<Rightarrow> int \<Rightarrow> ('m, (evm_error option \<times> int) option) wop" where
  "transferValue C msg to gasLimit =
     seqE (accountW C (ms_caller msg)) (\<lambda>account.
     seqE (if ms_delegatecall msg then ret None
       else seqE (reduceSenderBalance C account msg) (\<lambda>r. ret (firstError r None))) (\<lambda>err.
     seqE (getAccountW C to) (\<lambda>toAccount0.
     seqE (if toAccount0 = None \<and> stateless68 C then chargeWitness C [ReadAccountHeader to] gasLimit
       else ret (Some gasLimit)) (\<lambda>left. case left of
         None \<Rightarrow> ret None
       | Some gasLimit' \<Rightarrow>
           seqE (resE (accountOr toAccount0)) (\<lambda>toAccount.
           seqE (if ms_delegatecall msg then ret err
             else seqE (addToBalance C to toAccount msg) (\<lambda>r. ret (firstError r err))) (\<lambda>err'.
           ret (Some (err', gasLimit'))))))))"

text \<open>The witness gas of a call; reading the origin and the target is free at depth 0.\<close>

definition callWitness :: "'m ctx \<Rightarrow> message \<Rightarrow> bytes \<Rightarrow> ('m, int option) wop" where
  "callWitness C msg to =
     (if \<not> activated C 7864 then ret (Some (ms_gasLimit msg))
      else seqE (getE wd_witness) (\<lambda>l. if l = None then raise (EthereumJSError ''accessWitness is required for EIP-7864'')
        else seqE (whenE (ms_depth msg = 0) (seqE (witnessSum C ([ReadAccountHeader (ms_caller msg), ReadCodeHash to] @
            (if ms_value msg \<noteq> 0 then [WriteBasicData to] else [ReadBasicData to]))) (\<lambda>_. ret ()))) (\<lambda>_.
          chargeWitness C ([ReadBasicData to] @ (if ms_value msg \<noteq> 0 then [WriteBasicData to] else [])) (ms_gasLimit msg))))"

definition withLogs :: "log list \<Rightarrow> call_result \<Rightarrow> call_result" where
  "withLogs ls r = r\<lparr>cr_logs := ls @ cr_logs r\<rparr>"

definition executeCall :: "'m evm \<Rightarrow> 'm ctx \<Rightarrow> message \<Rightarrow> bytes \<Rightarrow> bytes option \<Rightarrow> ('m, call_result) wop" where
  "executeCall E C msg to code0 =
     (let codeAddress = (case ms_codeAddress msg of Some a \<Rightarrow> a | None \<Rightarrow> to) in
      seqE (callWitness C msg to) (\<lambda>left. case left of
        None \<Rightarrow> ret (OOGResult msg (ms_gasLimit msg))
      | Some gasLeft1 \<Rightarrow>
      seqE (transferValue C msg to gasLeft1) (\<lambda>moved. case moved of
        None \<Rightarrow> ret (OOGResult msg (ms_gasLimit msg))
      | Some (err, gasLimit) \<Rightarrow>
      seqE (whenE (activated C 7928 \<and> codeAddress \<noteq> to) (balStrictW (BalAddress (addressString C codeAddress)))) (\<lambda>_.
      seqE (loadCode E C msg codeAddress code0) (\<lambda>loaded.
      seqE (resE (transferLogs C (ms_delegatecall msg) (ms_caller msg) to (ms_value msg) err)) (\<lambda>logs.
      if err \<noteq> None \<or> (case loaded of Inl _ \<Rightarrow> False | Inr (c, _) \<Rightarrow> c = []) then
        ret ((emptyResult msg (ms_gasLimit msg - gasLimit) err)\<lparr>cr_logs := logs, cr_gasRefund := Some (ms_gasRefund msg)\<rparr>)
      else
        seqE (case loaded of
            Inl p \<Rightarrow> seqE (resE (p (ms_data msg) gasLimit)) (\<lambda>r.
              ret (withLogs logs r\<lparr>cr_gasRefund := Some (ms_gasRefund msg), cr_createdAddress := None,
                cr_selfdestruct := ms_selfdestruct msg, cr_createdAddresses := ms_createdAddresses msg\<rparr>))
          | Inr (c, charge) \<Rightarrow> runInterpreter E C msg to c gasLimit False charge logs None) (\<lambda>result.
        seqE (whenE (ms_depth msg = 0) (postMessageCleanup C)) (\<lambda>_.
        ret (result\<lparr>cr_executionGasUsed := cr_executionGasUsed result + (ms_gasLimit msg - gasLimit)\<rparr>)))))))))"

section \<open>Creations\<close>

text \<open>
  What a successful creation pays for its code: the total, the fee that Frontier may leave
  unpaid, and under EIP-8037 the state gas with its split between the reservoir and the gas left.
\<close>

record create_fees =
  cf_totalGas :: int
  cf_returnFee :: int
  cf_stateGasCreate :: int
  cf_fromReservoir :: int

definition depositFees :: "'m ctx \<Rightarrow> call_result \<Rightarrow> ('m, create_fees) wop" where
  "depositFees C result =
     (if cr_exception result \<noteq> None \<or> activated C 6800 then
        ret \<lparr>cf_totalGas = cr_executionGasUsed result, cf_returnFee = 0, cf_stateGasCreate = 0, cf_fromReservoir = 0\<rparr>
      else let L = int (length (cr_returnValue result)) in
        if activated C 8037 then
          seqE (paramW C ''codeDepositHashWordGas'') (\<lambda>wordGas.
          seqE (paramW C ''costPerStateByte'') (\<lambda>costPerStateByte.
          seqE (getE (\<lambda>w. ev_stateGasReservoir (wd_vars w))) (\<lambda>reservoir.
            let returnFee = (L + 31) div 32 * wordGas; stateGas = L * costPerStateByte;
                fromReservoir = (if stateGas < reservoir then stateGas else reservoir) in
            ret \<lparr>cf_totalGas = cr_executionGasUsed result + returnFee + (stateGas - fromReservoir),
                 cf_returnFee = returnFee, cf_stateGasCreate = stateGas, cf_fromReservoir = fromReservoir\<rparr>)))
        else seqE (paramW C ''createDataGas'') (\<lambda>g.
          ret \<lparr>cf_totalGas = cr_executionGasUsed result + L * g, cf_returnFee = L * g,
               cf_stateGasCreate = 0, cf_fromReservoir = 0\<rparr>))"

definition codeSizeAllowed :: "'m ctx \<Rightarrow> call_result \<Rightarrow> ('m, bool) wop" where
  "codeSizeAllowed C result =
     (if cr_exception result = None \<and> gteHardfork (cx_common C) ''spuriousDragon''
      then seqE (paramW C ''maxCodeSize'') (\<lambda>m. ret (int (length (cr_returnValue result)) \<le> m))
      else ret True)"

text \<open>The outcome: the result, whether the creation succeeded, and Frontier's unpaid deposit.\<close>

definition settleCreate :: "'m evm \<Rightarrow> 'm ctx \<Rightarrow> message \<Rightarrow> bytes \<Rightarrow> call_result \<Rightarrow> create_fees \<Rightarrow> bool \<Rightarrow>
    ('m, call_result \<times> bool \<times> bool) wop" where
  "settleCreate E C msg code result fees allowedCodeSize =
     (let total = cf_totalGas fees; gasLimit = ms_gasLimit msg in
      if total \<le> gasLimit \<and> (em_allowUnlimitedContractSize E \<or> allowedCodeSize) then
        if activated C 3541 \<and> cr_returnValue result \<noteq> [] \<and> hd (cr_returnValue result) = 0xef \<and>
           (\<not> activated C 3540 \<or> \<not> isEOF code)
        then ret (failed INVALID_BYTECODE_RESULT gasLimit result, False, False)
        else ret (result\<lparr>cr_executionGasUsed := total\<rparr>, True, False)
      else if gteHardfork (cx_common C) ''homestead'' then
        if \<not> allowedCodeSize then ret (failed CODESIZE_EXCEEDS_MAXIMUM gasLimit result, False, False)
        else seqE (noteW WitnessRevert) (\<lambda>_. ret (failed OUT_OF_GAS gasLimit result, False, False))
      else if total - cf_returnFee fees \<le> gasLimit then
        seqE (noteW WitnessRevert) (\<lambda>_.
          ret (failed CODESTORE_OUT_OF_GAS (total - cf_returnFee fees) result, False, True))
      else seqE (noteW WitnessRevert) (\<lambda>_. ret (failed OUT_OF_GAS gasLimit result, False, False)))"

definition newAccountGas :: "'m ctx \<Rightarrow> ('m, int) wop" where
  "newAccountGas C = seqE (paramW C ''stateBytesPerNewAccount'') (\<lambda>n.
     seqE (paramW C ''costPerStateByte'') (\<lambda>c. ret (n * c)))"

definition lookupGas :: "string \<Rightarrow> (string \<times> int) list \<Rightarrow> int" where
  "lookupGas k m = (case map_of m k of None \<Rightarrow> 0 | Some g \<Rightarrow> g)"

definition recordStateGas :: "'m ctx \<Rightarrow> message \<Rightarrow> bytes \<Rightarrow> create_fees \<Rightarrow> ('m, unit) wop" where
  "recordStateGas C msg to fees =
     (let key = addressString C to; g = cf_stateGasCreate fees in
      seqE (whenE (g > 0) (varsW (\<lambda>v. v\<lparr>ev_stateGasReservoir := ev_stateGasReservoir v - cf_fromReservoir fees,
        ev_executionStateGasUsed := ev_executionStateGasUsed v + g\<rparr>))) (\<lambda>_.
      seqE (if ms_depth msg > 0 then newAccountGas C else ret 0) (\<lambda>baked.
      seqE (varsW (\<lambda>v. v\<lparr>ev_createdAccountStateGas :=
        obj_set key (lookupGas key (ev_createdAccountStateGas v) + (g + baked)) (ev_createdAccountStateGas v)\<rparr>)) (\<lambda>_.
      whenE (ms_depth msg = 0) (seqE (newAccountGas C) (\<lambda>i. varsW (\<lambda>v. v\<lparr>ev_createdAccountIntrinsicStateGas :=
        obj_set key i (ev_createdAccountIntrinsicStateGas v)\<rparr>)))))))"

text \<open>The witness gas of completing a creation and of writing the code; both may end it.\<close>

definition completionGas :: "'m ctx \<Rightarrow> message \<Rightarrow> witness_call \<Rightarrow> call_result \<Rightarrow> int \<Rightarrow> bool \<Rightarrow> ('m, call_result \<times> int) wop" where
  "completionGas C msg c result gasLimit commit =
     (if \<not> stateless68 C then ret (result, gasLimit)
      else seqE (witnessW C c) (\<lambda>g.
        if gasLimit - g < 0 then seqE (noteW WitnessRevert) (\<lambda>_. ret (failed OUT_OF_GAS (ms_gasLimit msg) result, gasLimit - g))
        else seqE (whenE commit (noteW WitnessCommit)) (\<lambda>_.
          ret (result\<lparr>cr_executionGasUsed := cr_executionGasUsed result + g\<rparr>, gasLimit - g))))"

text \<open>
  Storing the code. When the witness gas for it runs out, the code still calls \<open>putCode\<close>, with the
  empty return value of the failure.
\<close>

definition storeCode :: "'m ctx \<Rightarrow> message \<Rightarrow> bytes \<Rightarrow> call_result \<Rightarrow> int \<Rightarrow> bool \<Rightarrow> ('m, call_result) wop" where
  "storeCode C msg to result0 gasLimit0 codestoreOOG =
     seqE (if cr_exception result0 = None then completionGas C msg (WriteAccountHeader to) result0 gasLimit0 False
           else ret (result0, gasLimit0)) (\<lambda>(result, gasLimit).
     if cr_exception result = None \<and> cr_returnValue result \<noteq> [] then
       seqE (completionGas C msg (WriteCodeChunks to 0 (int (length (cr_returnValue result)) - 1)) result gasLimit True)
         (\<lambda>(result', _).
       seqE (managerW (m_putCode (cx_manager C) to (cr_returnValue result'))) (\<lambda>_.
       seqE (whenE (activated C 7928) (balStrictW (BalCode (addressString C to) (cr_returnValue result')))) (\<lambda>_.
       ret result')))
     else if codestoreOOG \<and> \<not> gteHardfork (cx_common C) ''homestead'' then
       seqE (accountW C to) (\<lambda>account. seqE (putAccountW C to account) (\<lambda>_. ret result))
     else ret result)"

definition collides :: "account \<Rightarrow> bool res" where
  "collides a = and_then (get_nonce a) (\<lambda>n. if n > 0 then Inr True
     else and_then (get_codeHash a) (\<lambda>h. if \<not> equalsBytes h KECCAK256_NULL then Inr True
     else and_then (get_storageRoot a) (\<lambda>r. Inr (\<not> equalsBytes r KECCAK256_RLP))))"

definition created :: "bytes \<Rightarrow> call_result \<Rightarrow> call_result" where
  "created to r = r\<lparr>cr_createdAddress := Some to\<rparr>"

text \<open>The new contract once its address is known to be free.\<close>

definition deploy :: "'m evm \<Rightarrow> 'm ctx \<Rightarrow> message \<Rightarrow> bytes \<Rightarrow> bytes \<Rightarrow> account \<Rightarrow> int \<Rightarrow> ('m, call_result) wop" where
  "deploy E C msg to code toAccount0 gasLimit =
     seqE (putAccountW C to toAccount0) (\<lambda>_.
     seqE (managerW (m_clearStorage (cx_manager C) to)) (\<lambda>_.
     seqE (accountW C to) (\<lambda>toAccount1.
     seqE (resE (if gteHardfork (cx_common C) ''spuriousDragon''
       then and_then (get_nonce toAccount1) (\<lambda>n. Inr (toAccount1\<lparr>acc_nonce := Some (n + 1)\<rparr>))
       else Inr toAccount1)) (\<lambda>toAccount.
     seqE (whenE (activated C 7928) (seqE (resE (get_nonce toAccount)) (\<lambda>n.
       balStrictW (BalNonce (addressString C to) n)))) (\<lambda>_.
     seqE (addToBalance C to toAccount msg) (\<lambda>r.
     let err = firstError r None in
     seqE (resE (transferLogs C False (ms_caller msg) to (ms_value msg) err)) (\<lambda>logs.
     if code = [] \<or> err \<noteq> None then
       seqE (if stateless68 C then chargeWitness C [WriteAccountHeader to] gasLimit else ret (Some gasLimit)) (\<lambda>left.
         case left of
           None \<Rightarrow> ret (OOGResult msg (ms_gasLimit msg))
         | Some g \<Rightarrow> ret (created to ((emptyResult msg (ms_gasLimit msg - g) err)
             \<lparr>cr_logs := logs, cr_gasRefund := Some (ms_gasRefund msg)\<rparr>)))
     else
       seqE (runInterpreter E C msg to code gasLimit True False logs None) (\<lambda>result0.
       let result = result0\<lparr>cr_executionGasUsed := cr_executionGasUsed result0 + (ms_gasLimit msg - gasLimit)\<rparr> in
       seqE (depositFees C result) (\<lambda>fees.
       seqE (codeSizeAllowed C result) (\<lambda>allowed.
       seqE (settleCreate E C msg code result fees allowed) (\<lambda>(result', succeeded, codestoreOOG).
       seqE (whenE (activated C 8037 \<and> succeeded) (recordStateGas C msg to fees)) (\<lambda>_.
       seqE (storeCode C msg to result' (ms_gasLimit msg - cr_executionGasUsed result') codestoreOOG) (\<lambda>result''.
       seqE (whenE (ms_depth msg = 0) (postMessageCleanup C)) (\<lambda>_.
       ret (created to result'')))))))))))))))"

definition addCreated :: "'m ctx \<Rightarrow> bytes \<Rightarrow> string list option \<Rightarrow> string list res" where
  "addCreated C to cs = (case cs of None \<Rightarrow> Inl TypeError | Some xs \<Rightarrow> Inr (addAll [addressString C to] xs))"

definition initCodeTooLarge :: "'m ctx \<Rightarrow> bytes \<Rightarrow> ('m, bool) wop" where
  "initCodeTooLarge C data = (if activated C 3860
     then seqE (paramW C ''maxInitCodeSize'') (\<lambda>m. ret (int (length data) > m \<and> \<not> cx_allowUnlimitedInitCodeSize C))
     else ret False)"

text \<open>Without \<open>DEBUG\<close> the witness is not reverted when its gas for the new account runs out.\<close>

definition executeCreate :: "'m evm \<Rightarrow> 'm ctx \<Rightarrow> message \<Rightarrow> ('m, call_result) wop" where
  "executeCreate E C msg0 =
     seqE (whenE (stateless68 C \<and> ms_depth msg0 = 0) (seqE (witnessW C (ReadAccountHeader (ms_caller msg0))) (\<lambda>_. ret ()))) (\<lambda>_.
     seqE (accountW C (ms_caller msg0)) (\<lambda>account.
     seqE (reduceSenderBalance C account msg0) (\<lambda>r. case r of
       Inl e \<Rightarrow> raise (PlainError ''insufficient balance'')
     | Inr _ \<Rightarrow>
     seqE (initCodeTooLarge C (ms_data msg0)) (\<lambda>tooLarge.
     if tooLarge then ret (emptyResult msg0 (ms_gasLimit msg0) (Some INITCODE_SIZE_VIOLATION))
     else let code = ms_data msg0 in
     seqE (generateAddressW C msg0 code) (\<lambda>to.
     seqE (if activated C 6780 then seqE (resE (addCreated C to (ms_createdAddresses msg0))) (\<lambda>cs. ret (Some cs))
           else ret (ms_createdAddresses msg0)) (\<lambda>createdAddresses.
     let msg = msg0\<lparr>ms_data := (case ms_eofCallData msg0 of None \<Rightarrow> [] | Some d \<Rightarrow> d), ms_to := Some to,
                 ms_createdAddresses := createdAddresses\<rparr> in
     seqE (accountW C to) (\<lambda>toAccount.
     seqE (if stateless68 C then seqE (witnessSum C [WriteBasicData to, ReadCodeHash to]) (\<lambda>g.
             if ms_gasLimit msg - g < 0 then ret None
             else seqE (noteW WitnessCommit) (\<lambda>_. ret (Some (ms_gasLimit msg - g))))
           else ret (Some (ms_gasLimit msg))) (\<lambda>left. case left of
       None \<Rightarrow> ret (OOGResult msg (ms_gasLimit msg))
     | Some gasLimit \<Rightarrow>
     seqE (resE (collides toAccount)) (\<lambda>collision.
     if collision then
       seqE (whenE (activated C 7928) (balStrictW (BalAddress (addressString C to)))) (\<lambda>_.
       ret (created to (emptyResult msg (ms_gasLimit msg) (Some CREATE_COLLISION))))
     else deploy E C msg to code toAccount gasLimit)))))))))"

section \<open>Messages\<close>

text \<open>Under EIP-8037 the state gas of a frame is saved at its entry.\<close>

definition pushSnapshot :: "evm_vars \<Rightarrow> evm_vars" where
  "pushSnapshot v = v\<lparr>ev_stateGasSnapshots := ev_stateGasSnapshots v @
     [\<lparr>sg_reservoir = ev_stateGasReservoir v, sg_used = ev_executionStateGasUsed v,
       sg_createdAccountStateGas = ev_createdAccountStateGas v,
       sg_createdAccountIntrinsicStateGas = ev_createdAccountIntrinsicStateGas v\<rparr>]\<rparr>"

definition popSnapshot :: "evm_vars \<Rightarrow> evm_vars" where
  "popSnapshot v = v\<lparr>ev_stateGasSnapshots := butlast (ev_stateGasSnapshots v)\<rparr>"

definition restoreSnapshot :: "bool \<Rightarrow> evm_vars \<Rightarrow> evm_vars" where
  "restoreSnapshot consumeSpilled v =
     (if ev_stateGasSnapshots v = [] then v
      else let snap = last (ev_stateGasSnapshots v);
               usedThisFrame = ev_executionStateGasUsed v - sg_used snap;
               reservoirPaid = sg_reservoir snap - ev_stateGasReservoir v;
               spilled = (if usedThisFrame > reservoirPaid then usedThisFrame - reservoirPaid else 0) in
        (popSnapshot v)\<lparr>ev_stateGasReservoir := sg_reservoir snap + (if consumeSpilled then 0 else spilled),
          ev_executionStateGasUsed := sg_used snap,
          ev_createdAccountStateGas := sg_createdAccountStateGas snap,
          ev_createdAccountIntrinsicStateGas := sg_createdAccountIntrinsicStateGas snap\<rparr>)"

definition openMessage :: "'m ctx \<Rightarrow> ('m, unit) wop" where
  "openMessage C =
     seqE (whenE (activated C 7928) (balW BalCheckpoint)) (\<lambda>_.
     seqE (journalW (j_checkpoint (managerOf C))) (\<lambda>_.
     seqE (whenE (activated C 1153) (transientW ts_checkpoint)) (\<lambda>_.
     whenE (activated C 8037) (varsW pushSnapshot))))"

definition commitMessage :: "'m ctx \<Rightarrow> ('m, unit) wop" where
  "commitMessage C =
     seqE (journalW (j_commit (managerOf C))) (\<lambda>_.
     seqE (whenE (activated C 1153) (transientW ts_commit)) (\<lambda>_.
     seqE (whenE (activated C 7928) (balW BalCommit)) (\<lambda>_.
     whenE (activated C 8037) (varsW popSnapshot))))"

definition revertMessage :: "'m ctx \<Rightarrow> evm_error \<Rightarrow> bool \<Rightarrow> ('m, unit) wop" where
  "revertMessage C err isCreate =
     seqE (journalW (j_revert (managerOf C))) (\<lambda>_.
     seqE (whenE (activated C 1153) (transientW ts_revert)) (\<lambda>_.
     seqE (whenE (activated C 7928) (balW BalRevert)) (\<lambda>_.
     whenE (activated C 8037)
       (seqE (varsW (restoreSnapshot (err = STATIC_STATE_CHANGE))) (\<lambda>_.
        whenE isCreate (seqE (newAccountGas C) (\<lambda>g. varsW (\<lambda>v. v\<lparr>
          ev_stateGasReservoir := ev_stateGasReservoir v + g,
          ev_executionStateGasUsed := ev_executionStateGasUsed v - g\<rparr>))))))))"

text \<open>Closing the frame of a message; an unpaid code deposit in Frontier is no failure.\<close>

definition closeMessage :: "'m ctx \<Rightarrow> bool \<Rightarrow> call_result \<Rightarrow> ('m, call_result) wop" where
  "closeMessage C isCreate result0 =
     (let result = (if cr_exception result0 \<noteq> None \<and> cr_exception result0 \<noteq> Some CODESTORE_OUT_OF_GAS
        then result0\<lparr>cr_selfdestruct := [], cr_createdAddresses := Some [], cr_gasRefund := Some 0\<rparr> else result0) in
      case cr_exception result of
        Some err \<Rightarrow>
          if hardforkSet (cx_common C) = ''chainstart'' \<and> err = CODESTORE_OUT_OF_GAS
          then seqE (commitMessage C) (\<lambda>_. ret result)
          else seqE (revertMessage C err isCreate) (\<lambda>_. ret (result\<lparr>cr_logs := []\<rparr>))
      | None \<Rightarrow> seqE (commitMessage C) (\<lambda>_. ret result))"

definition bumpCallerNonce :: "'m ctx \<Rightarrow> message \<Rightarrow> ('m, unit) wop" where
  "bumpCallerNonce C msg =
     seqE (accountW C (ms_caller msg)) (\<lambda>account.
     seqE (resE (get_nonce account)) (\<lambda>n.
     seqE (putAccountW C (ms_caller msg) (account\<lparr>acc_nonce := Some (n + 1)\<rparr>)) (\<lambda>_.
     whenE (activated C 7928) (balStrictW (BalNonce (addressString C (ms_caller msg)) (n + 1))))))"

definition callFrame :: "'m evm \<Rightarrow> 'm ctx \<Rightarrow> message \<Rightarrow> bytes option \<Rightarrow> ('m, call_result) wop" where
  "callFrame E C msg code =
     seqE (whenE (ms_depth msg = 0) (bumpCallerNonce C msg)) (\<lambda>_.
     seqE (whenE (ms_to msg = None \<and> activated C 2929)
       (seqE (generateAddressW C msg (ms_data msg)) (\<lambda>a. journalW (updE (addWarmedAddress (cx_hex C) a))))) (\<lambda>_.
     seqE (openMessage C) (\<lambda>_.
     seqE (case ms_to msg of Some to \<Rightarrow> executeCall E C msg to code | None \<Rightarrow> executeCreate E C msg) (\<lambda>result0.
     seqE (closeMessage C (ms_to msg = None) result0) (\<lambda>result.
     seqE (noteW WitnessCommit) (\<lambda>_. ret result))))))"

text \<open>Nested messages come from the interpreter and carry no code.\<close>

fun runMessage :: "'m evm \<Rightarrow> nat \<Rightarrow> message \<Rightarrow> bytes option \<Rightarrow> ('m, call_result) wop" where
  "runMessage E 0 msg code = raise OutOfFuel"
| "runMessage E (Suc n) msg code =
     callFrame E ((em_ctx E)\<lparr>cx_runCall := \<lambda>m. runMessage E n m None\<rparr>) msg code"

section \<open>The interface of the class\<close>

record call_opts =
  co_block :: "block_header option"
  co_gasPrice :: "int option"
  co_origin :: "bytes option"
  co_caller :: "bytes option"
  co_value :: "int option"
  co_skipBalance :: bool
  co_gasLimit :: "int option"
  co_to :: "bytes option"
  co_data :: "bytes option"
  co_code :: "bytes option"
  co_depth :: nat
  co_isStatic :: bool
  co_salt :: "bytes option"
  co_selfdestruct :: "(string \<times> string) list"
  co_createdAddresses :: "string list"
  co_delegatecall :: bool
  co_blobVersionedHashes :: "string list"
  co_pc :: "int option"

definition orElse :: "'a option \<Rightarrow> 'a \<Rightarrow> 'a" where
  "orElse x d = (case x of Some y \<Rightarrow> y | None \<Rightarrow> d)"

definition newMessage :: "call_opts \<Rightarrow> bytes \<Rightarrow> int \<Rightarrow> message res" where
  "newMessage opts caller v =
     (if v < 0 then Inl (EthereumJSError ''value field cannot be negative, received '')
      else Inr \<lparr>ms_caller = caller, ms_gasLimit = orElse (co_gasLimit opts) 0xffffff, ms_to = co_to opts,
        ms_codeAddress = None, ms_value = v, ms_data = orElse (co_data opts) [], ms_eofCallData = None,
        ms_salt = co_salt opts, ms_isStatic = co_isStatic opts, ms_delegatecall = co_delegatecall opts,
        ms_depth = co_depth opts, ms_gasRefund = 0, ms_blobVersionedHashes = co_blobVersionedHashes opts,
        ms_selfdestruct = co_selfdestruct opts, ms_createdAddresses = Some (co_createdAddresses opts)\<rparr>)"

definition forTx :: "'m evm \<Rightarrow> call_opts \<Rightarrow> 'm evm" where
  "forTx E opts = (let caller = orElse (co_caller opts) (replicate 20 0) in
     E\<lparr>em_block := orElse (co_block opts) defaultBlock, em_gasPrice := orElse (co_gasPrice opts) 0,
       em_origin := orElse (co_origin opts) caller\<rparr>)"

text \<open>\<open>skipBalance\<close> raises the balance of the caller to the value it sends.\<close>

definition fundCaller :: "'m ctx \<Rightarrow> bytes \<Rightarrow> int \<Rightarrow> ('m, unit) wop" where
  "fundCaller C caller v = seqE (accountW C caller) (\<lambda>account.
     seqE (resE (get_balance account)) (\<lambda>balance.
     whenE (balance < v)
       (seqE (putAccountW C caller (account\<lparr>acc_balance := Some v\<rparr>)) (\<lambda>_.
        whenE (activated C 7928) (balStrictW (BalBalance (addressString C caller) v balance))))))"

definition evm_runCall :: "'m evm \<Rightarrow> nat \<Rightarrow> call_opts \<Rightarrow> ('m, call_result) wop" where
  "evm_runCall E0 n opts =
     (let E = forTx E0 opts; caller = orElse (co_caller opts) (replicate 20 0); v = orElse (co_value opts) 0 in
      seqE (whenE (co_skipBalance opts) (fundCaller (em_ctx E) caller v)) (\<lambda>_.
      seqE (resE (newMessage opts caller v)) (\<lambda>msg.
        runMessage E n msg (co_code opts))))"

definition evm_runCode :: "'m evm \<Rightarrow> nat \<Rightarrow> call_opts \<Rightarrow> ('m, call_result) wop" where
  "evm_runCode E0 n opts =
     (let E = forTx E0 opts; caller = orElse (co_caller opts) (replicate 20 0); to = orElse (co_to opts) (replicate 20 0);
          C = (em_ctx E)\<lparr>cx_runCall := \<lambda>m. runMessage E n m None\<rparr> in
      seqE (resE (newMessage opts caller (orElse (co_value opts) 0))) (\<lambda>msg.
        runInterpreter E C (msg\<lparr>ms_to := Some to, ms_createdAddresses := None\<rparr>) to (orElse (co_code opts) []) (ms_gasLimit msg)
          False False [] (co_pc opts)))"

end
