(* ===== verification/EvmMessage.thy ===== *)
theory EvmMessage
  imports Evm EvmControl EvmSample
begin

text \<open>
  What a message leaves behind. A message that fails leaves accounts, code, storage, transient
  storage and the warm sets as it found them, and no message uses more gas than its limit. The
  first needs that everything inside a frame stays above the checkpoint the frame took: a
  relation on the shared world that every handler and every nested message respects.
\<close>

section \<open>Whole frames\<close>

locale frame_relation_full = frame_relation_pc +
  assumes R_opCode: "R s (s\<lparr>rs_opCode := oc\<rparr>)"
    and R_analysis: "R s (s\<lparr>rs_validJumps := vj, rs_cachedPushes := cp, rs_shouldDoJumpAnalysis := sj\<rparr>)"
    and R_code: "R s (s\<lparr>rs_code := cd\<rparr>)"
    and R_env: "R s (s\<lparr>rs_env := ev\<rparr>)"
    and R_stipend: "param (cx_common C) ''callStipendGas'' = Inr g \<Longrightarrow> R s (s\<lparr>rs_gasLeft := rs_gasLeft s + g\<rparr>)"
    and ok_all: "ok x"
begin

lemma steps_stipend [frame_intros]: "steps (withStipend C v gasLimit)"
proof -
  have "steps (addStipend x)" if m: "may (paramOf C ''callStipendGas'') x" for x
  proof -
    from m have "param (cx_common C) ''callStipendGas'' = Inr x"
      by (auto simp: may_def paramOf_def throwing_def split: sum.splits)
    then show ?thesis by (intro stepsI) (simp add: addStipend_def R_stipend)
  qed
  then show ?thesis unfolding withStipend_def by (intro frame_intros; assumption?)
qed

lemma steps_stipend_ops [frame_intros]: "steps (op_CALL C)" "steps (op_CALLCODE C)"
  unfolding op_CALL_def op_CALLCODE_def by (intro frame_intros)+

lemma steps_any_handler: "opHandler C code = Some h \<Longrightarrow> steps h"
proof (cases "code \<in> stipendOpcodes")
  case True
  assume "opHandler C code = Some h"
  then show ?thesis using True steps_stipend_ops
    by (auto simp: stipendOpcodes_def opHandler_def handlers_def)
qed (rule steps_handler_pc)

lemma steps_runStep: "steps (runStep C info)"
proof -
  have "steps (runHandler (opHandler C (oc_code info)) id)"
    using steps_any_handler by (auto simp: runHandler_def steps_pure split: option.split)
  then show ?thesis
    unfolding runStep_def by (intro frame_intros steps_useGas ok_all; assumption?)
qed

lemma steps_nextOpcode: "steps (nextOpcode C T cache)"
proof -
  have upd: "steps (updE (\<lambda>s. s\<lparr>rs_opCode := oc\<rparr>))"
    "steps (updE (\<lambda>s. s\<lparr>rs_validJumps := vj, rs_cachedPushes := cp, rs_shouldDoJumpAnalysis := sj\<rparr>))" for oc vj cp sj
    by (rule stepsI, simp add: R_opCode R_analysis)+
  show ?thesis
    unfolding nextOpcode_def fetch_def checkChunk_def runHandler_def by (intro frame_intros upd; assumption?)
qed

lemma loop_related: "runLoop C T n cache s = Some (Inr e, s') \<Longrightarrow> R s s'"
proof (induction n arbitrary: cache s)
  case (Suc n)
  show ?case
  proof (cases "rs_pc s \<ge> int (length (rs_code s))")
    case True
    then show ?thesis using Suc.prems by (simp add: R_refl)
  next
    case False
    obtain r1 s1 where n: "nextOpcode C T cache s = (r1, s1)" by (cases "nextOpcode C T cache s")
    note r1 = stepsD [OF steps_nextOpcode n]
    show ?thesis
    proof (cases r1)
      case (Inl ex)
      then show ?thesis using False Suc.prems n r1 by (cases ex) auto
    next
      case (Inr ci)
      then obtain cache' info where ci: "r1 = Inr (cache', info)" by (cases ci) auto
      then have R1: "R s s1" using r1 by simp
      obtain r2 s2 where st: "runStep C info s1 = (r2, s2)" by (cases "runStep C info s1")
      note r2 = stepsD [OF steps_runStep st]
      show ?thesis
      proof (cases r2)
        case (Inl ex)
        have w: "R s2 (snd (addWitness WitnessRevert s2))"
          using stepsD [OF steps_world(3), of WitnessRevert s2 "Inr ()"] by (simp add: addWitness_def)
        obtain te where te: "ex = Trap te" using Inl False Suc.prems n ci st by (cases ex) auto
        have "R s1 s2" using r2 Inl te by simp
        moreover have "s' = snd (addWitness WitnessRevert s2)"
          using Inl te False Suc.prems n ci st by (cases te) (auto simp: Let_def)
        ultimately show ?thesis using R1 w R_trans by blast
      next
        case (Inr u)
        then have unit: "r2 = Inr ()" by simp
        have "runLoop C T n cache' s2 = Some (Inr e, s')"
          using False Suc.prems by (simp add: n ci st unit split: unit.splits)
        moreover have "R s1 s2" using r2 unit by simp
        ultimately show ?thesis using Suc.IH R1 R_trans by blast
      qed
    qed
  qed
qed simp

lemma frame_related: "runFrame C T fuel code pc s = Some (Inr e, s') \<Longrightarrow> R s s'"
proof -
  assume run: "runFrame C T fuel code pc s = Some (Inr e, s')"
  have start: "(case setupRun C code s of Inl (err, s1) \<Rightarrow> R s s1 | Inr s1 \<Rightarrow> R s s1)"
    by (auto simp: setupRun_def R_refl R_code installEOF_def Let_def split: option.split prod.split
        intro: R_trans [OF R_code R_trans [OF R_env R_pc], simplified])
  show ?thesis
  proof (cases "setupRun C code s")
    case (Inl er)
    then show ?thesis using run start by (cases er) (auto simp: runFrame_def)
  next
    case (Inr s1)
    let ?s2 = "s1\<lparr>rs_pc := (case pc of Some p \<Rightarrow> p | None \<Rightarrow> rs_pc s1)\<rparr>"
    have "runLoop C T fuel None ?s2 = Some (Inr e, s')"
      using run Inr by (auto simp: runFrame_def Let_def split: if_splits)
    then have "R ?s2 s'" by (rule loop_related)
    moreover have "R s1 ?s2" by (rule R_pc)
    moreover have "R s s1" using start Inr by simp
    ultimately show ?thesis using R_trans by blast
  qed
qed

end

section \<open>Gas\<close>

text \<open>Gas never becomes negative, provided the stipend of the chain is not.\<close>

definition stipend_ok :: "'m ctx \<Rightarrow> bool" where
  "stipend_ok C \<longleftrightarrow> (\<forall>g. param (cx_common C) ''callStipendGas'' = Inr g \<longrightarrow> 0 \<le> g)"

definition gas_kept :: "'m ctx \<Rightarrow> 'm run_state \<Rightarrow> 'm run_state \<Rightarrow> bool" where
  "gas_kept C s s' \<longleftrightarrow> (stipend_ok C \<longrightarrow> 0 \<le> rs_gasLeft s \<longrightarrow> 0 \<le> rs_gasLeft s')"

interpretation gas_frame: frame_relation_full "gas_kept C" "\<lambda>_ _. True" "\<lambda>_. True" C for C
  by unfold_locales (auto simp: gas_kept_def stipend_ok_def useGas_state)

lemma interpreter_gas:
  assumes "stipend_ok C" and "0 \<le> gasLimit"
    and "runInterpreter E C msg to code gasLimit isCreate charge logs pc w = (Inr r, w')"
  shows "cr_executionGasUsed r \<le> gasLimit"
  using assms
  by (auto simp: runInterpreter_def seqE_run Let_def gas_kept_def newRunState_def
      dest!: gas_frame.frame_related split: prod.splits sum.splits option.splits if_splits)

section \<open>The state below the checkpoint of a frame\<close>

text \<open>Any call of the state manager that is not about checkpoints.\<close>

inductive manager_call :: "'m full_manager \<Rightarrow> 'm \<Rightarrow> 'm \<Rightarrow> bool" for M where
  "manager_call M m (snd (m_getAccount M a m))"
| "manager_call M m (snd (m_putAccount M a x m))"
| "manager_call M m (snd (m_getCode M a m))"
| "manager_call M m (snd (m_getStorage M a k m))"
| "manager_call M m (snd (m_originalStorage M a k m))"
| "manager_call M m (snd (m_putStorage M a k v m))"
| "manager_call M m (snd (m_checkChunkWitnessPresent M a i m))"
| "manager_call M m (snd (m_modifyAccountFields M a fs m))"
| "manager_call M m (snd (m_putCode M a c m))"
| "manager_call M m (snd (m_clearStorage M a m))"

text \<open>The contract of a state manager whose frames can be reverted.\<close>

locale frame_store =
  fixes M :: "'m full_manager" and inv :: "'m \<Rightarrow> bool" and view :: "'m \<Rightarrow> 'v" and saved :: "'m \<Rightarrow> 'v list"
  assumes checkpoint_law: "inv m \<Longrightarrow> \<exists>m'. m_checkpoint M m = (Inr (), m') \<and> inv m' \<and> view m' = view m \<and>
      saved m' = view m # saved m"
    and commit_law: "inv m \<Longrightarrow> saved m \<noteq> [] \<Longrightarrow> \<exists>m'. m_commit M m = (Inr (), m') \<and> inv m' \<and>
      view m' = view m \<and> saved m' = tl (saved m)"
    and revert_law: "inv m \<Longrightarrow> saved m \<noteq> [] \<Longrightarrow> \<exists>m'. m_revert M m = (Inr (), m') \<and> inv m' \<and>
      view m' = hd (saved m) \<and> saved m' = tl (saved m)"
    and call_law: "inv m \<Longrightarrow> manager_call M m m' \<Longrightarrow> inv m' \<and> saved m' = saved m"

abbreviation state_of :: "'m world \<Rightarrow> 'm" where
  "state_of w \<equiv> j_state (wd_journal w)"

definition j_ok :: "'m journal \<Rightarrow> bool" where
  "j_ok j \<longleftrightarrow> j_inv (j_alwaysWarm j) j"

lemma in_frame_ok: "(\<And>W. in_frame W j j') \<Longrightarrow> j_ok j \<Longrightarrow> j_ok j' \<and> j_saved j' = j_saved j \<and> j_alwaysWarm j' = j_alwaysWarm j"
  by (auto simp: in_frame_def j_ok_def) (metis j_inv_def)+

lemma addWarmedAddress_state: "j_state (addWarmedAddress N a s) = j_state s"
  by (simp add: addWarmedAddress_def Let_def split: option.split)

lemma addWarmedStorage_state: "j_state (snd (addWarmedStorage N a k s)) = j_state s"
  by (simp add: addWarmedStorage_run reportSlot_def seqE_run warmed_def addWarmedAddress_state markSlot_def Let_def
      split: option.split sum.split)

lemma touchAddress_state: "j_state (snd (touchAddress N M a s)) = j_state s"
  by (auto simp: touchAddress_def touchAccount_def seqE_run split: option.split sum.split)

lemma putAccount_state: "j_state (snd (j_putAccount N M a x s)) = j_state s \<or>
    j_state (snd (j_putAccount N M a x s)) = snd (m_putAccount M a x (j_state s))"
proof -
  obtain r t where t: "touchAddress N M a s = (r, t)" by (cases "touchAddress N M a s")
  then have "j_state t = j_state s" using touchAddress_state [of N M a s] by simp
  moreover obtain r' u where "m_putAccount M a x (j_state s) = (r', u)" by (cases "m_putAccount M a x (j_state s)")
  ultimately show ?thesis using t by (cases r) (simp_all add: j_putAccount_def seqE_run stateE_def)
qed

lemma revertLoop_state: "j_state (snd (revertLoop h rds s)) = j_state s"
proof (induction h rds s rule: revertLoop.induct)
  case (2 h height diff rest s)
  then show ?case by (simp add: undo_diff_def Let_def)
qed simp

lemma journal_states: "j_state (snd (j_checkpoint N j)) = snd (m_checkpoint N (j_state j))"
    "j_state (snd (j_commit N j)) = snd (m_commit N (j_state j))"
    "j_state (snd (j_revert N j)) = snd (m_revert N (j_state j))"
  using revertLoop_state [of "j_height j" "rev (j_diffs j)" j]
  by (simp_all add: j_checkpoint_def j_commit_def j_revert_def seqE_run stateE_def split_beta)

lemma journal_ok: "j_ok j \<Longrightarrow> (\<lambda>j'. j_ok j' \<and> j_saved j' = j_view j # j_saved j \<and> j_alwaysWarm j' = j_alwaysWarm j)
      (snd (j_checkpoint N j))"
    "j_ok j \<Longrightarrow> j_saved j \<noteq> [] \<Longrightarrow> (\<lambda>j'. j_ok j' \<and> j_saved j' = tl (j_saved j) \<and>
      j_alwaysWarm j' = j_alwaysWarm j) (snd (j_commit N j))"
    "j_ok j \<Longrightarrow> j_saved j \<noteq> [] \<Longrightarrow> (\<lambda>j'. j_ok j' \<and> j_saved j' = tl (j_saved j) \<and> j_view j' = hd (j_saved j) \<and>
      j_alwaysWarm j' = j_alwaysWarm j) (snd (j_revert N j))"
  using j_checkpoint_law [of "j_alwaysWarm j" j N] j_commit_law [of "j_alwaysWarm j" j N] j_revert_law [of "j_alwaysWarm j" j N]
  by (auto simp: j_ok_def) (simp_all add: j_inv_def)

lemma manager_frames: "m_checkpoint (managerOf C) = m_checkpoint (cx_manager C)"
    "m_commit (managerOf C) = m_commit (cx_manager C)" "m_revert (managerOf C) = m_revert (cx_manager C)"
  by (simp_all add: managerOf_def manager.truncate_def)

lemma openMessage_run: "openMessage C w = (Inr u, w') \<Longrightarrow>
    wd_journal w' = snd (j_checkpoint (managerOf C) (wd_journal w)) \<and>
    wd_transient w' = (if activated C 1153 then snd (ts_checkpoint (wd_transient w)) else wd_transient w)"
  by (auto simp: openMessage_def seqE_run whenE_run journalW_def transientW_def balW_def varsW_def split: prod.splits sum.splits if_splits)

lemma commitMessage_run: "commitMessage C w = (Inr u, w') \<Longrightarrow>
    wd_journal w' = snd (j_commit (managerOf C) (wd_journal w)) \<and>
    wd_transient w' = (if activated C 1153 then snd (ts_commit (wd_transient w)) else wd_transient w)"
  by (auto simp: commitMessage_def seqE_run whenE_run journalW_def transientW_def balW_def varsW_def split: prod.splits sum.splits if_splits)

lemma newAccountGas_world: "snd (newAccountGas C w) = w"
  by (simp add: newAccountGas_def paramW_def seqE_run split: sum.split)

lemma revertMessage_run: "revertMessage C err b w = (Inr u, w') \<Longrightarrow>
    wd_journal w' = snd (j_revert (managerOf C) (wd_journal w)) \<and>
    wd_transient w' = (if activated C 1153 then snd (ts_revert (wd_transient w)) else wd_transient w)"
  by (auto simp: revertMessage_def seqE_run whenE_run journalW_def transientW_def balW_def varsW_def
      dest!: arg_cong [where f = snd, OF sym] simp: newAccountGas_world split: prod.splits sum.splits if_splits)

context frame_store begin

text \<open>
  What a computation inside a frame keeps: the states saved at the open checkpoints of the state
  manager and the journal, and, when nested, those of transient storage and the always warm set.
\<close>

definition kept :: "bool \<Rightarrow> 'm world \<Rightarrow> 'm world \<Rightarrow> bool" where
  "kept nested w w' \<longleftrightarrow>
     (inv (state_of w) \<longrightarrow> inv (state_of w') \<and> saved (state_of w') = saved (state_of w)) \<and>
     (j_ok (wd_journal w) \<longrightarrow> j_ok (wd_journal w') \<and> j_saved (wd_journal w') = j_saved (wd_journal w) \<and>
        (nested \<longrightarrow> j_alwaysWarm (wd_journal w') = j_alwaysWarm (wd_journal w))) \<and>
     (nested \<longrightarrow> ts_inv (wd_transient w) \<longrightarrow> ts_inv (wd_transient w') \<and>
        ts_saved (wd_transient w') = ts_saved (wd_transient w))"

lemma kept_refl [simp, intro]: "kept b w w"
  by (simp add: kept_def)

lemma kept_trans: "kept b w w' \<Longrightarrow> kept b w' w'' \<Longrightarrow> kept b w w''"
  by (auto simp: kept_def)

lemma kept_weaken: "kept True w w' \<Longrightarrow> kept b w w'"
  by (auto simp: kept_def)

lemma kept_fields [simp]: "kept b w (w\<lparr>wd_vars := v\<rparr>)" "kept b w (w\<lparr>wd_bal := bl\<rparr>)" "kept b w (w\<lparr>wd_witness := wi\<rparr>)"
  by (simp_all add: kept_def)

lemma kept_transient: "kept b w (w\<lparr>wd_transient := snd (ts_put N a k x (wd_transient w))\<rparr>)"
  using ts_put_law [of "wd_transient w" N a k x] by (simp add: kept_def)

lemma kept_journal:
  assumes "\<And>W. in_frame W (wd_journal w) j'" and "j_state j' = state_of w \<or> manager_call M (state_of w) (j_state j')"
  shows "kept b w (w\<lparr>wd_journal := j'\<rparr>)"
  using in_frame_ok [OF assms(1)] call_law [of "state_of w" "j_state j'"] assms(2) by (auto simp: kept_def)

lemma kept_warm: "kept b w (w\<lparr>wd_journal := addWarmedAddress N a (wd_journal w)\<rparr>)"
    "kept b w (w\<lparr>wd_journal := snd (addWarmedStorage N a k (wd_journal w))\<rparr>)"
  by (rule kept_journal; simp add: addWarmedAddress_frame addWarmedStorage_frame addWarmedAddress_state addWarmedStorage_state)+

lemma kept_put: "kept b w (w\<lparr>wd_journal := snd (j_putAccount N (manager.truncate M) a x (wd_journal w))\<rparr>)"
proof -
  have "m_putAccount (manager.truncate M) = m_putAccount M" by (simp add: manager.truncate_def)
  then show ?thesis
    using putAccount_state [of N "manager.truncate M" a x "wd_journal w"] manager_call.intros(2) [of M "state_of w" a x]
    by (intro kept_journal account_call_frame) auto
qed

lemma kept_after: "manager_call M (state_of w) (snd (m (state_of w))) \<Longrightarrow> kept b w (after m w)"
  unfolding after_def by (rule kept_journal) (auto intro!: in_frame_same)

lemma kept_relation:
  assumes "cx_manager C = M"
    and "\<And>msg w cr w'. 0 < ms_depth msg \<Longrightarrow> cx_runCall C msg w = (Inr cr, w') \<Longrightarrow> kept True w w'"
  shows "frame_relation_full (\<lambda>s s'. kept True (rs_world s) (rs_world s')) (kept True) (\<lambda>_. True) C"
  by unfold_locales (auto simp: assms(1) managerOf_def useGas_state intro: assms(2) kept_trans kept_transient
      kept_warm kept_put kept_after manager_call.intros)


text \<open>A part of \<open>EVM\<close> that keeps them when it returns.\<close>

definition keepsW :: "bool \<Rightarrow> ('m, 'a) wop \<Rightarrow> bool" where
  "keepsW b m \<longleftrightarrow> (\<forall>w r w'. m w = (Inr r, w') \<longrightarrow> kept b w w')"

lemma keepsWI: "(\<And>w. kept b w (snd (m w))) \<Longrightarrow> keepsW b m"
  unfolding keepsW_def by (metis snd_conv)

lemma keepsWD: "keepsW b m \<Longrightarrow> m w = (Inr r, w') \<Longrightarrow> kept b w w'"
  by (simp add: keepsW_def)

lemma keepsW_seqE: "keepsW b m \<Longrightarrow> (\<And>x. keepsW b (f x)) \<Longrightarrow> keepsW b (seqE m f)"
  by (force simp: keepsW_def seqE_run split: prod.splits sum.splits intro: kept_trans)

lemma keepsW_pure: "keepsW b (ret x)" "keepsW b (raise e)" "keepsW b (getE g)" "keepsW b (resE r)"
  by (auto intro: keepsWI)

lemma keepsW_pair: "keepsW b (Pair x)"
  by (auto intro: keepsWI)

lemma keepsW_if: "keepsW b m \<Longrightarrow> keepsW b m' \<Longrightarrow> keepsW b (if c then m else m')"
  by simp

lemma keepsW_whenE: "(c \<Longrightarrow> keepsW b m) \<Longrightarrow> keepsW b (whenE c m)"
  by (auto simp: whenE_def keepsW_pure)

lemma keepsW_option: "keepsW b m \<Longrightarrow> (\<And>x. keepsW b (f x)) \<Longrightarrow> keepsW b (case v of None \<Rightarrow> m | Some x \<Rightarrow> f x)"
  by (cases v) auto

lemma keepsW_sum: "(\<And>x. keepsW b (g x)) \<Longrightarrow> (\<And>x. keepsW b (f x)) \<Longrightarrow> keepsW b (case v of Inl x \<Rightarrow> g x | Inr x \<Rightarrow> f x)"
  by (cases v) auto

lemma keepsW_prod: "(\<And>x y. keepsW b (f x y)) \<Longrightarrow> keepsW b (case v of (x, y) \<Rightarrow> f x y)"
  by (cases v) auto

lemma keepsW_Let: "keepsW b (f v) \<Longrightarrow> keepsW b (Let v f)"
  by simp

lemma keepsW_managerW: "(\<And>w. manager_call M (state_of w) (snd (m (state_of w)))) \<Longrightarrow> keepsW b (managerW m)"
  using kept_after [of _ m b]
  by (intro keepsWI) (simp add: managerW_def journalW_def stateE_def after_def split_beta)

lemma keepsW_journalW: "(\<And>w. kept b w (w\<lparr>wd_journal := snd (m (wd_journal w))\<rparr>)) \<Longrightarrow> keepsW b (journalW m)"
  by (intro keepsWI) (simp add: journalW_def split_beta)

lemma keepsW_notes: "keepsW b (noteW c)" "keepsW b (varsW f)" "keepsW b (balW bc)"
  by (simp_all add: keepsWI noteW_def varsW_def balW_def)

lemma keepsW_warm: "keepsW b (journalW (updE (addWarmedAddress N a)))"
  by (rule keepsW_journalW) (simp add: kept_warm)

lemma keepsW_alwaysWarm: "keepsW False (journalW (updE (addAlwaysWarmAddress a False)))"
  by (rule keepsW_journalW)
    (auto simp: kept_def j_ok_def j_inv_def j_saved_def j_view_def addAlwaysWarmAddress_def Let_def)

lemma keepsW_transient: "keepsW False (transientW m)"
  by (intro keepsWI) (simp add: transientW_def kept_def split_beta)

lemmas keepsW_intros = keepsW_pure keepsW_notes keepsW_warm keepsW_if keepsW_whenE keepsW_option keepsW_sum keepsW_prod
  keepsW_Let keepsW_seqE

lemma keepsW_witness: "keepsW b (balStrictW bc)" "keepsW b (witnessW C c)"
  unfolding balStrictW_def witnessW_def by (intro keepsW_intros)+

lemma keepsW_witnessSum: "keepsW b (witnessSum C cs)"
  by (induction cs) (simp_all add: keepsW_pure keepsW_pair keepsW_seqE keepsW_witness)

lemma keepsW_param: "keepsW b (paramW C n)" "keepsW b (newAccountGas C)"
  unfolding newAccountGas_def paramW_def by (intro keepsW_intros)+

end

text \<open>The state manager of the EVM has the contract.\<close>

locale framed_evm = frame_store M inv view saved
  for M :: "'m full_manager" and inv :: "'m \<Rightarrow> bool" and view :: "'m \<Rightarrow> 'v" and saved :: "'m \<Rightarrow> 'v list" +
  fixes E :: "'m evm" and C :: "'m ctx"
  assumes manager: "cx_manager C = M"
    and nested: "0 < ms_depth msg \<Longrightarrow> cx_runCall C msg w = (Inr cr, w') \<Longrightarrow> kept True w w'"
begin

lemma keepsW_account: "keepsW b (getAccountW C a)" "keepsW b (accountW C a)" "keepsW b (putAccountW C a x)"
proof -
  show 1: "keepsW b (getAccountW C a)"
    unfolding getAccountW_def manager by (rule keepsW_managerW) (rule manager_call.intros)
  show "keepsW b (accountW C a)" unfolding accountW_def by (intro keepsW_intros 1)
  show "keepsW b (putAccountW C a x)"
    unfolding putAccountW_def by (rule keepsW_journalW) (simp add: managerOf_def manager kept_put)
qed

lemma keepsW_manager: "keepsW b (managerW (m_getCode (cx_manager C) a))" "keepsW b (managerW (m_putCode (cx_manager C) a c))"
    "keepsW b (managerW (m_clearStorage (cx_manager C) a))"
  unfolding manager by (rule keepsW_managerW, rule manager_call.intros)+

lemmas evm_intros = keepsW_intros keepsW_witness keepsW_witnessSum keepsW_param keepsW_account keepsW_manager

lemma keepsW_runInterpreter: "keepsW b (runInterpreter E C msg to code g isCreate charge logs pc)"
proof -
  have "frame_relation_full (\<lambda>s s'. kept True (rs_world s) (rs_world s')) (kept True) (\<lambda>_. True) C"
    by (rule kept_relation [OF manager]) (rule nested)
  note fr = frame_relation_full.frame_related [OF this]
  have run: "keepsW b (\<lambda>w. let s0 = newRunState ev g rf logs w; s1 = s0\<lparr>rs_result := f (rs_result s0)\<rparr> in
       case runFrame C (em_opcodes E) (em_steps E) code pc s1 of
         None \<Rightarrow> (Inl OutOfFuel, w) | Some (Inl e, s) \<Rightarrow> (Inl e, rs_world s)
       | Some (Inr err, s) \<Rightarrow> (Inr (h err s), snd (noteW WitnessCommit (rs_world s))))" for ev rf f h
    unfolding keepsW_def
  proof (intro allI impI)
    fix w :: "'m world" and r w'
    let ?s1 = "let s0 = newRunState ev g rf logs w in s0\<lparr>rs_result := f (rs_result s0)\<rparr>"
    assume "(let s0 = newRunState ev g rf logs w; s1 = s0\<lparr>rs_result := f (rs_result s0)\<rparr> in
       case runFrame C (em_opcodes E) (em_steps E) code pc s1 of
         None \<Rightarrow> (Inl OutOfFuel, w) | Some (Inl e, s) \<Rightarrow> (Inl e, rs_world s)
       | Some (Inr err, s) \<Rightarrow> (Inr (h err s), snd (noteW WitnessCommit (rs_world s)))) = (Inr r, w')"
    then obtain err s where run: "runFrame C (em_opcodes E) (em_steps E) code pc ?s1 = Some (Inr err, s)"
      and w': "w' = snd (noteW WitnessCommit (rs_world s))"
      by (auto simp: Let_def split: option.splits prod.splits sum.splits)
    have "kept True (rs_world ?s1) (rs_world s)" using fr [OF run] by simp
    then have "kept True w (rs_world s)" by (simp add: newRunState_def Let_def)
    moreover have "kept True (rs_world s) w'" by (simp add: w' noteW_def)
    ultimately show "kept b w w'" using kept_trans kept_weaken by blast
  qed
  show ?thesis
    unfolding runInterpreter_def Let_def
    by (intro evm_intros run [unfolded Let_def])
qed


lemma keepsW_parts [simp]: "keepsW b (reduceSenderBalance C account msg)" "keepsW b (addToBalance C to account msg)"
    "keepsW b (generateAddressW C msg code)" "keepsW b (chargeWitness C cs g)" "keepsW b (bumpCallerNonce C msg)"
    "keepsW b (depositFees C result)" "keepsW b (codeSizeAllowed C result)" "keepsW b (initCodeTooLarge C d)"
    "keepsW b (settleCreate E C msg code result fees allowed)" "keepsW b (recordStateGas C msg to fees)"
    "keepsW b (completionGas C msg wc result g commit)" "keepsW b (callWitness C msg to)"
  unfolding reduceSenderBalance_def addToBalance_def generateAddressW_def chargeWitness_def bumpCallerNonce_def
    depositFees_def codeSizeAllowed_def initCodeTooLarge_def settleCreate_def recordStateGas_def completionGas_def
    callWitness_def
  by (intro evm_intros)+

lemma keepsW_cleanup: "keepsW (0 < ms_depth msg) (whenE (ms_depth msg = 0) (postMessageCleanup C))"
  by (auto simp: whenE_def postMessageCleanup_def keepsW_pure keepsW_transient)

lemma keepsW_transferValue: "keepsW b (transferValue C msg to g)"
  unfolding transferValue_def by (intro evm_intros keepsW_parts)

lemma keepsW_loadCode: "keepsW (0 < ms_depth msg) (loadCode E C msg codeAddress code)"
proof -
  have "keepsW (0 < ms_depth msg) (whenE (ms_depth msg = 0) (journalW (updE (addAlwaysWarmAddress a False))))" for a
    by (auto simp: whenE_def keepsW_pure keepsW_alwaysWarm)
  then show ?thesis unfolding loadCode_def by (intro evm_intros) (auto simp: keepsW_alwaysWarm)
qed

lemma keepsW_storeCode: "keepsW b (storeCode C msg to result g oog)"
  unfolding storeCode_def by (intro evm_intros keepsW_parts)

lemma keepsW_executeCall: "keepsW (0 < ms_depth msg) (executeCall E C msg to code)"
  unfolding executeCall_def
  by (intro evm_intros keepsW_parts keepsW_transferValue keepsW_loadCode keepsW_runInterpreter keepsW_cleanup)

lemma keepsW_deploy: "keepsW (0 < ms_depth msg) (deploy E C msg to code toAccount g)"
  unfolding deploy_def
  by (intro evm_intros keepsW_parts keepsW_storeCode keepsW_runInterpreter keepsW_cleanup)

lemma keepsW_executeCreate: "keepsW (0 < ms_depth msg) (executeCreate E C msg)"
proof -
  have "keepsW (0 < ms_depth msg) (deploy E C (msg\<lparr>ms_data := d, ms_to := t, ms_createdAddresses := cs\<rparr>) to code x g)"
    for d t cs to code x g
    using keepsW_deploy [of "msg\<lparr>ms_data := d, ms_to := t, ms_createdAddresses := cs\<rparr>"] by simp
  then show ?thesis unfolding executeCreate_def by (intro evm_intros keepsW_parts)
qed

text \<open>The world after the frame of a message is opened, and what closing it gives back.\<close>

definition opened :: "'m world \<Rightarrow> 'm world \<Rightarrow> bool" where
  "opened w w' \<longleftrightarrow>
     (inv (state_of w) \<longrightarrow> inv (state_of w') \<and> saved (state_of w') = view (state_of w) # saved (state_of w)) \<and>
     (j_ok (wd_journal w) \<longrightarrow> j_ok (wd_journal w') \<and> j_saved (wd_journal w') = j_view (wd_journal w) # j_saved (wd_journal w) \<and>
        j_alwaysWarm (wd_journal w') = j_alwaysWarm (wd_journal w)) \<and>
     (ts_inv (wd_transient w) \<longrightarrow> ts_inv (wd_transient w') \<and>
        ts_saved (wd_transient w') = (if activated C 1153 then [ts_view (wd_transient w)] else []) @ ts_saved (wd_transient w))"

definition restored :: "bool \<Rightarrow> 'm world \<Rightarrow> 'm world \<Rightarrow> bool" where
  "restored inner w w' \<longleftrightarrow> (inv (state_of w) \<longrightarrow> view (state_of w') = view (state_of w)) \<and>
     (j_ok (wd_journal w) \<longrightarrow> j_view (wd_journal w') = j_view (wd_journal w)) \<and>
     (inner \<longrightarrow> activated C 1153 \<longrightarrow> ts_inv (wd_transient w) \<longrightarrow> ts_view (wd_transient w') = ts_view (wd_transient w))"

lemma openMessage_opened: "openMessage C w = (Inr u, w') \<Longrightarrow> opened w w'"
  using journal_ok(1) [of "wd_journal w" "managerOf C"] ts_checkpoint_law [of "wd_transient w"] checkpoint_law [of "state_of w"]
  by (auto dest!: openMessage_run simp: opened_def journal_states manager_frames manager)

lemma commit_kept: "opened w w1 \<Longrightarrow> kept b w1 w2 \<Longrightarrow> commitMessage C w2 = (Inr u, w') \<Longrightarrow> kept b w w'"
  using journal_ok(2) [of "wd_journal w2" "managerOf C"] ts_commit_law [of "wd_transient w2"] commit_law [of "state_of w2"]
  by (auto dest!: commitMessage_run simp: opened_def kept_def journal_states manager_frames manager)

lemma revert_restored: "opened w w1 \<Longrightarrow> kept b w1 w2 \<Longrightarrow> revertMessage C err ic w2 = (Inr u, w') \<Longrightarrow>
    kept b w w' \<and> restored b w w'"
  using journal_ok(3) [of "wd_journal w2" "managerOf C"] ts_revert_law [of "wd_transient w2"] revert_law [of "state_of w2"]
  by (auto dest!: revertMessage_run simp: opened_def kept_def restored_def journal_states manager_frames manager)

text \<open>A message that fails closes its frame with a revert, but for Frontier's unpaid deposit.\<close>

lemma callFrame_parts:
  assumes "callFrame E C msg code w = (Inr r, w')"
  obtains w0 w1 w2 w3 r0 ic where "(0 < ms_depth msg \<and> ms_to msg \<noteq> None \<longrightarrow> w0 = w)"
    and "(ms_to msg \<noteq> None \<and> ms_depth msg = 0 \<longrightarrow> bumpCallerNonce C msg w = (Inr (), w0))" and "kept (0 < ms_depth msg) w w0"
    and "opened w0 w1" and "kept (0 < ms_depth msg) w1 w2" and "closeMessage C ic r0 w2 = (Inr r, w3)"
    and "w' = snd (noteW WitnessCommit w3)"
proof -
  let ?b = "0 < ms_depth msg"
  from assms obtain u wa ub w0 uc w1 r0 w2 w3 where
    a: "whenE (ms_depth msg = 0) (bumpCallerNonce C msg) w = (Inr u, wa)" and
    b: "whenE (ms_to msg = None \<and> activated C 2929) (seqE (generateAddressW C msg (ms_data msg))
          (\<lambda>a. journalW (updE (addWarmedAddress (cx_hex C) a)))) wa = (Inr ub, w0)" and
    c: "openMessage C w0 = (Inr uc, w1)" and
    d: "(case ms_to msg of Some to \<Rightarrow> executeCall E C msg to code | None \<Rightarrow> executeCreate E C msg) w1 = (Inr r0, w2)" and
    e: "closeMessage C (ms_to msg = None) r0 w2 = (Inr r, w3)" and
    f: "noteW WitnessCommit w3 = (Inr (), w')"
    unfolding callFrame_def by (elim seqE_InrE) (rule that, (assumption | simp add: noteW_def)+)
  have k: "keepsW ?b (whenE (ms_depth msg = 0) (bumpCallerNonce C msg))"
    "keepsW ?b (whenE (ms_to msg = None \<and> activated C 2929) (seqE (generateAddressW C msg (ms_data msg))
          (\<lambda>a. journalW (updE (addWarmedAddress (cx_hex C) a)))))"
    by (intro evm_intros keepsW_parts)+
  have "kept ?b w w0" by (rule kept_trans [OF keepsWD [OF k(1) a] keepsWD [OF k(2) b]])
  moreover have x: "keepsW ?b (case ms_to msg of Some to \<Rightarrow> executeCall E C msg to code | None \<Rightarrow> executeCreate E C msg)"
    by (intro keepsW_option keepsW_executeCall keepsW_executeCreate)
  have "kept ?b w1 w2" by (rule keepsWD [OF x d])
  moreover have "opened w0 w1" by (rule openMessage_opened [OF c])
  moreover have "?b \<and> ms_to msg \<noteq> None \<longrightarrow> w0 = w" using a b by (auto simp: whenE_run)
  moreover have "ms_to msg \<noteq> None \<and> ms_depth msg = 0 \<longrightarrow> bumpCallerNonce C msg w = (Inr (), w0)"
    using a b by (auto simp: whenE_run)
  ultimately show ?thesis using that e f by (metis snd_conv)
qed

lemma closeMessage_run:
  assumes "closeMessage C ic r0 w = (Inr r, w')"
  shows "cr_exception r = cr_exception r0 \<and>
    (if cr_exception r = None \<or> hardforkSet (cx_common C) = ''chainstart'' \<and> cr_exception r = Some CODESTORE_OUT_OF_GAS
     then commitMessage C w = (Inr (), w') else (\<exists>err. revertMessage C err ic w = (Inr (), w')))"
proof -
  have runs: "m w = (Inr (), w') \<and> r = x" if "seqE m (\<lambda>_. ret x) w = (Inr r, w')" for m :: "('m, unit) wop" and x
    using that by (auto simp: seqE_run split: prod.splits sum.splits)
  show ?thesis
  proof (cases "cr_exception r0")
    case None
    then show ?thesis using assms by (auto simp: closeMessage_def dest!: runs)
  next
    case (Some err)
    then show ?thesis using assms
      by (auto simp: closeMessage_def Let_def dest!: runs split: if_splits)
  qed
qed

lemma callFrame_kept:
  assumes "callFrame E C msg code w = (Inr r, w')"
  shows "kept (0 < ms_depth msg) w w'"
proof -
  from assms obtain w0 w1 w2 w3 r0 ic where parts: "kept (0 < ms_depth msg) w w0" "opened w0 w1" "kept (0 < ms_depth msg) w1 w2"
    "closeMessage C ic r0 w2 = (Inr r, w3)" "w' = snd (noteW WitnessCommit w3)"
    by (rule callFrame_parts)
  have "kept (0 < ms_depth msg) w0 w3"
    using closeMessage_run [OF parts(4)] commit_kept [OF parts(2,3)] revert_restored [OF parts(2,3)] by (metis (full_types))
  moreover have "kept (0 < ms_depth msg) w3 w'" by (simp add: parts(5) noteW_def)
  ultimately show ?thesis using parts(1) kept_trans by blast
qed

lemma callFrame_restored:
  assumes "callFrame E C msg code w = (Inr r, w')" and "ms_to msg \<noteq> None" and "cr_exception r \<noteq> None"
    and "\<not> (hardforkSet (cx_common C) = ''chainstart'' \<and> cr_exception r = Some CODESTORE_OUT_OF_GAS)"
  shows "\<exists>w0. (if ms_depth msg = 0 then bumpCallerNonce C msg w = (Inr (), w0) else w0 = w) \<and>
    kept (0 < ms_depth msg) w w0 \<and> restored (0 < ms_depth msg) w0 w'"
proof -
  from assms(1) obtain w0 w1 w2 w3 r0 ic where parts: "0 < ms_depth msg \<and> ms_to msg \<noteq> None \<longrightarrow> w0 = w"
    "ms_to msg \<noteq> None \<and> ms_depth msg = 0 \<longrightarrow> bumpCallerNonce C msg w = (Inr (), w0)"
    "kept (0 < ms_depth msg) w w0" "opened w0 w1" "kept (0 < ms_depth msg) w1 w2"
    "closeMessage C ic r0 w2 = (Inr r, w3)" "w' = snd (noteW WitnessCommit w3)"
    by (rule callFrame_parts)
  have "restored (0 < ms_depth msg) w0 w3"
    using closeMessage_run [OF parts(6)] revert_restored [OF parts(4,5)] assms(3,4) by (metis (full_types))
  then have "restored (0 < ms_depth msg) w0 w'" by (simp add: parts(7) noteW_def restored_def)
  then show ?thesis using parts(1,2,3) assms(2) by (cases "ms_depth msg = 0") auto
qed

end

section \<open>Messages\<close>

context frame_store begin

lemma message_evm: "cx_manager (em_ctx E) = M \<Longrightarrow>
    (\<And>msg w r w'. 0 < ms_depth msg \<Longrightarrow> runMessage E n msg None w = (Inr r, w') \<Longrightarrow> kept True w w') \<Longrightarrow>
    framed_evm M inv view saved ((em_ctx E)\<lparr>cx_runCall := \<lambda>m. runMessage E n m None\<rparr>)"
  by unfold_locales simp_all

lemma runMessage_kept:
  assumes "cx_manager (em_ctx E) = M"
  shows "runMessage E n msg code w = (Inr r, w') \<Longrightarrow> kept (0 < ms_depth msg) w w'"
proof (induction n arbitrary: msg code w r w')
  case (Suc n)
  have "framed_evm M inv view saved ((em_ctx E)\<lparr>cx_runCall := \<lambda>m. runMessage E n m None\<rparr>)"
    using Suc.IH by (intro message_evm assms) (metis)
  then show ?case using framed_evm.callFrame_kept Suc.prems by simp
qed simp

lemma runMessage_evm:
  assumes "cx_manager (em_ctx E) = M"
  shows "framed_evm M inv view saved ((em_ctx E)\<lparr>cx_runCall := \<lambda>m. runMessage E n m None\<rparr>)"
  using runMessage_kept [OF assms] by (intro message_evm assms) (metis)

end

end
