(* ===== verification/EvmRevert.thy ===== *)
theory EvmRevert
  imports EvmMessage
begin

text \<open>
  What a message that fails leaves behind, with the simple state manager under the journal: the
  accounts, the code, the storage, the warm sets and transient storage of its entry; at depth 0
  the caller's nonce is raised first and stays so.
\<close>

lemma top_changer_reads: "top_changer (getCode N a)" "top_changer (getStorage N a key)"
  unfolding getCode_def getStorage_def by (intro top_changer_seqE top_changer_pure)+

lemma simple_calls: "manager_call (full_simple N k) s s' \<Longrightarrow> top_only s s'"
proof (induction rule: manager_call.induct)
qed (use top_changer_calls top_changer_reads top_changer_pure(2)
  in \<open>auto simp: full_simple_def simple_manager_def manager.defs top_changer_def\<close>)

interpretation simple_frames: frame_store "full_simple N k" sm_inv sm_view sm_saved
proof unfold_locales
  fix s :: simple_state assume s: "sm_inv s"
  show "\<exists>s'. m_checkpoint (full_simple N k) s = (Inr (), s') \<and> sm_inv s' \<and> sm_view s' = sm_view s \<and>
      sm_saved s' = sm_view s # sm_saved s"
    using sm_checkpoint_law [OF s]
    by (simp add: full_simple_def simple_manager_def manager.defs sm_checkpoint_def checkpointSync_def)
  assume n: "sm_saved s \<noteq> []"
  show "\<exists>s'. m_commit (full_simple N k) s = (Inr (), s') \<and> sm_inv s' \<and> sm_view s' = sm_view s \<and>
      sm_saved s' = tl (sm_saved s)"
    using sm_commit_law [OF s n]
    by (simp add: full_simple_def simple_manager_def manager.defs sm_commit_def)
  show "\<exists>s'. m_revert (full_simple N k) s = (Inr (), s') \<and> sm_inv s' \<and> sm_view s' = hd (sm_saved s) \<and>
      sm_saved s' = tl (sm_saved s)"
    using sm_revert_law [OF s n]
    by (simp add: full_simple_def simple_manager_def manager.defs sm_revert_def)
next
  fix s s' :: simple_state assume "sm_inv s" "manager_call (full_simple N k) s s'"
  then show "sm_inv s' \<and> sm_saved s' = sm_saved s" using simple_calls by (auto simp: top_only_def)
qed

text \<open>An EVM over the simple state manager, with its nested messages, respects the frames.\<close>

definition on_simple :: "noble \<Rightarrow> (bytes \<Rightarrow> bytes) \<Rightarrow> simple_state evm \<Rightarrow> simple_state evm" where
  "on_simple N k E = E\<lparr>em_ctx := (em_ctx E)\<lparr>cx_manager := full_simple N k\<rparr>\<rparr>"

interpretation simple_evm: framed_evm "full_simple N k" sm_inv sm_view sm_saved "on_simple N k E"
    "(em_ctx (on_simple N k E))\<lparr>cx_runCall := \<lambda>m. runMessage (on_simple N k E) n m None\<rparr>" for N k E n
  by (rule simple_frames.runMessage_evm) (simp add: on_simple_def)

lemma on_simple_same: "cx_manager (em_ctx E) = full_simple N k \<Longrightarrow> on_simple N k E = E"
  by (simp add: on_simple_def)

section \<open>Failures\<close>

definition world_ok :: "simple_state world \<Rightarrow> bool" where
  "world_ok w \<longleftrightarrow> sm_inv (state_of w) \<and> j_ok (wd_journal w) \<and> ts_inv (wd_transient w)"

text \<open>Frontier's unpaid code deposit is an exception without a failure.\<close>

definition message_failed :: "'m evm \<Rightarrow> call_result \<Rightarrow> bool" where
  "message_failed E r \<longleftrightarrow> cr_exception r \<noteq> None \<and>
     \<not> (hardforkSet (cx_common (em_ctx E)) = ''chainstart'' \<and> cr_exception r = Some CODESTORE_OUT_OF_GAS)"

definition same_state :: "noble \<Rightarrow> simple_state world \<Rightarrow> simple_state world \<Rightarrow> bool" where
  "same_state N w w' \<longleftrightarrow> account_at N (state_of w') = account_at N (state_of w) \<and>
     code_at N (state_of w') = code_at N (state_of w) \<and> storage_at N (state_of w') = storage_at N (state_of w)"

lemma same_view: "sm_inv (state_of w) \<Longrightarrow> sm_inv (state_of w') \<Longrightarrow> sm_view (state_of w') = sm_view (state_of w) \<Longrightarrow>
    same_state N w w'"
  by (simp add: same_state_def account_at_view code_at_view storage_at_view fun_eq_iff)

lemma failed_message:
  assumes "cx_manager (em_ctx E) = full_simple N k" and "runMessage E n msg code w = (Inr r, w')"
    and "ms_to msg \<noteq> None" and "message_failed E r" and "world_ok w"
  obtains w0 C where "if ms_depth msg = 0 then bumpCallerNonce C msg w = (Inr (), w0) else w0 = w"
    and "cx_manager C = full_simple N k" and "cx_hex C = cx_hex (em_ctx E)"
    and "sm_inv (state_of w0)" and "sm_inv (state_of w')" and "sm_view (state_of w') = sm_view (state_of w0)"
    and "j_ok (wd_journal w0)" and "j_view (wd_journal w') = j_view (wd_journal w0)"
    and "0 < ms_depth msg \<Longrightarrow> activated (em_ctx E) 1153 \<Longrightarrow> ts_view (wd_transient w') = ts_view (wd_transient w)"
proof -
  obtain n' where n: "n = Suc n'" using assms(2) by (cases n) auto
  let ?C = "(em_ctx E)\<lparr>cx_runCall := \<lambda>m. runMessage E n' m None\<rparr>"
  note same = on_simple_same [OF assms(1)]
  have run: "callFrame E ?C msg code w = (Inr r, w')" using assms(2) n by simp
  have act: "activated ?C 1153 = activated (em_ctx E) 1153" by (simp add: activated_def)
  obtain w0 where w0: "if ms_depth msg = 0 then bumpCallerNonce ?C msg w = (Inr (), w0) else w0 = w"
    "simple_frames.kept (0 < ms_depth msg) w w0" "framed_evm.restored sm_inv sm_view ?C (0 < ms_depth msg) w0 w'"
    using simple_evm.callFrame_restored [where N = N and k = k and E = E, unfolded same, OF run assms(3)] assms(4)
    by (auto simp: message_failed_def)
  have kept: "simple_frames.kept (0 < ms_depth msg) w w'"
    by (rule simple_evm.callFrame_kept [where N = N and k = k and E = E, unfolded same, OF run])
  show ?thesis
    by (rule that [of ?C w0])
      (use w0 kept assms(1,5) act in \<open>auto simp: world_ok_def simple_frames.kept_def
      simple_evm.restored_def [where N = N and k = k and E = E, unfolded same]\<close>)
qed

text \<open>
  C1. A nested call that fails leaves no trace: accounts, code, storage, what is warm and what is
  touched, and under EIP-1153 transient storage read after it as they did before it, whatever the
  code of the message and of the messages below it did.
\<close>

theorem failed_call_leaves_no_trace:
  assumes "cx_manager (em_ctx E) = full_simple N k" and "world_ok w"
    and "runMessage E n msg code w = (Inr r, w')" and "message_failed E r"
    and "ms_to msg \<noteq> None" and "0 < ms_depth msg"
  shows "same_state N w w' \<and> j_view (wd_journal w') = j_view (wd_journal w) \<and>
    (activated (em_ctx E) 1153 \<longrightarrow> ts_view (wd_transient w') = ts_view (wd_transient w))"
proof -
  obtain C where "sm_inv (state_of w')" "sm_view (state_of w') = sm_view (state_of w)"
    "j_view (wd_journal w') = j_view (wd_journal w)"
    "activated (em_ctx E) 1153 \<Longrightarrow> ts_view (wd_transient w') = ts_view (wd_transient w)"
    using failed_message [OF assms(1,3,5,4,2)] assms(6) by (metis not_gr_zero)
  then show ?thesis using same_view assms(2) by (simp add: world_ok_def)
qed


text \<open>Reading and writing an account through the journal.\<close>

lemma getAccountW_simple: "cx_manager C = full_simple N k \<Longrightarrow> sm_inv (state_of w) \<Longrightarrow>
    getAccountW C a w = (Inr (account_at N (state_of w) a), w)"
  by (simp add: getAccountW_def managerW_def journalW_def stateE_def full_simple_def simple_manager_def
      manager.defs getAccount_view account_at_view)

lemma putAccountW_simple: "putAccountW C a x w = (Inr u, w') \<Longrightarrow> cx_manager C = full_simple N k \<Longrightarrow> sm_inv (state_of w) \<Longrightarrow>
    sm_view (state_of w') = ((fst (sm_view (state_of w)))(bytesToHex N a := Some x), snd (sm_view (state_of w)))"
proof -
  assume put: "putAccountW C a x w = (Inr u, w')" and m: "cx_manager C = full_simple N k" and s: "sm_inv (state_of w)"
  obtain t where t: "touchAddress (cx_hex C) (managerOf C) a (wd_journal w) = (Inr (), t)"
    using put by (auto simp: putAccountW_def journalW_def j_putAccount_def seqE_run split: prod.splits sum.splits)
  have "j_state t = state_of w" using touchAddress_state [of "cx_hex C" "managerOf C" a "wd_journal w"] t by simp
  then show ?thesis
    using put t m putAccount_view [OF s, of N a "Some x"]
    by (auto simp: putAccountW_def journalW_def j_putAccount_def seqE_run stateE_def managerOf_def
        full_simple_def simple_manager_def manager.defs)
qed

text \<open>At depth 0 the nonce of the caller is raised before the frame is opened.\<close>

lemma bump_view:
  assumes "bumpCallerNonce C msg w = (Inr u, w0)" and "cx_manager C = full_simple N k" and "sm_inv (state_of w)"
  shows "\<exists>acc n. accountOr (account_at N (state_of w) (ms_caller msg)) = Inr acc \<and> get_nonce acc = Inr n \<and>
    sm_view (state_of w0) = ((fst (sm_view (state_of w)))(bytesToHex N (ms_caller msg) := Some (acc\<lparr>acc_nonce := Some (n + 1)\<rparr>)),
      snd (sm_view (state_of w)))"
proof -
  let ?a = "ms_caller msg"
  note get = getAccountW_simple [OF assms(2,3)]
  obtain acc where acc: "accountOr (account_at N (state_of w) ?a) = Inr acc"
    using assms(1) get [of ?a] by (cases "accountOr (account_at N (state_of w) ?a)") (simp_all add: bumpCallerNonce_def accountW_def seqE_run)
  have acct: "accountW C ?a w = (Inr acc, w)" using get [of ?a] acc by (simp add: accountW_def)
  obtain n where n: "get_nonce acc = Inr n"
    using assms(1) acct by (cases "get_nonce acc") (simp_all add: bumpCallerNonce_def seqE_run)
  let ?acc = "acc\<lparr>acc_nonce := Some (n + 1)\<rparr>"
  obtain w1 where put: "putAccountW C ?a ?acc w = (Inr (), w1)" and w1: "wd_journal w0 = wd_journal w1"
    using assms(1) acct n unfolding bumpCallerNonce_def
    by (auto simp: seqE_run whenE_run balStrictW_def balW_def split: prod.splits sum.splits if_splits)
  show ?thesis using putAccountW_simple [OF put assms(2,3)] acc n w1 by auto
qed

text \<open>
  C4. A call at depth 0 that fails changes one thing: the nonce of its caller goes up by one.
  Every other account, all code and all storage are as they were.
\<close>

theorem failed_transaction_raises_nonce:
  assumes "cx_manager (em_ctx E) = full_simple N k" and "world_ok w"
    and "runMessage E n msg code w = (Inr r, w')" and "message_failed E r"
    and "ms_to msg \<noteq> None" and "ms_depth msg = 0" and "noble_hex N"
  shows "\<exists>acc nonce. accountOr (account_at N (state_of w) (ms_caller msg)) = Inr acc \<and> get_nonce acc = Inr nonce \<and>
    account_at N (state_of w') = (account_at N (state_of w))
      (ms_caller msg := Some (acc\<lparr>acc_nonce := Some (nonce + 1)\<rparr>)) \<and>
    code_at N (state_of w') = code_at N (state_of w) \<and>
    storage_at N (state_of w') = storage_at N (state_of w)"
proof -
  obtain w0 C where w0: "bumpCallerNonce C msg w = (Inr (), w0)" "cx_manager C = full_simple N k"
    "sm_inv (state_of w')" "sm_view (state_of w') = sm_view (state_of w0)"
    using failed_message [OF assms(1,3,5,4,2)] assms(6) by (metis less_irrefl)
  have w: "sm_inv (state_of w)" using assms(2) by (simp add: world_ok_def)
  show ?thesis
    using bump_view [OF w0(1,2) w] w0(3,4) w noble_hex.bytesToHex_inj [OF assms(7)]
    by (fastforce simp: account_at_view code_at_view storage_at_view fun_eq_iff)
qed


section \<open>The transfer of value\<close>









section \<open>A message that fails\<close>

definition sample_evm :: "simple_state evm" where
  "sample_evm = \<lparr>em_ctx = sample_ctx, em_opcodes = sample_codes, em_precompile = (\<lambda>_. None),
     em_allowUnlimitedContractSize = False, em_block = defaultBlock, em_gasPrice = 0,
     em_origin = replicate 20 2, em_steps = 5\<rparr>"

definition sample_message :: "nat \<Rightarrow> message" where
  "sample_message d = \<lparr>ms_caller = replicate 20 2, ms_gasLimit = 100, ms_to = Some (replicate 20 1),
     ms_codeAddress = None, ms_value = 5, ms_data = [], ms_eofCallData = None, ms_salt = None,
     ms_isStatic = False, ms_delegatecall = False, ms_depth = d, ms_gasRefund = 0,
     ms_blobVersionedHashes = [], ms_selfdestruct = [], ms_createdAddresses = None\<rparr>"

lemma sample_evm_ctx [simp]: "em_ctx sample_evm = sample_ctx" "em_precompile sample_evm a = None" "cx_manager sample_ctx = full_simple rlp_noble (\<lambda>_. replicate 32 0)"
  by (simp_all add: sample_evm_def sample_ctx_def sample_manager_def)

lemma sample_world_ok: "world_ok sample_world"
  by (simp add: world_ok_def sample_world_def newSimpleState_inv new_transient_inv j_ok_def newJournal_def cleanJournal_def j_inv_def)

text \<open>The value is credited before the lack of balance ends the call; the revert takes it back.\<close>

lemma putAccountW_returns:
  assumes "cx_manager C = full_simple N k" "sm_inv (state_of w)" "j_preimages (wd_journal w) = None"
  obtains w' where "putAccountW C a x w = (Inr (), w')" "sm_inv (state_of w')" "j_preimages (wd_journal w') = None"
    "wd_transient w' = wd_transient w" "wd_bal w' = wd_bal w"
proof -
  obtain s' where "putAccount N a (Some x) (state_of w) = (Inr (), s')" "sm_inv s'"
    using putAccount_view [OF assms(2)] by blast
  moreover obtain t where "touchAddress (cx_hex C) (managerOf C) a (wd_journal w) = (Inr (), t)" "j_state t = state_of w"
    "j_preimages t = None"
    using assms(3) by (simp add: touchAddress_def touchAccount_def seqE_run)
  ultimately show ?thesis using that [of "w\<lparr>wd_journal := t\<lparr>j_state := s'\<rparr>\<rparr>"] assms(1)
    by (simp add: putAccountW_def journalW_def j_putAccount_def seqE_run stateE_def
        managerOf_def full_simple_def simple_manager_def manager.defs)
qed

text \<open>A call that sends more than its caller owns, before the first forks.\<close>

lemma overdrawn_call:
  assumes m: "cx_manager C = full_simple N k" and eips: "\<And>e. activated C e \<Longrightarrow> e = 1"
    and w: "sm_inv (state_of w)" "j_preimages (wd_journal w) = None"
    and sender: "accountOr (account_at N (state_of w) (ms_caller msg)) = Inr account" "get_balance account = Inr b" "b < ms_value msg"
    and onto: "accountOr (account_at N (state_of w) to) = Inr receiver" "get_balance receiver = Inr b'" "b' + ms_value msg \<le> MAX_INTEGER"
    and plain: "\<not> ms_delegatecall msg" "em_precompile E to = None" "ms_codeAddress msg = None"
  obtains w' where "executeCall E C msg to (Some code) w =
      (Inr ((emptyResult msg 0 (Some INSUFFICIENT_BALANCE))\<lparr>cr_logs := [], cr_gasRefund := Some (ms_gasRefund msg)\<rparr>), w')"
proof -
  have e: "activated C n = (n = 1 \<and> activated C 1)" for n using eips [of n] by auto
  have e': "\<not> activated C 7864" "\<not> activated C 7928" "\<not> activated C 7708" "\<not> stateless68 C"
    using e [of 7864] e [of 7928] e [of 7708] e [of 6800] by (simp_all add: stateless68_def)
  obtain w1 where put: "putAccountW C to (receiver\<lparr>acc_balance := Some (b' + ms_value msg)\<rparr>) w = (Inr (), w1)"
    using putAccountW_returns [OF m w] by metis
  have add: "addToBalance C to receiver msg w = (Inr (Inr ()), w1)"
    using onto(2,3) put e' by (simp add: addToBalance_def whenE_def)
  have "transferValue C msg to g w = (Inr (Some (Some INSUFFICIENT_BALANCE, g)), w1)" for g
    using sender onto(1) add e' plain(1)
    by (simp add: transferValue_def accountW_def getAccountW_simple [OF m w(1)] reduceSenderBalance_def firstError_def seqE_assoc)
  then show ?thesis
    using that e' plain by (simp add: executeCall_def callWitness_def loadCode_def transferLogs_def whenE_def)
qed

lemma plain_frames:
  assumes m: "cx_manager C = full_simple N k" and eips: "\<And>e. activated C e \<Longrightarrow> e = 1"
  shows "sm_inv (state_of w) \<Longrightarrow> \<exists>w'. openMessage C w = (Inr (), w') \<and> sm_inv (state_of w') \<and>
      j_preimages (wd_journal w') = j_preimages (wd_journal w) \<and> sm_view (state_of w') = sm_view (state_of w)"
    and "\<exists>w'. revertMessage C err ic w = (Inr (), w')"
proof -
  have e: "\<not> activated C 1153" "\<not> activated C 7928" "\<not> activated C 8037"
    using eips [of 1153] eips [of 7928] eips [of 8037] by auto
  have "fst (m_revert (full_simple N k) s) = Inr ()" for s
    by (simp add: full_simple_def simple_manager_def manager.defs sm_revert_def)
  then have run: "fst (j_revert (managerOf C) j) = Inr ()" for j
    by (simp add: j_revert_def seqE_run stateE_def manager_frames m split_beta)
  show "sm_inv (state_of w) \<Longrightarrow> \<exists>w'. openMessage C w = (Inr (), w') \<and> sm_inv (state_of w') \<and>
      j_preimages (wd_journal w') = j_preimages (wd_journal w) \<and> sm_view (state_of w') = sm_view (state_of w)"
    using simple_frames.checkpoint_law [of "state_of w" N k]
    by (auto simp: openMessage_def whenE_def e journalW_def j_checkpoint_def seqE_run stateE_def manager_frames m)
  show "\<exists>w'. revertMessage C err ic w = (Inr (), w')"
    using e run [of "wd_journal w"] by (auto simp: revertMessage_def whenE_def journalW_def seqE_run split_beta)
qed

lemma sample_plain:
  defines "C \<equiv> sample_ctx\<lparr>cx_runCall := \<lambda>m. runMessage sample_evm 0 m None\<rparr>"
  shows "cx_manager C = full_simple rlp_noble (\<lambda>_. replicate 32 0)" and "activated C e \<Longrightarrow> e = 1"
    and "hardforkSet (cx_common C) = ''chainstart''"
  using sample_eips(1) [of e] by (simp_all add: C_def activated_def) (simp add: sample_ctx_def small_common_def)

lemma sample_run: "\<exists>r w'. runMessage sample_evm 1 (sample_message d) (Some [0xfe]) sample_world = (Inr r, w') \<and>
    message_failed sample_evm r"
proof -
  let ?msg = "sample_message d"
  define C where "C = sample_ctx\<lparr>cx_runCall := \<lambda>m. runMessage sample_evm 0 m None\<rparr>"
  have run: "runMessage sample_evm 1 ?msg (Some [0xfe]) = callFrame sample_evm C ?msg (Some [0xfe])"
    by (simp add: C_def)
  note C = sample_plain [folded C_def]
  have eip: "activated C e \<Longrightarrow> e = 1" for e by (rule C(2))
  have s: "sm_inv (state_of sample_world)" "j_preimages (wd_journal sample_world) = None"
    by (simp_all add: sample_world_def newSimpleState_inv newJournal_def cleanJournal_def)
  have none: "fst (sm_view (state_of sample_world)) a = None" for a
    by (simp add: sample_world_def newJournal_def cleanJournal_def newSimpleState_def
        sm_view_def level_view_def checkpointSync_def topCopy_def)
  have zero: "\<exists>acc. accountOr x = Inr acc \<and> get_balance acc = Inr 0"
    if "x = None \<or> (\<exists>n. x = Some (default_account\<lparr>acc_nonce := n\<rparr>))" for x
    using that by (auto simp: accountOr_def newAccount_default default_account_def get_balance_def not_loaded_def)
  obtain w0 where w0: "whenE (d = 0) (bumpCallerNonce C ?msg) sample_world = (Inr (), w0)" "sm_inv (state_of w0)"
    "j_preimages (wd_journal w0) = None" and view: "\<And>a. fst (sm_view (state_of w0)) a = None \<or>
       (\<exists>n. fst (sm_view (state_of w0)) a = Some (default_account\<lparr>acc_nonce := n\<rparr>))"
  proof (cases "d = 0")
    case True
    let ?acc = "default_account\<lparr>acc_nonce := Some 1\<rparr>"
    obtain w' where w': "putAccountW C (ms_caller ?msg) ?acc sample_world = (Inr (), w')" "sm_inv (state_of w')"
      "j_preimages (wd_journal w') = None"
      using putAccountW_returns [OF C(1) s] by metis
    have "bumpCallerNonce C ?msg sample_world = (Inr (), w')"
      using w'(1) eip [of 7928] none by (auto simp: bumpCallerNonce_def accountW_def getAccountW_simple [OF C(1) s(1)] seqE_run
          account_at_view [OF s(1)] accountOr_def newAccount_default whenE_def default_account_def get_nonce_def not_loaded_def)
    moreover have "fst (sm_view (state_of w')) a = None \<or> fst (sm_view (state_of w')) a = Some ?acc" for a
      using putAccountW_simple [OF w'(1) C(1) s(1)] none by simp
    ultimately show ?thesis using that [of w'] w' True by (auto simp: whenE_def)
  qed (use that [of sample_world] s none in \<open>simp add: whenE_def\<close>)
  obtain w1 where w1: "openMessage C w0 = (Inr (), w1)" "sm_inv (state_of w1)" "j_preimages (wd_journal w1) = None"
    "sm_view (state_of w1) = sm_view (state_of w0)"
    using plain_frames(1) [OF C(1) eip w0(2)] w0(3) by metis
  have acc: "\<exists>acc. accountOr (account_at rlp_noble (state_of w1) a) = Inr acc \<and> get_balance acc = Inr 0" for a
    using zero view w1(4) by (simp add: account_at_view [OF w1(2)])
  obtain account where account: "accountOr (account_at rlp_noble (state_of w1) (ms_caller ?msg)) = Inr account" "get_balance account = Inr 0"
    using acc by blast
  obtain receiver where receiver: "accountOr (account_at rlp_noble (state_of w1) (replicate 20 1)) = Inr receiver" "get_balance receiver = Inr 0"
    using acc by blast
  obtain w2 where w2: "executeCall sample_evm C ?msg (replicate 20 1) (Some [0xfe]) w1 =
      (Inr ((emptyResult ?msg 0 (Some INSUFFICIENT_BALANCE))\<lparr>cr_logs := [], cr_gasRefund := Some (ms_gasRefund ?msg)\<rparr>), w2)"
    by (rule overdrawn_call [OF C(1) eip w1(2,3) account _ receiver _ _ sample_evm_ctx(2)])
      (simp_all add: sample_message_def MAX_INTEGER_def)
  obtain w3 where w3: "revertMessage C INSUFFICIENT_BALANCE False w2 = (Inr (), w3)"
    using plain_frames(2) [OF C(1) eip] by blast
  have "ms_to ?msg = Some (replicate 20 1)" "ms_depth ?msg = d" by (simp_all add: sample_message_def)
  then show ?thesis
    unfolding run using w0(1) w1(1) w2 w3
    by (simp add: callFrame_def seqE_run whenE_run [of False] closeMessage_def Let_def emptyResult_def noteW_def message_failed_def)
qed

theorem failed_call_leaves_no_trace_witness:
  "\<exists>r w'. runMessage sample_evm 1 (sample_message 1) (Some [0xfe]) sample_world = (Inr r, w') \<and>
     same_state rlp_noble sample_world w' \<and> j_view (wd_journal w') = j_view (wd_journal sample_world)"
proof -
  obtain r w' where run: "runMessage sample_evm 1 (sample_message 1) (Some [0xfe]) sample_world = (Inr r, w')"
    "message_failed sample_evm r"
    using sample_run by blast
  show ?thesis
    using failed_call_leaves_no_trace [OF _ sample_world_ok run] run(1) by (simp add: sample_message_def)
qed

theorem failed_transaction_raises_nonce_witness:
  "\<exists>r w'. runMessage sample_evm 1 (sample_message 0) (Some [0xfe]) sample_world = (Inr r, w') \<and>
     account_at rlp_noble (state_of w') (replicate 20 1) = None"
proof -
  obtain r w' where run: "runMessage sample_evm 1 (sample_message 0) (Some [0xfe]) sample_world = (Inr r, w')"
    "message_failed sample_evm r"
    using sample_run by blast
  have "account_at rlp_noble (state_of sample_world) (replicate 20 1) = None"
    by (simp add: account_at_view newSimpleState_inv sample_world_def newJournal_def cleanJournal_def)
      (simp add: newSimpleState_def sm_view_def level_view_def checkpointSync_def topCopy_def)
  then show ?thesis
    using failed_transaction_raises_nonce [OF sample_evm_ctx(3) [folded sample_evm_ctx(1)] sample_world_ok run _ _ rlp_hex.noble_hex_axioms] run(1)
    by (auto simp: sample_message_def)
qed




end
