(* ===== verification/EvmGasBound.thy ===== *)
theory EvmGasBound
  imports EvmRevert
begin

text \<open>
  The gas of messages: no call or creation uses more than its limit. \<open>yields\<close> states what a part
  of \<open>EVM\<close> returns; the frame of the interpreter never overdraws its gas by \<open>gas_relation\<close>.
\<close>

section \<open>The gas of a message\<close>

definition yields :: "('a \<Rightarrow> bool) \<Rightarrow> ('s, 'e, 'a) eff \<Rightarrow> bool" where
  "yields P m \<longleftrightarrow> (\<forall>x. may m x \<longrightarrow> P x)"

lemma yieldsD: "yields P m \<Longrightarrow> m s = (Inr x, s') \<Longrightarrow> P x"
  by (auto simp: yields_def may_def)

lemma yields_may: "yields P m \<Longrightarrow> may m x \<Longrightarrow> P x"
  by (simp add: yields_def)

lemma yieldsI: "(\<And>s x s'. m s = (Inr x, s') \<Longrightarrow> P x) \<Longrightarrow> yields P m"
  by (auto simp: yields_def may_def)

lemma yields_seqE: "(\<And>x. may m x \<Longrightarrow> yields P (f x)) \<Longrightarrow> yields P (seqE m f)"
  by (auto simp: yields_def dest!: may_seqE)

lemma yields_bind: "yields Q m \<Longrightarrow> (\<And>x. Q x \<Longrightarrow> yields P (f x)) \<Longrightarrow> yields P (seqE m f)"
  by (rule yields_seqE) (blast dest: yields_may)

lemma yields_ret [simp]: "yields P (ret x) \<longleftrightarrow> P x"
  by (simp add: yields_def)

lemma yields_raise [simp]: "yields P (raise e)"
  by (simp add: yields_def)

lemma yields_if: "(c \<Longrightarrow> yields P m) \<Longrightarrow> (\<not> c \<Longrightarrow> yields P m') \<Longrightarrow> yields P (if c then m else m')"
  by simp

lemma yields_option: "(v = None \<Longrightarrow> yields P m) \<Longrightarrow> (\<And>x. v = Some x \<Longrightarrow> yields P (f x)) \<Longrightarrow>
    yields P (case v of None \<Rightarrow> m | Some x \<Rightarrow> f x)"
  by (cases v) auto

lemma yields_sum: "(\<And>x. v = Inl x \<Longrightarrow> yields P (g x)) \<Longrightarrow> (\<And>x. v = Inr x \<Longrightarrow> yields P (f x)) \<Longrightarrow>
    yields P (case v of Inl x \<Rightarrow> g x | Inr x \<Rightarrow> f x)"
  by (cases v) auto

lemma yields_prod: "(\<And>x y. v = (x, y) \<Longrightarrow> yields P (f x y)) \<Longrightarrow> yields P (case v of (x, y) \<Rightarrow> f x y)"
  by (cases v) auto

lemma yields_Let: "yields P (f v) \<Longrightarrow> yields P (Let v f)"
  by simp

lemmas yields_intros = yields_if yields_option yields_sum yields_prod yields_Let yields_seqE

abbreviation enough :: "int option \<Rightarrow> bool" where
  "enough \<equiv> \<lambda>x. \<forall>g. x = Some g \<longrightarrow> 0 \<le> g"

lemma yields_chargeWitness: "yields enough (chargeWitness C cs g)"
  unfolding chargeWitness_def by (intro yields_intros) auto

lemma yields_callWitness: "0 \<le> ms_gasLimit msg \<Longrightarrow> yields enough (callWitness C msg to)"
  unfolding callWitness_def by (intro yields_intros yields_chargeWitness) auto

lemma yields_transferValue: "0 \<le> g \<Longrightarrow> yields (\<lambda>x. \<forall>e g'. x = Some (e, g') \<longrightarrow> 0 \<le> g') (transferValue C msg to g)"
  unfolding transferValue_def
  by (intro yields_intros) (auto split: if_splits dest: yields_may [OF yields_chargeWitness])

lemma yields_interpreter:
  assumes "stipend_ok C" and "0 \<le> gasLimit"
  shows "yields (\<lambda>r. cr_executionGasUsed r \<le> gasLimit) (runInterpreter E C msg to code gasLimit isCreate charge logs pc)"
  by (rule yieldsI) (rule interpreter_gas [OF assms])

definition precompiles_bounded :: "'m evm \<Rightarrow> bool" where
  "precompiles_bounded E \<longleftrightarrow> (\<forall>a p data g r. em_precompile E a = Some p \<longrightarrow> p data g = Inr r \<longrightarrow> cr_executionGasUsed r \<le> g)"

lemma yields_executeCall:
  assumes "stipend_ok C" and "0 \<le> ms_gasLimit msg"
    and "precompiles_bounded E"
  shows "yields (\<lambda>r. cr_executionGasUsed r \<le> ms_gasLimit msg) (executeCall E C msg to code0)"
proof -
  have pre: "em_precompile E codeAddress = Some p" if "may (loadCode E C msg codeAddress code) (Inl p)" for codeAddress code p
  proof -
    have "yields (\<lambda>x. \<forall>p. x = Inl p \<longrightarrow> em_precompile E codeAddress = Some p) (loadCode E C msg codeAddress code)"
      unfolding loadCode_def by (intro yields_intros) auto
    then show ?thesis using that yields_may by fast
  qed
  have body: "yields (\<lambda>r. cr_executionGasUsed r \<le> g) (case loaded of
        Inl p \<Rightarrow> seqE (resE (p (ms_data msg) g)) (\<lambda>r. ret (withLogs logs r\<lparr>cr_gasRefund := Some (ms_gasRefund msg),
          cr_createdAddress := None, cr_selfdestruct := ms_selfdestruct msg, cr_createdAddresses := ms_createdAddresses msg\<rparr>))
      | Inr (c, charge) \<Rightarrow> runInterpreter E C msg to c g False charge logs None)"
    if "0 \<le> g" "may (loadCode E C msg a code) loaded" for g loaded a code logs
    using that assms(3)
    by (intro yields_intros yields_interpreter assms(1))
      (auto simp: withLogs_def precompiles_bounded_def may_def dest!: mayI [THEN pre])
  show ?thesis
    unfolding executeCall_def Let_def
    apply (rule yields_bind [OF yields_callWitness [OF assms(2)]])
    apply (rule yields_option, simp add: OOGResult_def emptyResult_def)
    apply (rule yields_bind [OF yields_transferValue], simp)
    apply (rule yields_option, simp add: OOGResult_def emptyResult_def)
    apply (rule yields_prod, rule yields_seqE, rule yields_seqE, rule yields_seqE)
    apply (rule yields_if, simp add: emptyResult_def)
    apply (rule yields_bind [OF body], simp, assumption)
    apply (rule yields_seqE, simp)
    done
qed

text \<open>Creations.\<close>

lemma yields_settleCreate: "yields (\<lambda>(r, _). cr_executionGasUsed r \<le> ms_gasLimit msg) (settleCreate E C msg code result fees allowed)"
  unfolding settleCreate_def by (intro yields_intros) (simp_all add: failed_def)

lemma yields_completionGas:
  assumes "cr_executionGasUsed r + g \<le> limit" and "limit = ms_gasLimit msg" and "0 \<le> g"
  shows "yields (\<lambda>(r', g'). cr_executionGasUsed r' \<le> limit \<and>
      (cr_exception r' = None \<longrightarrow> cr_executionGasUsed r' + g' \<le> limit \<and> 0 \<le> g')) (completionGas C msg wc r g b)"
  using assms unfolding completionGas_def by (intro yields_intros) (auto simp: failed_def)

lemma yields_storeCode:
  assumes "cr_executionGasUsed r \<le> ms_gasLimit msg"
  shows "yields (\<lambda>r'. cr_executionGasUsed r' \<le> ms_gasLimit msg) (storeCode C msg to r (ms_gasLimit msg - cr_executionGasUsed r) oog)"
proof -
  let ?Q = "\<lambda>(r', g'). cr_executionGasUsed r' \<le> ms_gasLimit msg \<and>
      (cr_exception r' = None \<longrightarrow> cr_executionGasUsed r' + g' \<le> ms_gasLimit msg \<and> 0 \<le> g')"
  have first: "yields ?Q (if cr_exception r = None then completionGas C msg wc r (ms_gasLimit msg - cr_executionGasUsed r) False
      else ret (r, ms_gasLimit msg - cr_executionGasUsed r))" for wc
    using assms by (intro yields_if yields_completionGas) auto
  have second: "yields ?Q (completionGas C msg wc r' g' True)"
    if "?Q (r', g')" "cr_exception r' = None" for r' g' wc
    using that by (intro yields_completionGas) auto
  show ?thesis
    unfolding storeCode_def
    apply (rule yields_bind [OF first])
    apply (rule yields_prod, rule yields_if)
     apply (rule yields_bind [OF second], simp, simp)
     apply (rule yields_prod, rule yields_seqE, rule yields_seqE, simp)
    apply (rule yields_if, rule yields_seqE, rule yields_seqE, simp, simp)
    done
qed

lemma yields_deploy:
  assumes "stipend_ok C" and "0 \<le> gasLimit"
  shows "yields (\<lambda>r. cr_executionGasUsed r \<le> ms_gasLimit msg) (deploy E C msg to code toAccount gasLimit)"
  unfolding deploy_def Let_def
  apply ((rule yields_seqE)+, rule yields_if)
   apply (rule yields_bind [where Q = enough], intro yields_if yields_chargeWitness, simp add: assms(2))
   apply (rule yields_option)
    apply (simp_all add: OOGResult_def emptyResult_def created_def)
  apply (rule yields_seqE, rule yields_seqE, rule yields_seqE, rule yields_bind [OF yields_settleCreate], rule yields_prod, rule yields_prod)
  apply (rule yields_seqE, rule yields_bind [OF yields_storeCode], simp)
  apply (rule yields_seqE, simp)
  done

lemma yields_executeCreate:
  assumes "stipend_ok C" and "0 \<le> ms_gasLimit msg"
  shows "yields (\<lambda>r. cr_executionGasUsed r \<le> ms_gasLimit msg) (executeCreate E C msg)"
proof -
  have left: "yields enough (if stateless68 C then seqE (witnessSum C cs) (\<lambda>g. if L - g < 0 then ret None
      else seqE (noteW WitnessCommit) (\<lambda>_. ret (Some (L - g)))) else ret (Some L))" if "0 \<le> L" for L cs
    using that by (intro yields_intros) auto
  have run: "yields (\<lambda>r. cr_executionGasUsed r \<le> ms_gasLimit msg)
      (deploy E C (msg\<lparr>ms_data := d, ms_to := t, ms_createdAddresses := cs\<rparr>) to code x g)" if "0 \<le> g" for d t cs to code x g
    using yields_deploy [OF assms(1) that, where msg = "msg\<lparr>ms_data := d, ms_to := t, ms_createdAddresses := cs\<rparr>"] by simp
  show ?thesis
    unfolding executeCreate_def Let_def
    apply (rule yields_seqE, rule yields_seqE, rule yields_seqE, rule yields_sum, simp)
    apply (rule yields_seqE, rule yields_if, simp add: emptyResult_def)
    apply (rule yields_seqE, rule yields_seqE, rule yields_seqE, rule yields_bind [OF left], simp add: assms(2))
    apply (rule yields_option, simp add: OOGResult_def emptyResult_def)
    apply (rule yields_seqE, rule yields_if, rule yields_seqE, simp add: created_def emptyResult_def)
    apply (rule run, simp)
    done
qed

lemma callFrame_gas:
  assumes "stipend_ok C" and "0 \<le> ms_gasLimit msg"
    and "precompiles_bounded E"
  shows "yields (\<lambda>r. cr_executionGasUsed r \<le> ms_gasLimit msg) (callFrame E C msg code)"
proof -
  have "yields (\<lambda>r. cr_executionGasUsed r = cr_executionGasUsed r0) (closeMessage C b r0)" for b r0
    unfolding closeMessage_def Let_def by (intro yields_intros) auto
  then have "yields (\<lambda>r. cr_executionGasUsed r \<le> ms_gasLimit msg) (closeMessage C b r0)"
    if "cr_executionGasUsed r0 \<le> ms_gasLimit msg" for b r0
    using that unfolding yields_def by metis
  moreover have "yields (\<lambda>r. cr_executionGasUsed r \<le> ms_gasLimit msg)
      (case ms_to msg of Some to \<Rightarrow> executeCall E C msg to code | None \<Rightarrow> executeCreate E C msg)"
    by (intro yields_option yields_executeCall yields_executeCreate assms)
  ultimately show ?thesis
    unfolding callFrame_def
    by (intro yields_seqE) (force simp: yields_def dest: may_seqE)
qed


text \<open>
  C2. No message, call or creation, uses more gas than its limit, whatever it runs and whatever
  the messages below it do.
\<close>

theorem message_within_gas_limit:
  assumes "runMessage E n msg code w = (Inr r, w')" and "0 \<le> ms_gasLimit msg"
    and "stipend_ok (em_ctx E)" and "precompiles_bounded E"
  shows "cr_executionGasUsed r \<le> ms_gasLimit msg"
proof (cases n)
  case (Suc m)
  let ?C = "(em_ctx E)\<lparr>cx_runCall := \<lambda>msg. runMessage E m msg None\<rparr>"
  have "stipend_ok ?C" using assms(3) by (simp add: stipend_ok_def)
  from callFrame_gas [OF this assms(2,4)] have "yields (\<lambda>r. cr_executionGasUsed r \<le> ms_gasLimit msg) (callFrame E ?C msg code)" .
  moreover have "callFrame E ?C msg code w = (Inr r, w')" using assms(1) Suc by simp
  ultimately show ?thesis by (rule yieldsD)
qed (use assms(1) in simp)

theorem message_within_gas_limit_witness:
  "\<exists>r w'. runMessage sample_evm 1 (sample_message 1) (Some [0xfe]) sample_world = (Inr r, w') \<and> cr_executionGasUsed r \<le> 100"
proof -
  obtain r w' where run: "runMessage sample_evm 1 (sample_message 1) (Some [0xfe]) sample_world = (Inr r, w')"
    using sample_run by blast
  have "stipend_ok (em_ctx sample_evm)" by (simp add: stipend_ok_def sample_ctx_def small_common_def param_def)
  moreover have "precompiles_bounded sample_evm" by (simp add: precompiles_bounded_def)
  ultimately show ?thesis using message_within_gas_limit [OF run] run by (simp add: sample_message_def)
qed

end
