(* ===== verification/MptNode.thy ===== *)
theory MptNode
  imports Bytes
begin

text \<open>
  The nodes of the Merkle Patricia trie and their encodings: \<^verbatim>\<open>packages/mpt/src/node/\<close>,
  \<^verbatim>\<open>util/nibbles.ts\<close> and \<^verbatim>\<open>util/hex.ts\<close>. Nibbles are natural numbers. \<open>null\<close> and the empty
  array, which every method of a branch treats alike and RLP encodes alike, are one value here,
  \<open>NBytes []\<close>. Data decoded from the database may nest deeper than the types of the code admit;
  values are therefore \<open>nested\<close>, and a node whose key is itself a list is refused with a
  \<open>TypeError\<close>.
\<close>

section \<open>Nibbles\<close>

type_synonym nibbles = "nat list"

fun bytesToNibbles :: "bytes \<Rightarrow> nibbles" where
  "bytesToNibbles [] = []"
| "bytesToNibbles (b # key) = unat b div 16 # unat b mod 16 # bytesToNibbles key"

text \<open>A last odd nibble is dropped, as \<open>new Uint8Array(arr.length / 2)\<close> drops it.\<close>

fun nibblesTypeToPackedBytes :: "nibbles \<Rightarrow> bytes" where
  "nibblesTypeToPackedBytes (p # q # arr) = word_of_nat (p * 16 + q) # nibblesTypeToPackedBytes arr"
| "nibblesTypeToPackedBytes _ = []"

fun nibblesCompare :: "nibbles \<Rightarrow> nibbles \<Rightarrow> int" where
  "nibblesCompare (x # xs) (y # ys) = (if x < y then - 1 else if x > y then 1 else nibblesCompare xs ys)"
| "nibblesCompare [] [] = 0"
| "nibblesCompare [] ys = - 1"
| "nibblesCompare xs [] = 1"

fun matchingNibbleLength :: "nibbles \<Rightarrow> nibbles \<Rightarrow> nat" where
  "matchingNibbleLength (x # xs) (y # ys) = (if x = y then Suc (matchingNibbleLength xs ys) else 0)"
| "matchingNibbleLength _ _ = 0"

section \<open>Hex prefixes\<close>

definition addHexPrefix :: "nibbles \<Rightarrow> bool \<Rightarrow> nibbles" where
  "addHexPrefix key terminator =
     (let key1 = (if length key mod 2 \<noteq> 0 then 1 # key else 0 # 0 # key) in
      if terminator then key1[0 := key1 ! 0 + 2] else key1)"

text \<open>\<open>val[0] % 2\<close> of an empty array is \<open>NaN\<close>, which is false.\<close>

definition removeHexPrefix :: "nibbles \<Rightarrow> nibbles" where
  "removeHexPrefix val = (if val \<noteq> [] \<and> val ! 0 mod 2 \<noteq> 0 then drop 1 val else drop 2 val)"

definition isTerminator :: "nibbles \<Rightarrow> bool" where
  "isTerminator key = (key \<noteq> [] \<and> key ! 0 > 1)"

section \<open>Nodes\<close>

datatype mpt_node =
    BranchNode "nested list" nested
  | ExtensionNode nibbles nested
  | LeafNode nibbles nested

text \<open>The length of a value, and whether it is neither \<open>null\<close> nor empty.\<close>

fun nested_length :: "nested \<Rightarrow> nat" where
  "nested_length (NBytes b) = length b"
| "nested_length (NArray xs) = length xs"

definition present :: "nested \<Rightarrow> bool" where
  "present v = (nested_length v > 0)"

definition newBranch :: mpt_node where
  "newBranch = BranchNode (replicate 16 (NBytes [])) (NBytes [])"

text \<open>\<open>value()\<close> and \<open>key()\<close>; the value of a branch may be missing. A branch has no key.\<close>

fun nodeValue :: "mpt_node \<Rightarrow> nested option" where
  "nodeValue (BranchNode bs v) = (if present v then Some v else None)"
| "nodeValue (ExtensionNode k v) = Some v"
| "nodeValue (LeafNode k v) = Some v"

fun nodeKey :: "mpt_node \<Rightarrow> nibbles" where
  "nodeKey (BranchNode bs v) = []"
| "nodeKey (ExtensionNode k v) = k"
| "nodeKey (LeafNode k v) = k"

text \<open>\<open>value(v)\<close>, \<open>key(k)\<close>, \<open>setBranch(i, v)\<close>. A branch ignores \<open>value(null)\<close>.\<close>

fun setValue :: "nested option \<Rightarrow> mpt_node \<Rightarrow> mpt_node" where
  "setValue None n = n"
| "setValue (Some v) (BranchNode bs v0) = BranchNode bs v"
| "setValue (Some v) (ExtensionNode k v0) = ExtensionNode k v"
| "setValue (Some v) (LeafNode k v0) = LeafNode k v"

fun setKey :: "nibbles \<Rightarrow> mpt_node \<Rightarrow> mpt_node" where
  "setKey k (BranchNode bs v) = BranchNode bs v"
| "setKey k (ExtensionNode k0 v) = ExtensionNode k v"
| "setKey k (LeafNode k0 v) = LeafNode k v"

fun setBranch :: "nat \<Rightarrow> nested \<Rightarrow> mpt_node \<Rightarrow> mpt_node" where
  "setBranch i v (BranchNode bs v0) = BranchNode (bs[i := v]) v0"
| "setBranch i v n = n"

fun getBranch :: "mpt_node \<Rightarrow> nat \<Rightarrow> nested option" where
  "getBranch (BranchNode bs v) i = (if i < length bs \<and> present (bs ! i) then Some (bs ! i) else None)"
| "getBranch n i = None"

fun getChildren :: "mpt_node \<Rightarrow> (nat \<times> nested) list" where
  "getChildren (BranchNode bs v) = filter (\<lambda>(i, b). present b) (enumerate 0 (take 16 bs))"
| "getChildren n = []"

definition encodedKey :: "nibbles \<Rightarrow> bool \<Rightarrow> nibbles" where
  "encodedKey k isLeaf = addHexPrefix k isLeaf"

fun raw :: "mpt_node \<Rightarrow> nested" where
  "raw (BranchNode bs v) = NArray (bs @ [v])"
| "raw (ExtensionNode k v) = NArray [NBytes (nibblesTypeToPackedBytes (encodedKey k False)), v]"
| "raw (LeafNode k v) = NArray [NBytes (nibblesTypeToPackedBytes (encodedKey k True)), v]"

definition serialize :: "mpt_node \<Rightarrow> bytes res" where
  "serialize n = encode (inputOf (raw n))"

definition isRawMPTNode :: "nested \<Rightarrow> bool" where
  "isRawMPTNode n = (case n of NArray _ \<Rightarrow> True | NBytes _ \<Rightarrow> False)"

fun decodeRawMPTNode :: "nested list \<Rightarrow> mpt_node res" where
  "decodeRawMPTNode r =
     (if length r = 17 then Inr (BranchNode (take 16 r) (r ! 16))
      else if length r = 2 then
        (case r ! 0 of
           NArray _ \<Rightarrow> Inl TypeError
         | NBytes k \<Rightarrow> let nibbles = bytesToNibbles k in
             if isTerminator nibbles then Inr (LeafNode (removeHexPrefix nibbles) (r ! 1))
             else Inr (ExtensionNode (removeHexPrefix nibbles) (r ! 1)))
      else Inl (EthereumJSError ''Invalid node''))"

definition decodeMPTNode :: "bytes \<Rightarrow> mpt_node res" where
  "decodeMPTNode node = and_then (decode (InBytes node) False) (\<lambda>d. case d of
     Data (NArray r) \<Rightarrow> decodeRawMPTNode r
   | _ \<Rightarrow> Inl (EthereumJSError ''Invalid node''))"

section \<open>Nibbles and hex prefixes round trip\<close>

definition nibs :: "nibbles \<Rightarrow> bool" where
  "nibs k \<longleftrightarrow> (\<forall>n \<in> set k. n < 16)"

lemma nibs_simps [simp]: "nibs []" "nibs (n # k) \<longleftrightarrow> n < 16 \<and> nibs k" "nibs (k @ l) \<longleftrightarrow> nibs k \<and> nibs l"
  by (auto simp: nibs_def)

lemma nibs_take_drop: "nibs k \<Longrightarrow> nibs (take i k)" "nibs k \<Longrightarrow> nibs (drop i k)"
  by (auto simp: nibs_def dest: in_set_takeD in_set_dropD)

lemma nibs_bytesToNibbles [simp]: "nibs (bytesToNibbles bs)"
  by (induction bs) auto

lemma length_bytesToNibbles [simp]: "length (bytesToNibbles bs) = 2 * length bs"
  by (induction bs) auto

lemma bytesToNibbles_inj: "bytesToNibbles a = bytesToNibbles b \<longleftrightarrow> a = b"
proof (induction a arbitrary: b)
  case (Cons x a)
  show ?case
  proof (cases b)
    case (Cons y b')
    have "unat x div 16 = unat y div 16 \<and> unat x mod 16 = unat y mod 16 \<Longrightarrow> x = y"
      by (metis div_mult_mod_eq word_unat_eq_iff)
    then show ?thesis using Cons Cons.IH [of b'] by auto
  qed simp
next
  case Nil
  show ?case by (cases b) auto
qed

lemma packed_pair: "p < 16 \<Longrightarrow> q < 16 \<Longrightarrow> unat (word_of_nat (p * 16 + q) :: 8 word) = p * 16 + q"
  by (rule unat_byte_of_nat) simp

lemma packed_nibbles: "nibs k \<Longrightarrow> even (length k) \<Longrightarrow> bytesToNibbles (nibblesTypeToPackedBytes k) = k"
  by (induction k rule: nibblesTypeToPackedBytes.induct)
    (simp_all add: packed_pair del: of_nat_add of_nat_mult)

lemma packed_bytes: "nibblesTypeToPackedBytes (bytesToNibbles bs) = bs"
proof (induction bs)
  case (Cons b bs)
  have "unat b div 16 * 16 + unat b mod 16 = unat b" by simp
  then show ?case using Cons by simp
qed simp

lemma addHexPrefix_cases: "addHexPrefix k t =
    (if odd (length k) then (if t then 3 else 1) # k else (if t then 2 else 0) # 0 # k)"
  by (auto simp: addHexPrefix_def Let_def odd_iff_mod_2_eq_one)

lemma encodedKey_decode:
  fixes t :: bool
  assumes "nibs k"
  defines "d \<equiv> bytesToNibbles (nibblesTypeToPackedBytes (encodedKey k t))"
  shows "removeHexPrefix d = k" and "isTerminator d \<longleftrightarrow> t"
proof -
  have "d = encodedKey k t"
    unfolding d_def using assms(1) by (intro packed_nibbles) (auto simp: encodedKey_def addHexPrefix_cases)
  then show "removeHexPrefix d = k" "isTerminator d \<longleftrightarrow> t"
    by (auto simp: encodedKey_def addHexPrefix_cases removeHexPrefix_def isTerminator_def)
qed

lemma matching_le: "matchingNibbleLength a b \<le> length a" "matchingNibbleLength a b \<le> length b"
  by (induction a b rule: matchingNibbleLength.induct) auto

lemma matching_prefix: "take (matchingNibbleLength a b) a = take (matchingNibbleLength a b) b"
  by (induction a b rule: matchingNibbleLength.induct) auto

lemma matching_differs: "matchingNibbleLength a b < length a \<Longrightarrow> matchingNibbleLength a b < length b \<Longrightarrow>
    a ! matchingNibbleLength a b \<noteq> b ! matchingNibbleLength a b"
  by (induction a b rule: matchingNibbleLength.induct) auto

section \<open>Nodes round trip\<close>

definition node_ok :: "mpt_node \<Rightarrow> bool" where
  "node_ok n = (case n of BranchNode bs v \<Rightarrow> length bs = 16 | ExtensionNode k v \<Rightarrow> nibs k | LeafNode k v \<Rightarrow> nibs k)"

definition raw_items :: "mpt_node \<Rightarrow> nested list" where
  "raw_items n = (case raw n of NArray r \<Rightarrow> r | NBytes _ \<Rightarrow> [])"

lemma raw_items: "raw n = NArray (raw_items n)"
  by (cases n) (auto simp: raw_items_def)

lemma decodeRaw_raw: "node_ok n \<Longrightarrow> decodeRawMPTNode (raw_items n) = Inr n"
  by (cases n) (simp_all add: node_ok_def encodedKey_decode Let_def nth_append raw_items_def)

lemma node_serialize_eq: "encodable (raw n) \<Longrightarrow> serialize n = Inr (rlp (raw n))"
  by (simp add: serialize_def encode_rlp)

lemma rlp_raw_not_Nil: "rlp (raw n) \<noteq> []"
  by (rule rlp_not_Nil)

lemma decode_rlp_raw:
  assumes "node_ok n" and "encodable (raw n)"
  shows "decodeMPTNode (rlp (raw n)) = Inr n"
proof -
  have "decode (InBytes (rlp (raw n))) False = Inr (Data (raw n))"
    using decode1_rlp [OF assms(2), of "[]"] by (simp add: decode_def rlp_not_Nil)
  then show ?thesis unfolding raw_items [of n] using decodeRaw_raw [OF assms(1)]
    by (simp add: decodeMPTNode_def del: decodeRawMPTNode.simps)
qed

section \<open>Properties\<close>

text \<open>
  C21. A node survives serialization: what \<open>serialize\<close> writes for a branch of 16 references, an
  extension or a leaf, \<open>decodeMPTNode\<close> reads back, with the path and the kind of the node
  recovered from the hex prefix.
\<close>

theorem mpt_node_roundtrip:
  assumes "node_ok n" and "encodable (raw n)"
  shows "\<exists>bs. serialize n = Inr bs \<and> decodeMPTNode bs = Inr n"
  using node_serialize_eq [OF assms(2)] decode_rlp_raw [OF assms] by blast

theorem mpt_node_roundtrip_witness:
  "\<exists>bs. serialize (LeafNode [1, 2, 3] (NBytes [7])) = Inr bs \<and> decodeMPTNode bs = Inr (LeafNode [1, 2, 3] (NBytes [7]))"
proof (rule mpt_node_roundtrip)
  show "node_ok (LeafNode [1, 2, 3] (NBytes [7]))" by (simp add: node_ok_def)
  have r: "raw (LeafNode [1, 2, 3] (NBytes [7])) = NArray [NBytes [0x31, 0x23], NBytes [7]]"
    by (simp add: encodedKey_def addHexPrefix_cases)
  show "encodable (raw (LeafNode [1, 2, 3] (NBytes [7])))"
    unfolding r by (simp add: encodable_def rlp_prefix_def)
qed

text \<open>
  C22. Every node that comes out of the decoder is well formed, whatever bytes the database holds:
  a branch has 16 slots and the path of a leaf or an extension consists of nibbles. Data of any
  other shape is refused.
\<close>

theorem decoded_node_well_formed:
  assumes "decodeMPTNode bs = Inr n"
  shows "node_ok n"
proof -
  obtain d where d: "(case d of Data (NArray r) \<Rightarrow> decodeRawMPTNode r
     | _ \<Rightarrow> Inl (EthereumJSError ''Invalid node'')) = Inr n"
    using assms by (auto simp: decodeMPTNode_def and_then_Inr_iff simp del: decodeRawMPTNode.simps)
  obtain r where "decodeRawMPTNode r = Inr n"
  proof (cases d)
    case (Data x)
    then show ?thesis using d that by (cases x) (simp_all del: decodeRawMPTNode.simps)
  qed (use d in simp)
  then show ?thesis
    by (auto simp: node_ok_def removeHexPrefix_def Let_def nibs_take_drop split: if_splits nested.splits)
qed

theorem decoded_node_well_formed_witness: "node_ok (ExtensionNode [1, 2] (NBytes [5]))"
  by (rule decoded_node_well_formed [of "[0xc4, 0x82, 0, 0x12, 5]"])
    (use decode_rlp_raw [of "ExtensionNode [1, 2] (NBytes [5])"] in
      \<open>simp add: node_ok_def encodable_def rlp_prefix_def encodedKey_def addHexPrefix_cases numeral_3_eq_3 Let_def\<close>)

end
