(* ===== verification/CheckpointDb.thy ===== *)
theory CheckpointDb
  imports Bytes Checkpoints
begin

text \<open>
  The database under a trie: \<open>MapDB\<close> of \<^verbatim>\<open>packages/util/src/mapDB.ts\<close>, and \<open>CheckpointDB\<close> of
  \<^verbatim>\<open>packages/mpt/src/db/checkpointDB.ts\<close>, which keeps one map of changes per open checkpoint in
  front of it. Keys are hexadecimal strings; values are stored as bytes or as such strings. The
  LRU cache is an external library: a record of its two routines. The counters of \<open>stats\<close> are
  left out. A \<open>node_store\<close> is what a trie relies on; \<open>CheckpointDB\<close> without a cache is one.
\<close>

section \<open>MapDB\<close>

datatype db_value = VBytes bytes | VString string

type_synonym map_db = "(string \<times> db_value) list"

datatype 'k batch_op = PutOp 'k bytes | DelOp 'k

definition mapdb_get :: "string \<Rightarrow> map_db \<Rightarrow> db_value option" where
  "mapdb_get key db = map_of db key"

definition mapdb_put :: "string \<Rightarrow> db_value \<Rightarrow> map_db \<Rightarrow> map_db" where
  "mapdb_put key val db = obj_set key val db"

definition mapdb_del :: "string \<Rightarrow> map_db \<Rightarrow> map_db" where
  "mapdb_del key db = obj_delete key db"

text \<open>A converted operation: the key, and the value to put or nothing.\<close>

fun mapdb_batch :: "(string \<times> db_value option) list \<Rightarrow> map_db \<Rightarrow> map_db" where
  "mapdb_batch [] db = db"
| "mapdb_batch ((key, None) # ops) db = mapdb_batch ops (mapdb_del key db)"
| "mapdb_batch ((key, Some v) # ops) db = mapdb_batch ops (mapdb_put key v db)"

section \<open>State\<close>

record checkpoint_level =
  cp_keyValueMap :: "(string \<times> bytes option) list"
  cp_root :: bytes

record 'c lru_cache =
  lru_get :: "string \<Rightarrow> 'c \<Rightarrow> bytes option \<times> 'c"
  lru_set :: "string \<Rightarrow> bytes option \<Rightarrow> 'c \<Rightarrow> 'c"

record 'c checkpoint_db =
  cd_checkpoints :: "checkpoint_level list"
  cd_db :: map_db
  cd_bytes :: bool
  cd_cache :: "'c option"

type_synonym ('c, 'a) cd_op = "('c checkpoint_db, js_error, 'a) eff"

definition newCheckpointDB :: "map_db \<Rightarrow> bool \<Rightarrow> 'c option \<Rightarrow> 'c checkpoint_db" where
  "newCheckpointDB db valueBytes cache =
     \<lparr>cd_checkpoints = [], cd_db = db, cd_bytes = valueBytes, cd_cache = cache\<rparr>"

section \<open>Operations\<close>

definition setCheckpoints :: "checkpoint_level list \<Rightarrow> ('c, unit) cd_op" where
  "setCheckpoints cps = updE (\<lambda>s. s\<lparr>cd_checkpoints := cps\<rparr>)"

definition hasCheckpoints :: "'c checkpoint_db \<Rightarrow> bool" where
  "hasCheckpoints s = (length (cd_checkpoints s) > 0)"

definition cd_checkpoint :: "bytes \<Rightarrow> ('c, unit) cd_op" where
  "cd_checkpoint root = updE (\<lambda>s. s\<lparr>cd_checkpoints := cd_checkpoints s @ [\<lparr>cp_keyValueMap = [], cp_root = root\<rparr>]\<rparr>)"

text \<open>\<open>this.checkpoints.pop()!\<close>: of an empty stack \<open>undefined\<close>, whose fields cannot be read.\<close>

definition popCheckpoint :: "('c, checkpoint_level) cd_op" where
  "popCheckpoint = seqE (getE cd_checkpoints) (\<lambda>cps.
     if cps = [] then raise TypeError
     else seqE (updE (\<lambda>s. s\<lparr>cd_checkpoints := butlast cps\<rparr>)) (\<lambda>_. ret (last cps)))"

definition setTopEntry :: "string \<Rightarrow> bytes option \<Rightarrow> ('c, unit) cd_op" where
  "setTopEntry keyHex v = updE (\<lambda>s. s\<lparr>cd_checkpoints := butlast (cd_checkpoints s) @
     [(last (cd_checkpoints s))\<lparr>cp_keyValueMap := obj_set keyHex v (cp_keyValueMap (last (cd_checkpoints s)))\<rparr>]\<rparr>)"

definition storedForm :: "noble \<Rightarrow> bool \<Rightarrow> bytes \<Rightarrow> db_value" where
  "storedForm N valueBytes v = (if valueBytes then VBytes v else VString (bytesToUnprefixedHex N v))"

definition readForm :: "noble \<Rightarrow> db_value \<Rightarrow> bytes res" where
  "readForm N v = (case v of VBytes b \<Rightarrow> Inr b | VString h \<Rightarrow> unprefixedHexToBytes N h)"

definition cacheSet :: "'c lru_cache \<Rightarrow> string \<Rightarrow> bytes option \<Rightarrow> ('c, unit) cd_op" where
  "cacheSet L keyHex v = updE (\<lambda>s. s\<lparr>cd_cache := map_option (lru_set L keyHex v) (cd_cache s)\<rparr>)"

definition cacheGet :: "'c lru_cache \<Rightarrow> string \<Rightarrow> ('c, bytes option) cd_op" where
  "cacheGet L keyHex = (\<lambda>s. case cd_cache s of
     None \<Rightarrow> (Inr None, s)
   | Some c \<Rightarrow> (let (v, c') = lru_get L keyHex c in (Inr v, s\<lparr>cd_cache := Some c'\<rparr>)))"

text \<open>The innermost checkpoint that has an entry for the key; the list is innermost first.\<close>

fun findEntry :: "string \<Rightarrow> checkpoint_level list \<Rightarrow> bytes option option" where
  "findEntry keyHex [] = None"
| "findEntry keyHex (c # cs) = (case map_of (cp_keyValueMap c) keyHex of
     Some v \<Rightarrow> Some v | None \<Rightarrow> findEntry keyHex cs)"

definition cd_get :: "noble \<Rightarrow> 'c lru_cache \<Rightarrow> bytes \<Rightarrow> ('c, bytes option) cd_op" where
  "cd_get N L key = (let keyHex = bytesToUnprefixedHex N key in
     seqE (cacheGet L keyHex) (\<lambda>cached. case cached of
       Some v \<Rightarrow> ret (Some v)
     | None \<Rightarrow> seqE (getE (\<lambda>s. findEntry keyHex (rev (cd_checkpoints s)))) (\<lambda>found. case found of
         Some v \<Rightarrow> ret v
       | None \<Rightarrow> seqE (getE (\<lambda>s. mapdb_get keyHex (cd_db s))) (\<lambda>v.
           seqE (resE (case v of None \<Rightarrow> Inr None
             | Some x \<Rightarrow> and_then (readForm N x) (\<lambda>b. Inr (Some b)))) (\<lambda>returnValue.
           seqE (cacheSet L keyHex returnValue) (\<lambda>_.
           seqE (getE hasCheckpoints) (\<lambda>has.
           seqE (whenE has (setTopEntry keyHex returnValue)) (\<lambda>_. ret returnValue))))))))"

definition cd_put :: "noble \<Rightarrow> 'c lru_cache \<Rightarrow> bytes \<Rightarrow> bytes \<Rightarrow> ('c, unit) cd_op" where
  "cd_put N L key v = (let keyHex = bytesToUnprefixedHex N key in
     seqE (getE id) (\<lambda>s. if hasCheckpoints s then setTopEntry keyHex (Some v)
       else seqE (updE (\<lambda>s. s\<lparr>cd_db := mapdb_put keyHex (storedForm N (cd_bytes s) v) (cd_db s)\<rparr>)) (\<lambda>_.
         cacheSet L keyHex (Some v))))"

definition cd_del :: "noble \<Rightarrow> 'c lru_cache \<Rightarrow> bytes \<Rightarrow> ('c, unit) cd_op" where
  "cd_del N L key = (let keyHex = bytesToUnprefixedHex N key in
     seqE (getE id) (\<lambda>s. if hasCheckpoints s then setTopEntry keyHex None
       else seqE (updE (\<lambda>s. s\<lparr>cd_db := mapdb_del keyHex (cd_db s)\<rparr>)) (\<lambda>_. cacheSet L keyHex None)))"

definition convertOp :: "noble \<Rightarrow> bool \<Rightarrow> bytes batch_op \<Rightarrow> string \<times> db_value option" where
  "convertOp N valueBytes op' = (case op' of
     PutOp key v \<Rightarrow> (bytesToUnprefixedHex N key, Some (storedForm N valueBytes v))
   | DelOp key \<Rightarrow> (bytesToUnprefixedHex N key, None))"

definition cd_batch :: "noble \<Rightarrow> 'c lru_cache \<Rightarrow> bytes batch_op list \<Rightarrow> ('c, unit) cd_op" where
  "cd_batch N L opStack = seqE (getE hasCheckpoints) (\<lambda>has.
     if has then forE opStack (\<lambda>op'. case op' of PutOp key v \<Rightarrow> cd_put N L key v | DelOp key \<Rightarrow> cd_del N L key)
     else updE (\<lambda>s. s\<lparr>cd_db := mapdb_batch (map (convertOp N (cd_bytes s)) opStack) (cd_db s)\<rparr>))"

text \<open>The operations that flush the map of the last checkpoint.\<close>

fun flushOps :: "noble \<Rightarrow> (string \<times> bytes option) list \<Rightarrow> bytes batch_op list res" where
  "flushOps N [] = Inr []"
| "flushOps N ((key, v) # es) = and_then (unprefixedHexToBytes N key) (\<lambda>k.
     and_then (flushOps N es) (\<lambda>ops. Inr ((case v of None \<Rightarrow> DelOp k | Some x \<Rightarrow> PutOp k x) # ops)))"

definition mergeInto :: "(string \<times> bytes option) list \<Rightarrow> (string \<times> bytes option) list \<Rightarrow> (string \<times> bytes option) list" where
  "mergeInto es current = foldl (\<lambda>m (k, v). obj_set k v m) current es"

definition cd_commit :: "noble \<Rightarrow> 'c lru_cache \<Rightarrow> ('c, unit) cd_op" where
  "cd_commit N L = seqE popCheckpoint (\<lambda>c.
     seqE (getE hasCheckpoints) (\<lambda>has.
     if \<not> has then seqE (resE (flushOps N (cp_keyValueMap c))) (cd_batch N L)
     else updE (\<lambda>s. s\<lparr>cd_checkpoints := butlast (cd_checkpoints s) @
       [(last (cd_checkpoints s))\<lparr>cp_keyValueMap :=
          mergeInto (cp_keyValueMap c) (cp_keyValueMap (last (cd_checkpoints s)))\<rparr>]\<rparr>)))"

definition cd_revert :: "('c, bytes) cd_op" where
  "cd_revert = seqE popCheckpoint (\<lambda>c. ret (cp_root c))"

definition cd_shallowCopy :: "'c option \<Rightarrow> 'c checkpoint_db \<Rightarrow> 'c checkpoint_db" where
  "cd_shallowCopy emptyCache s = newCheckpointDB (cd_db s) (cd_bytes s) emptyCache"

section \<open>What a client reads\<close>

type_synonym db_view = "string \<Rightarrow> bytes option"

definition base_view :: "noble \<Rightarrow> map_db \<Rightarrow> db_view" where
  "base_view N db k = (case map_of db k of None \<Rightarrow> None
     | Some x \<Rightarrow> (case readForm N x of Inl _ \<Rightarrow> None | Inr b \<Rightarrow> Some b))"

fun overlaid :: "db_view \<Rightarrow> checkpoint_level list \<Rightarrow> db_view" where
  "overlaid base [] = base"
| "overlaid base (c # cs) = (\<lambda>k. case map_of (cp_keyValueMap c) k of
     Some v \<Rightarrow> v | None \<Rightarrow> overlaid base cs k)"

fun outer_views :: "db_view \<Rightarrow> checkpoint_level list \<Rightarrow> (db_view \<times> bytes) list" where
  "outer_views base [] = []"
| "outer_views base (c # cs) = (overlaid base cs, cp_root c) # outer_views base cs"

definition cd_view :: "noble \<Rightarrow> 'c checkpoint_db \<Rightarrow> db_view" where
  "cd_view N s = overlaid (base_view N (cd_db s)) (rev (cd_checkpoints s))"

definition cd_saved :: "noble \<Rightarrow> 'c checkpoint_db \<Rightarrow> (db_view \<times> bytes) list" where
  "cd_saved N s = outer_views (base_view N (cd_db s)) (rev (cd_checkpoints s))"

text \<open>No cache, hexadecimal keys, each key of a map once, values that read back.\<close>

definition hex_keys :: "(string \<times> 'v) list \<Rightarrow> bool" where
  "hex_keys m \<longleftrightarrow> distinct (map fst m) \<and> fst ` set m \<subseteq> range bytes_hex"

definition cd_inv :: "noble \<Rightarrow> 'c checkpoint_db \<Rightarrow> bool" where
  "cd_inv N s \<longleftrightarrow> cd_cache s = None \<and> (\<forall>c \<in> set (cd_checkpoints s). hex_keys (cp_keyValueMap c)) \<and>
     (\<forall>v \<in> snd ` set (cd_db s). \<exists>b. readForm N v = Inr b)"

lemma keys_obj_set: "fst ` set (obj_set k v m) = insert k (fst ` set m)"
  by (induction m) force+

lemma distinct_obj_set: "distinct (map fst m) \<Longrightarrow> distinct (map fst (obj_set k v m))"
  by (induction m) (auto simp: keys_obj_set)

lemma hex_keys_set: "hex_keys m \<Longrightarrow> hex_keys (obj_set (bytes_hex k) v m)"
  using distinct_obj_set [of m "bytes_hex k" v] by (auto simp: hex_keys_def keys_obj_set)

lemma map_of_mergeInto: "distinct (map fst es) \<Longrightarrow>
    map_of (mergeInto es m) k = (case map_of es k of None \<Rightarrow> map_of m k | Some v \<Rightarrow> Some v)"
  unfolding mergeInto_def
proof (induction es arbitrary: m)
  case (Cons e es)
  obtain a b where e: "e = (a, b)" by (cases e)
  have "map_of es a = None" using Cons.prems e by (simp add: map_of_eq_None_iff)
  then show ?case using Cons.IH [of "obj_set a b m"] Cons.prems e by (cases "k = a") (simp_all split: option.split)
qed simp

lemma hex_keys_merge: "hex_keys es \<Longrightarrow> hex_keys m \<Longrightarrow> hex_keys (mergeInto es m)"
  unfolding mergeInto_def
proof (induction es arbitrary: m)
  case (Cons e es)
  obtain k v where e: "e = (bytes_hex k, v)" using Cons.prems(1) by (cases e) (auto simp: hex_keys_def)
  then show ?case using Cons.IH [of "obj_set (bytes_hex k) v m"] Cons.prems hex_keys_set [of m k v]
    by (simp add: hex_keys_def)
qed simp

lemma set_obj_set: "x \<in> snd ` set (obj_set k v m) \<Longrightarrow> x = v \<or> x \<in> snd ` set m"
  by (induction m) (force split: if_splits)+

lemma set_mapdb_batch: "x \<in> snd ` set (mapdb_batch ops db) \<Longrightarrow> Some x \<in> snd ` set ops \<or> x \<in> snd ` set db"
proof (induction ops db rule: mapdb_batch.induct)
  case (2 key ops db)
  then show ?case by (fastforce simp: mapdb_del_def obj_delete_def)
next
  case (3 key v ops db)
  then show ?case using set_obj_set [of x key v db] by (auto simp: mapdb_put_def)
qed simp

lemma overlaid_findEntry: "overlaid base cs k = (case findEntry k cs of Some v \<Rightarrow> v | None \<Rightarrow> base k)"
  by (induction cs) (auto split: option.splits)

lemma cache_unused: "cd_cache s = None \<Longrightarrow> cacheGet L k s = (Inr None, s)"
    "cd_cache s = None \<Longrightarrow> cacheSet L k v s = (Inr (), s)"
  by (cases s; simp add: cacheGet_def cacheSet_def)+

lemma rev_top: "cps \<noteq> [] \<Longrightarrow> rev cps = last cps # rev (butlast cps)"
  by (metis append_butlast_last_id rev_rev_ident rev.simps(2) rev_swap)

section \<open>The contract of the store\<close>

text \<open>What a batch of operations does to what a client reads.\<close>

type_synonym store_view = "bytes \<Rightarrow> bytes option"

fun apply_ops :: "bytes batch_op list \<Rightarrow> store_view \<Rightarrow> store_view" where
  "apply_ops [] w = w"
| "apply_ops (PutOp k v # ops) w = apply_ops ops (w(k \<mapsto> v))"
| "apply_ops (DelOp k # ops) w = apply_ops ops (w(k := None))"

text \<open>The methods a trie calls, and their laws. \<open>saved\<close> has what each open checkpoint restores.\<close>

record 'd node_db =
  nd_get :: "bytes \<Rightarrow> ('d, js_error, bytes option) eff"
  nd_put :: "bytes \<Rightarrow> bytes \<Rightarrow> ('d, js_error, unit) eff"
  nd_batch :: "bytes batch_op list \<Rightarrow> ('d, js_error, unit) eff"
  nd_hasCheckpoints :: "'d \<Rightarrow> bool"
  nd_checkpoint :: "bytes \<Rightarrow> ('d, js_error, unit) eff"
  nd_commit :: "('d, js_error, unit) eff"
  nd_revert :: "('d, js_error, bytes) eff"

locale node_store =
  fixes D :: "'d node_db" and inv :: "'d \<Rightarrow> bool" and view :: "'d \<Rightarrow> store_view"
    and saved :: "'d \<Rightarrow> (store_view \<times> bytes) list"
  assumes get_law: "inv d \<Longrightarrow> \<exists>d'. nd_get D k d = (Inr (view d k), d') \<and> inv d' \<and>
      view d' = view d \<and> saved d' = saved d"
    and put_law: "inv d \<Longrightarrow> \<exists>d'. nd_put D k v d = (Inr (), d') \<and> inv d' \<and>
      view d' = (view d)(k \<mapsto> v) \<and> saved d' = saved d"
    and batch_law: "inv d \<Longrightarrow> \<exists>d'. nd_batch D ops d = (Inr (), d') \<and> inv d' \<and>
      view d' = apply_ops ops (view d) \<and> saved d' = saved d"
    and open_law: "inv d \<Longrightarrow> nd_hasCheckpoints D d \<longleftrightarrow> saved d \<noteq> []"
    and checkpoint_law: "inv d \<Longrightarrow> \<exists>d'. nd_checkpoint D r d = (Inr (), d') \<and> inv d' \<and>
      view d' = view d \<and> saved d' = (view d, r) # saved d"
    and commit_law: "inv d \<Longrightarrow> saved d = vr # vrs \<Longrightarrow> \<exists>d'. nd_commit D d = (Inr (), d') \<and> inv d' \<and>
      view d' = view d \<and> saved d' = vrs"
    and revert_law: "inv d \<Longrightarrow> saved d = (w, r) # vrs \<Longrightarrow> \<exists>d'. nd_revert D d = (Inr r, d') \<and> inv d' \<and>
      view d' = w \<and> saved d' = vrs"

definition cd_node_db :: "noble \<Rightarrow> 'c lru_cache \<Rightarrow> 'c checkpoint_db node_db" where
  "cd_node_db N L = \<lparr>nd_get = cd_get N L, nd_put = cd_put N L, nd_batch = cd_batch N L,
     nd_hasCheckpoints = hasCheckpoints, nd_checkpoint = cd_checkpoint, nd_commit = cd_commit N L,
     nd_revert = cd_revert\<rparr>"

definition by_bytes :: "db_view \<Rightarrow> store_view" where
  "by_bytes w = (\<lambda>k. w (bytes_hex k))"

section \<open>The laws of CheckpointDB\<close>

context noble_hex begin

lemma readForm_storedForm [simp]: "readForm N (storedForm N vb v) = Inr v"
  by (simp add: readForm_def storedForm_def unprefixedHexToBytes_hex)

lemma convertOp_simps [simp]: "convertOp N vb (PutOp k v) = (bytes_hex k, Some (storedForm N vb v))"
    "convertOp N vb (DelOp k) = (bytes_hex k, None)"
  by (simp_all add: convertOp_def)

lemma flushOps_hex: "hex_keys es \<Longrightarrow> \<exists>ops. flushOps N es = Inr ops \<and>
    (\<forall>vb. map (convertOp N vb) ops = map (\<lambda>(k, v). (k, map_option (storedForm N vb) v)) es)"
proof (induction es)
  case (Cons e es)
  obtain k v where e: "e = (bytes_hex k, v)" using Cons.prems by (cases e) (auto simp: hex_keys_def)
  obtain ops where ops: "flushOps N es = Inr ops"
    "\<forall>vb. map (convertOp N vb) ops = map (\<lambda>(k, v). (k, map_option (storedForm N vb) v)) es"
    using Cons by (auto simp: hex_keys_def)
  then show ?case by (cases v) (simp_all add: e unprefixedHexToBytes_hex)
qed simp

lemma base_view_put: "base_view N (obj_set k (storedForm N vb v) db) = (base_view N db)(k \<mapsto> v)"
  by (auto simp: base_view_def fun_eq_iff)

lemma base_view_del: "base_view N (obj_delete k db) = (base_view N db)(k := None)"
  by (auto simp: base_view_def fun_eq_iff)

lemma base_view_batch: "distinct (map fst es) \<Longrightarrow>
    base_view N (mapdb_batch (map (\<lambda>(k, v). (k, map_option (storedForm N vb) v)) es) db) =
      (\<lambda>k. case map_of es k of Some v \<Rightarrow> v | None \<Rightarrow> base_view N db k)"
proof (induction es arbitrary: db)
  case (Cons e es)
  obtain a b where e: "e = (a, b)" by (cases e)
  have "map_of es a = None" using Cons.prems e by (simp add: map_of_eq_None_iff)
  then show ?case using Cons e
    by (cases b) (auto simp: mapdb_put_def mapdb_del_def base_view_put base_view_del fun_eq_iff split: option.split)
qed simp

lemma setTopEntry_law:
  assumes "cd_inv N s" and "hasCheckpoints s"
  shows "\<exists>s'. setTopEntry (bytes_hex key) v s = (Inr (), s') \<and> cd_inv N s' \<and> hasCheckpoints s' \<and>
    cd_view N s' = (cd_view N s)(bytes_hex key := v) \<and> cd_saved N s' = cd_saved N s"
proof -
  have ne: "cd_checkpoints s \<noteq> []" using assms(2) by (simp add: hasCheckpoints_def)
  have "hex_keys (cp_keyValueMap (last (cd_checkpoints s)))" using assms(1) ne by (simp add: cd_inv_def)
  note hex_keys_set [OF this, of key v]
  moreover have "\<forall>c \<in> set (butlast (cd_checkpoints s)). hex_keys (cp_keyValueMap c)"
    using assms(1) by (auto simp: cd_inv_def dest: in_set_butlastD)
  ultimately show ?thesis using assms(1)
    by (auto simp: setTopEntry_def cd_inv_def hasCheckpoints_def cd_view_def cd_saved_def rev_top [OF ne] fun_eq_iff)
qed

lemma cd_get_law:
  assumes "cd_inv N s"
  shows "\<exists>s'. cd_get N L key s = (Inr (cd_view N s (bytes_hex key)), s') \<and> cd_inv N s' \<and>
    cd_view N s' = cd_view N s \<and> cd_saved N s' = cd_saved N s"
proof -
  let ?k = "bytes_hex key" and ?cs = "rev (cd_checkpoints s)"
  note cache = cache_unused [where s = s, OF conjunct1 [OF assms [unfolded cd_inv_def]]]
  show ?thesis
  proof (cases "findEntry ?k ?cs")
    case (Some v)
    then show ?thesis using assms cache
      by (auto simp: cd_get_def Let_def seqE_run cd_view_def overlaid_findEntry)
  next
    case None
    let ?v = "base_view N (cd_db s) ?k"
    have v: "cd_view N s ?k = ?v" using None by (simp add: cd_view_def overlaid_findEntry)
    have r: "(case mapdb_get ?k (cd_db s) of None \<Rightarrow> Inr None
        | Some x \<Rightarrow> and_then (readForm N x) (\<lambda>b. Inr (Some b))) = Inr ?v"
    proof (cases "map_of (cd_db s) ?k")
      case (Some x)
      then have "x \<in> snd ` set (cd_db s)" by (force dest: map_of_SomeD)
      then obtain b where "readForm N x = Inr b" using assms by (auto simp: cd_inv_def)
      then show ?thesis using Some by (simp add: mapdb_get_def base_view_def)
    qed (simp add: mapdb_get_def base_view_def)
    have run: "cd_get N L key s = (if hasCheckpoints s then (Inr ?v, snd (setTopEntry ?k ?v s)) else (Inr ?v, s))"
      using None cache r by (simp add: cd_get_def Let_def seqE_run whenE_run setTopEntry_def)
    show ?thesis
    proof (cases "hasCheckpoints s")
      case True
      then show ?thesis using setTopEntry_law [OF assms True, of key ?v] run v by fastforce
    qed (use assms run v in simp)
  qed
qed

lemma cd_put_law:
  assumes "cd_inv N s"
  shows "\<exists>s'. cd_put N L key v s = (Inr (), s') \<and> cd_inv N s' \<and> hasCheckpoints s' = hasCheckpoints s \<and>
    cd_view N s' = (cd_view N s)(bytes_hex key \<mapsto> v) \<and> cd_saved N s' = cd_saved N s"
proof (cases "hasCheckpoints s")
  case True
  then show ?thesis using setTopEntry_law [OF assms True, of key "Some v"] by (auto simp: cd_put_def Let_def seqE_run)
next
  case False
  let ?s = "s\<lparr>cd_db := obj_set (bytes_hex key) (storedForm N (cd_bytes s) v) (cd_db s)\<rparr>"
  have "cd_put N L key v s = (Inr (), ?s)"
    using False assms by (simp add: cd_put_def Let_def seqE_run mapdb_put_def cache_unused cd_inv_def)
  moreover have "cd_inv N ?s"
    using assms by (auto simp: cd_inv_def dest!: set_obj_set [OF image_eqI, OF refl])
  ultimately show ?thesis using False
    by (simp add: cd_view_def cd_saved_def hasCheckpoints_def base_view_put)
qed

lemma cd_del_law:
  assumes "cd_inv N s"
  shows "\<exists>s'. cd_del N L key s = (Inr (), s') \<and> cd_inv N s' \<and> hasCheckpoints s' = hasCheckpoints s \<and>
    cd_view N s' = (cd_view N s)(bytes_hex key := None) \<and> cd_saved N s' = cd_saved N s"
proof (cases "hasCheckpoints s")
  case True
  then show ?thesis using setTopEntry_law [OF assms True, of key None] by (auto simp: cd_del_def Let_def seqE_run)
next
  case False
  let ?s = "s\<lparr>cd_db := obj_delete (bytes_hex key) (cd_db s)\<rparr>"
  have "cd_del N L key s = (Inr (), ?s)"
    using False assms by (simp add: cd_del_def Let_def seqE_run mapdb_del_def cache_unused cd_inv_def)
  moreover have "cd_inv N ?s" using assms by (auto simp: cd_inv_def obj_delete_def)
  ultimately show ?thesis using False
    by (simp add: cd_view_def cd_saved_def hasCheckpoints_def base_view_del)
qed

lemma hex_text_inj [simp]: "bytes_hex a = bytes_hex b \<longleftrightarrow> a = b"
  using hexToBytesNoble_hex [of a] hexToBytesNoble_hex [of b] by (metis Inr_inject)

lemma by_bytes_upd: "by_bytes (w(bytes_hex k := v)) = (by_bytes w)(k := v)"
  by (auto simp: by_bytes_def fun_eq_iff)

lemma cd_batch_open:
  assumes "cd_inv N s"
  shows "\<exists>s'. forE ops (\<lambda>op'. case op' of PutOp key v \<Rightarrow> cd_put N L key v | DelOp key \<Rightarrow> cd_del N L key) s = (Inr (), s') \<and>
    cd_inv N s' \<and> by_bytes (cd_view N s') = apply_ops ops (by_bytes (cd_view N s)) \<and> cd_saved N s' = cd_saved N s"
  using assms
proof (induction ops arbitrary: s)
  case (Cons op' ops)
  obtain s1 where s1: "(case op' of PutOp key v \<Rightarrow> cd_put N L key v | DelOp key \<Rightarrow> cd_del N L key) s = (Inr (), s1)"
    "cd_inv N s1" "by_bytes (cd_view N s1) = apply_ops [op'] (by_bytes (cd_view N s))" "cd_saved N s1 = cd_saved N s"
  proof (cases op')
    case (PutOp k v)
    then show ?thesis using cd_put_law [OF Cons.prems, of L k v] that by (auto simp: by_bytes_upd)
  next
    case (DelOp k)
    then show ?thesis using cd_del_law [OF Cons.prems, of L k] that by (auto simp: by_bytes_upd)
  qed
  moreover have "apply_ops (op' # ops) w = apply_ops ops (apply_ops [op'] w)" for w by (cases op') simp_all
  ultimately show ?case using Cons.IH [OF s1(2)] by simp
qed simp

lemma cd_batch_closed:
  "by_bytes (base_view N (mapdb_batch (map (convertOp N vb) ops) db)) = apply_ops ops (by_bytes (base_view N db))"
proof (induction ops arbitrary: db)
  case (Cons op' ops)
  then show ?case by (cases op')
    (simp_all add: mapdb_put_def mapdb_del_def base_view_put base_view_del by_bytes_upd del: fun_upd_apply)
qed simp

lemma cd_inv_batch:
  assumes "cd_inv N s" and "\<And>x. Some x \<in> snd ` set ops \<Longrightarrow> \<exists>b. readForm N x = Inr b"
  shows "cd_inv N (s\<lparr>cd_db := mapdb_batch ops (cd_db s)\<rparr>)"
  using assms set_mapdb_batch [of _ ops "cd_db s"] by (fastforce simp: cd_inv_def)

lemma cd_inv_converted: "cd_inv N s \<Longrightarrow>
    cd_inv N (s\<lparr>cd_db := mapdb_batch (map (convertOp N vb) ops) (cd_db s)\<rparr>)"
  by (rule cd_inv_batch) (auto simp: convertOp_def split: batch_op.splits)

lemma cd_batch_law:
  assumes "cd_inv N s"
  shows "\<exists>s'. cd_batch N L ops s = (Inr (), s') \<and> cd_inv N s' \<and>
    by_bytes (cd_view N s') = apply_ops ops (by_bytes (cd_view N s)) \<and> cd_saved N s' = cd_saved N s"
proof (cases "hasCheckpoints s")
  case True
  then show ?thesis using cd_batch_open [OF assms, of ops L] by (simp add: cd_batch_def seqE_run)
next
  case False
  let ?ops = "map (convertOp N (cd_bytes s)) ops"
  have "cd_inv N (s\<lparr>cd_db := mapdb_batch ?ops (cd_db s)\<rparr>)"
    by (rule cd_inv_converted [OF assms])
  moreover have "cd_checkpoints s = []" using False by (simp add: hasCheckpoints_def)
  ultimately show ?thesis using False
    by (simp add: cd_batch_def seqE_run cd_view_def cd_saved_def cd_batch_closed)
qed

lemma cd_commit_law:
  assumes "cd_inv N s" and "cd_saved N s = vr # vrs"
  shows "\<exists>s'. cd_commit N L s = (Inr (), s') \<and> cd_inv N s' \<and> cd_view N s' = cd_view N s \<and> cd_saved N s' = vrs"
proof -
  let ?cps = "cd_checkpoints s" and ?s1 = "s\<lparr>cd_checkpoints := butlast (cd_checkpoints s)\<rparr>"
  have ne: "?cps \<noteq> []" using assms(2) by (auto simp: cd_saved_def)
  let ?c = "last ?cps"
  have pop: "popCheckpoint s = (Inr ?c, ?s1)" using ne by (simp add: popCheckpoint_def seqE_run)
  have keys: "hex_keys (cp_keyValueMap ?c)" using assms(1) ne by (simp add: cd_inv_def)
  have inv1: "cd_inv N ?s1" using assms(1) by (auto simp: cd_inv_def dest: in_set_butlastD)
  have vrs: "vrs = cd_saved N ?s1" using assms(2) by (simp add: cd_saved_def rev_top [OF ne])
  show ?thesis
  proof (cases "hasCheckpoints ?s1")
    case False
    then have b: "butlast ?cps = []" by (cases "?cps" rule: rev_cases) (simp_all add: hasCheckpoints_def)
    obtain ops where ops: "flushOps N (cp_keyValueMap ?c) = Inr ops"
      "map (convertOp N (cd_bytes s)) ops = map (\<lambda>(k, v). (k, map_option (storedForm N (cd_bytes s)) v)) (cp_keyValueMap ?c)"
      using flushOps_hex [OF keys] by blast
    let ?s2 = "?s1\<lparr>cd_db := mapdb_batch (map (convertOp N (cd_bytes s)) ops) (cd_db s)\<rparr>"
    have "cd_commit N L s = (Inr (), ?s2)"
      using False pop ops(1) by (simp add: cd_commit_def seqE_run cd_batch_def)
    moreover have "cd_inv N ?s2"
      using cd_inv_converted [OF inv1, of "cd_bytes s" ops] by simp
    moreover have "distinct (map fst (cp_keyValueMap ?c))" using keys by (simp add: hex_keys_def)
    then have "cd_view N ?s2 = cd_view N s"
      by (auto simp: cd_view_def ops(2) base_view_batch rev_top [OF ne] b fun_eq_iff split: option.split)
    ultimately show ?thesis using vrs b by (auto simp: cd_saved_def)
  next
    case True
    then have b: "butlast ?cps \<noteq> []" by (cases "?cps" rule: rev_cases) (simp_all add: hasCheckpoints_def)
    let ?p = "last (butlast ?cps)"
    let ?m = "?p\<lparr>cp_keyValueMap := mergeInto (cp_keyValueMap ?c) (cp_keyValueMap ?p)\<rparr>"
    let ?s2 = "?s1\<lparr>cd_checkpoints := butlast (butlast ?cps) @ [?m]\<rparr>"
    have "cd_commit N L s = (Inr (), ?s2)" using True pop by (simp add: cd_commit_def seqE_run)
    moreover have "hex_keys (cp_keyValueMap ?p)" using inv1 b by (simp add: cd_inv_def)
    then have "cd_inv N ?s2" using inv1 hex_keys_merge [OF keys] by (auto simp: cd_inv_def dest: in_set_butlastD)
    moreover have "cd_view N ?s2 = cd_view N s"
      using keys by (auto simp: cd_view_def rev_top [OF ne] rev_top [OF b] fun_eq_iff map_of_mergeInto hex_keys_def split: option.split)
    moreover have "cd_saved N ?s2 = vrs" by (simp add: vrs cd_saved_def rev_top [OF b])
    ultimately show ?thesis by blast
  qed
qed

lemma cd_revert_law:
  assumes "cd_inv N s" and "cd_saved N s = (w, r) # vrs"
  shows "\<exists>s'. cd_revert s = (Inr r, s') \<and> cd_inv N s' \<and> cd_view N s' = w \<and> cd_saved N s' = vrs"
proof -
  have ne: "cd_checkpoints s \<noteq> []" using assms(2) by (auto simp: cd_saved_def)
  then show ?thesis using assms
    by (auto simp: cd_revert_def popCheckpoint_def seqE_run cd_inv_def cd_view_def cd_saved_def rev_top [OF ne]
        dest: in_set_butlastD)
qed

lemma cd_checkpoint_law:
  "cd_inv N s \<Longrightarrow> \<exists>s'. cd_checkpoint r s = (Inr (), s') \<and> cd_inv N s' \<and> cd_view N s' = cd_view N s \<and>
    cd_saved N s' = (cd_view N s, r) # cd_saved N s"
  by (simp add: cd_checkpoint_def cd_inv_def cd_view_def cd_saved_def hex_keys_def)

end

text \<open>What a trie reads of \<open>CheckpointDB\<close>, by the bytes of the key.\<close>

definition cd_store_view :: "noble \<Rightarrow> 'c checkpoint_db \<Rightarrow> store_view" where
  "cd_store_view N s = by_bytes (cd_view N s)"

definition cd_store_saved :: "noble \<Rightarrow> 'c checkpoint_db \<Rightarrow> (store_view \<times> bytes) list" where
  "cd_store_saved N s = map (\<lambda>(w, r). (by_bytes w, r)) (cd_saved N s)"

lemma cd_node_store:
  assumes "noble_hex N"
  shows "node_store (cd_node_db N L) (cd_inv N) (cd_store_view N) (cd_store_saved N)"
proof unfold_locales
  note laws = noble_hex.cd_get_law [OF assms] noble_hex.cd_put_law [OF assms] noble_hex.cd_batch_law [OF assms]
    noble_hex.cd_checkpoint_law [OF assms] noble_hex.cd_commit_law [OF assms] noble_hex.cd_revert_law [OF assms]
  fix d :: "'a checkpoint_db" assume inv: "cd_inv N d"
  show "\<exists>d'. nd_get (cd_node_db N L) k d = (Inr (cd_store_view N d k), d') \<and> cd_inv N d' \<and>
      cd_store_view N d' = cd_store_view N d \<and> cd_store_saved N d' = cd_store_saved N d" for k
    using laws(1) [OF inv, of L k] by (auto simp: cd_node_db_def cd_store_view_def cd_store_saved_def by_bytes_def)
  show "\<exists>d'. nd_put (cd_node_db N L) k v d = (Inr (), d') \<and> cd_inv N d' \<and>
      cd_store_view N d' = (cd_store_view N d)(k \<mapsto> v) \<and> cd_store_saved N d' = cd_store_saved N d" for k v
    using laws(2) [OF inv, of L k v]
    by (auto simp: cd_node_db_def cd_store_view_def cd_store_saved_def noble_hex.by_bytes_upd [OF assms])
  show "\<exists>d'. nd_batch (cd_node_db N L) ops d = (Inr (), d') \<and> cd_inv N d' \<and>
      cd_store_view N d' = apply_ops ops (cd_store_view N d) \<and> cd_store_saved N d' = cd_store_saved N d" for ops
    using laws(3) [OF inv, of L ops] by (auto simp: cd_node_db_def cd_store_view_def cd_store_saved_def)
  show "nd_hasCheckpoints (cd_node_db N L) d \<longleftrightarrow> cd_store_saved N d \<noteq> []"
    by (cases "cd_checkpoints d" rule: rev_cases)
      (auto simp: cd_node_db_def hasCheckpoints_def cd_store_saved_def cd_saved_def)
  show "\<exists>d'. nd_checkpoint (cd_node_db N L) r d = (Inr (), d') \<and> cd_inv N d' \<and>
      cd_store_view N d' = cd_store_view N d \<and> cd_store_saved N d' = (cd_store_view N d, r) # cd_store_saved N d" for r
    using laws(4) [OF inv, of r] by (auto simp: cd_node_db_def cd_store_view_def cd_store_saved_def)
  show "\<exists>d'. nd_commit (cd_node_db N L) d = (Inr (), d') \<and> cd_inv N d' \<and>
      cd_store_view N d' = cd_store_view N d \<and> cd_store_saved N d' = vrs" if "cd_store_saved N d = vr # vrs" for vr vrs
    using laws(5) [OF inv, of _ _ L] that by (fastforce simp: cd_node_db_def cd_store_view_def cd_store_saved_def map_eq_Cons_conv)
  show "\<exists>d'. nd_revert (cd_node_db N L) d = (Inr r, d') \<and> cd_inv N d' \<and>
      cd_store_view N d' = w \<and> cd_store_saved N d' = vrs" if "cd_store_saved N d = (w, r) # vrs" for w r vrs
    using laws(6) [OF inv] that by (fastforce simp: cd_node_db_def cd_store_view_def cd_store_saved_def map_eq_Cons_conv)
qed

interpretation cdb: node_store "cd_node_db rlp_noble L" "cd_inv rlp_noble" "cd_store_view rlp_noble"
    "cd_store_saved rlp_noble" for L :: "'c lru_cache"
  by (rule cd_node_store [OF rlp_hex.noble_hex_axioms])

end
