(* ===== verification/Mpt.thy ===== *)
theory Mpt
  imports MptNode CheckpointDb
begin

text \<open>
  \<open>MerklePatriciaTrie\<close> of \<^verbatim>\<open>packages/mpt/src/mpt.ts\<close>, over any database that offers the
  methods of a \<open>node_db\<close>. The state is the root hash and the database; the options are fixed.
  A stack of nodes is a list whose last element is the top. A walk of the database could in
  principle go round in a circle (through references that hash to their own origin, or extensions
  with an empty path), so it counts its steps down from \<open>mo_walkSteps\<close> and ends in \<open>WalkBound\<close>
  when they run out. Locks, debug output and the optional \<open>partialPath\<close> of \<open>findPath\<close> are left
  out. The walk visits one node at a time here, as the task queue does when a key is followed.
\<close>

section \<open>Options, state and errors\<close>

record mpt_opts =
  mo_hash :: "bytes \<Rightarrow> bytes"
  mo_useKeyHashing :: bool
  mo_keyPrefix :: "bytes option"
  mo_useRootPersistence :: bool
  mo_useNodePruning :: bool
  mo_walkSteps :: nat

record 'd mpt =
  mpt_root :: bytes
  mpt_db :: 'd

datatype mpt_error = Thrown js_error | WalkBound

type_synonym ('d, 'a) mpt_op = "('d mpt, mpt_error, 'a) eff"

fun thrown :: "'a res \<Rightarrow> mpt_error + 'a" where
  "thrown (Inl e) = Inl (Thrown e)"
| "thrown (Inr x) = Inr x"

definition resM :: "'a res \<Rightarrow> ('d, 'a) mpt_op" where
  "resM r = resE (thrown r)"

definition throwM :: "string \<Rightarrow> ('d, 'a) mpt_op" where
  "throwM msg = raise (Thrown (EthereumJSError msg))"

definition dbM :: "('d, js_error, 'a) eff \<Rightarrow> ('d, 'a) mpt_op" where
  "dbM m = (\<lambda>s. case m (mpt_db s) of (r, d) \<Rightarrow> (thrown r, s\<lparr>mpt_db := d\<rparr>))"

definition tryM :: "('d, 'a) mpt_op \<Rightarrow> ('d, mpt_error + 'a) mpt_op" where
  "tryM m = (\<lambda>s. case m s of (r, s') \<Rightarrow> (Inr r, s'))"

definition missingNode :: mpt_error where
  "missingNode = Thrown (EthereumJSError ''Missing node in DB'')"

definition ROOT_DB_KEY :: bytes where
  "ROOT_DB_KEY = [0x5f, 0x5f, 0x72, 0x6f, 0x6f, 0x74, 0x5f, 0x5f]"

section \<open>The root and the keys of the database\<close>

definition EMPTY_TRIE_ROOT :: "mpt_opts \<Rightarrow> bytes" where
  "EMPTY_TRIE_ROOT opts = mo_hash opts [0x80]"

definition newMPT :: "mpt_opts \<Rightarrow> 'd \<Rightarrow> 'd mpt" where
  "newMPT opts d = \<lparr>mpt_root = EMPTY_TRIE_ROOT opts, mpt_db = d\<rparr>"

definition setRoot :: "mpt_opts \<Rightarrow> bytes \<Rightarrow> ('d, unit) mpt_op" where
  "setRoot opts v =
     (if length v \<noteq> length (EMPTY_TRIE_ROOT opts) then throwM ''Invalid root length''
      else updE (\<lambda>s. s\<lparr>mpt_root := v\<rparr>))"

definition appliedKey :: "mpt_opts \<Rightarrow> bytes \<Rightarrow> bytes" where
  "appliedKey opts key = (if mo_useKeyHashing opts then mo_hash opts key else key)"

definition getDbKey :: "mpt_opts \<Rightarrow> bytes \<Rightarrow> bytes" where
  "getDbKey opts h = (case mo_keyPrefix opts of Some p \<Rightarrow> p @ h | None \<Rightarrow> h)"

definition persistRoot :: "mpt_opts \<Rightarrow> 'd node_db \<Rightarrow> ('d, unit) mpt_op" where
  "persistRoot opts D = whenE (mo_useRootPersistence opts) (seqE (getE mpt_root) (\<lambda>root.
     dbM (nd_put D (getDbKey opts (appliedKey opts ROOT_DB_KEY)) root)))"

section \<open>Finding a path\<close>

definition lookupNode :: "mpt_opts \<Rightarrow> 'd node_db \<Rightarrow> nested \<Rightarrow> ('d, mpt_node) mpt_op" where
  "lookupNode opts D ref = (case ref of
     NArray r \<Rightarrow> resM (decodeRawMPTNode r)
   | NBytes h \<Rightarrow> seqE (dbM (nd_get D (getDbKey opts h))) (\<lambda>v. case v of
       None \<Rightarrow> raise missingNode
     | Some enc \<Rightarrow> resM (decodeMPTNode enc)))"

text \<open>\<open>stack[i] = node\<close>; a store behind the end fills the gap with \<open>undefined\<close>.\<close>

definition js_store :: "nat \<Rightarrow> 'a \<Rightarrow> 'a option list \<Rightarrow> 'a option list" where
  "js_store i x xs = (if i < length xs then xs[i := Some x]
     else xs @ replicate (i - length xs) None @ [Some x])"

text \<open>The loops over \<open>node.key()\<close>: its nibbles are those of the key from \<open>p\<close> on.\<close>

definition keyMatches :: "nibbles \<Rightarrow> nat \<Rightarrow> nibbles \<Rightarrow> bool" where
  "keyMatches key p target = (take (length key) (drop p target) = key)"

record mpt_path =
  path_node :: "mpt_node option"
  path_remaining :: nibbles
  path_stack :: "mpt_node list"

type_synonym walk_end = "(mpt_error + mpt_node option \<times> nibbles) \<times> mpt_node option list"

fun followKey :: "mpt_opts \<Rightarrow> 'd node_db \<Rightarrow> nibbles \<Rightarrow> nat \<Rightarrow> nested \<Rightarrow> nat \<Rightarrow> mpt_node option list \<Rightarrow>
    ('d, walk_end) mpt_op" where
  "followKey opts D target 0 ref p stack = ret (Inl WalkBound, stack)"
| "followKey opts D target (Suc steps) ref p stack =
     seqE (tryM (lookupNode opts D ref)) (\<lambda>found. case found of
       Inl e \<Rightarrow> ret (Inl e, stack)
     | Inr node \<Rightarrow> (let stack' = js_store p node stack; away = ret (Inr (None, drop p target), stack') in
         case node of
           BranchNode bs v \<Rightarrow>
             if p = length target then ret (Inr (Some node, []), stack')
             else (case getBranch node (target ! p) of
                 None \<Rightarrow> away
               | Some child \<Rightarrow> followKey opts D target steps child (p + 1) stack')
         | LeafNode key v \<Rightarrow>
             if length target - p > length key \<or> \<not> keyMatches key p target then away
             else ret (Inr (Some node, []), stack')
         | ExtensionNode key v \<Rightarrow>
             if keyMatches key p target then followKey opts D target steps v (p + length key) stack'
             else away))"

definition findPath :: "mpt_opts \<Rightarrow> 'd node_db \<Rightarrow> bytes \<Rightarrow> bool \<Rightarrow> ('d, mpt_path) mpt_op" where
  "findPath opts D key throwIfMissing = (let target = bytesToNibbles key in
     seqE (getE mpt_root) (\<lambda>root.
     seqE (followKey opts D target (mo_walkSteps opts) (NBytes root) 0 (replicate (length target) None))
       (\<lambda>(outcome, stack). case outcome of
         Inl e \<Rightarrow> if e \<noteq> missingNode \<or> throwIfMissing then raise e
           else ret \<lparr>path_node = None, path_remaining = [], path_stack = [n. Some n \<leftarrow> stack]\<rparr>
       | Inr (node, rest) \<Rightarrow>
           ret \<lparr>path_node = node, path_remaining = rest, path_stack = [n. Some n \<leftarrow> stack]\<rparr>)))"

definition mpt_get :: "mpt_opts \<Rightarrow> 'd node_db \<Rightarrow> bytes \<Rightarrow> bool \<Rightarrow> ('d, nested option) mpt_op" where
  "mpt_get opts D key throwIfMissing =
     seqE (findPath opts D (appliedKey opts key) throwIfMissing) (\<lambda>path.
       case path_node path of
         Some node \<Rightarrow> ret (if path_remaining path = [] then nodeValue node else None)
       | None \<Rightarrow> ret None)"

definition checkRoot :: "mpt_opts \<Rightarrow> 'd node_db \<Rightarrow> bytes \<Rightarrow> ('d, bool) mpt_op" where
  "checkRoot opts D root = seqE (tryM (lookupNode opts D (NBytes root))) (\<lambda>r. case r of
     Inr node \<Rightarrow> ret True
   | Inl e \<Rightarrow> if e = missingNode then ret (root = EMPTY_TRIE_ROOT opts) else raise e)"

section \<open>Saving nodes\<close>

type_synonym db_ops = "bytes batch_op list"

definition formatNode :: "mpt_opts \<Rightarrow> mpt_node \<Rightarrow> bool \<Rightarrow> bool \<Rightarrow> db_ops \<Rightarrow> (nested \<times> db_ops) res" where
  "formatNode opts node topLevel remove ops = and_then (serialize node) (\<lambda>enc.
     if length enc \<ge> 32 \<or> topLevel then
       (let h = mo_hash opts enc; dbKey = getDbKey opts h in
        Inr (NBytes h,
          if remove then (if mo_useNodePruning opts then ops @ [DelOp dbKey] else ops)
          else ops @ [PutOp dbKey enc]))
     else Inr (raw node, ops))"

text \<open>
  \<open>xs.splice(xs.length - n)\<close> cuts the last \<open>n\<close> elements; a negative start counts from the end.
  \<open>node.setBranch(nibbles.pop(), ref)\<close> of an empty path writes no slot of the branch.
\<close>

definition cutEnd :: "nat \<Rightarrow> 'a list \<Rightarrow> 'a list" where
  "cutEnd n xs = (if n \<le> length xs then take (length xs - n) xs else take (2 * length xs - n) xs)"

definition setPopped :: "nibbles \<Rightarrow> nested \<Rightarrow> mpt_node \<Rightarrow> mpt_node" where
  "setPopped nib ref node = (if nib = [] then node else setBranch (last nib) ref node)"

definition isBranch :: "mpt_node \<Rightarrow> bool" where
  "isBranch n = (case n of BranchNode _ _ \<Rightarrow> True | _ \<Rightarrow> False)"

definition isLeaf :: "mpt_node \<Rightarrow> bool" where
  "isLeaf n = (case n of LeafNode _ _ \<Rightarrow> True | _ \<Rightarrow> False)"

text \<open>The body of the loop of \<open>saveStack\<close>, and the loop, which takes the top of the stack first.\<close>

fun wireChild :: "nibbles \<Rightarrow> mpt_node \<Rightarrow> nested option \<Rightarrow> mpt_node \<times> nibbles" where
  "wireChild nib (LeafNode key v) child = (LeafNode key v, cutEnd (length key) nib)"
| "wireChild nib (ExtensionNode key v) child = (setValue child (ExtensionNode key v), cutEnd (length key) nib)"
| "wireChild nib (BranchNode bs v) None = (BranchNode bs v, nib)"
| "wireChild nib (BranchNode bs v) (Some ref) = (setPopped nib ref (BranchNode bs v), butlast nib)"

fun saveLoop :: "mpt_opts \<Rightarrow> nibbles \<Rightarrow> mpt_node list \<Rightarrow> nested option \<Rightarrow> db_ops \<Rightarrow>
    (nested option \<times> db_ops) res" where
  "saveLoop opts nib [] child ops = Inr (child, ops)"
| "saveLoop opts nib (node # below) child ops = (case wireChild nib node child of (node', nib') \<Rightarrow>
     and_then (formatNode opts node' (below = []) False ops) (\<lambda>(ref, ops').
       saveLoop opts nib' below (Some ref) ops'))"

definition saveStack :: "mpt_opts \<Rightarrow> 'd node_db \<Rightarrow> nibbles \<Rightarrow> mpt_node list \<Rightarrow> db_ops \<Rightarrow> ('d, unit) mpt_op" where
  "saveStack opts D nib stack opStack =
     seqE (resM (saveLoop opts nib (rev stack) None opStack)) (\<lambda>(child, ops).
     seqE (case child of None \<Rightarrow> ret () | Some (NBytes h) \<Rightarrow> setRoot opts h
         | Some (NArray r) \<Rightarrow> throwM ''Invalid root length'') (\<lambda>_.
     seqE (dbM (nd_batch D ops)) (\<lambda>_. persistRoot opts D)))"

definition createInitialNode :: "mpt_opts \<Rightarrow> 'd node_db \<Rightarrow> bytes \<Rightarrow> bytes \<Rightarrow> ('d, unit) mpt_op" where
  "createInitialNode opts D key v =
     seqE (resM (serialize (LeafNode (bytesToNibbles key) (NBytes v)))) (\<lambda>enc.
     seqE (setRoot opts (mo_hash opts enc)) (\<lambda>_.
     seqE (getE mpt_root) (\<lambda>root.
     seqE (dbM (nd_put D (getDbKey opts root) enc)) (\<lambda>_. persistRoot opts D))))"

section \<open>Updating\<close>

definition nodeSteps :: "mpt_node \<Rightarrow> nat" where
  "nodeSteps n = (if isBranch n then 1 else length (nodeKey n))"

definition isMatchingLeafUpdate :: "mpt_node \<Rightarrow> mpt_node list \<Rightarrow> nibbles \<Rightarrow> nibbles \<Rightarrow> bool" where
  "isMatchingLeafUpdate lastNode stack full rest =
     (isLeaf lastNode \<and> rest = [] \<and>
      matchingNibbleLength (nodeKey lastNode) (drop (sum_list (map nodeSteps stack)) full) = length (nodeKey lastNode))"

text \<open>The three cases: the new stack and the operations so far.\<close>

definition addToBranch :: "nibbles \<Rightarrow> bytes \<Rightarrow> mpt_node list \<Rightarrow> mpt_node \<Rightarrow> mpt_node list" where
  "addToBranch rest v stack branch =
     (if rest \<noteq> [] then stack @ [branch, LeafNode (tl rest) (NBytes v)]
      else stack @ [setValue (Some (NBytes v)) branch])"

definition splitNode :: "mpt_opts \<Rightarrow> nibbles \<Rightarrow> bytes \<Rightarrow> mpt_node list \<Rightarrow> mpt_node \<Rightarrow> (mpt_node list \<times> db_ops) res" where
  "splitNode opts rest v stack lastNode =
     (let m = matchingNibbleLength (nodeKey lastNode) rest;
          stack1 = (if m \<noteq> 0 then stack @ [ExtensionNode (take m (nodeKey lastNode)) (NBytes v)] else stack);
          lastKey = drop m (nodeKey lastNode); rest1 = drop m rest in
      and_then
        (case lastKey of
           [] \<Rightarrow> Inr (setValue (nodeValue lastNode) newBranch, [])
         | i # lastKey1 \<Rightarrow>
             if lastKey1 \<noteq> [] \<or> isLeaf lastNode then
               and_then (formatNode opts (setKey lastKey1 lastNode) False False []) (\<lambda>(ref, ops).
                 Inr (setBranch i ref newBranch, ops))
             else
               and_then (formatNode opts lastNode False True []) (\<lambda>(_, ops).
                 Inr (case nodeValue lastNode of Some ref \<Rightarrow> setBranch i ref newBranch | None \<Rightarrow> newBranch, ops)))
        (\<lambda>(branch, ops). Inr (addToBranch rest1 v stack1 branch, ops)))"

definition updateNode :: "mpt_opts \<Rightarrow> 'd node_db \<Rightarrow> bytes \<Rightarrow> bytes \<Rightarrow> nibbles \<Rightarrow> mpt_node list \<Rightarrow> ('d, unit) mpt_op" where
  "updateNode opts D key v rest stack =
     (if stack = [] then throwM ''Stack underflow''
      else let lastNode = last stack; below = butlast stack; full = bytesToNibbles key in
        seqE (resM (
          if isMatchingLeafUpdate lastNode below full rest
            then Inr (below @ [setValue (Some (NBytes v)) lastNode], [])
          else if isBranch lastNode then Inr (addToBranch rest v below lastNode, [])
          else splitNode opts rest v below lastNode))
        (\<lambda>(stack', ops). saveStack opts D full stack' ops))"

fun createPruneDeleteOps :: "mpt_opts \<Rightarrow> mpt_node list \<Rightarrow> db_ops res" where
  "createPruneDeleteOps opts [] = Inr []"
| "createPruneDeleteOps opts (node # stack) = and_then (serialize node) (\<lambda>enc.
     and_then (createPruneDeleteOps opts stack) (\<lambda>ops.
       Inr (DelOp (getDbKey opts (mo_hash opts enc)) # ops)))"

section \<open>Deleting\<close>

text \<open>
  \<open>collapseBranchWithOneChild\<close>: the only child of a branch takes the place of the branch, its
  nibble joining the path of the child or of the extension above.
\<close>

fun collapseBranch :: "nibbles \<Rightarrow> nat \<Rightarrow> mpt_node \<Rightarrow> mpt_node option \<Rightarrow> mpt_node list \<Rightarrow> (nibbles \<times> mpt_node list) res" where
  "collapseBranch nib i child (Some (ExtensionNode key v)) stack =
     (if isBranch child then
        Inr (nib @ [i], stack @ [ExtensionNode (key @ [i]) v, child])
      else Inr (nib @ i # nodeKey child, stack @ [setKey (key @ i # nodeKey child) child]))"
| "collapseBranch nib i child (Some (LeafNode key v)) stack = Inl (EthereumJSError ''Expected extension node'')"
| "collapseBranch nib i child parent stack =
     (let stack1 = (case parent of Some p \<Rightarrow> stack @ [p] | None \<Rightarrow> stack) in
      if isBranch child then Inr (nib @ [i], stack1 @ [ExtensionNode [i] (NBytes []), child])
      else Inr (nib @ i # nodeKey child, stack1 @ [setKey (i # nodeKey child) child]))"

text \<open>
  Taking the value out: of a branch with \<open>value(null)\<close>, or a leaf out of the branch above it. The
  result is the path, the branch, what is above it on the stack, and the operations so far.
\<close>

fun removeLast :: "mpt_opts \<Rightarrow> nibbles \<Rightarrow> mpt_node \<Rightarrow> mpt_node list \<Rightarrow> (nibbles \<times> mpt_node \<times> mpt_node list \<times> db_ops) res" where
  "removeLast opts nib (BranchNode bs v) upper = Inr (nib, setValue None (BranchNode bs v), upper, [])"
| "removeLast opts nib lastNode upper =
     (if upper = [] \<or> \<not> isBranch (last upper) then Inl (EthereumJSError ''Expected branch node'')
      else let nib1 = cutEnd (length (nodeKey lastNode)) nib in
        and_then (formatNode opts lastNode False True []) (\<lambda>(_, ops).
          Inr (butlast nib1, setPopped nib1 (NBytes []) (last upper), butlast upper, ops)))"

definition deleteNode :: "mpt_opts \<Rightarrow> 'd node_db \<Rightarrow> bytes \<Rightarrow> mpt_node list \<Rightarrow> ('d, unit) mpt_op" where
  "deleteNode opts D key stack =
     (if stack = [] then throwM ''missing last node''
      else if butlast stack = [] then setRoot opts (EMPTY_TRIE_ROOT opts)
      else seqE (resM (removeLast opts (bytesToNibbles key) (last stack) (butlast stack)))
        (\<lambda>(nib, branch, upper, ops).
        case getChildren branch of
          [(i, ref)] \<Rightarrow>
            seqE (resM (if mo_useNodePruning opts then
                (case ref of
                   NArray r \<Rightarrow> and_then (encode (inputOf ref)) (\<lambda>enc.
                     Inr (ops @ [DelOp (getDbKey opts (mo_hash opts enc))]))
                 | NBytes h \<Rightarrow> Inr (ops @ [DelOp (getDbKey opts h)]))
              else Inr ops)) (\<lambda>ops'.
            seqE (lookupNode opts D ref) (\<lambda>child.
            seqE (resM (if upper = [] then collapseBranch nib i child None []
                else collapseBranch nib i child (Some (last upper)) (butlast upper))) (\<lambda>(nib', stack').
            saveStack opts D nib' stack' ops')))
        | _ \<Rightarrow> saveStack opts D nib (upper @ [branch]) ops))"

definition mpt_del :: "mpt_opts \<Rightarrow> 'd node_db \<Rightarrow> bytes \<Rightarrow> bool \<Rightarrow> ('d, unit) mpt_op" where
  "mpt_del opts D key skipKeyTransform =
     (let applied = (if skipKeyTransform then key else appliedKey opts key) in
      seqE (findPath opts D applied False) (\<lambda>path.
      seqE (resM (if mo_useNodePruning opts \<and> path_node path \<noteq> None
          then createPruneDeleteOps opts (path_stack path) else Inr [])) (\<lambda>ops.
      seqE (whenE (path_node path \<noteq> None) (deleteNode opts D applied (path_stack path))) (\<lambda>_.
      seqE (whenE (mo_useNodePruning opts) (dbM (nd_batch D ops))) (\<lambda>_. persistRoot opts D)))))"

text \<open>
  \<open>put\<close>: what it does with a value under the lock; a missing or empty value deletes (and does not
  pass on \<open>skipKeyTransform\<close>).
\<close>

definition putValue :: "mpt_opts \<Rightarrow> 'd node_db \<Rightarrow> bytes \<Rightarrow> bytes \<Rightarrow> bytes \<Rightarrow> ('d, unit) mpt_op" where
  "putValue opts D key applied val = seqE (getE mpt_root) (\<lambda>root.
     if root = EMPTY_TRIE_ROOT opts then createInitialNode opts D applied val
     else seqE (findPath opts D applied False) (\<lambda>path.
       seqE (if mo_useNodePruning opts then
           seqE (mpt_get opts D key False) (\<lambda>old.
             if old \<noteq> Some (NBytes val) then resM (createPruneDeleteOps opts (path_stack path)) else ret [])
         else ret []) (\<lambda>ops.
       seqE (updateNode opts D applied val (path_remaining path) (path_stack path)) (\<lambda>_.
       whenE (mo_useNodePruning opts) (dbM (nd_batch D ops))))))"

definition mpt_put :: "mpt_opts \<Rightarrow> 'd node_db \<Rightarrow> bytes \<Rightarrow> bytes option \<Rightarrow> bool \<Rightarrow> ('d, unit) mpt_op" where
  "mpt_put opts D key v skipKeyTransform =
     (if mo_useRootPersistence opts \<and> key = ROOT_DB_KEY then throwM ''Attempted to set '__root__' key but it is not allowed.''
      else case v of None \<Rightarrow> mpt_del opts D key False
      | Some val \<Rightarrow> if val = [] then mpt_del opts D key False
      else seqE (putValue opts D key (if skipKeyTransform then key else appliedKey opts key) val)
        (\<lambda>_. persistRoot opts D))"

text \<open>A put without a value is refused by the type of the operations.\<close>

definition mpt_batch :: "mpt_opts \<Rightarrow> 'd node_db \<Rightarrow> bytes batch_op list \<Rightarrow> bool \<Rightarrow> ('d, unit) mpt_op" where
  "mpt_batch opts D ops skipKeyTransform =
     seqE (forE ops (\<lambda>op'. case op' of
         PutOp key v \<Rightarrow> mpt_put opts D key (Some v) skipKeyTransform
       | DelOp key \<Rightarrow> mpt_del opts D key skipKeyTransform)) (\<lambda>_. persistRoot opts D)"

section \<open>Checkpoints\<close>

definition mpt_hasCheckpoints :: "'d node_db \<Rightarrow> 'd mpt \<Rightarrow> bool" where
  "mpt_hasCheckpoints D s = nd_hasCheckpoints D (mpt_db s)"

definition mpt_checkpoint :: "'d node_db \<Rightarrow> ('d, unit) mpt_op" where
  "mpt_checkpoint D = seqE (getE mpt_root) (\<lambda>root. dbM (nd_checkpoint D root))"

definition mpt_commit :: "mpt_opts \<Rightarrow> 'd node_db \<Rightarrow> ('d, unit) mpt_op" where
  "mpt_commit opts D = seqE (getE (mpt_hasCheckpoints D)) (\<lambda>has.
     if \<not> has then throwM ''trying to commit when not checkpointed''
     else seqE (dbM (nd_commit D)) (\<lambda>_. persistRoot opts D))"

definition mpt_revert :: "mpt_opts \<Rightarrow> 'd node_db \<Rightarrow> ('d, unit) mpt_op" where
  "mpt_revert opts D = seqE (getE (mpt_hasCheckpoints D)) (\<lambda>has.
     if \<not> has then throwM ''trying to revert when not checkpointed''
     else seqE (dbM (nd_revert D)) (\<lambda>root.
       seqE (setRoot opts root) (\<lambda>_. persistRoot opts D)))"

end
