(* ===== verification/MptTrie.thy ===== *)
theory MptTrie
  imports MptNode
begin

text \<open>
  The abstract trie that the database of a \<open>MerklePatriciaTrie\<close> represents, without hashes: its
  lookup, insertion and deletion, the canonical form, and the facts that make it a map: lookups
  after updates, canonical form kept, and one canonical trie per content.
\<close>

section \<open>Tries\<close>

datatype ptrie = PLeaf nibbles bytes | PExt nibbles ptrie | PBranch "nat \<Rightarrow> ptrie option" bytes

fun isPBranch :: "ptrie \<Rightarrow> bool" where
  "isPBranch (PBranch f w) = True"
| "isPBranch t = False"

text \<open>The value at a path; the empty one where there is none.\<close>

fun pget :: "ptrie \<Rightarrow> nibbles \<Rightarrow> bytes" where
  "pget (PLeaf p v) k = (if k = p then v else [])"
| "pget (PExt p t) k = (if take (length p) k = p then pget t (drop (length p) k) else [])"
| "pget (PBranch f w) [] = w"
| "pget (PBranch f w) (i # k) = (case f i of None \<Rightarrow> [] | Some t \<Rightarrow> pget t k)"

definition join :: "nibbles \<Rightarrow> ptrie \<Rightarrow> ptrie" where
  "join p t = (if p = [] then t else PExt p t)"

text \<open>A value hung into a branch, and a branch that holds one trie below a path.\<close>

fun hang :: "nibbles \<Rightarrow> bytes \<Rightarrow> (nat \<Rightarrow> ptrie option) \<Rightarrow> bytes \<Rightarrow> ptrie" where
  "hang [] v f w = PBranch f v"
| "hang (i # k) v f w = PBranch (f(i \<mapsto> PLeaf k v)) w"

fun splitLeaf :: "nibbles \<Rightarrow> bytes \<Rightarrow> nibbles \<Rightarrow> bytes \<Rightarrow> ptrie" where
  "splitLeaf [] w k v = hang k v Map.empty w"
| "splitLeaf (i # p) w k v = hang k v [i \<mapsto> PLeaf p w] []"

fun splitExt :: "nibbles \<Rightarrow> ptrie \<Rightarrow> nibbles \<Rightarrow> bytes \<Rightarrow> ptrie" where
  "splitExt [] t k v = t"
| "splitExt (i # p) t k v = hang k v [i \<mapsto> join p t] []"

fun pput :: "ptrie \<Rightarrow> nibbles \<Rightarrow> bytes \<Rightarrow> ptrie" where
  "pput (PLeaf p w) k v = (if k = p then PLeaf p v
     else let m = matchingNibbleLength p k in join (take m p) (splitLeaf (drop m p) w (drop m k) v))"
| "pput (PExt p t) k v = (if take (length p) k = p then PExt p (pput t (drop (length p) k) v)
     else let m = matchingNibbleLength p k in join (take m p) (splitExt (drop m p) t (drop m k) v))"
| "pput (PBranch f w) [] v = PBranch f v"
| "pput (PBranch f w) (i # k) v =
     PBranch (f(i \<mapsto> (case f i of None \<Rightarrow> PLeaf k v | Some t \<Rightarrow> pput t k v))) w"

text \<open>A path put in front of a trie, and a branch that has lost a child.\<close>

fun prepend :: "nibbles \<Rightarrow> ptrie \<Rightarrow> ptrie" where
  "prepend p (PLeaf q v) = PLeaf (p @ q) v"
| "prepend p (PExt q t) = PExt (p @ q) t"
| "prepend p (PBranch f w) = PExt p (PBranch f w)"

definition pchildren :: "(nat \<Rightarrow> ptrie option) \<Rightarrow> nat list" where
  "pchildren f = filter (\<lambda>i. f i \<noteq> None) [0..<16]"

definition shrink :: "(nat \<Rightarrow> ptrie option) \<Rightarrow> bytes \<Rightarrow> ptrie" where
  "shrink f w = (case pchildren f of [i] \<Rightarrow> prepend [i] (the (f i)) | _ \<Rightarrow> PBranch f w)"

fun pdel :: "ptrie \<Rightarrow> nibbles \<Rightarrow> ptrie option" where
  "pdel (PLeaf p w) k = (if k = p then None else Some (PLeaf p w))"
| "pdel (PExt p t) k = (if take (length p) k = p then map_option (prepend p) (pdel t (drop (length p) k))
     else Some (PExt p t))"
| "pdel (PBranch f w) [] = Some (PBranch f w)"
| "pdel (PBranch f w) (i # k) = (case f i of
     None \<Rightarrow> Some (PBranch f w)
   | Some t \<Rightarrow> (case pdel t k of
       None \<Rightarrow> Some (shrink (f(i := None)) w)
     | Some t' \<Rightarrow> Some (PBranch (f(i \<mapsto> t')) w)))"

section \<open>Canonical tries\<close>

text \<open>
  No empty value at a leaf, no empty extension, only branches below extensions, and branches that
  tell at least two paths apart.
\<close>

definition forks :: "(nat \<Rightarrow> ptrie option) \<Rightarrow> bytes \<Rightarrow> bool" where
  "forks f w \<longleftrightarrow> (\<exists>i j. i \<noteq> j \<and> f i \<noteq> None \<and> f j \<noteq> None) \<or> (w \<noteq> [] \<and> (\<exists>i. f i \<noteq> None))"

inductive canonical :: "ptrie \<Rightarrow> bool" where
  leaf: "nibs p \<Longrightarrow> v \<noteq> [] \<Longrightarrow> canonical (PLeaf p v)"
| extension: "nibs p \<Longrightarrow> p \<noteq> [] \<Longrightarrow> isPBranch t \<Longrightarrow> canonical t \<Longrightarrow> canonical (PExt p t)"
| branch: "\<forall>i t. f i = Some t \<longrightarrow> i < 16 \<and> canonical t \<Longrightarrow> forks f w \<Longrightarrow> canonical (PBranch f w)"

inductive_simps canonical_simps [simp]:
  "canonical (PLeaf p v)" "canonical (PExt p t)" "canonical (PBranch f w)"

text \<open>All paths of one length: then branches carry no values.\<close>

inductive uniform :: "nat \<Rightarrow> ptrie \<Rightarrow> bool" where
  leaf: "length p = n \<Longrightarrow> uniform n (PLeaf p v)"
| extension: "length p \<le> n \<Longrightarrow> uniform (n - length p) t \<Longrightarrow> uniform n (PExt p t)"
| branch: "n > 0 \<Longrightarrow> \<forall>i t. f i = Some t \<longrightarrow> uniform (n - 1) t \<Longrightarrow> uniform n (PBranch f [])"

inductive_simps uniform_simps [simp]:
  "uniform n (PLeaf p v)" "uniform n (PExt p t)" "uniform n (PBranch f w)"

section \<open>Insertion\<close>

lemma pget_hang: "(k \<noteq> [] \<Longrightarrow> f (hd k) = None) \<Longrightarrow>
    pget (hang k v f w) k' = (if k' = k then v else pget (PBranch f w) k')"
  by (cases k; cases k') auto

lemma pget_join: "pget (join p t) k = (if take (length p) k = p then pget t (drop (length p) k) else [])"
  by (simp add: join_def)

lemma take_prefix_iff: "take (length p) k = p \<longleftrightarrow> (\<exists>r. k = p @ r)"
  by (metis append_eq_conv_conj)

text \<open>Two paths split after their common part.\<close>

definition apart :: "nibbles \<Rightarrow> nibbles \<Rightarrow> bool" where
  "apart p k \<longleftrightarrow> (p \<noteq> [] \<longrightarrow> k \<noteq> [] \<longrightarrow> hd p \<noteq> hd k)"

lemma matching_append: "matchingNibbleLength (c @ p) (c @ k) = length c + matchingNibbleLength p k"
  by (induction c) auto

lemma matching_apart: "apart p k \<Longrightarrow> matchingNibbleLength p k = 0"
  by (cases p; cases k) (auto simp: apart_def)

lemma matching_split:
  obtains c p' k' where "p = c @ p'" and "k = c @ k'" and "apart p' k'"
proof
  let ?m = "matchingNibbleLength p k"
  show "p = take ?m p @ drop ?m p" by simp
  show "k = take ?m p @ drop ?m k" by (simp add: matching_prefix)
  show "apart (drop ?m p) (drop ?m k)"
    using matching_differs [of p k] by (simp add: apart_def hd_drop_conv_nth)
qed

lemma pput_leaf_apart: "apart p k \<Longrightarrow> p \<noteq> k \<Longrightarrow> pput (PLeaf (c @ p) w) (c @ k) v = join c (splitLeaf p w k v)"
  by (simp add: Let_def matching_append matching_apart)

lemma pput_ext_apart: "apart p k \<Longrightarrow> p \<noteq> [] \<Longrightarrow> pput (PExt (c @ p) t) (c @ k) v = join c (splitExt p t k v)"
proof -
  assume *: "apart p k" "p \<noteq> []"
  have "matchingNibbleLength (c @ p) (c @ k) = length c" using * by (simp add: matching_append matching_apart)
  moreover have "take (length (c @ p)) (c @ k) \<noteq> c @ p"
    using * by (cases p; cases k) (auto simp: apart_def)
  ultimately show ?thesis by (simp only: pput.simps if_False Let_def) simp
qed

lemma pput_ext_prefix: "pput (PExt p t) (p @ k) v = PExt p (pput t k v)"
  by simp

text \<open>The cases of an insertion.\<close>

lemma pput_induct [case_names same split_leaf inside split_ext here below]:
  fixes P :: "ptrie \<Rightarrow> nibbles \<Rightarrow> bytes \<Rightarrow> bool"
  assumes "\<And>p w v. P (PLeaf p w) p v"
    and "\<And>c p k w v. apart p k \<Longrightarrow> p \<noteq> k \<Longrightarrow> P (PLeaf (c @ p) w) (c @ k) v"
    and "\<And>p t k v. P t k v \<Longrightarrow> P (PExt p t) (p @ k) v"
    and "\<And>c p t k v. apart p k \<Longrightarrow> p \<noteq> [] \<Longrightarrow> P (PExt (c @ p) t) (c @ k) v"
    and "\<And>f w v. P (PBranch f w) [] v"
    and "\<And>f w i k v. (\<And>t. f i = Some t \<Longrightarrow> P t k v) \<Longrightarrow> P (PBranch f w) (i # k) v"
  shows "P t k v"
proof (induction t k v rule: pput.induct)
  case (1 p w k v)
  show ?case using matching_split [of p k] assms(1,2) by metis
next
  case (2 p t k v)
  show ?case
  proof (cases "take (length p) k = p")
    case True
    then show ?thesis using assms(3) 2 by (metis append_take_drop_id)
  next
    case False
    then show ?thesis using matching_split [of p k] assms(4) by (metis append.right_neutral append_eq_conv_conj)
  qed
qed (use assms(5,6) in auto)

lemma pget_splitLeaf: "p \<noteq> k \<Longrightarrow> apart p k \<Longrightarrow>
    pget (splitLeaf p w k v) k' = (if k' = k then v else if k' = p then w else [])"
  by (cases p; cases k; cases k') (auto simp: apart_def)

lemma pget_splitExt: "p \<noteq> [] \<Longrightarrow> apart p k \<Longrightarrow>
    pget (splitExt p t k v) k' = (if k' = k then v else if take (length p) k' = p then pget t (drop (length p) k') else [])"
  by (cases p; cases k; cases k') (auto simp: pget_join apart_def)

lemma pget_ext_append: "pget (PExt (c @ p) t) k =
    (if take (length c) k = c then pget (PExt p t) (drop (length c) k) else [])"
proof (cases "\<exists>r. k = c @ r")
  case False
  then have "take (length (c @ p)) k \<noteq> c @ p" "take (length c) k \<noteq> c" by (auto simp only: take_prefix_iff append_assoc)
  then show ?thesis by (simp del: take_append)
qed auto

lemma pget_pput: "pget (pput t k v) k' = (if k' = k then v else pget t k')"
proof (induction t k v arbitrary: k' rule: pput_induct)
  case (split_leaf c p k w v)
  then show ?case using pget_splitLeaf [of p k w v "drop (length c) k'"]
    by (auto simp: pput_leaf_apart pget_join take_prefix_iff simp del: pput.simps)
next
  case (inside p t k v)
  then show ?case by (auto simp: take_prefix_iff)
next
  case (split_ext c p t k v)
  have "pget (pput (PExt (c @ p) t) (c @ k) v) k' =
      (if take (length c) k' = c then pget (splitExt p t k v) (drop (length c) k') else [])"
    by (simp only: pput_ext_apart [OF split_ext] pget_join)
  then show ?case unfolding pget_splitExt [OF split_ext(2,1)] pget_ext_append
    by (auto simp: take_prefix_iff)
next
  case (here f w v)
  then show ?case by (cases k') simp_all
next
  case (below f w i k v)
  then show ?case by (cases k') (auto split: option.split)
qed auto

lemma isPBranch_hang [simp]: "isPBranch (hang k v f w)"
  by (cases k) simp_all

lemma isPBranch_split: "isPBranch (splitLeaf p w k v)" "p \<noteq> [] \<Longrightarrow> isPBranch (splitExt p t k v)"
  by (cases p; simp)+

lemma isPBranch_pput: "isPBranch t \<Longrightarrow> isPBranch (pput t k v)"
  by (cases t; cases k) simp_all

lemma canonical_join: "nibs p \<Longrightarrow> isPBranch t \<Longrightarrow> canonical t \<Longrightarrow> canonical (join p t)"
  by (simp add: join_def)

lemma canonical_hang_one: "nibs (i # p) \<Longrightarrow> nibs k \<Longrightarrow> v \<noteq> [] \<Longrightarrow> canonical t \<Longrightarrow> apart (i # p) k \<Longrightarrow>
    canonical (hang k v [i \<mapsto> t] [])"
  by (cases k) (auto simp: apart_def forks_def split: if_splits)

lemma canonical_splitLeaf: "nibs p \<Longrightarrow> nibs k \<Longrightarrow> w \<noteq> [] \<Longrightarrow> v \<noteq> [] \<Longrightarrow> apart p k \<Longrightarrow> p \<noteq> k \<Longrightarrow>
    canonical (splitLeaf p w k v)"
proof (cases p)
  case Nil
  then show "nibs p \<Longrightarrow> nibs k \<Longrightarrow> w \<noteq> [] \<Longrightarrow> v \<noteq> [] \<Longrightarrow> p \<noteq> k \<Longrightarrow> ?thesis"
    by (cases k) (auto simp: forks_def split: if_splits)
qed (auto simp: canonical_hang_one)

lemma forks_upd: "forks f w \<Longrightarrow> forks (f(i \<mapsto> x)) w"
  unfolding forks_def by (metis fun_upd_apply option.distinct(1))

lemma canonical_pput: "canonical t \<Longrightarrow> nibs k \<Longrightarrow> v \<noteq> [] \<Longrightarrow> canonical (pput t k v)"
proof (induction t k v rule: pput_induct)
  case (split_leaf c p k w v)
  then show ?case
    by (simp add: pput_leaf_apart canonical_join canonical_splitLeaf isPBranch_split del: pput.simps)
next
  case (inside p t k v)
  then show ?case by (auto simp: isPBranch_pput)
next
  case (split_ext c p t k v)
  then obtain i q where p: "p = i # q" by (cases p) auto
  have "canonical (splitExt p t k v)"
    using split_ext canonical_hang_one [of i q k v "join q t"] by (auto simp: p canonical_join)
  then show ?case using split_ext by (simp add: pput_ext_apart canonical_join isPBranch_split del: pput.simps)
next
  case (here f w v)
  then show ?case by (auto simp: forks_def)
next
  case (below f w i k v)
  have "forks (f(i \<mapsto> x)) w" for x using below.prems(1) forks_upd by simp
  then show ?case using below by (auto split: option.split)
qed simp_all

lemma uniform_join: "length p \<le> n \<Longrightarrow> uniform (n - length p) t \<Longrightarrow> uniform n (join p t)"
  by (cases "p = []") (simp_all add: join_def)

lemma uniform_hang_one: "length k = n \<Longrightarrow> n > 0 \<Longrightarrow> uniform (n - 1) t \<Longrightarrow> uniform n (hang k v [i \<mapsto> t] [])"
  by (cases k) auto

lemma uniform_splitExt:
  assumes "p \<noteq> []" "length p \<le> length k" "uniform (length k - length p) t"
  shows "uniform (length k) (splitExt p t k v)"
proof -
  obtain i q where p: "p = i # q" using assms(1) by (cases p) auto
  have "uniform (length k - 1) (join q t)" using assms p by (intro uniform_join) auto
  moreover have "length k > 0" using assms(2) p by auto
  ultimately show ?thesis using uniform_hang_one [of k "length k" "join q t" v i] p by simp
qed

lemma uniform_pput: "uniform n t \<Longrightarrow> length k = n \<Longrightarrow> uniform n (pput t k v)"
proof (induction t k v arbitrary: n rule: pput_induct)
  case (split_leaf c p k w v)
  then obtain i q where p: "p = i # q" by (cases p) auto
  have "uniform (length p) (splitLeaf p w k v)"
    using split_leaf uniform_hang_one [of k "length p" "PLeaf q w"] by (simp add: p)
  then have "uniform n (join c (splitLeaf p w k v))" using split_leaf by (intro uniform_join) auto
  then show ?case using split_leaf by (simp add: pput_leaf_apart del: pput.simps)
next
  case (split_ext c p t k v)
  then have "uniform (length k) (splitExt p t k v)" by (intro uniform_splitExt) (auto simp: add.commute)
  then have "uniform n (join c (splitExt p t k v))" using split_ext by (intro uniform_join) auto
  then show ?case using split_ext by (simp add: pput_ext_apart del: pput.simps)
next
  case (below f w i k v)
  then show ?case by (auto split: option.split)
qed auto

section \<open>Deletion\<close>

fun pgetO :: "ptrie option \<Rightarrow> nibbles \<Rightarrow> bytes" where
  "pgetO None k = []"
| "pgetO (Some t) k = pget t k"

lemma pget_prepend: "pget (prepend p t) k = (if take (length p) k = p then pget t (drop (length p) k) else [])"
proof (cases t)
  case (PExt q u)
  then show ?thesis by (simp only: prepend.simps pget_ext_append)
qed (auto simp: take_prefix_iff)

lemma uniform_pget: "uniform n t \<Longrightarrow> pget t k \<noteq> [] \<Longrightarrow> length k = n"
proof (induction t k arbitrary: n rule: pget.induct)
  case (2 p t k)
  then have "take (length p) k = p" by (auto split: if_splits)
  then obtain r where "k = p @ r" by (auto simp: take_prefix_iff)
  then show ?case using 2 by (auto split: if_splits)
next
  case (4 f w i k)
  then show ?case by (fastforce split: option.splits)
qed (auto split: if_splits)

lemma pchildren_set: "\<forall>i. f i \<noteq> None \<longrightarrow> i < 16 \<Longrightarrow> set (pchildren f) = {i. f i \<noteq> None}"
  by (auto simp: pchildren_def)

lemma pget_shrink: "\<forall>i. f i \<noteq> None \<longrightarrow> i < 16 \<Longrightarrow> pget (shrink f []) k = pget (PBranch f []) k"
proof (cases "\<exists>i. pchildren f = [i]")
  case True
  assume b: "\<forall>i. f i \<noteq> None \<longrightarrow> i < 16"
  obtain i where i: "pchildren f = [i]" using True by blast
  then have s: "{i. f i \<noteq> None} = {i}" using pchildren_set [OF b] by simp
  then obtain t where "f i = Some t" by auto
  moreover have "f j = None" if "j \<noteq> i" for j using s that by auto
  ultimately show ?thesis using i
    by (cases k) (auto simp: shrink_def pget_prepend split: option.split)
qed (auto simp: shrink_def split: list.split)

lemma canonical_prepend: "canonical t \<Longrightarrow> nibs p \<Longrightarrow> p \<noteq> [] \<Longrightarrow> canonical (prepend p t)"
  by (cases t) simp_all

lemma uniform_prepend: "uniform (n - length p) t \<Longrightarrow> length p \<le> n \<Longrightarrow> uniform n (prepend p t)"
  by (cases t) (auto simp: diff_diff_left)

lemma shrink_ok:
  assumes "\<forall>i t. f i = Some t \<longrightarrow> i < 16 \<and> canonical t" and "f i \<noteq> None"
  shows "canonical (shrink f [])"
proof (cases "\<exists>i. pchildren f = [i]")
  case True
  then obtain j where j: "pchildren f = [j]" by blast
  then have "j \<in> set (pchildren f)" by simp
  then have "f j \<noteq> None" "j < 16" by (auto simp: pchildren_def)
  then show ?thesis using assms(1) j by (auto simp: shrink_def canonical_prepend)
next
  case False
  have s: "set (pchildren f) = {i. f i \<noteq> None}" using assms(1) by (intro pchildren_set) auto
  have "i \<in> set (pchildren f)" using s assms(2) by simp
  then obtain x y xs where xs: "pchildren f = x # y # xs" using False
    by (cases "pchildren f" rule: remdups_adj.cases) auto
  have "distinct (pchildren f)" by (simp add: pchildren_def)
  then have "x \<noteq> y" using xs by simp
  moreover have "f x \<noteq> None" "f y \<noteq> None" using s xs by auto
  ultimately have "forks f []" unfolding forks_def by blast
  then show ?thesis using assms(1) False by (auto simp: shrink_def split: list.split)
qed

lemma uniform_shrink: "\<forall>i t. f i = Some t \<longrightarrow> uniform (n - 1) t \<Longrightarrow> n > 0 \<Longrightarrow> uniform n (shrink f [])"
proof (cases "\<exists>i. pchildren f = [i]")
  case True
  assume *: "\<forall>i t. f i = Some t \<longrightarrow> uniform (n - 1) t" "n > 0"
  obtain j where j: "pchildren f = [j]" using True by blast
  then have "j \<in> set (pchildren f)" by simp
  then have "f j \<noteq> None" by (auto simp: pchildren_def)
  then show ?thesis using * j by (auto simp: shrink_def uniform_prepend)
qed (auto simp: shrink_def split: list.split)

lemma pdel_branch: "isPBranch t \<Longrightarrow> \<exists>t'. pdel t k = Some t'"
  by (cases t; cases k) (auto split: option.split)

lemma pget_pdel:
  "canonical t \<Longrightarrow> uniform n t \<Longrightarrow> length k = n \<Longrightarrow> pgetO (pdel t k) k' = (if k' = k then [] else pget t k')"
proof (induction t k arbitrary: n k' rule: pdel.induct)
  case (2 p t k)
  show ?case
  proof (cases "take (length p) k = p")
    case True
    then obtain r where k: "k = p @ r" by (auto simp: take_prefix_iff)
    obtain t' where t': "pdel t r = Some t'" using pdel_branch 2 by force
    have "pget t' k'' = (if k'' = r then [] else pget t k'')" for k''
      using "2.IH" [OF True, of "n - length p" k''] 2 t' k by simp
    then show ?thesis by (auto simp: k t' pget_prepend take_prefix_iff)
  next
    case False
    then show ?thesis by auto
  qed
next
  case (4 f w i k)
  show ?case
  proof (cases "f i")
    case None
    then show ?thesis by auto
  next
    case (Some t)
    have c: "canonical t" "uniform (n - 1) t" "w = []" and b: "\<forall>j. f j \<noteq> None \<longrightarrow> j < 16"
      using 4 Some by auto
    have IH: "pgetO (pdel t k) k'' = (if k'' = k then [] else pget t k'')" for k''
      using "4.IH" [OF Some c(1,2)] 4 by auto
    show ?thesis
    proof (cases "pdel t k")
      case None
      have "\<forall>j. (f(i := None)) j \<noteq> None \<longrightarrow> j < 16" using b by simp
      then have "pgetO (pdel (PBranch f w) (i # k)) k' = pget (PBranch (f(i := None)) []) k'"
        using None Some c(3) pget_shrink by (simp del: fun_upd_apply)
      moreover have "pget t k'' = []" if "k'' \<noteq> k" for k'' using IH [of k''] None that by simp
      ultimately show ?thesis using Some c(3) by (cases k') (auto split: option.split)
    next
      case (Some t')
      then show ?thesis using IH \<open>f i = Some t\<close> by (cases k') (auto split: option.split)
    qed
  qed
qed auto

lemma pdel_canonical:
  "canonical t \<Longrightarrow> uniform n t \<Longrightarrow> pdel t k = Some t' \<Longrightarrow> canonical t' \<and> uniform n t'"
proof (induction t k arbitrary: n t' rule: pdel.induct)
  case (2 p t k)
  then show ?case by (auto simp: canonical_prepend uniform_prepend split: if_splits)
next
  case (4 f w i k)
  show ?case
  proof (cases "f i")
    case None
    then show ?thesis using 4 by auto
  next
    case (Some t)
    have c: "canonical t" "uniform (n - 1) t" "w = []" and f: "\<forall>i t. f i = Some t \<longrightarrow> i < 16 \<and> canonical t"
      "forks f w" "\<forall>i t. f i = Some t \<longrightarrow> uniform (n - 1) t" "n > 0"
      using "4.prems"(1,2) Some by auto
    show ?thesis
    proof (cases "pdel t k")
      case None
      obtain j where "j \<noteq> i" "f j \<noteq> None" using f(2) c(3) unfolding forks_def by metis
      then have "canonical (shrink (f(i := None)) [])" using f by (intro shrink_ok [where i = j]) auto
      moreover have "uniform n (shrink (f(i := None)) [])" using f by (intro uniform_shrink) auto
      ultimately show ?thesis using "4.prems"(3) None Some c(3) by auto
    next
      case (Some u)
      then have "canonical u \<and> uniform (n - 1) u" using "4.IH" [OF \<open>f i = Some t\<close> c(1,2)] by blast
      moreover have "forks (f(i \<mapsto> u)) []" using f(2) c(3) forks_upd by blast
      ultimately show ?thesis using "4.prems"(3) Some \<open>f i = Some t\<close> f c(3) by auto
    qed
  qed
qed (auto split: if_splits)

section \<open>One canonical trie per content\<close>

lemma canonical_inhabited: "canonical t \<Longrightarrow> \<exists>k. pget t k \<noteq> []"
proof (induction rule: canonical.induct)
  case (leaf p v)
  then have "pget (PLeaf p v) p \<noteq> []" by simp
  then show ?case by blast
next
  case (extension p t)
  then obtain k where "pget t k \<noteq> []" by blast
  then have "pget (PExt p t) (p @ k) \<noteq> []" by simp
  then show ?case by blast
next
  case (branch f w)
  then obtain i t where i: "f i = Some t" by (auto simp: forks_def)
  then obtain k where "pget t k \<noteq> []" using branch by blast
  then have "pget (PBranch f w) (i # k) \<noteq> []" using i by simp
  then show ?case by blast
qed

text \<open>A branch tells two paths apart at its first step.\<close>

lemma branch_two:
  assumes "canonical (PBranch f w)"
  obtains k l where "pget (PBranch f w) k \<noteq> []" "pget (PBranch f w) l \<noteq> []" "k \<noteq> l" "apart k l"
proof -
  have one: "\<exists>k. pget (PBranch f w) (i # k) \<noteq> []" if "f i \<noteq> None" for i
    using assms that canonical_inhabited by fastforce
  have "forks f w" using assms by simp
  then consider (two) i j where "i \<noteq> j" "f i \<noteq> None" "f j \<noteq> None" | (val) i where "w \<noteq> []" "f i \<noteq> None"
    by (auto simp: forks_def)
  then show ?thesis
  proof cases
    case two
    obtain k where k: "pget (PBranch f w) (i # k) \<noteq> []" using one two(2) by blast
    obtain l where l: "pget (PBranch f w) (j # l) \<noteq> []" using one two(3) by blast
    show ?thesis by (rule that [OF k l]) (simp_all add: two apart_def)
  next
    case val
    obtain k where k: "pget (PBranch f w) (i # k) \<noteq> []" using one val(2) by blast
    have l: "pget (PBranch f w) [] \<noteq> []" using val by simp
    show ?thesis by (rule that [OF k l]) (simp_all add: apart_def)
  qed
qed

lemma branch_not_prefixed:
  assumes "canonical (PBranch f w)" and "\<And>k. pget (PBranch f w) k \<noteq> [] \<Longrightarrow> take (length p) k = p"
  shows "p = []"
proof (rule ccontr)
  assume "p \<noteq> []"
  obtain k l where "pget (PBranch f w) k \<noteq> []" "pget (PBranch f w) l \<noteq> []" "apart k l"
    using branch_two [OF assms(1)] by metis
  then have "take (length p) k = p" "take (length p) l = p" "apart k l" using assms(2) by blast+
  then show False using \<open>p \<noteq> []\<close> by (auto simp: take_prefix_iff apart_def)
qed

lemma two_paths: "canonical t \<Longrightarrow> \<not> (\<exists>p v. t = PLeaf p v) \<Longrightarrow> \<exists>k l. k \<noteq> l \<and> pget t k \<noteq> [] \<and> pget t l \<noteq> []"
proof (induction t)
  case (PExt p t)
  then obtain f w where t: "t = PBranch f w" "canonical (PBranch f w)" by (cases t) auto
  then obtain k l where "k \<noteq> l" "pget t k \<noteq> []" "pget t l \<noteq> []" using branch_two by metis
  then have "p @ k \<noteq> p @ l" "pget (PExt p t) (p @ k) \<noteq> []" "pget (PExt p t) (p @ l) \<noteq> []" by simp_all
  then show ?case by blast
next
  case (PBranch f w)
  then show ?case using branch_two by metis
qed simp

lemma ext_paths: "pget (PExt p t) k \<noteq> [] \<Longrightarrow> take (length p) k = p"
  by (simp split: if_splits)

lemma ext_tail:
  assumes "pget (PExt p t) = pget (PExt (p @ q) u)" and "canonical (PExt p t)"
  shows "q = []"
proof -
  obtain f w where t: "t = PBranch f w" "canonical (PBranch f w)" using assms(2) by (cases t) auto
  have "take (length q) k = q" if "pget t k \<noteq> []" for k
  proof -
    have "pget (PExt p t) (p @ k) \<noteq> []" using that by simp
    then have "take (length (p @ q)) (p @ k) = p @ q" unfolding assms(1) by (rule ext_paths)
    then show ?thesis by simp
  qed
  then show ?thesis using branch_not_prefixed t by blast
qed

lemma ext_unique:
  assumes e: "pget (PExt p t) = pget (PExt q u)" and c: "canonical (PExt p t)" "canonical (PExt q u)"
  shows "p = q"
proof -
  obtain k where "pget (PExt p t) k \<noteq> []" using canonical_inhabited [OF c(1)] by blast
  then have "take (length p) k = p" "take (length q) k = q" using ext_paths e by metis+
  then consider r where "q = p @ r" | r where "p = q @ r"
    by (metis append_eq_append_conv2 append_take_drop_id)
  then show ?thesis using ext_tail e c by cases (metis append_Nil2)+
qed

theorem canonical_unique: "canonical t \<Longrightarrow> canonical u \<Longrightarrow> pget t = pget u \<Longrightarrow> t = u"
proof (induction t arbitrary: u)
  case (PLeaf p v)
  have only: "k = p" if "pget u k \<noteq> []" for k using that PLeaf(3) by (metis pget.simps(1))
  then obtain q w where u: "u = PLeaf q w" using two_paths [OF PLeaf(2)] by metis
  then have "q = p" using only PLeaf(2) by simp
  then show ?case using u PLeaf(3) by (metis pget.simps(1))
next
  case (PExt p t)
  show ?case
  proof (cases u)
    case (PLeaf q w)
    then show ?thesis using two_paths [OF PExt(2)] PExt(4) by (metis pget.simps(1) ptrie.distinct(1))
  next
    case (PBranch f w)
    then have "p = []" using branch_not_prefixed [of f w p] ext_paths PExt by metis
    then show ?thesis using PExt(2) by simp
  next
    case u: (PExt q t')
    have q: "q = p" using ext_unique PExt(2-4) u by blast
    have "pget t k = pget t' k" for k
      using fun_cong [OF PExt(4), of "p @ k"] by (simp add: u q)
    then show ?thesis using PExt.IH [of t'] PExt(2,3) u q by auto
  qed
next
  case (PBranch f w)
  show ?case
  proof (cases u)
    case (PLeaf q v)
    then show ?thesis using two_paths [OF PBranch(2)] PBranch(4) by (metis pget.simps(1) ptrie.distinct(3))
  next
    case (PExt q t')
    then have "q = []" using branch_not_prefixed [of f w q] ext_paths PBranch by metis
    then show ?thesis using PBranch(3) PExt by simp
  next
    case u: (PBranch g v)
    have child: "pgetO (f i) k = pgetO (g i) k" for i k
      using fun_cong [OF PBranch(4), of "i # k"] by (simp add: u split: option.splits)
    have "f i = g i" for i
    proof (cases "f i")
      case None
      then show ?thesis using child [of i] canonical_inhabited PBranch(3) u
        by (cases "g i") (auto, metis)
    next
      case (Some t)
      then have t: "canonical t" using PBranch(2) by auto
      obtain t' where t': "g i = Some t'" using child [of i] canonical_inhabited [OF t] Some
        by (cases "g i") auto
      then have "canonical t'" using PBranch(3) u by auto
      moreover have "pget t = pget t'" using child [of i] Some t' by (auto simp: fun_eq_iff)
      ultimately show ?thesis using PBranch.IH [of "f i" t t'] Some t t' by (metis option.set_intros rangeI)
    qed
    then have "f = g" by blast
    moreover have "w = v" using fun_cong [OF PBranch(4), of "[]"] u by simp
    ultimately show ?thesis using u by simp
  qed
qed

end
