(* ===== verification/MptRefine.thy ===== *)
theory MptRefine
  imports Mpt MptTrie
begin

text \<open>
  How a database represents an abstract trie: each node refers to a child by the encoding of the
  child when it is shorter than 32 bytes and by its hash otherwise. Saving a stack of nodes is
  shown to store the trie that the stack stands for.
\<close>

section \<open>Nodes of a trie\<close>

definition mkref :: "(bytes \<Rightarrow> bytes) \<Rightarrow> mpt_node \<Rightarrow> nested" where
  "mkref H n = (if length (rlp (raw n)) < 32 then raw n else NBytes (H (rlp (raw n))))"

fun slot :: "(bytes \<Rightarrow> bytes) \<Rightarrow> mpt_node option \<Rightarrow> nested" where
  "slot H None = NBytes []"
| "slot H (Some n) = mkref H n"

primrec nodeOf :: "(bytes \<Rightarrow> bytes) \<Rightarrow> ptrie \<Rightarrow> mpt_node" where
  "nodeOf H (PLeaf p v) = LeafNode p (NBytes v)"
| "nodeOf H (PExt p t) = ExtensionNode p (mkref H (nodeOf H t))"
| "nodeOf H (PBranch f w) = BranchNode (map (\<lambda>i. slot H (map_option (nodeOf H) (f i))) [0..<16]) (NBytes w)"

definition enc :: "(bytes \<Rightarrow> bytes) \<Rightarrow> ptrie \<Rightarrow> bytes" where
  "enc H t = rlp (raw (nodeOf H t))"

definition own :: "(bytes \<Rightarrow> bytes) \<Rightarrow> ptrie \<Rightarrow> bytes set" where
  "own H t = (if 32 \<le> length (enc H t) then {enc H t} else {})"

text \<open>The encodings of the proper subtries that are stored under their hash.\<close>

primrec under :: "(bytes \<Rightarrow> bytes) \<Rightarrow> ptrie \<Rightarrow> bytes set" where
  "under H (PLeaf p v) = {}"
| "under H (PExt p t) = own H t \<union> under H t"
| "under H (PBranch f w) = (\<Union>i. (case f i of None \<Rightarrow> {} | Some t \<Rightarrow> own H t) \<union>
     (case map_option (under H) (f i) of None \<Rightarrow> {} | Some A \<Rightarrow> A))"

definition nodes :: "(bytes \<Rightarrow> bytes) \<Rightarrow> ptrie \<Rightarrow> bytes set" where
  "nodes H t = insert (enc H t) (under H t)"

text \<open>Paths of at most \<open>n\<close> nibbles and values of at most \<open>N\<close> bytes.\<close>

inductive within :: "nat \<Rightarrow> nat \<Rightarrow> ptrie \<Rightarrow> bool" where
  leaf: "length p \<le> n \<Longrightarrow> length v \<le> N \<Longrightarrow> within n N (PLeaf p v)"
| extension: "length p \<le> n \<Longrightarrow> within (n - length p) N t \<Longrightarrow> within n N (PExt p t)"
| branch: "\<forall>i t. f i = Some t \<longrightarrow> n > 0 \<and> within (n - 1) N t \<Longrightarrow> length w \<le> N \<Longrightarrow> within n N (PBranch f w)"

inductive_simps within_simps [simp]:
  "within n N (PLeaf p v)" "within n N (PExt p t)" "within n N (PBranch f w)"

lemma under_branch: "under H (PBranch f w) = (\<Union>i. case f i of None \<Rightarrow> {} | Some t \<Rightarrow> own H t \<union> under H t)"
  by (auto split: option.splits)

lemma under_child: "f i = Some t \<Longrightarrow> own H t \<union> under H t \<subseteq> under H (PBranch f w)"
  unfolding under_branch by (rule subsetI, rule UN_I [of i]) auto

lemma under_upd: "under H (PBranch (f(i \<mapsto> t)) w) \<subseteq> own H t \<union> under H t \<union> under H (PBranch f w)"
  unfolding under_branch by (auto split: option.splits if_splits)

section \<open>Sizes\<close>

lemma length_rlp_string: "length b < 256 ^ 8 \<Longrightarrow> length (rlp (NBytes b)) \<le> length b + 9"
  using length_nat_be_8 [of "length b"] by (auto simp: rlp_prefix_def)

lemma length_packed: "length (nibblesTypeToPackedBytes k) \<le> length k"
  by (induction k rule: nibblesTypeToPackedBytes.induct) auto

lemma length_encodedKey: "length (encodedKey k t) \<le> length k + 2"
  by (simp add: encodedKey_def addHexPrefix_cases)

lemma length_concat_le: "\<forall>x \<in> set xs. length x \<le> c \<Longrightarrow> length (concat xs) \<le> c * length xs"
  by (induction xs) auto

lemma within_hang_one: "length k \<le> n \<Longrightarrow> length v \<le> N \<Longrightarrow> n > 0 \<Longrightarrow> within (n - 1) N t \<Longrightarrow> within n N (hang k v [i \<mapsto> t] [])"
  by (cases k) auto

lemma within_join: "length p \<le> n \<Longrightarrow> within (n - length p) N t \<Longrightarrow> within n N (join p t)"
  by (cases "p = []") (simp_all add: join_def)

lemma within_mono: "within n N t \<Longrightarrow> n \<le> m \<Longrightarrow> within m N t"
proof (induction arbitrary: m rule: within.induct)
  case (branch f n N w)
  then show ?case by (fastforce intro: diff_le_mono)
qed auto

lemma within_split:
  assumes "length k \<le> n" "length v \<le> N" "length p \<le> n"
  shows "length w \<le> N \<Longrightarrow> within n N (splitLeaf p w k v)"
    and "p \<noteq> [] \<Longrightarrow> within (n - length p) N t \<Longrightarrow> within n N (splitExt p t k v)"
proof -
  show "within n N (splitLeaf p w k v)" if "length w \<le> N"
  proof (cases p)
    case Nil
    then show ?thesis using assms that by (cases k) auto
  next
    case (Cons i q)
    then show ?thesis using assms that within_hang_one [of k n v N "PLeaf q w" i] by auto
  qed
  assume p: "p \<noteq> []" and t: "within (n - length p) N t"
  then obtain i q where iq: "p = i # q" by (cases p) auto
  have "within (n - 1) N (join q t)" using assms t iq by (intro within_join) auto
  then show "within n N (splitExt p t k v)" using assms iq within_hang_one [of k n v N "join q t" i] by auto
qed

lemma within_pput: "within n N t \<Longrightarrow> length k \<le> n \<Longrightarrow> length v \<le> N \<Longrightarrow> within n N (pput t k v)"
proof (induction t k v arbitrary: n rule: pput_induct)
  case (split_leaf c p k w v)
  then have "within n N (join c (splitLeaf p w k v))" by (intro within_join within_split) auto
  then show ?case using split_leaf by (simp add: pput_leaf_apart del: pput.simps)
next
  case (split_ext c p t k v)
  then have "within n N (join c (splitExt p t k v))" by (intro within_join within_split) auto
  then show ?case using split_ext by (simp add: pput_ext_apart del: pput.simps)
next
  case (below f w i k v)
  then show ?case by (auto split: option.split)
qed auto

lemma within_prepend: "within (n - length p) N t \<Longrightarrow> length p \<le> n \<Longrightarrow> within n N (prepend p t)"
  by (cases t) (auto simp: diff_diff_left)

lemma within_shrink:
  assumes "within n N (PBranch f w)"
  shows "within n N (shrink f w)"
proof (cases "\<exists>i. pchildren f = [i]")
  case True
  then obtain j where j: "pchildren f = [j]" by blast
  then have "j \<in> set (pchildren f)" by simp
  then obtain t where t: "f j = Some t" by (auto simp: pchildren_def)
  then show ?thesis using assms j within_prepend [of n "[j]" N t] by (auto simp: shrink_def Suc_le_eq)
qed (use assms in \<open>auto simp: shrink_def split: list.split\<close>)

lemma within_pdel: "within n N t \<Longrightarrow> pdel t k = Some t' \<Longrightarrow> within n N t'"
proof (induction t k arbitrary: n t' rule: pdel.induct)
  case (2 p t k)
  then show ?case by (auto simp: within_prepend split: if_splits)
next
  case (4 f w i k)
  show ?case
  proof (cases "f i")
    case (Some t)
    have "within n N (shrink (f(i := None)) w)" using 4(2) by (intro within_shrink) auto
    then show ?thesis using 4 Some by (auto split: option.splits)
  qed (use 4 in auto)
qed (auto split: if_splits)

lemma length_mkref: "\<forall>x. length (H x) = 32 \<Longrightarrow> length (rlp (mkref H n)) \<le> 41"
  using length_rlp_string [of "H (rlp (raw n))"] by (auto simp: mkref_def simp del: rlp.simps)

lemma length_slot: "\<forall>x. length (H x) = 32 \<Longrightarrow> length (rlp (slot H n)) \<le> 41"
  by (cases n) (simp_all add: length_mkref rlp_prefix_def del: rlp.simps(2))

text \<open>Nodes of bounded tries have an encoding.\<close>

lemma encodable_nodeOf:
  assumes "within n N t" and "n < 2 ^ 40" and "N < 2 ^ 40" and H: "\<forall>x. length (H x) = 32"
  shows "encodable (raw (nodeOf H t))"
proof -
  have key: "length (rlp (NBytes (nibblesTypeToPackedBytes (encodedKey p b)))) \<le> 2 ^ 40 + 11" if "length p \<le> n" for p b
    using length_packed [of "encodedKey p b"] length_encodedKey [of p b] that assms(2)
      length_rlp_string [of "nibblesTypeToPackedBytes (encodedKey p b)"] by simp
  have val: "length (rlp (NBytes v)) \<le> 2 ^ 40 + 9" if "length v \<le> N" for v
    using length_rlp_string [of v] that assms(3) by simp
  show ?thesis
  proof (cases t)
    case (PLeaf p v)
    then show ?thesis using assms(1) key [of p True] val [of v] by (simp add: encodable_def del: rlp.simps)
  next
    case (PExt p u)
    then show ?thesis using assms(1) key [of p False] length_mkref [OF H, of "nodeOf H u"]
      by (simp add: encodable_def del: rlp.simps)
  next
    case (PBranch f w)
    have "length (concat (map rlp (map (\<lambda>i. slot H (map_option (nodeOf H) (f i))) [0..<16]))) \<le> 41 * 16"
      using length_concat_le [of "map rlp (map (\<lambda>i. slot H (map_option (nodeOf H) (f i))) [0..<16])" 41] length_slot [OF H]
      by (auto simp del: rlp.simps)
    then show ?thesis using assms(1) PBranch val [of w] by (simp add: encodable_def del: rlp.simps)
  qed
qed

lemma node_ok_nodeOf: "canonical t \<Longrightarrow> node_ok (nodeOf H t)"
  by (cases t) (simp_all add: node_ok_def)

lemma present_mkref: "\<forall>x. length (H x) = 32 \<Longrightarrow> present (mkref H n)"
  by (cases n) (auto simp: mkref_def present_def)

lemma getBranch_nodeOf:
  assumes "\<forall>x. length (H x) = 32" and "i < 16"
  shows "getBranch (nodeOf H (PBranch f w)) i = map_option (\<lambda>t. mkref H (nodeOf H t)) (f i)"
  using assms(2) present_mkref [OF assms(1)] by (cases "f i") (simp_all add: present_def)

lemma setBranch_nodeOf:
  "i < 16 \<Longrightarrow> setBranch i (mkref H (nodeOf H t)) (nodeOf H (PBranch f w)) = nodeOf H (PBranch (f(i \<mapsto> t)) w)"
  by (auto simp: nth_list_update intro!: nth_equalityI)

lemma clearBranch_nodeOf:
  "i < 16 \<Longrightarrow> setBranch i (NBytes []) (nodeOf H (PBranch f w)) = nodeOf H (PBranch (f(i := None)) w)"
  by (auto simp: nth_list_update intro!: nth_equalityI)

lemma newBranch_nodeOf: "newBranch = nodeOf H (PBranch Map.empty [])"
  by (auto simp: newBranch_def intro!: nth_equalityI)

lemma getChildren_nodeOf:
  assumes "\<forall>x. length (H x) = 32"
  shows "getChildren (nodeOf H (PBranch f w)) = map (\<lambda>i. (i, mkref H (nodeOf H (the (f i))))) (pchildren f)"
proof -
  have "filter (\<lambda>(i, b). present b) (map (\<lambda>i. (i, slot H (map_option (nodeOf H) (f i)))) xs) =
      map (\<lambda>i. (i, mkref H (nodeOf H (the (f i))))) (filter (\<lambda>i. f i \<noteq> None) xs)" for xs
    using present_mkref [OF assms] by (induction xs) (auto simp: present_def)
  moreover have "enumerate 0 (map g [0..<16]) = map (\<lambda>i. (i, g i)) [0..<16]" for g :: "nat \<Rightarrow> nested"
    by (auto simp: enumerate_eq_zip zip_map2 intro!: nth_equalityI)
  ultimately show ?thesis by (simp add: pchildren_def del: upt_rec_numeral)
qed

section \<open>Saving a stack\<close>

definition putOp :: "mpt_opts \<Rightarrow> bytes \<Rightarrow> bytes batch_op" where
  "putOp opts e = PutOp (getDbKey opts (mo_hash opts e)) e"

text \<open>The options of this theory: 32-byte hashes and no pruning.\<close>

definition plain_opts :: "mpt_opts \<Rightarrow> bool" where
  "plain_opts opts \<longleftrightarrow> (\<forall>x. length (mo_hash opts x) = 32) \<and> \<not> mo_useNodePruning opts"

definition storable :: "mpt_opts \<Rightarrow> ptrie \<Rightarrow> bool" where
  "storable opts t \<longleftrightarrow> encodable (raw (nodeOf (mo_hash opts) t))"

lemma formatNode_top: "storable opts t \<Longrightarrow> formatNode opts (nodeOf (mo_hash opts) t) True False ops =
    Inr (NBytes (mo_hash opts (enc (mo_hash opts) t)), ops @ [putOp opts (enc (mo_hash opts) t)])"
  by (simp add: storable_def formatNode_def node_serialize_eq enc_def putOp_def Let_def)

definition ownOps :: "mpt_opts \<Rightarrow> ptrie \<Rightarrow> db_ops" where
  "ownOps opts t = (if 32 \<le> length (enc (mo_hash opts) t) then [putOp opts (enc (mo_hash opts) t)] else [])"

lemma formatNode_inner: "storable opts t \<Longrightarrow> formatNode opts (nodeOf (mo_hash opts) t) False False ops =
    Inr (mkref (mo_hash opts) (nodeOf (mo_hash opts) t), ops @ ownOps opts t)"
  by (simp add: storable_def formatNode_def node_serialize_eq enc_def putOp_def Let_def mkref_def ownOps_def)

lemma set_ownOps: "set (ownOps opts t) = putOp opts ` own (mo_hash opts) t"
  by (simp add: ownOps_def own_def)

lemma formatNode_removed: "plain_opts opts \<Longrightarrow> storable opts t \<Longrightarrow>
    \<exists>ref. formatNode opts (nodeOf (mo_hash opts) t) b True ops = Inr (ref, ops)"
  by (simp add: plain_opts_def storable_def formatNode_def node_serialize_eq Let_def)

text \<open>The loop below the top of the trie.\<close>

fun saveInner :: "mpt_opts \<Rightarrow> nibbles \<Rightarrow> mpt_node list \<Rightarrow> nested option \<Rightarrow> db_ops \<Rightarrow>
    (nibbles \<times> nested option \<times> db_ops) res" where
  "saveInner opts nib [] child ops = Inr (nib, child, ops)"
| "saveInner opts nib (node # rest) child ops = (case wireChild nib node child of (node', nib') \<Rightarrow>
     and_then (formatNode opts node' False False ops) (\<lambda>(ref, ops').
       saveInner opts nib' rest (Some ref) ops'))"

lemma saveInner_append: "saveInner opts nib (xs @ ys) child ops =
    and_then (saveInner opts nib xs child ops) (\<lambda>(nib', child', ops'). saveInner opts nib' ys child' ops')"
  by (induction xs arbitrary: nib child ops) (auto simp: and_then_assoc split: prod.split intro!: arg_cong [where f = "and_then _"])

lemma saveLoop_append: "ys \<noteq> [] \<Longrightarrow> saveLoop opts nib (xs @ ys) child ops =
    and_then (saveInner opts nib xs child ops) (\<lambda>(nib', child', ops'). saveLoop opts nib' ys child' ops')"
  by (induction xs arbitrary: nib child ops) (auto simp: and_then_assoc split: prod.split intro!: arg_cong [where f = "and_then _"])

text \<open>
  Saving the stack \<open>ns\<close>, whose path is \<open>K\<close>, arrives at the root of the trie \<open>t\<close>, and every node of
  \<open>t\<close> is among the puts or already in \<open>W\<close>.
\<close>

definition builds :: "mpt_opts \<Rightarrow> bytes set \<Rightarrow> nibbles \<Rightarrow> mpt_node list \<Rightarrow> db_ops \<Rightarrow> ptrie \<Rightarrow> db_ops \<Rightarrow> bool" where
  "builds opts W K ns ops t ops' \<longleftrightarrow> (\<exists>top rest. ns = top # rest \<and>
     (\<forall>pre. \<exists>nib child. saveInner opts (pre @ K) (rev rest) None ops = Inr (nib, child, ops') \<and>
        wireChild nib top child = (nodeOf (mo_hash opts) t, pre))) \<and>
     set ops \<subseteq> set ops' \<and> set ops' \<subseteq> set ops \<union> putOp opts ` under (mo_hash opts) t \<and>
     (\<forall>e \<in> under (mo_hash opts) t. e \<in> W \<or> putOp opts e \<in> set ops')"

lemma builds_stack: "builds opts W K ns ops t ops' \<Longrightarrow> \<exists>top rest. ns = top # rest \<and>
     (\<forall>pre. \<exists>nib child. saveInner opts (pre @ K) (rev rest) None ops = Inr (nib, child, ops') \<and>
        wireChild nib top child = (nodeOf (mo_hash opts) t, pre))"
  by (simp only: builds_def)

lemma builds_puts:
  assumes "builds opts W K ns ops t ops'"
  shows "set ops \<subseteq> set ops'" and "set ops' \<subseteq> set ops \<union> putOp opts ` under (mo_hash opts) t"
    and "\<forall>e \<in> under (mo_hash opts) t. e \<in> W \<or> putOp opts e \<in> set ops'"
  using assms unfolding builds_def by blast+

lemma cutEnd_append [simp]: "cutEnd (length p) (xs @ p) = xs"
  by (simp add: cutEnd_def)

lemma builds_bottom:
  assumes "\<forall>e \<in> under (mo_hash opts) t. e \<in> W \<or> putOp opts e \<in> set ops"
  shows "builds opts W (nodeKey (nodeOf (mo_hash opts) t)) [nodeOf (mo_hash opts) t] ops t ops"
  using assms by (cases t) (simp_all add: builds_def)

text \<open>A stack below an extension or a slot of a branch.\<close>

lemma builds_step:
  assumes "builds opts W K ns ops t ops'" and "storable opts t"
    and wire: "\<And>pre. wireChild (pre @ q) node (Some (mkref (mo_hash opts) (nodeOf (mo_hash opts) t))) =
      (nodeOf (mo_hash opts) u, pre)"
    and sub: "own (mo_hash opts) t \<union> under (mo_hash opts) t \<subseteq> under (mo_hash opts) u"
    and old: "\<forall>e \<in> under (mo_hash opts) u. e \<in> own (mo_hash opts) t \<union> under (mo_hash opts) t \<union> W \<or> putOp opts e \<in> set ops"
  shows "builds opts W (q @ K) (node # ns) ops u (ops' @ ownOps opts t)"
proof -
  let ?H = "mo_hash opts" and ?ops = "ops' @ ownOps opts t"
  obtain top rest where ns: "ns = top # rest"
    and run: "\<forall>pre. \<exists>nib child. saveInner opts (pre @ K) (rev rest) None ops = Inr (nib, child, ops') \<and>
        wireChild nib top child = (nodeOf ?H t, pre)"
    using builds_stack [OF assms(1)] by (elim exE conjE) (rule that)
  note puts = builds_puts [OF assms(1)]
  have "\<exists>nib child. saveInner opts (pre @ q @ K) (rev ns) None ops = Inr (nib, child, ?ops) \<and>
      wireChild nib node child = (nodeOf ?H u, pre)" for pre
  proof -
    obtain nib child where "saveInner opts ((pre @ q) @ K) (rev rest) None ops = Inr (nib, child, ops')"
      "wireChild nib top child = (nodeOf ?H t, pre @ q)" using run by blast
    then have "saveInner opts (pre @ q @ K) (rev ns) None ops =
        Inr (pre @ q, Some (mkref ?H (nodeOf ?H t)), ?ops)"
      by (simp add: ns saveInner_append formatNode_inner assms(2))
    then show ?thesis using wire by blast
  qed
  moreover have "set ops \<subseteq> set ?ops" using puts(1) by auto
  moreover have "set ?ops \<subseteq> set ops \<union> putOp opts ` under ?H u"
    using puts(2) image_mono [OF sub, of "putOp opts"] unfolding image_Un set_append set_ownOps by blast
  moreover have "\<forall>e \<in> under ?H u. e \<in> W \<or> putOp opts e \<in> set ?ops"
    using puts(1,3) old unfolding set_append set_ownOps by blast
  ultimately show ?thesis by (simp add: builds_def)
qed

lemma builds_ext:
  assumes "builds opts W K ns ops t ops'" and "storable opts t"
  shows "builds opts W (p @ K) (ExtensionNode p v # ns) ops (PExt p t) (ops' @ ownOps opts t)"
  by (rule builds_step [OF assms]) simp_all

lemma builds_slot:
  assumes "builds opts W K ns ops t ops'" and "storable opts t" and "i < 16"
    and old: "\<forall>e \<in> under (mo_hash opts) (PBranch f w). e \<in> W \<or> putOp opts e \<in> set ops"
  shows "builds opts W (i # K) (nodeOf (mo_hash opts) (PBranch f w) # ns) ops (PBranch (f(i \<mapsto> t)) w)
    (ops' @ ownOps opts t)"
proof -
  let ?H = "mo_hash opts"
  have "builds opts W ([i] @ K) (nodeOf ?H (PBranch f w) # ns) ops (PBranch (f(i \<mapsto> t)) w) (ops' @ ownOps opts t)"
  proof (rule builds_step [OF assms(1,2)])
    show "wireChild (pre @ [i]) (nodeOf ?H (PBranch f w)) (Some (mkref ?H (nodeOf ?H t))) =
        (nodeOf ?H (PBranch (f(i \<mapsto> t)) w), pre)" for pre
      using setBranch_nodeOf [OF assms(3), of ?H t f w] by (simp add: setPopped_def)
    show "own ?H t \<union> under ?H t \<subseteq> under ?H (PBranch (f(i \<mapsto> t)) w)"
      by (rule under_child [where i = i]) simp
    show "\<forall>e \<in> under ?H (PBranch (f(i \<mapsto> t)) w). e \<in> own ?H t \<union> under ?H t \<union> W \<or> putOp opts e \<in> set ops"
      using under_upd [of ?H f i t w] old by blast
  qed
  then show ?thesis by simp
qed

text \<open>The whole stack: the root of the trie is stored in any case.\<close>

lemma builds_saveLoop:
  assumes "builds opts W K ns ops t ops'" and "storable opts t"
  shows "saveLoop opts K (rev ns) None ops = Inr (Some (NBytes (mo_hash opts (enc (mo_hash opts) t))),
    ops' @ [putOp opts (enc (mo_hash opts) t)])"
proof -
  obtain top rest where ns: "ns = top # rest"
    and run: "\<forall>pre. \<exists>nib child. saveInner opts (pre @ K) (rev rest) None ops = Inr (nib, child, ops') \<and>
        wireChild nib top child = (nodeOf (mo_hash opts) t, pre)"
    using builds_stack [OF assms(1)] by (elim exE conjE) (rule that)
  obtain nib child where "saveInner opts ([] @ K) (rev rest) None ops = Inr (nib, child, ops')"
    "wireChild nib top child = (nodeOf (mo_hash opts) t, [])" using run by blast
  then show ?thesis by (simp add: ns saveLoop_append formatNode_top assms(2))
qed

section \<open>Paths through a trie\<close>

text \<open>The subtries along a path, the part of the path left at the last one, and where it ends.\<close>

fun ptrail :: "ptrie \<Rightarrow> nibbles \<Rightarrow> ptrie list" where
  "ptrail (PLeaf p v) k = [PLeaf p v]"
| "ptrail (PExt p t) k = PExt p t # (if take (length p) k = p then ptrail t (drop (length p) k) else [])"
| "ptrail (PBranch f w) [] = [PBranch f w]"
| "ptrail (PBranch f w) (i # k) = PBranch f w # (case f i of None \<Rightarrow> [] | Some t \<Rightarrow> ptrail t k)"

fun prest :: "ptrie \<Rightarrow> nibbles \<Rightarrow> nibbles" where
  "prest (PLeaf p v) k = k"
| "prest (PExt p t) k = (if take (length p) k = p then prest t (drop (length p) k) else k)"
| "prest (PBranch f w) [] = []"
| "prest (PBranch f w) (i # k) = (case f i of None \<Rightarrow> i # k | Some t \<Rightarrow> prest t k)"

fun pend :: "ptrie \<Rightarrow> nibbles \<Rightarrow> ptrie option \<times> nibbles" where
  "pend (PLeaf p v) k = (if k = p then (Some (PLeaf p v), []) else (None, k))"
| "pend (PExt p t) k = (if take (length p) k = p then pend t (drop (length p) k) else (None, k))"
| "pend (PBranch f w) [] = (Some (PBranch f w), [])"
| "pend (PBranch f w) (i # k) = (case f i of None \<Rightarrow> (None, i # k) | Some t \<Rightarrow> pend t k)"

lemma ptrail_not_Nil [simp]: "ptrail t k \<noteq> []"
  by (cases t; cases k) simp_all

lemma butlast_ptrail [simp]: "butlast (x # ptrail t k) = x # butlast (ptrail t k)"
  by simp

fun pend_at :: "ptrie \<Rightarrow> nibbles \<Rightarrow> ptrie option \<times> nibbles" where
  "pend_at (PLeaf p v) r = (if r = p then (Some (PLeaf p v), []) else (None, r))"
| "pend_at (PExt p u) r = (None, r)"
| "pend_at (PBranch f w) r = (if r = [] then (Some (PBranch f w), []) else (None, r))"

lemma pend_last: "pend t k = pend_at (last (ptrail t k)) (prest t k)"
  by (induction t k rule: pend.induct) (auto split: option.split)

lemma ptrail_steps: "drop (sum_list (map nodeSteps (map (nodeOf H) (butlast (ptrail t k))))) k = prest t k"
proof (induction t k rule: pend.induct)
  case (2 p t k)
  then show ?case by (auto simp: take_prefix_iff nodeSteps_def isBranch_def)
next
  case (4 f w i k)
  then show ?case by (auto simp: nodeSteps_def isBranch_def split: option.split)
qed simp_all

lemma pend_get: "(case pend t k of (Some u, []) \<Rightarrow> nodeValue (nodeOf H u) | _ \<Rightarrow> None) =
    (if pget t k = [] then None else Some (NBytes (pget t k)))" if "canonical t"
  using that
proof (induction t k rule: pend.induct)
  case (2 p t k)
  then show ?case by auto
next
  case (3 f w)
  then show ?case by (simp add: present_def)
next
  case (4 f w i k)
  then show ?case by (auto split: option.split)
qed auto

section \<open>Updating\<close>

lemma splitNode_prefix: "splitNode opts rest v (below @ stack) n =
    and_then (splitNode opts rest v stack n) (\<lambda>(ns, ops). Inr (below @ ns, ops))"
  unfolding splitNode_def Let_def and_then_assoc
  by (rule arg_cong [where f = "and_then _"]) (auto simp: addToBranch_def fun_eq_iff)

text \<open>What \<open>updateNode\<close> puts in the place of the last node.\<close>

definition newTail :: "mpt_opts \<Rightarrow> bool \<Rightarrow> nibbles \<Rightarrow> bytes \<Rightarrow> mpt_node \<Rightarrow> (mpt_node list \<times> db_ops) res" where
  "newTail opts matches rest v n =
     (if matches then Inr ([setValue (Some (NBytes v)) n], [])
      else if isBranch n then Inr (addToBranch rest v [] n, [])
      else splitNode opts rest v [] n)"

lemma updateNode_newTail:
  assumes "stack \<noteq> []" and "newTail opts (isMatchingLeafUpdate (last stack) (butlast stack) (bytesToNibbles key) rest)
    rest v (last stack) = Inr (ns, ops)"
  shows "updateNode opts D key v rest stack s = saveStack opts D (bytesToNibbles key) (butlast stack @ ns) ops s"
  using assms splitNode_prefix [of opts rest v "butlast stack" "[]" "last stack"]
  by (auto simp: updateNode_def newTail_def Let_def addToBranch_def resM_def seqE_run split: if_splits)

text \<open>The three cases, in terms of the trie.\<close>

lemma matching_ptrail:
  assumes "canonical t"
  shows "isMatchingLeafUpdate (nodeOf H (last (ptrail t k))) (map (nodeOf H) (butlast (ptrail t k))) k (snd (pend t k))
    \<longleftrightarrow> (\<exists>p v. last (ptrail t k) = PLeaf p v \<and> prest t k = p)"
proof (cases "last (ptrail t k)")
  case (PLeaf p v)
  have m: "matchingNibbleLength p p = length p" for p :: nibbles by (induction p) auto
  show ?thesis unfolding isMatchingLeafUpdate_def ptrail_steps using PLeaf
    by (cases "prest t k") (auto simp: pend_last isLeaf_def m)
qed (simp_all add: isMatchingLeafUpdate_def isLeaf_def)

text \<open>Tries whose nodes all have an encoding.\<close>

definition sized :: "mpt_opts \<Rightarrow> nat \<Rightarrow> nat \<Rightarrow> ptrie \<Rightarrow> bool" where
  "sized opts n N t \<longleftrightarrow> plain_opts opts \<and> n < 2 ^ 40 \<and> N < 2 ^ 40 \<and> within n N t"

lemma sized_storable: "sized opts n N t \<Longrightarrow> storable opts t"
  unfolding storable_def sized_def plain_opts_def by (rule encodable_nodeOf [of n N]) blast+

lemma sized_child:
  "sized opts n N (PExt p t) \<Longrightarrow> sized opts (n - length p) N t"
  "sized opts n N (PBranch f w) \<Longrightarrow> f i = Some t \<Longrightarrow> sized opts (n - 1) N t"
  by (auto simp: sized_def)

lemma builds_mono: "builds opts W K ns ops t ops' \<Longrightarrow> W \<subseteq> W' \<Longrightarrow> builds opts W' K ns ops t ops'"
  by (auto simp: builds_def)

lemma hang_builds:
  assumes "\<forall>e \<in> under (mo_hash opts) (PBranch f w). e \<in> W \<or> putOp opts e \<in> set ops"
    and "nibs k" and "plain_opts opts" and "length k < 2 ^ 40" and "length v < 2 ^ 40"
  shows "\<exists>ops'. builds opts W k (addToBranch k v [] (nodeOf (mo_hash opts) (PBranch f w))) ops (hang k v f w) ops'"
proof (cases k)
  case Nil
  have "under (mo_hash opts) (PBranch f v) = under (mo_hash opts) (PBranch f w)" unfolding under_branch ..
  then show ?thesis using builds_bottom [of opts "PBranch f v" W ops] assms(1) Nil by (auto simp: addToBranch_def)
next
  case (Cons i k')
  have "storable opts (PLeaf k' v)"
    using assms Cons by (intro sized_storable [where n = "length k" and N = "length v"]) (simp add: sized_def)
  moreover have "builds opts W k' [LeafNode k' (NBytes v)] ops (PLeaf k' v) ops"
    using builds_bottom [of opts "PLeaf k' v" W ops] by simp
  ultimately show ?thesis using builds_slot [of opts W k' _ ops "PLeaf k' v" ops i f w] assms(1,2) Cons
    by (auto simp: addToBranch_def)
qed

lemma own_hang_join:
  assumes "k \<noteq> [] \<Longrightarrow> hd k \<noteq> i"
  shows "own H u \<subseteq> under H (join c (hang k v [i \<mapsto> u] w))"
proof -
  have "own H u \<subseteq> under H (hang k v [i \<mapsto> u] w)"
  proof (cases k)
    case Nil
    then show ?thesis using under_child [of "[i \<mapsto> u]" i u H v] by simp
  next
    case (Cons j k')
    then have "([i \<mapsto> u](j \<mapsto> PLeaf k' v)) i = Some u" using assms by simp
    from under_child [where f = "[i \<mapsto> u](j \<mapsto> PLeaf k' v)" and i = i, OF this, of H w]
    show ?thesis using Cons by (simp del: fun_upd_apply under.simps)
  qed
  then show ?thesis by (auto simp: join_def simp del: under.simps(3))
qed

text \<open>A branch with one child, where a node is split.\<close>

lemma splitNode_builds:
  assumes last: "nodeKey n = c @ i # q" and "apart (i # q) k"
    and child: "if q \<noteq> [] \<or> isLeaf n
      then formatNode opts (setKey q n) False False [] = Inr (mkref (mo_hash opts) (nodeOf (mo_hash opts) u), ops)
      else nodeValue n = Some (mkref (mo_hash opts) (nodeOf (mo_hash opts) u)) \<and> ops = [] \<and>
        (\<exists>ref. formatNode opts n False True [] = Inr (ref, []))"
    and ops: "\<forall>e \<in> own (mo_hash opts) u \<union> under (mo_hash opts) u. e \<in> W \<or> putOp opts e \<in> set ops"
    and "i < 16" and "nibs k" and "plain_opts opts" and "length c + length k < 2 ^ 40" and "length v < 2 ^ 40"
    and stor: "storable opts (hang k v [i \<mapsto> u] [])"
  shows "\<exists>ns ops'. splitNode opts (c @ k) v [] n = Inr (ns, ops) \<and>
    builds opts W (c @ k) ns ops (join c (hang k v [i \<mapsto> u] [])) ops'"
proof -
  let ?H = "mo_hash opts" and ?br = "PBranch [i \<mapsto> u] []"
  let ?ext = "if c = [] then [] else [ExtensionNode c (NBytes v)]"
  have m: "matchingNibbleLength (nodeKey n) (c @ k) = length c"
    using last assms(2) by (simp add: matching_append matching_apart)
  have branch: "setBranch i (mkref ?H (nodeOf ?H u)) newBranch = nodeOf ?H ?br"
    unfolding newBranch_nodeOf [of ?H] by (rule setBranch_nodeOf [OF assms(5)])
  have "splitNode opts (c @ k) v [] n = Inr (addToBranch k v ?ext (nodeOf ?H ?br), ops)"
  proof (cases "q \<noteq> [] \<or> isLeaf n")
    case True
    then have "formatNode opts (setKey q n) False False [] = Inr (mkref ?H (nodeOf ?H u), ops)" using child by simp
    then show ?thesis unfolding splitNode_def Let_def m using True last branch by (auto simp del: nodeOf.simps)
  next
    case False
    then obtain ref where "nodeValue n = Some (mkref ?H (nodeOf ?H u))" "ops = []"
      "formatNode opts n False True [] = Inr (ref, [])" using child by auto
    then show ?thesis unfolding splitNode_def Let_def m using False last branch by (auto simp del: nodeOf.simps)
  qed
  moreover have "addToBranch k v ?ext (nodeOf ?H ?br) = ?ext @ addToBranch k v [] (nodeOf ?H ?br)"
    by (simp add: addToBranch_def)
  moreover have "\<forall>e \<in> under ?H ?br. e \<in> W \<or> putOp opts e \<in> set ops"
    using ops unfolding under_branch by (auto split: if_splits)
  then obtain ops' where "builds opts W k (addToBranch k v [] (nodeOf ?H ?br)) ops (hang k v [i \<mapsto> u] []) ops'"
    using hang_builds assms(6-9) by (metis add_lessD1 add.commute)
  then have "\<exists>ops''. builds opts W (c @ k) (?ext @ addToBranch k v [] (nodeOf ?H ?br)) ops (join c (hang k v [i \<mapsto> u] [])) ops''"
    using builds_ext [OF _ stor, of W k _ ops ops' c "NBytes v"] by (auto simp: join_def)
  ultimately show ?thesis by auto
qed

lemma matches_last: "(\<exists>p v. PLeaf q w = PLeaf p v \<and> r = p) \<longleftrightarrow> r = q" "\<not> (\<exists>p v. PExt q t = PLeaf p v \<and> r = p)"
  "\<not> (\<exists>p v. PBranch f w = PLeaf p v \<and> r = p)"
  by auto

lemma split_leaf_builds:
  assumes "apart p k" "p \<noteq> k" "sized opts n N (PLeaf (c @ p) w)" "canonical (PLeaf (c @ p) w)" "nibs k"
    "length (c @ k) \<le> n" "length v \<le> N"
  shows "\<exists>ns ops ops'. splitNode opts (c @ k) v [] (LeafNode (c @ p) (NBytes w)) = Inr (ns, ops) \<and>
    set ops \<subseteq> putOp opts ` under (mo_hash opts) (join c (splitLeaf p w k v)) \<and>
    builds opts W (c @ k) ns ops (join c (splitLeaf p w k v)) ops'"
proof (cases p)
  case Nil
  let ?H = "mo_hash opts" and ?br = "PBranch Map.empty w"
  let ?ext = "if c = [] then [] else [ExtensionNode c (NBytes v)]"
  have m: "matchingNibbleLength (nodeKey (LeafNode (c @ p) (NBytes w))) (c @ k) = length c"
    using Nil matching_append [of c "[]" k] by simp
  have "setValue (nodeValue (LeafNode (c @ p) (NBytes w))) newBranch = nodeOf ?H ?br"
    unfolding newBranch_nodeOf [of ?H] by simp
  then have "splitNode opts (c @ k) v [] (LeafNode (c @ p) (NBytes w)) = Inr (addToBranch k v ?ext (nodeOf ?H ?br), [])"
    unfolding splitNode_def Let_def m using Nil by (auto simp del: nodeOf.simps)
  moreover have "addToBranch k v ?ext (nodeOf ?H ?br) = ?ext @ addToBranch k v [] (nodeOf ?H ?br)"
    by (simp add: addToBranch_def)
  moreover have "\<forall>e \<in> under ?H ?br. e \<in> W \<or> putOp opts e \<in> set []" unfolding under_branch by simp
  then obtain ops' where "builds opts W k (addToBranch k v [] (nodeOf ?H ?br)) [] (hang k v Map.empty w) ops'"
    using hang_builds [of opts Map.empty w W "[]" k v] assms by (auto simp: sized_def)
  moreover have "storable opts (hang k v Map.empty w)"
    using assms Nil within_split(1) [of k n v N p w] by (intro sized_storable [of _ n N]) (auto simp: sized_def)
  ultimately have "builds opts W (c @ k) (addToBranch k v ?ext (nodeOf ?H ?br)) [] (join c (hang k v Map.empty w))
      (ops' @ (if c = [] then [] else ownOps opts (hang k v Map.empty w)))"
    using builds_ext [of opts W k _ "[]" "hang k v Map.empty w" ops' c "NBytes v"] by (auto simp: join_def)
  then show ?thesis using \<open>splitNode opts (c @ k) v [] _ = _\<close> Nil by auto
next
  case (Cons i q)
  let ?H = "mo_hash opts" and ?u = "PLeaf q w"
  have u: "storable opts ?u" using assms Cons by (intro sized_storable [of _ n N]) (auto simp: sized_def)
  have "within n N (splitLeaf p w k v)" using assms by (intro within_split) (auto simp: sized_def)
  then have "storable opts (hang k v [i \<mapsto> ?u] [])"
    using assms(3) Cons by (intro sized_storable [of _ n N]) (auto simp: sized_def)
  then have "\<exists>ns ops'. splitNode opts (c @ k) v [] (LeafNode (c @ p) (NBytes w)) = Inr (ns, ownOps opts ?u) \<and>
      builds opts W (c @ k) ns (ownOps opts ?u) (join c (hang k v [i \<mapsto> ?u] [])) ops'"
    using assms Cons formatNode_inner [OF u, of "[]"]
    by (intro splitNode_builds [where q = q]) (auto simp: isLeaf_def set_ownOps sized_def)
  moreover have "own ?H ?u \<subseteq> under ?H (join c (hang k v [i \<mapsto> ?u] []))"
    by (rule own_hang_join) (use assms(1) Cons in \<open>auto simp: apart_def\<close>)
  then have "set (ownOps opts ?u) \<subseteq> putOp opts ` under ?H (join c (hang k v [i \<mapsto> ?u] []))"
    unfolding set_ownOps by (rule image_mono)
  ultimately show ?thesis unfolding Cons splitLeaf.simps by blast
qed

lemma split_ext_builds:
  assumes "apart p k" "p \<noteq> []" "sized opts n N (PExt (c @ p) t)" "canonical (PExt (c @ p) t)" "nibs k"
    "length (c @ k) \<le> n" "length v \<le> N"
  shows "\<exists>ns ops ops'. splitNode opts (c @ k) v [] (nodeOf (mo_hash opts) (PExt (c @ p) t)) = Inr (ns, ops) \<and>
    set ops \<subseteq> putOp opts ` under (mo_hash opts) (join c (splitExt p t k v)) \<and>
    builds opts (under (mo_hash opts) (PExt (c @ p) t)) (c @ k) ns ops (join c (splitExt p t k v)) ops'"
proof -
  let ?H = "mo_hash opts"
  obtain i q where p: "p = i # q" using assms(2) by (cases p) auto
  let ?u = "join q t" and ?ops = "if q = [] then [] else ownOps opts (join q t)"
  have sz: "sized opts (n - length c - 1) N ?u" using assms(3) p by (auto simp: sized_def intro!: within_join)
  note u = sized_storable [OF sz] and whole = sized_storable [OF assms(3)]
  have plain: "plain_opts opts" "n < 2 ^ 40" "N < 2 ^ 40" using assms(3) by (auto simp: sized_def)
  have "within (n - length c) N (splitExt p t k v)"
    using assms by (intro within_split) (auto simp: sized_def)
  then have stor: "storable opts (hang k v [i \<mapsto> ?u] [])"
    using plain p by (intro sized_storable [of _ "n - length c" N]) (auto simp: sized_def)
  have child: "if q \<noteq> [] \<or> isLeaf (nodeOf ?H (PExt (c @ p) t))
      then formatNode opts (setKey q (nodeOf ?H (PExt (c @ p) t))) False False [] = Inr (mkref ?H (nodeOf ?H ?u), ?ops)
      else nodeValue (nodeOf ?H (PExt (c @ p) t)) = Some (mkref ?H (nodeOf ?H ?u)) \<and> ?ops = [] \<and>
        (\<exists>ref. formatNode opts (nodeOf ?H (PExt (c @ p) t)) False True [] = Inr (ref, []))"
    using formatNode_inner [OF u, of "[]"] formatNode_removed [OF plain(1) whole, of False "[]"]
    by (cases "q = []") (auto simp: isLeaf_def join_def)
  have "\<exists>ns ops'. splitNode opts (c @ k) v [] (nodeOf ?H (PExt (c @ p) t)) = Inr (ns, ?ops) \<and>
      builds opts (under ?H (PExt (c @ p) t)) (c @ k) ns ?ops (join c (hang k v [i \<mapsto> ?u] [])) ops'"
  proof (rule splitNode_builds [where q = q, OF _ _ child])
    show "\<forall>e \<in> own ?H ?u \<union> under ?H ?u. e \<in> under ?H (PExt (c @ p) t) \<or> putOp opts e \<in> set ?ops"
      by (cases "q = []") (auto simp: join_def set_ownOps)
  qed (use assms p plain stor in auto)
  moreover have "set ?ops \<subseteq> putOp opts ` own ?H ?u" by (simp add: set_ownOps)
  moreover have "own ?H ?u \<subseteq> under ?H (join c (hang k v [i \<mapsto> ?u] []))"
    by (rule own_hang_join) (use assms(1) p in \<open>auto simp: apart_def\<close>)
  ultimately show ?thesis unfolding p splitExt.simps by (meson image_mono subset_trans)
qed

lemma update_builds:
  assumes "canonical t" "nibs k" "sized opts n N t" "length k \<le> n" "length v \<le> N"
  shows "\<exists>ns ops ops'.
    newTail opts (\<exists>p w. last (ptrail t k) = PLeaf p w \<and> prest t k = p) (snd (pend t k)) v
      (nodeOf (mo_hash opts) (last (ptrail t k))) = Inr (ns, ops) \<and>
    set ops \<subseteq> putOp opts ` under (mo_hash opts) (pput t k v) \<and>
    builds opts (under (mo_hash opts) t) k (map (nodeOf (mo_hash opts)) (butlast (ptrail t k)) @ ns) ops (pput t k v) ops'"
  using assms
proof (induction t k v arbitrary: n rule: pput_induct)
  case (same p w v)
  then show ?case using builds_bottom [of opts "PLeaf p v" "{}" "[]"]
    by (simp add: newTail_def matches_last) blast
next
  case (split_leaf c p k w v)
  have "c @ k \<noteq> c @ p" using split_leaf(2) by simp
  then have "newTail opts (\<exists>p' w'. last (ptrail (PLeaf (c @ p) w) (c @ k)) = PLeaf p' w' \<and> prest (PLeaf (c @ p) w) (c @ k) = p')
      (snd (pend (PLeaf (c @ p) w) (c @ k))) v (nodeOf (mo_hash opts) (last (ptrail (PLeaf (c @ p) w) (c @ k)))) =
      splitNode opts (c @ k) v [] (LeafNode (c @ p) (NBytes w))"
    by (simp add: newTail_def matches_last isBranch_def)
  then show ?case using split_leaf_builds [of p k opts n N c w v "{}"] split_leaf
    by (simp add: pput_leaf_apart del: pput.simps)
next
  case (inside p t k v)
  let ?H = "mo_hash opts"
  have c: "canonical t" "nibs k" "sized opts (n - length p) N t" "length k \<le> n - length p"
    using inside.prems by (auto simp: sized_def)
  obtain ns ops ops' where *: "newTail opts (\<exists>p w. last (ptrail t k) = PLeaf p w \<and> prest t k = p) (snd (pend t k)) v
      (nodeOf ?H (last (ptrail t k))) = Inr (ns, ops)" "set ops \<subseteq> putOp opts ` under ?H (pput t k v)"
    "builds opts (under ?H t) k (map (nodeOf ?H) (butlast (ptrail t k)) @ ns) ops (pput t k v) ops'"
    using inside.IH [OF c(1,2,3,4) inside.prems(5)] by blast
  have "storable opts (pput t k v)"
    using c(3,4) inside.prems(5) by (intro sized_storable [of _ "n - length p" N]) (simp add: sized_def within_pput)
  then have "builds opts (under ?H (PExt p t)) (p @ k)
      (nodeOf ?H (PExt p t) # map (nodeOf ?H) (butlast (ptrail t k)) @ ns) ops (PExt p (pput t k v)) (ops' @ ownOps opts (pput t k v))"
    using builds_ext [OF builds_mono [OF *(3)], of "under ?H (PExt p t)" p] by simp
  moreover have "set ops \<subseteq> putOp opts ` under ?H (PExt p (pput t k v))" using *(2) by auto
  ultimately show ?case using *(1) by (simp del: under.simps nodeOf.simps) (auto simp del: under.simps)
next
  case (split_ext c p t k v)
  have "take (length (c @ p)) (c @ k) \<noteq> c @ p"
    using split_ext(1,2) by (cases p; cases k) (auto simp: apart_def)
  then have "newTail opts (\<exists>p' w'. last (ptrail (PExt (c @ p) t) (c @ k)) = PLeaf p' w' \<and> prest (PExt (c @ p) t) (c @ k) = p')
      (snd (pend (PExt (c @ p) t) (c @ k))) v (nodeOf (mo_hash opts) (last (ptrail (PExt (c @ p) t) (c @ k)))) =
      splitNode opts (c @ k) v [] (nodeOf (mo_hash opts) (PExt (c @ p) t))"
    "butlast (ptrail (PExt (c @ p) t) (c @ k)) = []"
    by (simp_all add: newTail_def isBranch_def)
  then show ?case using split_ext_builds [of p k opts n N c t v] split_ext
    by (simp add: pput_ext_apart del: pput.simps under.simps nodeOf.simps)
next
  case (here f w v)
  have "under (mo_hash opts) (PBranch f v) = under (mo_hash opts) (PBranch f w)" unfolding under_branch ..
  then have "builds opts (under (mo_hash opts) (PBranch f w)) [] [nodeOf (mo_hash opts) (PBranch f v)] [] (PBranch f v) []"
    using builds_bottom [of opts "PBranch f v" "under (mo_hash opts) (PBranch f w)" "[]"] by simp
  then show ?case by (simp add: newTail_def isBranch_def addToBranch_def) blast
next
  case (below f w i k v)
  let ?H = "mo_hash opts" and ?b = "PBranch f w"
  have i: "i < 16" "nibs k" "length k \<le> n - 1" "n > 0" and plain: "plain_opts opts" "n < 2 ^ 40" "N < 2 ^ 40"
    using below.prems by (auto simp: sized_def)
  show ?case
  proof (cases "f i")
    case None
    have "sized opts n N (PLeaf k v)" using i below.prems(5) plain by (simp add: sized_def)
    then have "builds opts (under ?H ?b) (i # k) [nodeOf ?H ?b, LeafNode k (NBytes v)] []
        (PBranch (f(i \<mapsto> PLeaf k v)) w) ([] @ ownOps opts (PLeaf k v))"
      using builds_bottom [of opts "PLeaf k v" "under ?H ?b" "[]"] i(1) by (intro builds_slot sized_storable) auto
    then show ?thesis using None
      by (simp add: newTail_def isBranch_def addToBranch_def matches_last del: under.simps) blast
  next
    case (Some t)
    have c: "canonical t" "sized opts (n - 1) N t" using below.prems Some by (auto simp: sized_def)
    obtain ns ops ops' where *: "newTail opts (\<exists>p w. last (ptrail t k) = PLeaf p w \<and> prest t k = p) (snd (pend t k)) v
        (nodeOf ?H (last (ptrail t k))) = Inr (ns, ops)" "set ops \<subseteq> putOp opts ` under ?H (pput t k v)"
      "builds opts (under ?H t) k (map (nodeOf ?H) (butlast (ptrail t k)) @ ns) ops (pput t k v) ops'"
      using below.IH [OF Some c(1) i(2) c(2) i(3) below.prems(5)] by blast
    have "storable opts (pput t k v)"
      using c(2) i below.prems(5) by (intro sized_storable [of _ "n - 1" N]) (simp add: sized_def within_pput)
    moreover have "under ?H t \<subseteq> under ?H ?b" using under_child [of f i t ?H w] Some by blast
    ultimately have "builds opts (under ?H ?b) (i # k)
        (nodeOf ?H ?b # map (nodeOf ?H) (butlast (ptrail t k)) @ ns) ops (PBranch (f(i \<mapsto> pput t k v)) w)
        (ops' @ ownOps opts (pput t k v))"
      using i(1) by (intro builds_slot builds_mono [OF *(3)]) auto
    moreover have "set ops \<subseteq> putOp opts ` under ?H (PBranch (f(i \<mapsto> pput t k v)) w)"
      using *(2) under_child [where f = "f(i \<mapsto> pput t k v)" and i = i and t = "pput t k v" and H = ?H and w = w]
      by (meson fun_upd_same image_mono order_trans sup.boundedE)
    ultimately show ?thesis using *(1) Some by (simp del: under.simps nodeOf.simps) blast
  qed
qed

end
