(* ===== verification/MptStore.thy ===== *)
theory MptStore
  imports MptRefine
begin

text \<open>
  The operations of the trie over a database that keeps the laws of a \<open>node_store\<close>: looking a
  path up, reading a value, saving a stack. The database holds a trie when it has the encoding
  of every node of it under the hash of the encoding. Hashes are taken to be injective on the
  nodes at hand only.
\<close>

section \<open>A database that holds a trie\<close>

definition nodeKeyOf :: "mpt_opts \<Rightarrow> bytes \<Rightarrow> bytes" where
  "nodeKeyOf opts e = getDbKey opts (mo_hash opts e)"

fun holds_trie :: "mpt_opts \<Rightarrow> store_view \<Rightarrow> bytes \<Rightarrow> ptrie option \<Rightarrow> bool" where
  "holds_trie opts w root None \<longleftrightarrow> root = EMPTY_TRIE_ROOT opts \<and> w (nodeKeyOf opts [0x80]) = None"
| "holds_trie opts w root (Some t) \<longleftrightarrow> root = mo_hash opts (enc (mo_hash opts) t) \<and>
     w (nodeKeyOf opts [0x80]) = None \<and> (\<forall>e \<in> nodes (mo_hash opts) t. w (nodeKeyOf opts e) = Some e)"

text \<open>No two of the nodes at hand, the empty trie and the key of the root have the same hash.\<close>

definition no_clash :: "mpt_opts \<Rightarrow> bytes set \<Rightarrow> bool" where
  "no_clash opts S \<longleftrightarrow> inj_on (mo_hash opts) (S \<union> {[0x80], ROOT_DB_KEY})"

lemma getDbKey_inj [simp]: "getDbKey opts a = getDbKey opts b \<longleftrightarrow> a = b"
  by (simp add: getDbKey_def split: option.split)

lemma rlp_prefix_free: "encodable x \<Longrightarrow> encodable y \<Longrightarrow> rlp x = rlp y @ r \<Longrightarrow> x = y"
  using decode1_rlp [of x "[]"] decode1_rlp [of y r] by (metis Inr_inject Pair_inject append_Nil2)

lemma enc_special:
  assumes "storable opts t"
  shows "enc (mo_hash opts) t \<noteq> [0x80]" and "enc (mo_hash opts) t \<noteq> ROOT_DB_KEY"
proof -
  have no: "enc (mo_hash opts) t \<noteq> rlp (NBytes b) @ r" if "encodable (NBytes b)" for b r
  proof
    assume "enc (mo_hash opts) t = rlp (NBytes b) @ r"
    then have "raw (nodeOf (mo_hash opts) t) = NBytes b"
      using rlp_prefix_free [of "raw (nodeOf (mo_hash opts) t)" "NBytes b" r] assms that
      unfolding storable_def enc_def by blast
    then show False by (cases t) simp_all
  qed
  show "enc (mo_hash opts) t \<noteq> [0x80]" using no [of "[]" "[]"] by (simp add: encodable_def rlp_prefix_def)
  show "enc (mo_hash opts) t \<noteq> ROOT_DB_KEY"
    using no [of "[0x5f]" "tl ROOT_DB_KEY"] by (simp add: encodable_def ROOT_DB_KEY_def)
qed

lemma hash_special:
  assumes "no_clash opts S" "storable opts t" "enc (mo_hash opts) t \<in> S"
  shows "mo_hash opts (enc (mo_hash opts) t) \<noteq> EMPTY_TRIE_ROOT opts"
  using assms enc_special inj_onD [of "mo_hash opts" "S \<union> {[0x80], ROOT_DB_KEY}" "enc (mo_hash opts) t" "[0x80]"]
  by (auto simp: no_clash_def EMPTY_TRIE_ROOT_def)

text \<open>The nodes of a trie are encodings of tries.\<close>

lemma nodes_enc:
  assumes "sized opts n N t" "e \<in> nodes (mo_hash opts) t"
  shows "\<exists>u. storable opts u \<and> e = enc (mo_hash opts) u"
proof -
  have "e \<in> under (mo_hash opts) t \<Longrightarrow> sized opts n N t \<Longrightarrow> ?thesis" for t n
  proof (induction t arbitrary: n)
    case (PExt p t)
    then show ?case using sized_storable sized_child(1) by (auto simp: own_def split: if_splits) blast+
  next
    case (PBranch f w)
    obtain i u where i: "f i = Some u" "e \<in> own (mo_hash opts) u \<union> under (mo_hash opts) u"
      using PBranch.prems(1) unfolding under_branch by (auto split: option.splits)
    have u: "sized opts (n - 1) N u" using sized_child(2) [OF PBranch.prems(2) i(1)] .
    from i(2) show ?case
    proof
      assume "e \<in> own (mo_hash opts) u"
      then show ?thesis using sized_storable [OF u] by (auto simp: own_def split: if_splits)
    qed (use PBranch.IH [OF rangeI [of f i], of u "n - 1"] u i(1) in auto)
  qed simp
  then show ?thesis using assms sized_storable [OF assms(1)] by (auto simp: nodes_def)
qed

lemma nodes_special: "sized opts n N t \<Longrightarrow> e \<in> nodes (mo_hash opts) t \<Longrightarrow> e \<noteq> [0x80] \<and> e \<noteq> ROOT_DB_KEY"
  using nodes_enc enc_special by metis

lemma nodeKeyOf_inj: "no_clash opts S \<Longrightarrow> a \<in> S \<Longrightarrow> b \<in> S \<Longrightarrow> nodeKeyOf opts a = nodeKeyOf opts b \<longleftrightarrow> a = b"
  by (auto simp: no_clash_def nodeKeyOf_def inj_on_def)

lemma hash_not_key:
  assumes "plain_opts opts"
  shows "mo_hash opts x \<noteq> ROOT_DB_KEY"
proof
  assume eq: "mo_hash opts x = ROOT_DB_KEY"
  have "length (mo_hash opts x) = 32" using assms by (simp add: plain_opts_def)
  then show False by (simp add: eq ROOT_DB_KEY_def)
qed

lemma rootKey_apart:
  assumes "no_clash opts S" "e \<in> S" "e \<noteq> ROOT_DB_KEY" "length (mo_hash opts e) = 32"
  shows "nodeKeyOf opts e \<noteq> getDbKey opts (appliedKey opts ROOT_DB_KEY)"
proof (cases "mo_useKeyHashing opts")
  case True
  then show ?thesis using assms by (auto simp: no_clash_def nodeKeyOf_def appliedKey_def inj_on_def)
next
  case False
  then show ?thesis using assms(4) by (auto simp: nodeKeyOf_def appliedKey_def ROOT_DB_KEY_def)
qed

lemma apply_puts:
  assumes "no_clash opts S" and "set ops \<subseteq> putOp opts ` S" and "e \<in> S"
    and "putOp opts e \<in> set ops \<or> w (nodeKeyOf opts e) = Some e"
  shows "apply_ops ops w (nodeKeyOf opts e) = Some e"
  using assms(2,4)
proof (induction ops arbitrary: w)
  case (Cons op' ops)
  obtain d where d: "op' = putOp opts d" "d \<in> S" using Cons.prems(1) by auto
  have "putOp opts e = putOp opts d \<Longrightarrow> e = d" by (simp add: putOp_def)
  then have "putOp opts e \<in> set ops \<or> (w(nodeKeyOf opts d \<mapsto> d)) (nodeKeyOf opts e) = Some e"
    using Cons.prems(2) d nodeKeyOf_inj [OF assms(1) d(2) assms(3)] by auto
  then show ?case using Cons.IH [of "w(nodeKeyOf opts d \<mapsto> d)"] Cons.prems(1) d(1)
    by (simp add: putOp_def nodeKeyOf_def del: fun_upd_apply)
qed simp

lemma apply_puts_other: "set ops \<subseteq> putOp opts ` S \<Longrightarrow> k \<notin> nodeKeyOf opts ` S \<Longrightarrow> apply_ops ops w k = w k"
  by (induction ops arbitrary: w) (auto simp: putOp_def nodeKeyOf_def)

lemma empty_key_apart:
  assumes "no_clash opts S" "[0x80] \<notin> S"
  shows "nodeKeyOf opts [0x80] \<notin> nodeKeyOf opts ` S"
  using assms by (auto simp: no_clash_def nodeKeyOf_def inj_on_def)

text \<open>The entry of the persisted root is no node.\<close>

lemma holds_persist:
  assumes "holds_trie opts w root to" and "no_clash opts (\<Union>t \<in> set_option to. nodes (mo_hash opts) t)"
    and "plain_opts opts" and "\<And>t. to = Some t \<Longrightarrow> sized opts n N t"
    and "\<And>k. k \<noteq> getDbKey opts (appliedKey opts ROOT_DB_KEY) \<Longrightarrow> w' k = w k"
  shows "holds_trie opts w' root to"
proof -
  have "mo_hash opts [0x80] \<noteq> mo_hash opts ROOT_DB_KEY"
    using assms(2) by (auto simp: no_clash_def ROOT_DB_KEY_def inj_on_def)
  then have "nodeKeyOf opts [0x80] \<noteq> getDbKey opts (appliedKey opts ROOT_DB_KEY)"
    using hash_not_key [OF assms(3), of "[0x80]"] by (auto simp: nodeKeyOf_def appliedKey_def)
  moreover have "nodeKeyOf opts e \<noteq> getDbKey opts (appliedKey opts ROOT_DB_KEY)"
    if "to = Some t" "e \<in> nodes (mo_hash opts) t" for t e
    using rootKey_apart [OF assms(2), of e] nodes_special [OF assms(4) [OF that(1)] that(2)] that assms(3)
    by (auto simp: plain_opts_def)
  ultimately show ?thesis using assms(1,5) by (cases to) auto
qed

section \<open>Stacks of a walk\<close>

lemma somes_clear [simp]: "[n. Some n \<leftarrow> replicate m None] = []"
  by (induction m) auto

lemma js_store_clear:
  assumes "length xs \<le> p"
  shows "\<exists>m'. js_store p x (xs @ replicate m None) = (xs @ replicate (p - length xs) None @ [Some x]) @ replicate m' None"
proof (cases "p < length xs + m")
  case True
  then have "replicate m None = replicate (p - length xs) None @ None # replicate (m - (p - length xs) - 1) (None :: 'a option)"
    using assms by (simp add: replicate_add [symmetric] replicate_Suc [symmetric] del: replicate_Suc)
  then show ?thesis using True assms
    by (intro exI [of _ "m - (p - length xs) - 1"]) (simp add: js_store_def list_update_append)
next
  case False
  then have "replicate m None @ replicate (p - (length xs + m)) None = replicate (p - length xs) (None :: 'a option)"
    using assms by (simp add: replicate_add [symmetric])
  then show ?thesis using False by (intro exI [of _ 0]) (simp add: js_store_def)
qed

section \<open>Reading\<close>

context node_store begin

text \<open>The trie is as before, for every reader, although the database may have cached something.\<close>

definition like :: "'d mpt \<Rightarrow> 'd mpt \<Rightarrow> bool" where
  "like s s' \<longleftrightarrow> inv (mpt_db s') \<and> mpt_root s' = mpt_root s \<and> view (mpt_db s') = view (mpt_db s) \<and>
     saved (mpt_db s') = saved (mpt_db s)"

lemma like_refl: "inv (mpt_db s) \<Longrightarrow> like s s"
  by (simp add: like_def)

lemma like_trans: "like s s' \<Longrightarrow> like s' s'' \<Longrightarrow> like s s''"
  by (simp add: like_def)

lemma lookup_raw: "node_ok n \<Longrightarrow> lookupNode opts D (raw n) s = (Inr n, s)"
  unfolding raw_items [of n] using decodeRaw_raw [of n]
  by (simp add: lookupNode_def resM_def del: decodeRawMPTNode.simps)

text \<open>A reference to a trie, and what must be in the database for it.\<close>

definition refers :: "mpt_opts \<Rightarrow> nested \<Rightarrow> bytes set \<Rightarrow> ptrie \<Rightarrow> bool" where
  "refers opts ref R t \<longleftrightarrow> (ref = mkref (mo_hash opts) (nodeOf (mo_hash opts) t) \<and> R = own (mo_hash opts) t) \<or>
     (ref = NBytes (mo_hash opts (enc (mo_hash opts) t)) \<and> R = {enc (mo_hash opts) t})"

lemma lookup_ref:
  assumes "inv (mpt_db s)" "canonical t" "storable opts t" "refers opts ref R t"
    and "\<forall>e \<in> R. view (mpt_db s) (nodeKeyOf opts e) \<in> {None, Some e}"
  shows "\<exists>s'. like s s' \<and> (lookupNode opts D ref s = (Inr (nodeOf (mo_hash opts) t), s') \<or>
    lookupNode opts D ref s = (Inl missingNode, s') \<and> enc (mo_hash opts) t \<in> R \<and>
      view (mpt_db s) (nodeKeyOf opts (enc (mo_hash opts) t)) = None)"
proof -
  let ?H = "mo_hash opts"
  let ?e = "enc ?H t"
  note ok = node_ok_nodeOf [OF assms(2), of ?H]
  consider (short) "ref = raw (nodeOf ?H t)" | (hash) "ref = NBytes (?H ?e)" "?e \<in> R"
    using assms(4) by (auto simp: refers_def mkref_def own_def enc_def split: if_splits)
  then show ?thesis
  proof cases
    case short
    then show ?thesis using lookup_raw [OF ok, of opts s] like_refl [OF assms(1)] by auto
  next
    case hash
    obtain d where d: "nd_get D (nodeKeyOf opts ?e) (mpt_db s) = (Inr (view (mpt_db s) (nodeKeyOf opts ?e)), d)"
      "inv d" "view d = view (mpt_db s)" "saved d = saved (mpt_db s)"
      using get_law [OF assms(1)] by blast
    have v: "view (mpt_db s) (nodeKeyOf opts ?e) \<in> {None, Some ?e}" using assms(5) hash(2) by blast
    have "decodeMPTNode ?e = Inr (nodeOf ?H t)"
      using decode_rlp_raw [OF ok] assms(3) by (simp add: enc_def storable_def)
    then have "lookupNode opts D ref s = ((case view (mpt_db s) (nodeKeyOf opts ?e) of None \<Rightarrow> Inl missingNode
        | Some _ \<Rightarrow> Inr (nodeOf ?H t)), s\<lparr>mpt_db := d\<rparr>)"
      using v d(1) hash(1) by (auto simp: lookupNode_def seqE_run dbM_def resM_def nodeKeyOf_def)
    moreover have "like s (s\<lparr>mpt_db := d\<rparr>)" using d by (simp add: like_def)
    ultimately show ?thesis using v hash(2) by auto
  qed
qed

text \<open>How a walk ends: at the end of the path, or at a node the database does not have.\<close>

definition walk_ends :: "mpt_opts \<Rightarrow> store_view \<Rightarrow> bytes set \<Rightarrow> ptrie \<Rightarrow> nibbles \<Rightarrow> mpt_node list \<Rightarrow> walk_end \<Rightarrow> bool" where
  "walk_ends opts w R t K ns r \<longleftrightarrow>
     (fst r = Inr (map_option (nodeOf (mo_hash opts)) (fst (pend t K)), snd (pend t K)) \<and>
       [n. Some n \<leftarrow> snd r] = ns @ map (nodeOf (mo_hash opts)) (ptrail t K)) \<or>
     (fst r = Inl missingNode \<and>
       (\<exists>e \<in> (R \<union> under (mo_hash opts) t) \<inter> enc (mo_hash opts) ` set (ptrail t K). w (nodeKeyOf opts e) = None))"

lemma follow_found:
  assumes "lookupNode opts D ref s = (Inr n, s1)"
  shows "followKey opts D target (Suc steps) ref p stack s =
    (let stack' = js_store p n stack; away = (Inr (Inr (None, drop p target), stack'), s1) in
     case n of
       BranchNode bs v \<Rightarrow> if p = length target then (Inr (Inr (Some n, []), stack'), s1)
         else (case getBranch n (target ! p) of None \<Rightarrow> away
           | Some child \<Rightarrow> followKey opts D target steps child (p + 1) stack' s1)
     | LeafNode key v \<Rightarrow> if length target - p > length key \<or> \<not> keyMatches key p target then away
         else (Inr (Inr (Some n, []), stack'), s1)
     | ExtensionNode key v \<Rightarrow> if keyMatches key p target
         then followKey opts D target steps v (p + length key) stack' s1 else away)"
  using assms by (cases n) (auto simp: seqE_run tryM_def Let_def split: option.split)

lemma follow_start:
  assumes "inv (mpt_db s)" "canonical t" "sized opts n N t" "refers opts ref R t"
    and "\<forall>e \<in> R \<union> under (mo_hash opts) t. view (mpt_db s) (nodeKeyOf opts e) \<in> {None, Some e}"
  obtains (found) s1 where "like s s1" "lookupNode opts D ref s = (Inr (nodeOf (mo_hash opts) t), s1)"
  | (missing) s1 r where "like s s1" "followKey opts D target (Suc steps) ref p stack s = (Inr r, s1)"
      "walk_ends opts (view (mpt_db s)) R t K ns r"
proof -
  obtain s1 where s1: "like s s1" "lookupNode opts D ref s = (Inr (nodeOf (mo_hash opts) t), s1) \<or>
    lookupNode opts D ref s = (Inl missingNode, s1) \<and> enc (mo_hash opts) t \<in> R \<and>
      view (mpt_db s) (nodeKeyOf opts (enc (mo_hash opts) t)) = None"
    using lookup_ref [OF assms(1,2) sized_storable [OF assms(3)] assms(4)] assms(5) by blast
  from s1(2) show ?thesis
  proof
    assume "lookupNode opts D ref s = (Inr (nodeOf (mo_hash opts) t), s1)"
    then show ?thesis using found s1(1) by blast
  next
    assume m: "lookupNode opts D ref s = (Inl missingNode, s1) \<and> enc (mo_hash opts) t \<in> R \<and>
      view (mpt_db s) (nodeKeyOf opts (enc (mo_hash opts) t)) = None"
    have "t \<in> set (ptrail t K)" by (cases t; cases K) simp_all
    then show ?thesis using m by (intro missing [OF s1(1)]) (auto simp: seqE_run tryM_def walk_ends_def)
  qed
qed

text \<open>The step from a node into a child.\<close>

lemma walk_ends_step:
  assumes "walk_ends opts w (own (mo_hash opts) u) u K' (ns @ [nodeOf (mo_hash opts) t]) r"
    and "own (mo_hash opts) u \<union> under (mo_hash opts) u \<subseteq> under (mo_hash opts) t"
    and "pend t K = pend u K'" and "ptrail t K = t # ptrail u K'"
  shows "walk_ends opts w R t K ns r"
  using assms(1)
proof (unfold walk_ends_def, elim disjE conjE bexE)
  fix e assume "e \<in> (own (mo_hash opts) u \<union> under (mo_hash opts) u) \<inter> enc (mo_hash opts) ` set (ptrail u K')"
    and "w (nodeKeyOf opts e) = None" and "fst r = Inl missingNode"
  then have "e \<in> (R \<union> under (mo_hash opts) t) \<inter> enc (mo_hash opts) ` set (ptrail t K)" "w (nodeKeyOf opts e) = None"
    using assms(2,4) by auto
  with \<open>fst r = Inl missingNode\<close> show "fst r = Inr (map_option (nodeOf (mo_hash opts)) (fst (pend t K)), snd (pend t K)) \<and>
      [n. Some n \<leftarrow> snd r] = ns @ map (nodeOf (mo_hash opts)) (ptrail t K) \<or>
    fst r = Inl missingNode \<and>
      (\<exists>e \<in> (R \<union> under (mo_hash opts) t) \<inter> enc (mo_hash opts) ` set (ptrail t K). w (nodeKeyOf opts e) = None)"
    by blast
qed (simp add: assms(3,4))

lemma follow:
  assumes "plain_opts opts" and "nibs target"
  shows "canonical t \<Longrightarrow> sized opts n N t \<Longrightarrow> refers opts ref R t \<Longrightarrow> p \<le> length target \<Longrightarrow>
    length target - p < steps \<Longrightarrow> length xs \<le> p \<Longrightarrow> inv (mpt_db s) \<Longrightarrow>
    \<forall>e \<in> R \<union> under (mo_hash opts) t. view (mpt_db s) (nodeKeyOf opts e) \<in> {None, Some e} \<Longrightarrow>
    \<exists>s' r. followKey opts D target steps ref p (xs @ replicate m None) s = (Inr r, s') \<and> like s s' \<and>
      walk_ends opts (view (mpt_db s)) R t (drop p target) [n. Some n \<leftarrow> xs] r"
proof (induction t arbitrary: n ref R p steps xs m s)
  case (PLeaf q v)
  let ?n = "nodeOf (mo_hash opts) (PLeaf q v)"
  obtain k where k: "steps = Suc k" using PLeaf.prems(5) by (cases steps) auto
  obtain m' where m': "js_store p ?n (xs @ replicate m None) =
      (xs @ replicate (p - length xs) None @ [Some ?n]) @ replicate m' None"
    using js_store_clear [OF PLeaf.prems(6)] by blast
  show ?case
  proof (rule follow_start [OF PLeaf.prems(7,1-3,8), where steps = k])
    fix s1 assume s1: "like s s1" "lookupNode opts D ref s = (Inr ?n, s1)"
    have "\<not> (length target - p > length q \<or> \<not> keyMatches q p target) \<longleftrightarrow> drop p target = q"
      by (auto simp: keyMatches_def)
    then show ?thesis unfolding k follow_found [OF s1(2)] using m' s1(1)
      by (auto simp: walk_ends_def Let_def)
  qed (use k in blast)
next
  case (PExt q u)
  let ?H = "mo_hash opts"
  let ?n = "nodeOf ?H (PExt q u)" and ?K = "drop p target"
  obtain k where k: "steps = Suc k" using PExt.prems(5) by (cases steps) auto
  obtain m' where m': "js_store p ?n (xs @ replicate m None) =
      (xs @ replicate (p - length xs) None @ [Some ?n]) @ replicate m' None"
    using js_store_clear [OF PExt.prems(6)] by blast
  show ?case
  proof (rule follow_start [OF PExt.prems(7,1-3,8), where steps = k])
    fix s1 assume s1: "like s s1" "lookupNode opts D ref s = (Inr ?n, s1)"
    show ?thesis
    proof (cases "keyMatches q p target")
      case False
      then show ?thesis unfolding k follow_found [OF s1(2)] using m' s1(1)
        by (auto simp: walk_ends_def Let_def keyMatches_def)
    next
      case True
      then have len: "p + length q \<le> length target" "1 \<le> length q"
        using PExt.prems(1,4) by (auto simp: keyMatches_def Suc_le_eq dest: arg_cong [where f = length])
      have "\<exists>s' r. followKey opts D target k (mkref ?H (nodeOf ?H u)) (p + length q)
          ((xs @ replicate (p - length xs) None @ [Some ?n]) @ replicate m' None) s1 = (Inr r, s') \<and> like s1 s' \<and>
        walk_ends opts (view (mpt_db s1)) (own ?H u) u (drop (p + length q) target)
          [n. Some n \<leftarrow> xs @ replicate (p - length xs) None @ [Some ?n]] r"
      proof (rule PExt.IH)
        show "canonical u" using PExt.prems(1) by simp
        show "sized opts (n - length q) N u" using sized_child(1) [OF PExt.prems(2)] .
        show "refers opts (mkref ?H (nodeOf ?H u)) (own ?H u) u" by (simp add: refers_def)
        show "\<forall>e \<in> own ?H u \<union> under ?H u. view (mpt_db s1) (nodeKeyOf opts e) \<in> {None, Some e}"
          using PExt.prems(8) s1(1) by (simp add: like_def)
      qed (use len k PExt.prems(5,6) s1(1) in \<open>auto simp: like_def simp del: One_nat_def\<close>)
      then obtain s' r where r: "followKey opts D target k (mkref ?H (nodeOf ?H u)) (p + length q)
          ((xs @ replicate (p - length xs) None @ [Some ?n]) @ replicate m' None) s1 = (Inr r, s')" "like s1 s'"
        "walk_ends opts (view (mpt_db s)) (own ?H u) u (drop (p + length q) target) ([n. Some n \<leftarrow> xs] @ [?n]) r"
        using s1(1) by (auto simp: like_def)
      have "take (length q) ?K = q" using True by (simp add: keyMatches_def)
      then have "walk_ends opts (view (mpt_db s)) R (PExt q u) ?K [n. Some n \<leftarrow> xs] r"
        by (intro walk_ends_step [OF r(3)]) (auto simp: add.commute)
      then show ?thesis unfolding k follow_found [OF s1(2)] using True m' r(1,2) like_trans [OF s1(1) r(2)]
        by (auto simp: Let_def)
    qed
  qed (use k in blast)
next
  case (PBranch f w)
  let ?H = "mo_hash opts"
  let ?n = "nodeOf ?H (PBranch f w)" and ?K = "drop p target"
  have H: "\<forall>x. length (?H x) = 32" using assms(1) by (simp add: plain_opts_def)
  obtain k where k: "steps = Suc k" using PBranch.prems(5) by (cases steps) auto
  obtain m' where m': "js_store p ?n (xs @ replicate m None) =
      (xs @ replicate (p - length xs) None @ [Some ?n]) @ replicate m' None"
    using js_store_clear [OF PBranch.prems(6)] by blast
  have br: "isBranch ?n" by (simp add: isBranch_def)
  show ?case
  proof (rule follow_start [OF PBranch.prems(7,1-3,8), where steps = k])
    fix s1 assume s1: "like s s1" "lookupNode opts D ref s = (Inr ?n, s1)"
    show ?thesis
    proof (cases "p = length target")
      case True
      then show ?thesis unfolding k follow_found [OF s1(2)] using m' s1(1)
        by (auto simp: walk_ends_def Let_def)
    next
      case False
      let ?i = "target ! p"
      have K: "?K = ?i # drop (Suc p) target" using False PBranch.prems(4) by (simp add: Cons_nth_drop_Suc)
      have i: "?i < 16" using assms(2) False PBranch.prems(4) by (auto simp: nibs_def)
      note child = getBranch_nodeOf [OF H i, of f w]
      show ?thesis
      proof (cases "f ?i")
        case None
        then show ?thesis unfolding k follow_found [OF s1(2)] using False m' s1(1) K child
          by (auto simp: walk_ends_def Let_def)
      next
        case (Some u)
        have "\<exists>s' r. followKey opts D target k (mkref ?H (nodeOf ?H u)) (p + 1)
            ((xs @ replicate (p - length xs) None @ [Some ?n]) @ replicate m' None) s1 = (Inr r, s') \<and> like s1 s' \<and>
          walk_ends opts (view (mpt_db s1)) (own ?H u) u (drop (p + 1) target)
            [n. Some n \<leftarrow> xs @ replicate (p - length xs) None @ [Some ?n]] r"
        proof (rule PBranch.IH [OF rangeI [of f ?i]])
          show "u \<in> set_option (f ?i)" using Some by simp
          show "canonical u" using PBranch.prems(1) Some by simp
          show "sized opts (n - 1) N u" using sized_child(2) [OF PBranch.prems(2) Some] .
          show "refers opts (mkref ?H (nodeOf ?H u)) (own ?H u) u" by (simp add: refers_def)
          show "\<forall>e \<in> own ?H u \<union> under ?H u. view (mpt_db s1) (nodeKeyOf opts e) \<in> {None, Some e}"
            using PBranch.prems(8) s1(1) under_child [where f = f and i = "target ! p", OF Some, of ?H w] by (auto simp: like_def)
        qed (use False Some k PBranch.prems(4-6) s1(1) in \<open>auto simp: like_def\<close>)
        then obtain s' r where r: "followKey opts D target k (mkref ?H (nodeOf ?H u)) (p + 1)
            ((xs @ replicate (p - length xs) None @ [Some ?n]) @ replicate m' None) s1 = (Inr r, s')" "like s1 s'"
          "walk_ends opts (view (mpt_db s)) (own ?H u) u (drop (p + 1) target) ([n. Some n \<leftarrow> xs] @ [?n]) r"
          using s1(1) by (auto simp: like_def)
        have "walk_ends opts (view (mpt_db s)) R (PBranch f w) ?K [n. Some n \<leftarrow> xs] r"
          using K Some under_child [where f = f and i = "target ! p", OF Some, of ?H w] by (intro walk_ends_step [OF r(3)]) auto
        then show ?thesis unfolding k follow_found [OF s1(2)] using False Some m' r(1,2) child like_trans [OF s1(1) r(2)]
          by (auto simp: Let_def)
      qed
    qed
  qed (use k in blast)
qed

lemma walk_steps: "length target < steps \<Longrightarrow> length target - 0 < steps"
  by simp

lemma findPath_some:
  assumes "plain_opts opts" "canonical t" "sized opts n N t" "2 * length key < mo_walkSteps opts" "inv (mpt_db s)"
    and "mpt_root s = mo_hash opts (enc (mo_hash opts) t)"
    and "\<forall>e \<in> nodes (mo_hash opts) t. view (mpt_db s) (nodeKeyOf opts e) \<in> {None, Some e}"
  defines "K \<equiv> bytesToNibbles key"
  obtains (ends) s' where "like s s'" "findPath opts D key throw s = (Inr \<lparr>path_node = map_option (nodeOf (mo_hash opts)) (fst (pend t K)),
      path_remaining = snd (pend t K), path_stack = map (nodeOf (mo_hash opts)) (ptrail t K)\<rparr>, s')"
  | (missing) s' st e where "like s s'" "e \<in> nodes (mo_hash opts) t \<inter> enc (mo_hash opts) ` set (ptrail t K)"
      "view (mpt_db s) (nodeKeyOf opts e) = None"
      "findPath opts D key throw s = (if throw then Inl missingNode
        else Inr \<lparr>path_node = None, path_remaining = [], path_stack = st\<rparr>, s')"
proof -
  let ?H = "mo_hash opts" and ?ref = "NBytes (mo_hash opts (enc (mo_hash opts) t))"
  have "nibs K" "length K - 0 < mo_walkSteps opts" using assms(4) by (simp_all add: K_def)
  moreover have "refers opts ?ref {enc ?H t} t" by (simp add: refers_def)
  ultimately obtain s' r where r: "followKey opts D K (mo_walkSteps opts) ?ref 0 ([] @ replicate (length K) None) s = (Inr r, s')"
    "like s s'" "walk_ends opts (view (mpt_db s)) {enc ?H t} t (drop 0 K) [n. Some n \<leftarrow> []] r"
    using follow [OF assms(1) _ assms(2,3), of K ?ref "{enc ?H t}" 0 "mo_walkSteps opts" "[]" s "length K"] assms(5,7)
    by (auto simp: nodes_def)
  from r(3) consider (e) "fst r = Inr (map_option (nodeOf ?H) (fst (pend t K)), snd (pend t K))"
      "[n. Some n \<leftarrow> snd r] = map (nodeOf ?H) (ptrail t K)"
    | (m) e where "fst r = Inl missingNode" "e \<in> nodes ?H t \<inter> enc ?H ` set (ptrail t K)" "view (mpt_db s) (nodeKeyOf opts e) = None"
    by (auto simp: walk_ends_def nodes_def)
  then show ?thesis
  proof cases
    case e
    have "findPath opts D key throw s = (Inr \<lparr>path_node = map_option (nodeOf ?H) (fst (pend t K)),
        path_remaining = snd (pend t K), path_stack = map (nodeOf ?H) (ptrail t K)\<rparr>, s')"
      using r(1) e by (cases r) (simp add: findPath_def Let_def seqE_run assms(6) K_def)
    then show ?thesis using ends r(2) by blast
  next
    case m
    have "findPath opts D key throw s = (if throw then Inl missingNode
        else Inr \<lparr>path_node = None, path_remaining = [], path_stack = [n. Some n \<leftarrow> snd r]\<rparr>, s')"
      using r(1) m(1) by (cases r) (simp add: findPath_def Let_def seqE_run assms(6) K_def)
    then show ?thesis using missing r(2) m by blast
  qed
qed

lemma findPath_none:
  assumes "inv (mpt_db s)" "mpt_root s = EMPTY_TRIE_ROOT opts" "view (mpt_db s) (nodeKeyOf opts [0x80]) = None"
    and "0 < mo_walkSteps opts"
  shows "\<exists>s'. like s s' \<and> findPath opts D key throw s =
    (if throw then Inl missingNode else Inr \<lparr>path_node = None, path_remaining = [], path_stack = []\<rparr>, s')"
proof -
  obtain d where d: "nd_get D (nodeKeyOf opts [0x80]) (mpt_db s) = (Inr None, d)"
    "inv d" "view d = view (mpt_db s)" "saved d = saved (mpt_db s)"
    using get_law [OF assms(1), of "nodeKeyOf opts [0x80]"] assms(3) by auto
  obtain k where k: "mo_walkSteps opts = Suc k" using assms(4) by (cases "mo_walkSteps opts") auto
  have "lookupNode opts D (NBytes (EMPTY_TRIE_ROOT opts)) s = (Inl missingNode, s\<lparr>mpt_db := d\<rparr>)"
    using d(1) by (simp add: lookupNode_def seqE_run dbM_def nodeKeyOf_def EMPTY_TRIE_ROOT_def)
  then have "findPath opts D key throw s =
    (if throw then Inl missingNode else Inr \<lparr>path_node = None, path_remaining = [], path_stack = []\<rparr>, s\<lparr>mpt_db := d\<rparr>)"
    by (simp add: findPath_def Let_def seqE_run tryM_def k assms(2))
  moreover have "like s (s\<lparr>mpt_db := d\<rparr>)" using d by (simp add: like_def)
  ultimately show ?thesis by blast
qed

text \<open>A value is read back.\<close>

lemma get_trie:
  assumes "plain_opts opts" and "\<And>t. to = Some t \<Longrightarrow> canonical t \<and> sized opts n N t"
    and "2 * length (appliedKey opts key) < mo_walkSteps opts" "inv (mpt_db s)"
    and "holds_trie opts (view (mpt_db s)) (mpt_root s) to"
  defines "v \<equiv> pgetO to (bytesToNibbles (appliedKey opts key))"
  shows "\<exists>s'. like s s' \<and> mpt_get opts D key False s = (Inr (if v = [] then None else Some (NBytes v)), s')"
proof (cases to)
  case None
  obtain s' where "like s s'" "findPath opts D (appliedKey opts key) False s =
      (Inr \<lparr>path_node = None, path_remaining = [], path_stack = []\<rparr>, s')"
    using findPath_none [of s opts "appliedKey opts key" False] assms(3-5) None by auto
  then show ?thesis using None by (auto simp: mpt_get_def seqE_run v_def)
next
  case (Some t)
  let ?K = "bytesToNibbles (appliedKey opts key)"
  show ?thesis
  proof (rule findPath_some [OF assms(1) _ _ assms(3,4), of t n N False])
    fix s' assume *: "like s s'" "findPath opts D (appliedKey opts key) False s =
      (Inr \<lparr>path_node = map_option (nodeOf (mo_hash opts)) (fst (pend t ?K)),
        path_remaining = snd (pend t ?K), path_stack = map (nodeOf (mo_hash opts)) (ptrail t ?K)\<rparr>, s')"
    have "mpt_get opts D key False s = (Inr (case pend t ?K of (Some u, []) \<Rightarrow> nodeValue (nodeOf (mo_hash opts) u) | _ \<Rightarrow> None), s')"
      using *(2) by (cases "pend t ?K") (auto simp: mpt_get_def seqE_run split: option.split list.split)
    then show ?thesis using *(1) pend_get [of t] assms(2) Some by (auto simp: v_def)
  qed (use assms Some in auto)
qed

end

end
