(* ===== verification/MptMap.thy ===== *)
theory MptMap
  imports MptStore
begin

text \<open>
  Insertion and deletion on the database act as \<open>pput\<close> and \<open>pdel\<close> on the trie it holds.
\<close>

section \<open>Saving\<close>

definition pputO :: "ptrie option \<Rightarrow> nibbles \<Rightarrow> bytes \<Rightarrow> ptrie" where
  "pputO to k v = (case to of None \<Rightarrow> PLeaf k v | Some t \<Rightarrow> pput t k v)"

definition keyFor :: "mpt_opts \<Rightarrow> bytes \<Rightarrow> bool \<Rightarrow> bytes" where
  "keyFor opts key skip = (if skip then key else appliedKey opts key)"

context node_store begin

text \<open>The trie has become another one.\<close>

definition becomes :: "mpt_opts \<Rightarrow> 'd mpt \<Rightarrow> ptrie option \<Rightarrow> 'd mpt \<Rightarrow> bool" where
  "becomes opts s to s' \<longleftrightarrow> inv (mpt_db s') \<and> saved (mpt_db s') = saved (mpt_db s) \<and>
     holds_trie opts (view (mpt_db s')) (mpt_root s') to"

lemma becomes_like: "becomes opts s' to s'' \<Longrightarrow> like s s' \<Longrightarrow> becomes opts s to s''"
  by (simp add: becomes_def like_def)

lemma like_becomes: "like s s' \<Longrightarrow> holds_trie opts (view (mpt_db s)) (mpt_root s) to \<Longrightarrow> becomes opts s to s'"
  by (simp add: becomes_def like_def)

lemma becomes_trans: "becomes opts s to s' \<Longrightarrow> becomes opts s' to' s'' \<Longrightarrow> becomes opts s to' s''"
  by (simp add: becomes_def)

lemma persist_becomes:
  assumes "becomes opts s0 to s" and "no_clash opts (\<Union>t \<in> set_option to. nodes (mo_hash opts) t)"
    and "plain_opts opts" and "\<And>t. to = Some t \<Longrightarrow> sized opts n N t"
  shows "\<exists>s'. persistRoot opts D s = (Inr (), s') \<and> becomes opts s0 to s'"
proof (cases "mo_useRootPersistence opts")
  case True
  let ?k = "getDbKey opts (appliedKey opts ROOT_DB_KEY)"
  have s: "inv (mpt_db s)" using assms(1) by (simp add: becomes_def)
  obtain d where d: "nd_put D ?k (mpt_root s) (mpt_db s) = (Inr (), d)" "inv d"
    "view d = (view (mpt_db s))(?k \<mapsto> mpt_root s)" "saved d = saved (mpt_db s)"
    using put_law [OF s] by blast
  have "persistRoot opts D s = (Inr (), s\<lparr>mpt_db := d\<rparr>)"
    using True d(1) by (simp add: persistRoot_def whenE_run seqE_run dbM_def)
  moreover have "holds_trie opts (view d) (mpt_root s) to"
  proof (rule holds_persist [OF _ assms(2-4)])
    show "holds_trie opts (view (mpt_db s)) (mpt_root s) to" using assms(1) by (simp add: becomes_def)
  qed (simp_all add: d(3))
  then have "becomes opts s0 to (s\<lparr>mpt_db := d\<rparr>)" using assms(1) d by (simp add: becomes_def)
  ultimately show ?thesis by blast
qed (use assms(1) in \<open>simp add: persistRoot_def whenE_run\<close>)

lemma setRoot_hash: "plain_opts opts \<Longrightarrow> setRoot opts (mo_hash opts x) s = (Inr (), s\<lparr>mpt_root := mo_hash opts x\<rparr>)"
  unfolding plain_opts_def setRoot_def EMPTY_TRIE_ROOT_def by simp

text \<open>Writing a set of nodes that makes a trie complete.\<close>

lemma saveStack_builds:
  assumes b: "builds opts W K ns ops t ops'" and ops: "set ops \<subseteq> putOp opts ` under (mo_hash opts) t"
    and sz: "sized opts n N t" and clash: "no_clash opts (nodes (mo_hash opts) t)"
    and W: "\<forall>e \<in> W. view (mpt_db s) (nodeKeyOf opts e) = Some e"
    and s: "inv (mpt_db s)" "view (mpt_db s) (nodeKeyOf opts [0x80]) = None"
  shows "\<exists>s'. saveStack opts D K ns ops s = (Inr (), s') \<and> becomes opts s (Some t) s'"
proof -
  let ?H = "mo_hash opts" and ?e = "enc (mo_hash opts) t"
  let ?ops = "ops' @ [putOp opts ?e]"
  have plain: "plain_opts opts" using sz by (simp add: sized_def)
  let ?s1 = "s\<lparr>mpt_root := ?H ?e\<rparr>"
  obtain d where d: "nd_batch D ?ops (mpt_db s) = (Inr (), d)" "inv d"
    "view d = apply_ops ?ops (view (mpt_db s))" "saved d = saved (mpt_db s)"
    using batch_law [OF s(1)] by blast
  have empty: "[0x80] \<notin> nodes ?H t" using nodes_special [OF sz] by blast
  have puts: "set ?ops \<subseteq> putOp opts ` nodes ?H t"
    using builds_puts(2) [OF b] ops by (auto simp: nodes_def)
  have "view d (nodeKeyOf opts e) = Some e" if "e \<in> nodes ?H t" for e
    unfolding d(3)
  proof (rule apply_puts [OF clash puts that])
    show "putOp opts e \<in> set ?ops \<or> view (mpt_db s) (nodeKeyOf opts e) = Some e"
      using that W builds_puts(3) [OF b] by (auto simp: nodes_def)
  qed
  moreover have "view d (nodeKeyOf opts [0x80]) = None"
    using apply_puts_other [OF puts empty_key_apart [OF clash empty]] s(2) d(3) by simp
  ultimately have "becomes opts s (Some t) (?s1\<lparr>mpt_db := d\<rparr>)" using d by (simp add: becomes_def)
  then obtain s' where "persistRoot opts D (?s1\<lparr>mpt_db := d\<rparr>) = (Inr (), s')" "becomes opts s (Some t) s'"
    using persist_becomes [of opts s "Some t" _ n N] clash plain sz by auto
  moreover have "saveStack opts D K ns ops s = persistRoot opts D (?s1\<lparr>mpt_db := d\<rparr>)"
    using builds_saveLoop [OF b sized_storable [OF sz]] d(1) setRoot_hash [OF plain, of ?e s]
    by (simp add: saveStack_def seqE_run resM_def dbM_def)
  ultimately show ?thesis by auto
qed

lemma createInitial_trie:
  assumes "sized opts n N (PLeaf (bytesToNibbles key) v)" "no_clash opts (nodes (mo_hash opts) (PLeaf (bytesToNibbles key) v))"
    and s: "inv (mpt_db s)" "view (mpt_db s) (nodeKeyOf opts [0x80]) = None"
  shows "\<exists>s'. createInitialNode opts D key v s = (Inr (), s') \<and> becomes opts s (Some (PLeaf (bytesToNibbles key) v)) s'"
proof -
  let ?H = "mo_hash opts" and ?t = "PLeaf (bytesToNibbles key) v"
  let ?e = "enc ?H ?t"
  have plain: "plain_opts opts" using assms(1) by (simp add: sized_def)
  obtain d where d: "nd_put D (nodeKeyOf opts ?e) ?e (mpt_db s) = (Inr (), d)" "inv d"
    "view d = (view (mpt_db s))(nodeKeyOf opts ?e \<mapsto> ?e)" "saved d = saved (mpt_db s)"
    using put_law [OF s(1)] by blast
  let ?s1 = "s\<lparr>mpt_root := ?H ?e, mpt_db := d\<rparr>"
  have "nodeKeyOf opts [0x80] \<noteq> nodeKeyOf opts ?e"
    using empty_key_apart [OF assms(2)] nodes_special [OF assms(1)] by (auto simp: nodes_def)
  then have "becomes opts s (Some ?t) ?s1" using d s(2) by (simp add: becomes_def nodes_def)
  then obtain s' where "persistRoot opts D ?s1 = (Inr (), s')" "becomes opts s (Some ?t) s'"
    using persist_becomes [of opts s "Some ?t" _ n N] assms plain by auto
  moreover have "createInitialNode opts D key v s = persistRoot opts D ?s1"
    using node_serialize_eq [of "LeafNode (bytesToNibbles key) (NBytes v)"] sized_storable [OF assms(1)] d(1)
      setRoot_hash [OF plain, of ?e s]
    by (simp add: createInitialNode_def seqE_run resM_def dbM_def enc_def storable_def nodeKeyOf_def del: raw.simps)
  ultimately show ?thesis by auto
qed

section \<open>Insertion\<close>

lemma update_trie:
  assumes "canonical t" "sized opts n N t" "2 * length key \<le> n" "length v \<le> N" "2 * length key < mo_walkSteps opts"
    and clash: "no_clash opts (nodes (mo_hash opts) (pput t (bytesToNibbles key) v))"
    and s: "inv (mpt_db s)" "holds_trie opts (view (mpt_db s)) (mpt_root s) (Some t)"
  shows "\<exists>path s1 s'. like s s1 \<and> findPath opts D key False s = (Inr path, s1) \<and>
    updateNode opts D key v (path_remaining path) (path_stack path) s1 = (Inr (), s') \<and>
    becomes opts s (Some (pput t (bytesToNibbles key) v)) s'"
proof -
  let ?H = "mo_hash opts" and ?K = "bytesToNibbles key"
  have plain: "plain_opts opts" using assms(2) by (simp add: sized_def)
  obtain ns ops ops' where u: "newTail opts (\<exists>p w. last (ptrail t ?K) = PLeaf p w \<and> prest t ?K = p) (snd (pend t ?K)) v
      (nodeOf ?H (last (ptrail t ?K))) = Inr (ns, ops)" "set ops \<subseteq> putOp opts ` under ?H (pput t ?K v)"
    "builds opts (under ?H t) ?K (map (nodeOf ?H) (butlast (ptrail t ?K)) @ ns) ops (pput t ?K v) ops'"
    using update_builds [OF assms(1) _ assms(2), of ?K v] assms(3,4) by auto
  let ?path = "\<lparr>path_node = map_option (nodeOf ?H) (fst (pend t ?K)), path_remaining = snd (pend t ?K),
    path_stack = map (nodeOf ?H) (ptrail t ?K)\<rparr>"
  obtain s1 where s1: "like s s1" "findPath opts D key False s = (Inr ?path, s1)"
  proof (rule findPath_some [OF plain assms(1,2,5) s(1), of False])
    fix s' st e assume "e \<in> nodes ?H t \<inter> enc ?H ` set (ptrail t ?K)" "view (mpt_db s) (nodeKeyOf opts e) = None"
    then show thesis using s(2) by auto
  qed (use s(2) that in auto)
  have "updateNode opts D key v (snd (pend t ?K)) (map (nodeOf ?H) (ptrail t ?K)) s1 =
      saveStack opts D ?K (map (nodeOf ?H) (butlast (ptrail t ?K)) @ ns) ops s1"
    using updateNode_newTail [of "map (nodeOf ?H) (ptrail t ?K)" opts key "snd (pend t ?K)" v ns ops D s1] u(1)
      matching_ptrail [OF assms(1), of ?H ?K] by (simp add: last_map map_butlast)
  moreover have "\<exists>s'. saveStack opts D ?K (map (nodeOf ?H) (butlast (ptrail t ?K)) @ ns) ops s1 = (Inr (), s') \<and>
      becomes opts s1 (Some (pput t ?K v)) s'"
  proof (rule saveStack_builds [OF u(3,2) _ clash])
    show "sized opts n N (pput t ?K v)" using assms(2-4) by (simp add: sized_def within_pput)
  qed (use s1(1) s in \<open>auto simp: like_def nodes_def\<close>)
  ultimately obtain s' where "updateNode opts D key v (snd (pend t ?K)) (map (nodeOf ?H) (ptrail t ?K)) s1 = (Inr (), s')"
    "becomes opts s1 (Some (pput t ?K v)) s'" by auto
  then show ?thesis using s1 becomes_like by (intro exI [of _ ?path] exI [of _ s1] exI [of _ s']) simp
qed

lemma put_trie:
  assumes "v \<noteq> []" and "\<not> (mo_useRootPersistence opts \<and> key = ROOT_DB_KEY)" and "plain_opts opts"
    and "\<And>t. to = Some t \<Longrightarrow> canonical t \<and> sized opts n N t"
    and "n < 2 ^ 40" "N < 2 ^ 40" "2 * length (keyFor opts key skip) \<le> n" "length v \<le> N"
      "2 * length (keyFor opts key skip) < mo_walkSteps opts"
    and "no_clash opts (\<Union>t \<in> set_option to. nodes (mo_hash opts) t)"
    and "no_clash opts (nodes (mo_hash opts) (pputO to (bytesToNibbles (keyFor opts key skip)) v))"
    and s: "inv (mpt_db s)" "holds_trie opts (view (mpt_db s)) (mpt_root s) to"
  shows "\<exists>s'. mpt_put opts D key (Some v) skip s = (Inr (), s') \<and>
    becomes opts s (Some (pputO to (bytesToNibbles (keyFor opts key skip)) v)) s'"
proof -
  let ?k = "keyFor opts key skip"
  let ?t = "pputO to (bytesToNibbles ?k) v"
  have sz: "sized opts n N ?t"
  proof (cases to)
    case (Some t)
    then show ?thesis using assms(4) [OF Some] assms(5-8) by (simp add: pputO_def sized_def within_pput)
  qed (use assms(3,5-8) in \<open>simp add: pputO_def sized_def\<close>)
  have "\<exists>s'. putValue opts D key ?k v s = (Inr (), s') \<and> becomes opts s (Some ?t) s'"
  proof (cases to)
    case None
    then show ?thesis using createInitial_trie [of opts n N ?k v s] sz assms(11) s
      by (simp add: pputO_def putValue_def seqE_run)
  next
    case (Some t)
    then have t: "canonical t" "sized opts n N t" using assms(4) by auto
    have T: "?t = pput t (bytesToNibbles ?k) v" using Some by (simp add: pputO_def)
    have "mpt_root s \<noteq> EMPTY_TRIE_ROOT opts"
      using hash_special [OF assms(10) sized_storable [OF t(2)]] s(2) Some by (auto simp: nodes_def)
    moreover obtain path s1 s' where "like s s1" "findPath opts D ?k False s = (Inr path, s1)"
      "updateNode opts D ?k v (path_remaining path) (path_stack path) s1 = (Inr (), s')" "becomes opts s (Some ?t) s'"
      using update_trie [OF t assms(7-9) assms(11) [unfolded T] s(1), folded T] s(2) unfolding Some by blast
    ultimately show ?thesis using assms(3) by (simp add: putValue_def seqE_run whenE_run plain_opts_def)
  qed
  then obtain s1 where s1: "putValue opts D key ?k v s = (Inr (), s1)" "becomes opts s (Some ?t) s1" by blast
  obtain s' where "persistRoot opts D s1 = (Inr (), s')" "becomes opts s (Some ?t) s'"
    using persist_becomes [OF s1(2) _ assms(3), of n N] assms(11) sz by auto
  moreover have "mpt_put opts D key (Some v) skip s = persistRoot opts D s1"
    using s1(1) assms(1) unfolding mpt_put_def if_not_P [OF assms(2)] keyFor_def by simp
  ultimately show ?thesis by auto
qed

end

end
