(* ===== verification/MptDel.thy ===== *)
theory MptDel
  imports MptMap
begin

text \<open>
  Deletion: the branch that loses a leaf, the collapse of a branch that is left with one child,
  and the path above it.
\<close>

section \<open>The path above the branch\<close>

definition prep0 :: "nibbles \<Rightarrow> ptrie \<Rightarrow> ptrie" where
  "prep0 p t = (if p = [] then t else prepend p t)"

text \<open>Nodes above a place in the trie: what is built at the place is built into the whole.\<close>

definition frame :: "mpt_opts \<Rightarrow> bytes set \<Rightarrow> nat \<Rightarrow> nat \<Rightarrow> nat \<Rightarrow> nibbles \<Rightarrow> ptrie list \<Rightarrow> (ptrie \<Rightarrow> ptrie) \<Rightarrow> bool" where
  "frame opts W m n N kA A C \<longleftrightarrow> (\<forall>u. sized opts m N u \<longrightarrow> sized opts n N (C u) \<and>
     (\<forall>K ns ops ops1. builds opts W K ns ops u ops1 \<longrightarrow>
       (\<exists>ops2. builds opts W (kA @ K) (map (nodeOf (mo_hash opts)) A @ ns) ops (C u) ops2)))"

lemma frame_id: "frame opts W n n N [] [] (\<lambda>u. u)"
  by (auto simp: frame_def)

lemma frame_ext:
  assumes "frame opts W m (n - length p) N kA A C" "sized opts n N (PExt p t)"
  shows "frame opts W m n N (p @ kA) (PExt p t # A) (\<lambda>u. PExt p (C u))"
  unfolding frame_def
proof (intro allI impI conjI)
  fix u assume u: "sized opts m N u"
  have c: "sized opts (n - length p) N (C u)" using assms(1) u by (simp add: frame_def)
  then show "sized opts n N (PExt p (C u))" using assms(2) by (simp add: sized_def)
  fix K ns ops ops1 assume "builds opts W K ns ops u ops1"
  then obtain ops2 where "builds opts W (kA @ K) (map (nodeOf (mo_hash opts)) A @ ns) ops (C u) ops2"
    using assms(1) u unfolding frame_def by blast
  from builds_ext [OF this sized_storable [OF c]]
  show "\<exists>ops2. builds opts W ((p @ kA) @ K) (map (nodeOf (mo_hash opts)) (PExt p t # A) @ ns) ops (PExt p (C u)) ops2"
    by auto
qed

lemma frame_slot:
  assumes "frame opts W m (n - 1) N kA A C" "sized opts n N (PBranch f w)" "f i = Some t" "i < 16"
    and "under (mo_hash opts) (PBranch f w) \<subseteq> W"
  shows "frame opts W m n N (i # kA) (PBranch f w # A) (\<lambda>u. PBranch (f(i \<mapsto> C u)) w)"
  unfolding frame_def
proof (intro allI impI conjI)
  fix u assume u: "sized opts m N u"
  have c: "sized opts (n - 1) N (C u)" using assms(1) u by (simp add: frame_def)
  then show "sized opts n N (PBranch (f(i \<mapsto> C u)) w)" using assms(2,3) by (auto simp: sized_def)
  fix K ns ops ops1 assume "builds opts W K ns ops u ops1"
  then obtain ops2 where "builds opts W (kA @ K) (map (nodeOf (mo_hash opts)) A @ ns) ops (C u) ops2"
    using assms(1) u unfolding frame_def by blast
  from builds_slot [OF this sized_storable [OF c] assms(4), of f w] assms(5)
  show "\<exists>ops2. builds opts W ((i # kA) @ K) (map (nodeOf (mo_hash opts)) (PBranch f w # A) @ ns) ops
      (PBranch (f(i \<mapsto> C u)) w) ops2" by auto
qed

text \<open>
  Where a deletion happens: at a branch \<open>f\<close> that loses the leaf at \<open>i\<close>, below a path \<open>P\<close> of an
  extension (or none) and the nodes \<open>A\<close>.
\<close>

definition focus :: "mpt_opts \<Rightarrow> bytes set \<Rightarrow> nat \<Rightarrow> nat \<Rightarrow> ptrie \<Rightarrow> nibbles \<Rightarrow> (nat \<Rightarrow> ptrie option) \<Rightarrow> bytes \<Rightarrow> nat \<Rightarrow>
    nibbles \<Rightarrow> bytes \<Rightarrow> nibbles \<Rightarrow> nibbles \<Rightarrow> ptrie list \<Rightarrow> nat \<Rightarrow> (ptrie \<Rightarrow> ptrie) \<Rightarrow> bool" where
  "focus opts W n N t k f w i q v kA P A m C \<longleftrightarrow>
     ptrail t k = A @ (if P = [] then [] else [PExt P (PBranch f w)]) @ [PBranch f w, PLeaf q v] \<and>
     k = kA @ P @ i # q \<and> f i = Some (PLeaf q v) \<and> canonical (PBranch f w) \<and> nibs P \<and>
     under (mo_hash opts) (PBranch f w) \<subseteq> W \<and> sized opts (m - length P) N (PBranch f w) \<and> length P \<le> m \<and> m < 2 ^ 40 \<and>
     (P = [] \<longrightarrow> A = [] \<or> isPBranch (last A)) \<and> (A = [] \<longrightarrow> kA = [] \<and> C = (\<lambda>u. u) \<and> m = n) \<and>
     (A = [] \<longrightarrow> P = [] \<longrightarrow> t = PBranch f w) \<and> (A \<noteq> [] \<longrightarrow> isPBranch t \<longrightarrow> (\<forall>u. isPBranch (C u))) \<and>
     pdel t k = Some (C (prep0 P (shrink (f(i := None)) w))) \<and> frame opts W m n N kA A C"

lemma deletion_focus:
  "canonical t \<Longrightarrow> sized opts n N t \<Longrightarrow> fst (pend t k) = Some (PLeaf lp lv) \<Longrightarrow>
    \<forall>p v. t \<noteq> PLeaf p v \<Longrightarrow> under (mo_hash opts) t \<subseteq> W \<Longrightarrow> \<exists>f w i q v kA P A m C. focus opts W n N t k f w i q v kA P A m C"
proof (induction t arbitrary: n k)
  case (PExt p t)
  then obtain r where k: "k = p @ r" by (auto simp: take_prefix_iff split: if_splits)
  have t: "canonical t" "isPBranch t" "sized opts (n - length p) N t" "length p \<le> n" "n < 2 ^ 40"
    using PExt.prems by (auto simp: sized_def)
  obtain f w i q v kA P A m C where F: "focus opts W (n - length p) N t r f w i q v kA P A m C"
    using PExt.IH [OF t(1,3), of r] PExt.prems t(2) k by (cases t) auto
  show ?case
  proof (cases "A = []")
    case True
    have "hd (ptrail t r) = t" by (cases t; cases r) simp_all
    then have "P = []" using F t(2) True by (cases "P = []") (auto simp: focus_def)
    then have "focus opts W n N (PExt p t) k f w i q v [] p [] n (\<lambda>u. u)"
      using F True PExt.prems(1) t(3-5) k frame_id by (auto simp: focus_def prep0_def)
    then show ?thesis by blast
  next
    case False
    then have "isPBranch (C u)" for u using F t(2) by (simp add: focus_def)
    then have "prepend p (C u) = PExt p (C u)" for u by (metis isPBranch.elims(2) prepend.simps(3))
    then have "focus opts W n N (PExt p t) k f w i q v (p @ kA) P (PExt p t # A) m (\<lambda>u. PExt p (C u))"
      using F False k frame_ext [OF _ PExt.prems(2)] by (auto simp: focus_def)
    then show ?thesis by blast
  qed
next
  case (PBranch f w)
  then obtain i r where k: "k = i # r" by (cases k) auto
  then obtain t where t: "f i = Some t" using PBranch.prems(3) by (cases "f i") auto
  have c: "canonical t" "sized opts (n - 1) N t" "fst (pend t r) = Some (PLeaf lp lv)" "i < 16"
    using PBranch.prems t k by (auto simp: sized_def)
  have sub: "under (mo_hash opts) t \<subseteq> W" using under_child [where f = f and i = i, OF t] PBranch.prems(5) by blast
  show ?case
  proof (cases "\<exists>q v. t = PLeaf q v")
    case True
    then obtain q v where l: "t = PLeaf q v" by blast
    then have "r = q" using c(3) by (auto split: if_splits)
    then have "focus opts W n N (PBranch f w) k f w i q v [] [] [] n (\<lambda>u. u)"
      using PBranch.prems t k l frame_id by (auto simp: focus_def prep0_def sized_def)
    then show ?thesis by blast
  next
    case False
    then obtain f' w' i' q v kA P A m C where F: "focus opts W (n - 1) N t r f' w' i' q v kA P A m C"
      using PBranch.IH [OF rangeI [of f i], of t "n - 1" r] c sub t False by auto
    have "focus opts W n N (PBranch f w) k f' w' i' q v (i # kA) P (PBranch f w # A) m (\<lambda>u. PBranch (f(i \<mapsto> C u)) w)"
      using F t k c(4) frame_slot [OF _ PBranch.prems(2) t c(4) PBranch.prems(5)] by (auto simp: focus_def)
    then show ?thesis by blast
  qed
qed simp

lemma focusD:
  assumes "focus opts W n N t k f w i q v kA P A m C"
  shows "f i = Some (PLeaf q v)" and "under (mo_hash opts) (PBranch f w) \<subseteq> W"
    and "sized opts (m - length P) N (PBranch f w)" and "length P \<le> m" and "m < 2 ^ 40"
    and "P = [] \<longrightarrow> A = [] \<or> isPBranch (last A)"
    and "pdel t k = Some (C (prep0 P (shrink (f(i := None)) w)))"
    and "frame opts W m n N kA A C" and "canonical (PBranch f w)" and "k = kA @ P @ i # q"
    and "ptrail t k = A @ (if P = [] then [] else [PExt P (PBranch f w)]) @ [PBranch f w, PLeaf q v]"
  by ((insert assms, unfold focus_def, elim conjE, assumption)+)

section \<open>The collapse\<close>

lemma prep0_prepend: "prep0 P (prepend [j] u) = prepend (P @ [j]) u"
  by (cases u) (simp_all add: prep0_def)

lemma builds_prepend:
  assumes "under (mo_hash opts) u \<subseteq> W" "storable opts u"
  shows "isPBranch u \<Longrightarrow> \<exists>ops. builds opts W p [ExtensionNode p x, nodeOf (mo_hash opts) u] [] (prepend p u) ops"
    and "\<not> isPBranch u \<Longrightarrow> builds opts W (p @ nodeKey (nodeOf (mo_hash opts) u))
      [setKey (p @ nodeKey (nodeOf (mo_hash opts) u)) (nodeOf (mo_hash opts) u)] [] (prepend p u) []"
proof -
  assume b: "isPBranch u"
  then obtain f w where u: "u = PBranch f w" by (cases u) auto
  have "builds opts W [] [nodeOf (mo_hash opts) u] [] u []"
    using builds_bottom [of opts u W "[]"] assms(1) u by auto
  from builds_ext [OF this assms(2), of p x]
  show "\<exists>ops. builds opts W p [ExtensionNode p x, nodeOf (mo_hash opts) u] [] (prepend p u) ops"
    using u by auto
next
  assume "\<not> isPBranch u"
  then show "builds opts W (p @ nodeKey (nodeOf (mo_hash opts) u))
      [setKey (p @ nodeKey (nodeOf (mo_hash opts) u)) (nodeOf (mo_hash opts) u)] [] (prepend p u) []"
    using builds_bottom [of opts "prepend p u" W "[]"] assms(1) by (cases u) auto
qed

definition upperNodes :: "mpt_opts \<Rightarrow> nibbles \<Rightarrow> (nat \<Rightarrow> ptrie option) \<Rightarrow> bytes \<Rightarrow> ptrie list \<Rightarrow> mpt_node list" where
  "upperNodes opts P f w A = map (nodeOf (mo_hash opts)) (A @ (if P = [] then [] else [PExt P (PBranch f w)]))"

lemma collapse_stack:
  assumes "P = [] \<longrightarrow> A = [] \<or> isPBranch (last A)"
  shows "\<exists>x. (if upperNodes opts P f w A = [] then collapseBranch nib j child None []
      else collapseBranch nib j child (Some (last (upperNodes opts P f w A))) (butlast (upperNodes opts P f w A))) =
    Inr (if isBranch child then (nib @ [j], map (nodeOf (mo_hash opts)) A @ [ExtensionNode (P @ [j]) x, child])
      else (nib @ j # nodeKey child, map (nodeOf (mo_hash opts)) A @ [setKey (P @ j # nodeKey child) child]))"
proof (cases "P = []")
  case True
  show ?thesis
  proof (cases "A = []")
    case True
    then show ?thesis using \<open>P = []\<close> by (auto simp: upperNodes_def Let_def)
  next
    case False
    then obtain g w where "last A = PBranch g w" using assms \<open>P = []\<close> by (cases "last A") auto
    then have "A = butlast A @ [PBranch g w]" using False append_butlast_last_id by metis
    then obtain A' where "A = A' @ [PBranch g w]" by blast
    then show ?thesis using \<open>P = []\<close> by (auto simp: upperNodes_def Let_def)
  qed
next
  case False
  then show ?thesis by (auto simp: upperNodes_def)
qed

lemma isBranch_nodeOf: "isBranch (nodeOf H u) \<longleftrightarrow> isPBranch u"
  by (cases u) (simp_all add: isBranch_def)

lemma collapse_builds:
  assumes F: "focus opts W n N t k f w i q v kA P A m C" and j: "pchildren (f(i := None)) = [j]" "(f(i := None)) j = Some u"
  shows "\<exists>nib stack ops. (if upperNodes opts P f w A = [] then collapseBranch (kA @ P) j (nodeOf (mo_hash opts) u) None []
      else collapseBranch (kA @ P) j (nodeOf (mo_hash opts) u) (Some (last (upperNodes opts P f w A))) (butlast (upperNodes opts P f w A))) =
      Inr (nib, stack) \<and> builds opts W nib stack [] (C (prep0 P (shrink (f(i := None)) w))) ops"
proof -
  let ?H = "mo_hash opts" and ?p = "P @ [j]"
  have u: "f j = Some u" using j(2) by (auto split: if_splits)
  have sz: "sized opts (m - length P - 1) N u" "m - length P > 0" "length P \<le> m"
    using focusD(3,4) [OF F] u by (auto simp: sized_def)
  have sub: "under ?H u \<subseteq> W" using F under_child [where f = f and i = j, OF u, of ?H w] focusD(2) [OF F] by blast
  have t': "prep0 P (shrink (f(i := None)) w) = prepend ?p u"
    using j by (simp add: shrink_def prep0_prepend del: fun_upd_apply)
  have "within m N (prepend ?p u)" using sz by (intro within_prepend) (auto simp: sized_def)
  then have szp: "sized opts m N (prepend ?p u)" using sz(1) focusD(5) [OF F] by (simp add: sized_def)
  note fr = focusD(8) [OF F, unfolded frame_def]
  obtain x where x: "(if upperNodes opts P f w A = [] then collapseBranch (kA @ P) j (nodeOf ?H u) None []
      else collapseBranch (kA @ P) j (nodeOf ?H u) (Some (last (upperNodes opts P f w A))) (butlast (upperNodes opts P f w A))) =
    Inr (if isPBranch u then ((kA @ P) @ [j], map (nodeOf ?H) A @ [ExtensionNode ?p x, nodeOf ?H u])
      else ((kA @ P) @ j # nodeKey (nodeOf ?H u), map (nodeOf ?H) A @ [setKey (P @ j # nodeKey (nodeOf ?H u)) (nodeOf ?H u)]))"
    using collapse_stack [OF focusD(6) [OF F], of opts f w "kA @ P" j "nodeOf ?H u"] unfolding isBranch_nodeOf by blast
  show ?thesis
  proof (cases "isPBranch u")
    case True
    then obtain ops where b: "builds opts W ?p [ExtensionNode ?p x, nodeOf ?H u] [] (prepend ?p u) ops"
      using builds_prepend(1) [OF sub sized_storable [OF sz(1)]] by blast
    have "\<exists>ops2. builds opts W (kA @ ?p) (map (nodeOf ?H) A @ [ExtensionNode ?p x, nodeOf ?H u]) [] (C (prepend ?p u)) ops2"
      using fr szp b by blast
    then show ?thesis unfolding x t' using True by auto
  next
    case False
    have b: "builds opts W (?p @ nodeKey (nodeOf ?H u)) [setKey (?p @ nodeKey (nodeOf ?H u)) (nodeOf ?H u)] [] (prepend ?p u) []"
      using builds_prepend(2) [OF sub sized_storable [OF sz(1)] False] .
    have "\<exists>ops2. builds opts W (kA @ ?p @ nodeKey (nodeOf ?H u))
        (map (nodeOf ?H) A @ [setKey (?p @ nodeKey (nodeOf ?H u)) (nodeOf ?H u)]) [] (C (prepend ?p u)) ops2"
      using fr szp b by blast
    then show ?thesis unfolding x t' using False by auto
  qed
qed

text \<open>A branch that keeps two children stays.\<close>

lemma keep_builds:
  assumes F: "focus opts W n N t k f w i q v kA P A m C" and j: "\<nexists>j. pchildren (f(i := None)) = [j]"
  shows "\<exists>ops. builds opts W (kA @ P) (upperNodes opts P f w A @ [nodeOf (mo_hash opts) (PBranch (f(i := None)) w)]) []
    (C (prep0 P (shrink (f(i := None)) w))) ops"
proof -
  let ?H = "mo_hash opts" and ?b = "PBranch (f(i := None)) w"
  have r: "shrink (f(i := None)) w = ?b" using j by (auto simp: shrink_def split: list.split)
  have sz: "sized opts (m - length P) N ?b" using focusD(3) [OF F] by (auto simp: sized_def)
  have "under ?H ?b \<subseteq> under ?H (PBranch f w)" unfolding under_branch by (auto split: if_splits)
  then have "under ?H ?b \<subseteq> W" using focusD(2) [OF F] by blast
  then have b: "builds opts W [] [nodeOf ?H ?b] [] ?b []" using builds_bottom [of opts ?b W "[]"] by auto
  note fr = focusD(8) [OF F, unfolded frame_def]
  show ?thesis
  proof (cases "P = []")
    case True
    then have "sized opts m N ?b" using sz by simp
    then have "\<exists>ops2. builds opts W (kA @ []) (map (nodeOf ?H) A @ [nodeOf ?H ?b]) [] (C ?b) ops2" using fr b by blast
    then show ?thesis using True r by (simp add: upperNodes_def prep0_def)
  next
    case False
    have "sized opts m N (PExt P ?b)" using sz focusD(4,5) [OF F] by (auto simp: sized_def)
    moreover have "builds opts W (P @ []) [ExtensionNode P (mkref ?H (nodeOf ?H (PBranch f w))), nodeOf ?H ?b] [] (PExt P ?b) ([] @ ownOps opts ?b)"
      by (rule builds_ext [OF b sized_storable [OF sz]])
    ultimately have "\<exists>ops2. builds opts W (kA @ P @ []) (map (nodeOf ?H) A @
        [ExtensionNode P (mkref ?H (nodeOf ?H (PBranch f w))), nodeOf ?H ?b]) [] (C (PExt P ?b)) ops2" using fr by blast
    then show ?thesis using False r by (simp add: upperNodes_def prep0_def del: nodeOf.simps(3))
  qed
qed

section \<open>Deletion on the database\<close>

lemma pdel_absent: "canonical t \<Longrightarrow> fst (pend t k) = None \<Longrightarrow> pdel t k = Some t"
proof (induction t k rule: pdel.induct)
  case (2 p t k)
  then show ?case by (cases t) (auto split: if_splits)
next
  case (4 f w i k)
  then show ?case by (auto split: option.splits)
qed (auto split: if_splits)

lemma uniform_ends: "uniform d t \<Longrightarrow> length k = d \<Longrightarrow> fst (pend t k) = Some u \<Longrightarrow> \<exists>p v. u = PLeaf p v"
proof (induction t k arbitrary: d rule: pend.induct)
  case (2 p t k)
  then show ?case by (auto split: if_splits)
next
  case (4 f w i k)
  then obtain t where t: "f i = Some t" "fst (pend t k) = Some u" by (cases "f i") auto
  then show ?case using "4.IH" [OF t(1), of "d - 1"] "4.prems" by auto
qed (auto split: if_splits)

definition pdelO :: "ptrie option \<Rightarrow> nibbles \<Rightarrow> ptrie option" where
  "pdelO to k = (case to of None \<Rightarrow> None | Some t \<Rightarrow> pdel t k)"

lemma removeLast_focus:
  assumes F: "focus opts W n N t K f w i q v kA P A m C" and "plain_opts opts"
  shows "removeLast opts K (last (map (nodeOf (mo_hash opts)) (ptrail t K))) (butlast (map (nodeOf (mo_hash opts)) (ptrail t K))) =
    Inr (kA @ P, nodeOf (mo_hash opts) (PBranch (f(i := None)) w), upperNodes opts P f w A, [])"
proof -
  let ?H = "mo_hash opts"
  let ?B = "nodeOf ?H (PBranch f w)" and ?L = "nodeOf ?H (PLeaf q v)"
  have i: "i < 16" using focusD(1,9) [OF F] by auto
  have leaf: "sized opts (m - length P - 1) N (PLeaf q v)"
    by (rule sized_child(2) [where f = f and i = i, OF focusD(3,1) [OF F]])
  obtain ref where ref: "formatNode opts ?L False True [] = Inr (ref, [])"
    using formatNode_removed [OF assms(2) sized_storable [OF leaf]] by blast
  have stack: "map (nodeOf ?H) (ptrail t K) = upperNodes opts P f w A @ [?B, ?L]"
    using focusD(11) [OF F] by (simp add: upperNodes_def)
  have cut: "cutEnd (length q) K = (kA @ P) @ [i]"
    using focusD(10) [OF F] cutEnd_append [of q "(kA @ P) @ [i]"] by simp
  have "removeLast opts K ?L (upperNodes opts P f w A @ [?B]) =
      Inr (kA @ P, setBranch i (NBytes []) ?B, upperNodes opts P f w A, [])"
    using ref cut by (simp add: isBranch_def Let_def setPopped_def butlast_append)
  then show ?thesis unfolding stack clearBranch_nodeOf [OF i] by (simp add: butlast_append)
qed

lemma case_not_single: "\<nexists>x. xs = [x] \<Longrightarrow> (case xs of [(i, ref)] \<Rightarrow> g i ref | _ \<Rightarrow> h) = h"
  by (auto split: list.split)

context node_store begin

lemma deleteNode_trie:
  assumes t: "canonical t" "sized opts n N t"
    and found: "fst (pend t (bytesToNibbles key)) = Some (PLeaf lp lv)"
    and clash: "\<And>t'. pdel t (bytesToNibbles key) = Some t' \<Longrightarrow> no_clash opts (nodes (mo_hash opts) t')"
    and s: "inv (mpt_db s)" "holds_trie opts (view (mpt_db s)) (mpt_root s) (Some t)"
  shows "\<exists>s'. deleteNode opts D key (map (nodeOf (mo_hash opts)) (ptrail t (bytesToNibbles key))) s = (Inr (), s') \<and>
    becomes opts s (pdel t (bytesToNibbles key)) s'"
proof (cases "\<exists>p v. t = PLeaf p v")
  case True
  then obtain p v where p: "t = PLeaf p v" "bytesToNibbles key = p" using found by (auto split: if_splits)
  have plain: "plain_opts opts" using t(2) by (simp add: sized_def)
  have "deleteNode opts D key [nodeOf (mo_hash opts) t] s = (Inr (), s\<lparr>mpt_root := EMPTY_TRIE_ROOT opts\<rparr>)"
    using setRoot_hash [OF plain, of "[0x80]" s] by (simp add: deleteNode_def EMPTY_TRIE_ROOT_def)
  moreover have "becomes opts s None (s\<lparr>mpt_root := EMPTY_TRIE_ROOT opts\<rparr>)" using s by (simp add: becomes_def)
  ultimately show ?thesis using p by auto
next
  case False
  let ?H = "mo_hash opts" and ?K = "bytesToNibbles key"
  have plain: "plain_opts opts" using t(2) by (simp add: sized_def)
  obtain f w i q v kA P A m C where F: "focus opts (under ?H t) n N t ?K f w i q v kA P A m C"
    using deletion_focus [OF t found _ order_refl] False by blast
  let ?f = "f(i := None)" and ?up = "upperNodes opts P f w A"
  let ?t' = "C (prep0 P (shrink ?f w))"
  have t': "pdel t ?K = Some ?t'" using focusD(7) [OF F] .
  have sz': "sized opts n N ?t'" using t(2) within_pdel [OF _ t'] by (simp add: sized_def)
  note clash' = clash [OF t']
  have W: "\<forall>e \<in> under ?H t. view (mpt_db s) (nodeKeyOf opts e) = Some e" "view (mpt_db s) (nodeKeyOf opts [0x80]) = None"
    using s(2) by (simp_all add: nodes_def)
  have ne: "map (nodeOf ?H) (ptrail t ?K) \<noteq> []" "butlast (map (nodeOf ?H) (ptrail t ?K)) \<noteq> []"
    using focusD(11) [OF F] by (auto simp: butlast_append)
  have rm: "resM (removeLast opts ?K (last (map (nodeOf ?H) (ptrail t ?K))) (butlast (map (nodeOf ?H) (ptrail t ?K)))) s =
      (Inr (kA @ P, nodeOf ?H (PBranch ?f w), ?up, []), s)"
    unfolding removeLast_focus [OF F plain] resM_def by simp
  have ch: "getChildren (nodeOf ?H (PBranch ?f w)) = map (\<lambda>j. (j, mkref ?H (nodeOf ?H (the (?f j))))) (pchildren ?f)"
    using plain by (intro getChildren_nodeOf) (simp add: plain_opts_def)
  show ?thesis
  proof (cases "\<exists>j. pchildren ?f = [j]")
    case True
    then obtain j where j: "pchildren ?f = [j]" by blast
    then have "j \<in> set (pchildren ?f)" by simp
    then obtain u where u: "?f j = Some u" by (auto simp: pchildren_def simp del: fun_upd_apply)
    then have fu: "f j = Some u" by (auto split: if_splits)
    have cu: "canonical u" "sized opts (m - length P - 1) N u"
      using focusD(3,9) [OF F] fu by (auto simp: sized_def)
    have own: "own ?H u \<subseteq> under ?H t"
      using under_child [where f = f and i = j, OF fu, of ?H w] focusD(2) [OF F] by blast
    have db: "\<forall>e \<in> own ?H u. view (mpt_db s) (nodeKeyOf opts e) \<in> {None, Some e}" using own W(1) by blast
    have refers: "refers opts (mkref ?H (nodeOf ?H u)) (own ?H u) u" by (simp add: refers_def)
    obtain s1 where s1: "like s s1" "lookupNode opts D (mkref ?H (nodeOf ?H u)) s = (Inr (nodeOf ?H u), s1)"
      using lookup_ref [OF s(1) cu(1) sized_storable [OF cu(2)] refers db] own W(1) by force
    obtain nib stack ops where c: "(if ?up = [] then collapseBranch (kA @ P) j (nodeOf ?H u) None []
        else collapseBranch (kA @ P) j (nodeOf ?H u) (Some (last ?up)) (butlast ?up)) = Inr (nib, stack)"
      "builds opts (under ?H t) nib stack [] ?t' ops"
      using collapse_builds [OF F j u] by blast
    have "\<exists>s'. saveStack opts D nib stack [] s1 = (Inr (), s') \<and> becomes opts s1 (Some ?t') s'"
      by (rule saveStack_builds [OF c(2) _ sz' clash']) (use W s(1) s1(1) in \<open>auto simp: like_def\<close>)
    then obtain s' where s': "saveStack opts D nib stack [] s1 = (Inr (), s')" "becomes opts s (Some ?t') s'"
      using becomes_like s1(1) by blast
    have "deleteNode opts D key (map (nodeOf ?H) (ptrail t ?K)) s = (Inr (), s')"
      unfolding deleteNode_def if_not_P [OF ne(1)] if_not_P [OF ne(2)] using rm ch j u s1(2) c(1) s'(1) plain
      by (simp add: seqE_run resM_def plain_opts_def del: nodeOf.simps fun_upd_apply)
    then show ?thesis using s'(2) t' by auto
  next
    case False
    obtain ops where b: "builds opts (under ?H t) (kA @ P) (?up @ [nodeOf ?H (PBranch ?f w)]) [] ?t' ops"
      using keep_builds [OF F False] by blast
    obtain s' where s': "saveStack opts D (kA @ P) (?up @ [nodeOf ?H (PBranch ?f w)]) [] s = (Inr (), s')"
      "becomes opts s (Some ?t') s'"
      using saveStack_builds [OF b _ sz' clash' W(1) s(1) W(2)] by auto
    have "\<nexists>x. getChildren (nodeOf ?H (PBranch ?f w)) = [x]" unfolding ch using False by auto
    note many = case_not_single [OF this]
    have "deleteNode opts D key (map (nodeOf ?H) (ptrail t ?K)) s = (Inr (), s')"
      unfolding deleteNode_def if_not_P [OF ne(1)] if_not_P [OF ne(2)] using rm s'(1)
      by (simp add: seqE_run many del: nodeOf.simps fun_upd_apply)
    then show ?thesis using s'(2) t' by auto
  qed
qed

lemma del_canonical:
  assumes plain: "plain_opts opts" and t: "\<And>t. to = Some t \<Longrightarrow> canonical t \<and> sized opts n N t"
    and leaf: "\<And>t u. to = Some t \<Longrightarrow> fst (pend t (bytesToNibbles (keyFor opts key skip))) = Some u \<Longrightarrow> \<exists>p v. u = PLeaf p v"
    and k: "2 * length (keyFor opts key skip) < mo_walkSteps opts"
    and clash: "no_clash opts (\<Union>t \<in> set_option to. nodes (mo_hash opts) t)"
      "no_clash opts (\<Union>t \<in> set_option (pdelO to (bytesToNibbles (keyFor opts key skip))). nodes (mo_hash opts) t)"
    and s: "inv (mpt_db s)" "holds_trie opts (view (mpt_db s)) (mpt_root s) to"
  shows "\<exists>s'. mpt_del opts D key skip s = (Inr (), s') \<and>
    becomes opts s (pdelO to (bytesToNibbles (keyFor opts key skip))) s'"
proof -
  let ?k = "keyFor opts key skip"
  let ?K = "bytesToNibbles ?k" and ?H = "mo_hash opts"
  have "\<exists>path s1 s2. findPath opts D ?k False s = (Inr path, s1) \<and>
      whenE (path_node path \<noteq> None) (deleteNode opts D ?k (path_stack path)) s1 = (Inr (), s2) \<and>
      becomes opts s (pdelO to ?K) s2"
  proof (cases to)
    case None
    obtain s1 where "like s s1" "findPath opts D ?k False s = (Inr \<lparr>path_node = None, path_remaining = [], path_stack = []\<rparr>, s1)"
      using findPath_none [of s opts ?k False] s k None by auto
    then show ?thesis using None s(2) like_becomes by (auto simp: pdelO_def whenE_run)
  next
    case (Some t)
    note t = t [OF Some]
    let ?path = "\<lparr>path_node = map_option (nodeOf ?H) (fst (pend t ?K)), path_remaining = snd (pend t ?K),
      path_stack = map (nodeOf ?H) (ptrail t ?K)\<rparr>"
    obtain s1 where s1: "like s s1" "findPath opts D ?k False s = (Inr ?path, s1)"
    proof (rule findPath_some [OF plain _ _ _ s(1), of t n N ?k False])
      fix s' st e assume "e \<in> nodes ?H t \<inter> enc ?H ` set (ptrail t ?K)" "view (mpt_db s) (nodeKeyOf opts e) = None"
      then show thesis using s(2) Some by auto
    qed (use t k s(2) Some that in auto)
    have h1: "inv (mpt_db s1)" "holds_trie opts (view (mpt_db s1)) (mpt_root s1) (Some t)"
      using s1(1) s(2) Some by (simp_all add: like_def)
    show ?thesis
    proof (cases "fst (pend t ?K)")
      case None
      then have "pdelO to ?K = to" using pdel_absent t Some by (simp add: pdelO_def)
      then show ?thesis using None s1 s(2) like_becomes by (auto simp: whenE_run)
    next
      case (Some u)
      obtain lp lv where "fst (pend t ?K) = Some (PLeaf lp lv)" using leaf [OF \<open>to = Some t\<close> Some] Some by auto
      then have "\<exists>s2. deleteNode opts D ?k (map (nodeOf ?H) (ptrail t ?K)) s1 = (Inr (), s2) \<and> becomes opts s1 (pdel t ?K) s2"
        by (rule deleteNode_trie [OF conjunct1 [OF t] conjunct2 [OF t] _ _ h1])
          (use \<open>to = Some t\<close> clash(2) in \<open>auto simp: pdelO_def\<close>)
      then show ?thesis using Some s1 becomes_like \<open>to = Some t\<close> by (fastforce simp: whenE_run pdelO_def)
    qed
  qed
  then obtain path s1 s2 where r: "findPath opts D ?k False s = (Inr path, s1)"
    "whenE (path_node path \<noteq> None) (deleteNode opts D ?k (path_stack path)) s1 = (Inr (), s2)" "becomes opts s (pdelO to ?K) s2"
    by blast
  have "sized opts n N t'" if "pdelO to ?K = Some t'" for t'
    using that t within_pdel by (auto simp: pdelO_def sized_def split: option.splits)
  then obtain s' where "persistRoot opts D s2 = (Inr (), s')" "becomes opts s (pdelO to ?K) s'"
    using persist_becomes [OF r(3) clash(2) plain] by blast
  moreover have "mpt_del opts D key skip s = persistRoot opts D s2"
    using r(1,2) plain unfolding mpt_del_def keyFor_def Let_def by (simp add: resM_def plain_opts_def seqE_run whenE_run)
  ultimately show ?thesis by auto
qed

text \<open>With paths of one length every path ends at a leaf.\<close>

lemma del_trie:
  assumes plain: "plain_opts opts" and t: "\<And>t. to = Some t \<Longrightarrow> canonical t \<and> uniform d t \<and> sized opts n N t"
    and k: "2 * length (keyFor opts key skip) = d" "d < mo_walkSteps opts"
    and clash: "no_clash opts (\<Union>t \<in> set_option to. nodes (mo_hash opts) t)"
      "no_clash opts (\<Union>t \<in> set_option (pdelO to (bytesToNibbles (keyFor opts key skip))). nodes (mo_hash opts) t)"
    and s: "inv (mpt_db s)" "holds_trie opts (view (mpt_db s)) (mpt_root s) to"
  shows "\<exists>s'. mpt_del opts D key skip s = (Inr (), s') \<and>
    becomes opts s (pdelO to (bytesToNibbles (keyFor opts key skip))) s'"
proof (rule del_canonical [OF plain _ _ _ clash s])
  fix t u assume "to = Some t" "fst (pend t (bytesToNibbles (keyFor opts key skip))) = Some u"
  then show "\<exists>p v. u = PLeaf p v" using uniform_ends [of d t "bytesToNibbles (keyFor opts key skip)" u] t [of t] k(1) by simp
qed (use t k in auto)

end

end
