(* ===== verification/MptSpec.thy ===== *)
theory MptSpec
  imports MptDel
begin

text \<open>
  What the trie promises: it is a map from keys to values, its root depends on the contents alone,
  and a reverted frame leaves no trace. The laws are derived for every \<open>node_store\<close> and stated
  for the database of the code, \<open>CheckpointDB\<close> without a cache.
\<close>

section \<open>Runs\<close>

definition pathOf :: "mpt_opts \<Rightarrow> bytes \<Rightarrow> nibbles" where
  "pathOf opts key = bytesToNibbles (appliedKey opts key)"

text \<open>An operation on the abstract trie, and on the contents.\<close>

fun trie_op :: "mpt_opts \<Rightarrow> bytes batch_op \<Rightarrow> ptrie option \<Rightarrow> ptrie option" where
  "trie_op opts (PutOp key v) to = (if v = [] then pdelO to (pathOf opts key) else Some (pputO to (pathOf opts key) v))"
| "trie_op opts (DelOp key) to = pdelO to (pathOf opts key)"

fun content_op :: "mpt_opts \<Rightarrow> bytes batch_op \<Rightarrow> (nibbles \<Rightarrow> bytes) \<Rightarrow> nibbles \<Rightarrow> bytes" where
  "content_op opts (PutOp key v) c = c(pathOf opts key := v)"
| "content_op opts (DelOp key) c = c(pathOf opts key := [])"

definition trie_run :: "mpt_opts \<Rightarrow> bytes batch_op list \<Rightarrow> ptrie option \<Rightarrow> ptrie option" where
  "trie_run opts ops to = fold (trie_op opts) ops to"

definition content_run :: "mpt_opts \<Rightarrow> bytes batch_op list \<Rightarrow> (nibbles \<Rightarrow> bytes) \<Rightarrow> nibbles \<Rightarrow> bytes" where
  "content_run opts ops c = fold (content_op opts) ops c"

definition nodesO :: "mpt_opts \<Rightarrow> ptrie option \<Rightarrow> bytes set" where
  "nodesO opts to = (\<Union>t \<in> set_option to. nodes (mo_hash opts) t)"

text \<open>The encodings of all nodes of the tries a run goes through.\<close>

fun run_nodes :: "mpt_opts \<Rightarrow> bytes batch_op list \<Rightarrow> ptrie option \<Rightarrow> bytes set" where
  "run_nodes opts [] to = nodesO opts to"
| "run_nodes opts (x # ops) to = nodesO opts to \<union> run_nodes opts ops (trie_op opts x to)"

fun op_key :: "bytes batch_op \<Rightarrow> bytes" where
  "op_key (PutOp key v) = key"
| "op_key (DelOp key) = key"

fun op_value :: "bytes batch_op \<Rightarrow> bytes" where
  "op_value (PutOp key v) = v"
| "op_value (DelOp key) = []"

text \<open>Operations with keys of one length, values of bounded length, and not on the root's key.\<close>

definition good_op :: "mpt_opts \<Rightarrow> nat \<Rightarrow> nat \<Rightarrow> bytes batch_op \<Rightarrow> bool" where
  "good_op opts d N x \<longleftrightarrow> 2 * length (appliedKey opts (op_key x)) = d \<and> length (op_value x) \<le> N \<and>
     \<not> (mo_useRootPersistence opts \<and> op_key x = ROOT_DB_KEY)"

definition good_opts :: "mpt_opts \<Rightarrow> nat \<Rightarrow> nat \<Rightarrow> bool" where
  "good_opts opts d N \<longleftrightarrow> plain_opts opts \<and> d < mo_walkSteps opts \<and> d < 2 ^ 40 \<and> N < 2 ^ 40"

definition good_trie :: "mpt_opts \<Rightarrow> nat \<Rightarrow> nat \<Rightarrow> ptrie option \<Rightarrow> bool" where
  "good_trie opts d N to \<longleftrightarrow> (\<forall>t. to = Some t \<longrightarrow> canonical t \<and> uniform d t \<and> sized opts d N t)"

lemma no_clash_mono: "no_clash opts S \<Longrightarrow> T \<subseteq> S \<Longrightarrow> no_clash opts T"
  unfolding no_clash_def by (erule inj_on_subset) blast

lemma run_nodes_first: "nodesO opts to \<subseteq> run_nodes opts ops to"
  by (cases ops) auto

lemma good_pput:
  assumes "good_trie opts d N to" "good_opts opts d N" "length k = d" "nibs k" "length v \<le> N" "v \<noteq> []"
  shows "good_trie opts d N (Some (pputO to k v))"
proof (cases to)
  case (Some t)
  then have "canonical t" "uniform d t" "sized opts d N t" using assms(1) by (auto simp: good_trie_def)
  then show ?thesis using assms Some
    by (simp add: good_trie_def pputO_def canonical_pput uniform_pput sized_def within_pput)
qed (use assms in \<open>simp add: good_trie_def pputO_def sized_def good_opts_def\<close>)

lemma good_pdel: "good_trie opts d N to \<Longrightarrow> good_trie opts d N (pdelO to k)"
  unfolding good_trie_def
proof (intro allI impI)
  fix t' assume good: "\<forall>t. to = Some t \<longrightarrow> canonical t \<and> uniform d t \<and> sized opts d N t" and "pdelO to k = Some t'"
  then obtain t where "to = Some t" "pdel t k = Some t'" by (cases to) (auto simp: pdelO_def)
  then show "canonical t' \<and> uniform d t' \<and> sized opts d N t'"
    using good pdel_canonical [of t d k t'] within_pdel [of d N t k t'] by (simp add: sized_def)
qed

lemma good_step: "good_trie opts d N to \<Longrightarrow> good_opts opts d N \<Longrightarrow> good_op opts d N x \<Longrightarrow> good_trie opts d N (trie_op opts x to)"
proof (cases x)
  case (PutOp key v)
  then show "good_trie opts d N to \<Longrightarrow> good_opts opts d N \<Longrightarrow> good_op opts d N x \<Longrightarrow> ?thesis"
    by (simp add: good_op_def good_pdel) (simp add: good_pput pathOf_def)
qed (simp add: good_pdel)

lemma content_step:
  assumes "good_trie opts d N to" "good_op opts d N x"
  shows "pgetO (trie_op opts x to) = content_op opts x (pgetO to)"
proof -
  have del: "pgetO (pdelO to k) = (pgetO to)(k := [])" if "length k = d" for k
    using pget_pdel [of _ d k] assms(1) that by (cases to) (auto simp: pdelO_def good_trie_def fun_eq_iff)
  have put: "pgetO (Some (pputO to k v)) = (pgetO to)(k := v)" for k v
    by (cases to) (auto simp: pputO_def pget_pput fun_eq_iff)
  show ?thesis using assms(2) del put
    by (cases x) (auto simp: good_op_def pathOf_def simp del: pgetO.simps fun_upd_apply)
qed

lemma trie_run_content: "good_trie opts d N to \<Longrightarrow> good_opts opts d N \<Longrightarrow> \<forall>x \<in> set ops. good_op opts d N x \<Longrightarrow>
    good_trie opts d N (trie_run opts ops to) \<and> pgetO (trie_run opts ops to) = content_run opts ops (pgetO to)"
proof (induction ops arbitrary: to)
  case (Cons x ops)
  then show ?case using good_step [of opts d N to x] content_step [of opts d N to x]
    by (simp add: trie_run_def content_run_def)
qed (simp add: trie_run_def content_run_def)

lemma canonical_option_unique:
  assumes "good_trie opts d N to" "good_trie opts' d' N' to'" "pgetO to = pgetO to'"
  shows "to = to'"
proof (cases to; cases to')
  fix t t' assume "to = Some t" "to' = Some t'"
  then show ?thesis using assms canonical_unique by (auto simp: good_trie_def fun_eq_iff)
next
  fix t assume "to = Some t" "to' = None"
  then show ?thesis using assms canonical_inhabited [of t] by (auto simp: good_trie_def fun_eq_iff)
next
  fix t assume "to = None" "to' = Some t"
  then show ?thesis using assms canonical_inhabited [of t] by (auto simp: good_trie_def fun_eq_iff)
qed simp

section \<open>Runs on a database\<close>

context node_store begin

lemma step_trie:
  assumes "good_trie opts d N to" "good_opts opts d N" "good_op opts d N x"
    and "no_clash opts (nodesO opts to)" "no_clash opts (nodesO opts (trie_op opts x to))"
    and s: "inv (mpt_db s)" "holds_trie opts (view (mpt_db s)) (mpt_root s) to"
  shows "\<exists>s'. (case x of PutOp key v \<Rightarrow> mpt_put opts D key (Some v) False
      | DelOp key \<Rightarrow> mpt_del opts D key False) s = (Inr (), s') \<and> becomes opts s (trie_op opts x to) s'"
proof -
  have plain: "plain_opts opts" and d: "d < mo_walkSteps opts" "d < 2 ^ 40" "N < 2 ^ 40"
    using assms(2) by (auto simp: good_opts_def)
  have t: "\<And>t. to = Some t \<Longrightarrow> canonical t \<and> uniform d t \<and> sized opts d N t"
    and t': "\<And>t. to = Some t \<Longrightarrow> canonical t \<and> sized opts d N t" using assms(1) by (auto simp: good_trie_def)
  have k: "keyFor opts (op_key x) False = appliedKey opts (op_key x)" "2 * length (appliedKey opts (op_key x)) = d"
    using assms(3) by (simp_all add: keyFor_def good_op_def)
  have del: "\<exists>s'. mpt_del opts D (op_key x) False s = (Inr (), s') \<and> becomes opts s (pdelO to (pathOf opts (op_key x))) s'"
    if "trie_op opts x to = pdelO to (pathOf opts (op_key x))"
    using del_trie [OF plain t, where key = "op_key x" and skip = False and s = s] k d s assms(4,5) that by (simp add: nodesO_def pathOf_def)
  show ?thesis
  proof (cases x)
    case (PutOp key v)
    show ?thesis
    proof (cases "v = []")
      case True
      have "\<not> (mo_useRootPersistence opts \<and> key = ROOT_DB_KEY)" using assms(3) PutOp by (simp add: good_op_def)
      note no = if_not_P [OF this]
      have "mpt_put opts D key (Some v) False = mpt_del opts D key False"
        unfolding mpt_put_def no using True by simp
      then show ?thesis using del PutOp True by simp
    next
      case False
      then show ?thesis
        using put_trie [OF False _ plain t' d(2,3), where key = key and skip = False and s = s] k d s assms(3-5) PutOp
        by (simp add: nodesO_def pathOf_def good_op_def)
    qed
  qed (use del in simp)
qed

lemma run_trie:
  assumes "good_opts opts d N" and "\<forall>x \<in> set ops. good_op opts d N x"
  shows "good_trie opts d N to \<Longrightarrow> no_clash opts (run_nodes opts ops to) \<Longrightarrow> inv (mpt_db s) \<Longrightarrow>
    holds_trie opts (view (mpt_db s)) (mpt_root s) to \<Longrightarrow>
    \<exists>s'. mpt_batch opts D ops False s = (Inr (), s') \<and> becomes opts s (trie_run opts ops to) s'"
proof -
  let ?f = "\<lambda>x. case x of PutOp key v \<Rightarrow> mpt_put opts D key (Some v) False | DelOp key \<Rightarrow> mpt_del opts D key False"
  have "\<exists>s'. forE ops ?f s = (Inr (), s') \<and> becomes opts s (trie_run opts ops to) s'"
    if "good_trie opts d N to" "no_clash opts (run_nodes opts ops to)" "inv (mpt_db s)"
      "holds_trie opts (view (mpt_db s)) (mpt_root s) to" "\<forall>x \<in> set ops. good_op opts d N x" for ops to s
    using that
  proof (induction ops arbitrary: to s)
    case (Cons x ops)
    let ?to = "trie_op opts x to"
    have c: "no_clash opts (nodesO opts to)" "no_clash opts (nodesO opts ?to)" "no_clash opts (run_nodes opts ops ?to)"
      using Cons.prems(2) run_nodes_first [of opts ?to ops] by (auto intro: no_clash_mono)
    obtain s1 where s1: "?f x s = (Inr (), s1)" "becomes opts s ?to s1"
      using step_trie [OF Cons.prems(1) assms(1) _ c(1,2) Cons.prems(3,4)] Cons.prems(5) by auto
    have "inv (mpt_db s1)" "holds_trie opts (view (mpt_db s1)) (mpt_root s1) ?to"
      using s1(2) by (simp_all add: becomes_def)
    then obtain s2 where "forE ops ?f s1 = (Inr (), s2)" "becomes opts s1 (trie_run opts ops ?to) s2"
      using Cons.IH [OF good_step [OF Cons.prems(1) assms(1)] c(3)] Cons.prems(5) by auto
    then show ?case using s1 becomes_trans by (auto simp: trie_run_def)
  qed (simp add: trie_run_def becomes_def)
  note loop = this
  assume t: "good_trie opts d N to" and c: "no_clash opts (run_nodes opts ops to)" and s: "inv (mpt_db s)"
    "holds_trie opts (view (mpt_db s)) (mpt_root s) to"
  obtain s1 where s1: "forE ops ?f s = (Inr (), s1)" "becomes opts s (trie_run opts ops to) s1"
    using loop [OF t c s assms(2)] by blast
  have good: "good_trie opts d N (trie_run opts ops to)" using trie_run_content t assms by blast
  have last: "nodesO opts (trie_run opts ops to) \<subseteq> run_nodes opts ops to" for ops to
    by (induction ops arbitrary: to) (auto simp: trie_run_def)
  obtain s2 where "persistRoot opts D s1 = (Inr (), s2)" "becomes opts s (trie_run opts ops to) s2"
    using persist_becomes [OF s1(2) _ _, of d N] good no_clash_mono [OF c last] assms(1)
    by (auto simp: good_trie_def nodesO_def good_opts_def)
  then show ?thesis using s1(1) by (auto simp: mpt_batch_def)
qed

lemma get_content:
  assumes "good_opts opts d N" "good_trie opts d N to" "2 * length (appliedKey opts key) = d"
    and "inv (mpt_db s)" "holds_trie opts (view (mpt_db s)) (mpt_root s) to"
  shows "\<exists>s'. mpt_get opts D key False s =
    (Inr (let v = pgetO to (pathOf opts key) in if v = [] then None else Some (NBytes v)), s') \<and> like s s'"
  using get_trie [of opts to d N key s] assms by (auto simp: good_opts_def good_trie_def pathOf_def Let_def)

text \<open>A frame: a run between a checkpoint and a commit or a revert.\<close>

lemma frame_trie:
  assumes "good_opts opts d N" "\<forall>x \<in> set ops. good_op opts d N x" "good_trie opts d N to"
    and c: "no_clash opts (run_nodes opts ops to)" and s: "inv (mpt_db s)" "holds_trie opts (view (mpt_db s)) (mpt_root s) to"
  shows "\<exists>s1 s2 s3. mpt_checkpoint D s = (Inr (), s1) \<and> mpt_batch opts D ops False s1 = (Inr (), s2) \<and>
    (if keep then mpt_commit opts D else mpt_revert opts D) s2 = (Inr (), s3) \<and>
    becomes opts s (if keep then trie_run opts ops to else to) s3 \<and> mpt_root s3 = (if keep then mpt_root s2 else mpt_root s)"
proof -
  have plain: "plain_opts opts" using assms(1) by (simp add: good_opts_def)
  obtain d1 where d1: "nd_checkpoint D (mpt_root s) (mpt_db s) = (Inr (), d1)" "inv d1" "view d1 = view (mpt_db s)"
    "saved d1 = (view (mpt_db s), mpt_root s) # saved (mpt_db s)" using checkpoint_law [OF s(1)] by blast
  let ?s1 = "s\<lparr>mpt_db := d1\<rparr>"
  have cp: "mpt_checkpoint D s = (Inr (), ?s1)" using d1(1) by (simp add: mpt_checkpoint_def seqE_run dbM_def)
  obtain s2 where s2: "mpt_batch opts D ops False ?s1 = (Inr (), s2)" "becomes opts ?s1 (trie_run opts ops to) s2"
    using run_trie [OF assms(1,2,3) c, of ?s1] d1 s(2) by auto
  have sv: "inv (mpt_db s2)" "saved (mpt_db s2) = (view (mpt_db s), mpt_root s) # saved (mpt_db s)"
    and h2: "holds_trie opts (view (mpt_db s2)) (mpt_root s2) (trie_run opts ops to)"
    using s2(2) d1 by (simp_all add: becomes_def)
  have has: "mpt_hasCheckpoints D s2" using open_law [OF sv(1)] sv(2) by (simp add: mpt_hasCheckpoints_def)
  let ?to = "if keep then trie_run opts ops to else to" and ?root = "if keep then mpt_root s2 else mpt_root s"
  have good: "\<And>t. ?to = Some t \<Longrightarrow> sized opts d N t"
    using trie_run_content [OF assms(3,1,2)] assms(3) by (auto simp: good_trie_def split: if_splits)
  have "nodesO opts (trie_run opts ops to) \<subseteq> run_nodes opts ops to" for ops to
    by (induction ops arbitrary: to) (auto simp: trie_run_def)
  then have clash: "no_clash opts (\<Union>t \<in> set_option ?to. nodes (mo_hash opts) t)"
    using no_clash_mono [OF c] run_nodes_first [of opts to ops] by (auto simp: nodesO_def)
  obtain d3 where d3: "inv d3" "saved d3 = saved (mpt_db s)" "holds_trie opts (view d3) ?root ?to"
    "(if keep then mpt_commit opts D else mpt_revert opts D) s2 = persistRoot opts D (s2\<lparr>mpt_db := d3, mpt_root := ?root\<rparr>)"
  proof (cases keep)
    case True
    obtain d3 where "nd_commit D (mpt_db s2) = (Inr (), d3)" "inv d3" "view d3 = view (mpt_db s2)" "saved d3 = saved (mpt_db s)"
      using commit_law [OF sv] by blast
    moreover have "s2\<lparr>mpt_db := d3, mpt_root := mpt_root s2\<rparr> = s2\<lparr>mpt_db := d3\<rparr>" by (cases s2) simp
    ultimately show thesis using that True h2 has by (simp add: mpt_commit_def seqE_run dbM_def)
  next
    case False
    obtain d3 where d: "nd_revert D (mpt_db s2) = (Inr (mpt_root s), d3)" "inv d3" "view d3 = view (mpt_db s)"
      "saved d3 = saved (mpt_db s)" using revert_law [OF sv] by blast
    have "\<exists>x. mpt_root s = mo_hash opts x" using s(2) by (cases to) (auto simp: EMPTY_TRIE_ROOT_def)
    then have "setRoot opts (mpt_root s) (s2\<lparr>mpt_db := d3\<rparr>) = (Inr (), s2\<lparr>mpt_db := d3, mpt_root := mpt_root s\<rparr>)"
      using setRoot_hash [OF plain] by fastforce
    then show thesis using that False d s(2) has by (simp add: mpt_revert_def seqE_run dbM_def)
  qed
  let ?s = "s2\<lparr>mpt_db := d3, mpt_root := ?root\<rparr>"
  have "becomes opts s ?to ?s" using d3 by (simp add: becomes_def)
  then obtain s3 where s3: "persistRoot opts D ?s = (Inr (), s3)" "becomes opts s ?to s3"
    using persist_becomes [OF _ clash plain good] by blast
  have "mpt_root s3 = ?root"
    using s3(1) by (auto simp: persistRoot_def whenE_run seqE_run dbM_def split: if_splits prod.splits)
  then show ?thesis using cp s2(1) s3 d3(4) by auto
qed

end

section \<open>The root commits to the trie\<close>

lemma mkref_unique:
  assumes "no_clash opts S" "own (mo_hash opts) t \<subseteq> S" "own (mo_hash opts) u \<subseteq> S"
    and eq: "mkref (mo_hash opts) (nodeOf (mo_hash opts) t) = mkref (mo_hash opts) (nodeOf (mo_hash opts) u)"
  shows "enc (mo_hash opts) t = enc (mo_hash opts) u"
proof -
  have "raw n \<noteq> NBytes b" for n b by (cases n) simp_all
  moreover have "raw n = NBytes b \<longleftrightarrow> False" "NBytes b = raw n \<longleftrightarrow> False" for n b by (cases n; simp)+
  ultimately consider "raw (nodeOf (mo_hash opts) t) = raw (nodeOf (mo_hash opts) u)"
    | "mo_hash opts (enc (mo_hash opts) t) = mo_hash opts (enc (mo_hash opts) u)"
      "enc (mo_hash opts) t \<in> S" "enc (mo_hash opts) u \<in> S"
    using assms(2,3) eq by (auto simp: mkref_def own_def enc_def split: if_splits)
  then show ?thesis
  proof cases
    case 2
    then show ?thesis using assms(1) by (auto simp: no_clash_def inj_on_def)
  qed (simp add: enc_def)
qed

lemma enc_nodeOf: "canonical t \<Longrightarrow> canonical u \<Longrightarrow> storable opts t \<Longrightarrow> storable opts u \<Longrightarrow>
    enc (mo_hash opts) t = enc (mo_hash opts) u \<Longrightarrow> nodeOf (mo_hash opts) t = nodeOf (mo_hash opts) u"
  using decode_rlp_raw [OF node_ok_nodeOf] by (metis Inr_inject enc_def storable_def)

lemma own_under: "own H t \<union> under H t \<subseteq> nodes H t"
  by (auto simp: own_def nodes_def)

lemma enc_unique: "canonical t \<Longrightarrow> canonical u \<Longrightarrow> sized opts n N t \<Longrightarrow> sized opts m M u \<Longrightarrow> no_clash opts S \<Longrightarrow>
    under (mo_hash opts) t \<union> under (mo_hash opts) u \<subseteq> S \<Longrightarrow> enc (mo_hash opts) t = enc (mo_hash opts) u \<Longrightarrow> t = u"
proof (induction t arbitrary: u n m)
  case (PLeaf p v)
  then show ?case using enc_nodeOf [OF PLeaf(1,2) sized_storable sized_storable] by (cases u) auto
next
  case (PExt p t)
  let ?H = "mo_hash opts"
  have n: "nodeOf ?H (PExt p t) = nodeOf ?H u"
    using enc_nodeOf [OF PExt.prems(1,2) sized_storable [OF PExt.prems(3)] sized_storable [OF PExt.prems(4)] PExt.prems(7)] .
  then obtain u' where u: "u = PExt p u'" "mkref ?H (nodeOf ?H t) = mkref ?H (nodeOf ?H u')" by (cases u) auto
  then have "enc ?H t = enc ?H u'" using mkref_unique [OF PExt.prems(5) _ _ u(2)] PExt.prems(6) by auto
  then have "t = u'"
    using PExt.IH [of u' "n - length p" "m - length p"] PExt.prems u(1) sized_child(1) by auto
  then show ?case using u(1) by simp
next
  case (PBranch f w)
  let ?H = "mo_hash opts"
  have H: "\<forall>x. length (?H x) = 32" using PBranch.prems(3) by (simp add: sized_def plain_opts_def)
  have n: "nodeOf ?H (PBranch f w) = nodeOf ?H u"
    using enc_nodeOf [OF PBranch.prems(1,2) sized_storable [OF PBranch.prems(3)] sized_storable [OF PBranch.prems(4)] PBranch.prems(7)] .
  then obtain g where u: "u = PBranch g w" by (cases u) auto
  have slots: "map_option (\<lambda>t. mkref ?H (nodeOf ?H t)) (f i) = map_option (\<lambda>t. mkref ?H (nodeOf ?H t)) (g i)" if "i < 16" for i
    using getBranch_nodeOf [OF H that, of f w] getBranch_nodeOf [OF H that, of g w] n unfolding u by metis
  have "f i = g i" for i
  proof (cases "i < 16")
    case True
    show ?thesis
    proof (cases "f i")
      case None
      then show ?thesis using slots [OF True] by auto
    next
      case (Some t)
      then obtain t' where t': "g i = Some t'" "mkref ?H (nodeOf ?H t) = mkref ?H (nodeOf ?H t')"
        using slots [OF True] by (cases "g i") auto
      have sub: "own ?H t \<union> under ?H t \<subseteq> S" "own ?H t' \<union> under ?H t' \<subseteq> S"
        using under_child [where f = f and i = i, OF Some, of ?H w] under_child [where f = g and i = i, OF t'(1), of ?H w]
          PBranch.prems(6) u by blast+
      then have e: "enc ?H t = enc ?H t'" using mkref_unique [OF PBranch.prems(5) _ _ t'(2)] by blast
      have "t = t'"
        using PBranch.IH [OF rangeI [of f i], of t t' "n - 1" "m - 1"] PBranch.prems(1-5) sub e u t'(1) Some
          sized_child(2) by auto
      then show ?thesis using Some t'(1) by simp
    qed
  next
    case False
    then show ?thesis using PBranch.prems(1,2) u by (cases "f i"; cases "g i") auto
  qed
  then show ?case using u by auto
qed

lemma root_unique:
  assumes "holds_trie opts w root to" "holds_trie opts w' root to'" "good_trie opts d N to" "good_trie opts d' N' to'"
    and "no_clash opts (nodesO opts to \<union> nodesO opts to')"
  shows "to = to'"
proof -
  have no: False if "holds_trie opts w root None" "holds_trie opts w' root (Some t)" "good_trie opts d N (Some t)"
    "no_clash opts S" "nodesO opts (Some t) \<subseteq> S" for w w' t d N S
    using that hash_special [of opts S t] sized_storable by (auto simp: good_trie_def nodesO_def nodes_def)
  show ?thesis
  proof (cases to; cases to')
    fix t t' assume t: "to = Some t" "to' = Some t'"
    then have "enc (mo_hash opts) t \<in> nodesO opts to" "enc (mo_hash opts) t' \<in> nodesO opts to'"
      "mo_hash opts (enc (mo_hash opts) t) = mo_hash opts (enc (mo_hash opts) t')"
      using assms(1,2) by (simp_all add: nodesO_def nodes_def)
    then have "enc (mo_hash opts) t = enc (mo_hash opts) t'" using assms(5) by (auto simp: no_clash_def inj_on_def)
    then have "t = t'" using t assms(3,4)
      by (intro enc_unique [OF _ _ _ _ assms(5)]) (auto simp: good_trie_def nodesO_def nodes_def)
    then show ?thesis using t by simp
  next
    fix t assume "to = Some t" "to' = None"
    then show ?thesis using no [of w' w t] assms by (metis Un_upper1)
  next
    fix t assume "to = None" "to' = Some t"
    then show ?thesis using no [of w w' t] assms by (metis Un_upper2)
  qed simp
qed

section \<open>The trie on CheckpointDB\<close>

definition freshMPT :: "mpt_opts \<Rightarrow> bool \<Rightarrow> 'c checkpoint_db mpt" where
  "freshMPT opts valueBytes = newMPT opts (newCheckpointDB [] valueBytes None)"

definition mpt_holds :: "mpt_opts \<Rightarrow> 'c checkpoint_db mpt \<Rightarrow> ptrie option \<Rightarrow> bool" where
  "mpt_holds opts s to \<longleftrightarrow> cd_inv rlp_noble (mpt_db s) \<and>
     holds_trie opts (cd_store_view rlp_noble (mpt_db s)) (mpt_root s) to"

lemma freshMPT_holds: "mpt_holds opts (freshMPT opts vb) None"
  by (simp add: mpt_holds_def freshMPT_def newMPT_def newCheckpointDB_def cd_inv_def cd_store_view_def
      cd_view_def by_bytes_def base_view_def)

lemma becomes_holds: "cdb.becomes opts s to s' \<Longrightarrow> mpt_holds opts s' to"
  by (simp add: cdb.becomes_def mpt_holds_def)

text \<open>The value of a key in the contents, as \<open>get\<close> returns it.\<close>

definition read_value :: "mpt_opts \<Rightarrow> (nibbles \<Rightarrow> bytes) \<Rightarrow> bytes \<Rightarrow> nested option" where
  "read_value opts c key = (if c (pathOf opts key) = [] then None else Some (NBytes (c (pathOf opts key))))"

definition reads_as :: "mpt_opts \<Rightarrow> 'c lru_cache \<Rightarrow> nat \<Rightarrow> (nibbles \<Rightarrow> bytes) \<Rightarrow> 'c checkpoint_db mpt \<Rightarrow> bool" where
  "reads_as opts L d c s \<longleftrightarrow> (\<forall>key. 2 * length (appliedKey opts key) = d \<longrightarrow>
     fst (mpt_get opts (cd_node_db rlp_noble L) key False s) = Inr (read_value opts c key))"

lemma holds_reads: "good_opts opts d N \<Longrightarrow> good_trie opts d N to \<Longrightarrow> mpt_holds opts s to \<Longrightarrow> reads_as opts L d (pgetO to) s"
  unfolding reads_as_def read_value_def mpt_holds_def using cdb.get_content [of opts d N to _ s L]
  by (fastforce simp: Let_def)

lemma good_none [simp]: "good_trie opts d N None"
  by (simp add: good_trie_def)

lemma pgetO_none: "pgetO None = (\<lambda>k. [])"
  by auto

text \<open>
  C11. The trie is a map: after any batch of puts and deletes of keys of one length on a new trie,
  \<open>get\<close> of a key returns the value last put under it, and nothing where it was deleted or never
  put; nothing throws. Keys and values are of bounded length and no two of the nodes
  that come up have the same hash.
\<close>

theorem mpt_batch_is_map:
  assumes "good_opts opts d N" and "\<forall>x \<in> set ops. good_op opts d N x" and "no_clash opts (run_nodes opts ops None)"
  shows "\<exists>s. mpt_batch opts (cd_node_db rlp_noble L) ops False (freshMPT opts vb) = (Inr (), s) \<and>
    reads_as opts L d (content_run opts ops (\<lambda>k. [])) s"
proof -
  obtain s where s: "mpt_batch opts (cd_node_db rlp_noble L) ops False (freshMPT opts vb) = (Inr (), s)"
    "mpt_holds opts s (trie_run opts ops None)"
    using cdb.run_trie [OF assms(1,2) good_none assms(3), where s = "freshMPT opts vb"] freshMPT_holds becomes_holds
    unfolding mpt_holds_def by blast
  then show ?thesis using holds_reads [OF assms(1) _ s(2)] trie_run_content [OF good_none assms(1,2)]
    by (auto simp: pgetO_none)
qed

lemma run_holds:
  assumes "good_opts opts d N" "\<forall>x \<in> set ops. good_op opts d N x" "no_clash opts (run_nodes opts ops None)"
  shows "\<exists>s. mpt_batch opts (cd_node_db rlp_noble L) ops False (freshMPT opts vb) = (Inr (), s) \<and>
    mpt_holds opts s (trie_run opts ops None)"
  using cdb.run_trie [OF assms(1,2) good_none assms(3), where s = "freshMPT opts vb"] freshMPT_holds becomes_holds
  unfolding mpt_holds_def by blast

lemma same_root: "holds_trie opts w root to \<Longrightarrow> holds_trie opts w' root' to \<Longrightarrow> root = root'"
  by (cases to) simp_all

lemma run_nodes_last: "nodesO opts (trie_run opts ops to) \<subseteq> run_nodes opts ops to"
  by (induction ops arbitrary: to) (auto simp: trie_run_def)

text \<open>
  C12. The root commits to the contents: of two batches, each on a new trie, the roots are equal
  exactly when the final contents are, whatever the order of the operations and whatever was put
  and deleted in between.
\<close>

theorem mpt_root_commits:
  assumes "good_opts opts d N" and "\<forall>x \<in> set ops. good_op opts d N x" and "\<forall>x \<in> set ops'. good_op opts d N x"
    and "no_clash opts (run_nodes opts ops None \<union> run_nodes opts ops' None)"
  shows "\<exists>s s'. mpt_batch opts (cd_node_db rlp_noble L) ops False (freshMPT opts vb) = (Inr (), s) \<and>
    mpt_batch opts (cd_node_db rlp_noble L) ops' False (freshMPT opts vb) = (Inr (), s') \<and>
    (mpt_root s = mpt_root s' \<longleftrightarrow> content_run opts ops (\<lambda>k. []) = content_run opts ops' (\<lambda>k. []))"
proof -
  let ?t = "trie_run opts ops None" and ?t' = "trie_run opts ops' None"
  obtain s where s: "mpt_batch opts (cd_node_db rlp_noble L) ops False (freshMPT opts vb) = (Inr (), s)" "mpt_holds opts s ?t"
    using run_holds [OF assms(1,2)] no_clash_mono [OF assms(4) Un_upper1] by blast
  obtain s' where s': "mpt_batch opts (cd_node_db rlp_noble L) ops' False (freshMPT opts vb) = (Inr (), s')" "mpt_holds opts s' ?t'"
    using run_holds [OF assms(1,3)] no_clash_mono [OF assms(4) Un_upper2] by blast
  have g: "good_trie opts d N ?t" "pgetO ?t = content_run opts ops (\<lambda>k. [])"
    and g': "good_trie opts d N ?t'" "pgetO ?t' = content_run opts ops' (\<lambda>k. [])"
    using trie_run_content [OF good_none assms(1)] assms(2,3) by (auto simp: pgetO_none)
  have "no_clash opts (nodesO opts ?t \<union> nodesO opts ?t')"
    by (rule no_clash_mono [OF assms(4) Un_mono [OF run_nodes_last run_nodes_last]])
  then have "mpt_root s = mpt_root s' \<Longrightarrow> ?t = ?t'"
    using root_unique [OF _ _ g(1) g'(1)] s(2) s'(2) by (metis mpt_holds_def)
  moreover have "?t = ?t' \<Longrightarrow> mpt_root s = mpt_root s'"
    using s(2) s'(2) same_root unfolding mpt_holds_def by metis
  ultimately show ?thesis using s(1) s'(1) g g' canonical_option_unique [OF g(1) g'(1)] by metis
qed

text \<open>
  C19. A frame: between \<open>checkpoint\<close> and \<open>revert\<close> a batch leaves no trace, the root and every value
  are as before; between \<open>checkpoint\<close> and \<open>commit\<close> its effect stays.
\<close>

theorem mpt_frame:
  assumes "good_opts opts d N" and "\<forall>x \<in> set ops. good_op opts d N x" and "\<forall>x \<in> set inner. good_op opts d N x"
    and "no_clash opts (run_nodes opts ops None)" and "no_clash opts (run_nodes opts inner (trie_run opts ops None))"
  shows "\<exists>s s1 s2 s3. mpt_batch opts (cd_node_db rlp_noble L) ops False (freshMPT opts vb) = (Inr (), s) \<and>
    mpt_checkpoint (cd_node_db rlp_noble L) s = (Inr (), s1) \<and>
    mpt_batch opts (cd_node_db rlp_noble L) inner False s1 = (Inr (), s2) \<and>
    (if keep then mpt_commit opts (cd_node_db rlp_noble L) else mpt_revert opts (cd_node_db rlp_noble L)) s2 = (Inr (), s3) \<and>
    mpt_root s3 = (if keep then mpt_root s2 else mpt_root s) \<and>
    reads_as opts L d (content_run opts (ops @ (if keep then inner else [])) (\<lambda>k. [])) s3"
proof -
  let ?t = "trie_run opts ops None"
  let ?t3 = "if keep then trie_run opts inner ?t else ?t"
  obtain s where s: "mpt_batch opts (cd_node_db rlp_noble L) ops False (freshMPT opts vb) = (Inr (), s)" "mpt_holds opts s ?t"
    using run_holds [OF assms(1,2,4)] by blast
  have g: "good_trie opts d N ?t" "pgetO ?t = content_run opts ops (\<lambda>k. [])"
    using trie_run_content [OF good_none assms(1,2)] by (auto simp: pgetO_none)
  obtain s1 s2 s3 where r: "mpt_checkpoint (cd_node_db rlp_noble L) s = (Inr (), s1)"
    "mpt_batch opts (cd_node_db rlp_noble L) inner False s1 = (Inr (), s2)"
    "(if keep then mpt_commit opts (cd_node_db rlp_noble L) else mpt_revert opts (cd_node_db rlp_noble L)) s2 = (Inr (), s3)"
    "mpt_root s3 = (if keep then mpt_root s2 else mpt_root s)" "cdb.becomes opts s ?t3 s3"
    using cdb.frame_trie [OF assms(1,3) g(1) assms(5), of s L keep] s(2) unfolding mpt_holds_def by blast
  have "good_trie opts d N ?t3 \<and> pgetO ?t3 = content_run opts (ops @ (if keep then inner else [])) (\<lambda>k. [])"
    using g trie_run_content [OF g(1) assms(1,3)] by (simp add: content_run_def)
  then have "reads_as opts L d (content_run opts (ops @ (if keep then inner else [])) (\<lambda>k. [])) s3"
    using holds_reads [OF assms(1) _ becomes_holds [OF r(5)], of L] by simp
  then show ?thesis using s(1) r(1-4) by blast
qed

text \<open>
  \<open>put\<close> refines insertion: on a database that holds a trie, for a key of any length (which
  may end inside a branch), \<open>put\<close> of a value leaves the database holding the trie with the value
  inserted, which differs from the old one at that path only and is canonical again.
\<close>

theorem mpt_put_refines:
  assumes "mpt_holds opts s (Some t)" and "canonical t" and "sized opts n N t"
    and "v \<noteq> []" and "length v \<le> N" and "2 * length (appliedKey opts key) \<le> n"
    and "2 * length (appliedKey opts key) < mo_walkSteps opts" and "\<not> (mo_useRootPersistence opts \<and> key = ROOT_DB_KEY)"
    and "no_clash opts (nodes (mo_hash opts) t)"
    and "no_clash opts (nodes (mo_hash opts) (pput t (pathOf opts key) v))"
  shows "\<exists>s'. mpt_put opts (cd_node_db rlp_noble L) key (Some v) False s = (Inr (), s') \<and>
    mpt_holds opts s' (Some (pput t (pathOf opts key) v)) \<and> canonical (pput t (pathOf opts key) v) \<and>
    (\<forall>k. pget (pput t (pathOf opts key) v) k = (if k = pathOf opts key then v else pget t k))"
proof -
  have p: "plain_opts opts" "n < 2 ^ 40" "N < 2 ^ 40" using assms(3) by (auto simp: sized_def)
  have "\<exists>s'. mpt_put opts (cd_node_db rlp_noble L) key (Some v) False s = (Inr (), s') \<and>
      cdb.becomes opts s (Some (pput t (pathOf opts key) v)) s'"
    using cdb.put_trie [OF assms(4,8) p(1), of "Some t" n N False s L] assms p
    by (simp add: pputO_def pathOf_def keyFor_def mpt_holds_def)
  then show ?thesis using becomes_holds canonical_pput [OF assms(2) _ assms(4)] by (auto simp: pget_pput pathOf_def)
qed

section \<open>A sample run\<close>

text \<open>A stand-in for the hash that is injective on short inputs, and three operations.\<close>

definition sampleHash :: "bytes \<Rightarrow> bytes" where
  "sampleHash x = take 32 (x @ replicate 32 0)"

definition sampleOpts :: mpt_opts where
  "sampleOpts = \<lparr>mo_hash = sampleHash, mo_useKeyHashing = False, mo_keyPrefix = None,
     mo_useRootPersistence = True, mo_useNodePruning = False, mo_walkSteps = 3\<rparr>"

definition sampleOps :: "bytes batch_op list" where
  "sampleOps = [PutOp [0x12] [5], PutOp [0x34] [6], DelOp [0x34]]"

definition sampleLeaf :: ptrie where
  "sampleLeaf = PLeaf [1, 2] [5]"

definition sampleBranch :: ptrie where
  "sampleBranch = PBranch ([1 \<mapsto> PLeaf [2] [5]](3 \<mapsto> PLeaf [4] [6])) []"

lemma length_sampleHash [simp]: "length (sampleHash x) = 32"
  by (simp add: sampleHash_def min_def)

abbreviation noCache :: "unit lru_cache" where
  "noCache \<equiv> \<lparr>lru_get = \<lambda>k c. (None, c), lru_set = \<lambda>k v c. c\<rparr>"

lemma sample_good: "good_opts sampleOpts 2 1" "\<forall>x \<in> set sampleOps. good_op sampleOpts 2 1 x"
  by (simp_all add: good_opts_def plain_opts_def sampleOpts_def sampleOps_def good_op_def
      appliedKey_def ROOT_DB_KEY_def)

lemma sample_paths: "pathOf sampleOpts [0x12] = [1, 2]" "pathOf sampleOpts [0x34] = [3, 4]"
  by (simp_all add: pathOf_def appliedKey_def sampleOpts_def)

lemma sample_tries: "trie_op sampleOpts (PutOp [0x12] [5]) None = Some sampleLeaf"
    "trie_op sampleOpts (PutOp [0x34] [6]) (Some sampleLeaf) = Some sampleBranch"
    "trie_op sampleOpts (DelOp [0x34]) (Some sampleBranch) = Some sampleLeaf"
  by (simp_all add: sample_paths pputO_def pdelO_def sampleLeaf_def sampleBranch_def Let_def join_def shrink_def
      pchildren_def upt_rec)

lemma sample_enc: "enc sampleHash sampleLeaf = [0xc4, 0x82, 0x20, 0x12, 5]"
    "enc sampleHash sampleBranch = [0xd5, 0x80, 0xc2, 0x32, 5, 0x80, 0xc2, 0x34, 6, 0x80, 0x80, 0x80, 0x80, 0x80, 0x80,
      0x80, 0x80, 0x80, 0x80, 0x80, 0x80, 0x80]"
  by (simp_all add: enc_def sampleLeaf_def sampleBranch_def mkref_def upt_rec encodedKey_def addHexPrefix_cases
      rlp_prefix_def Let_def)

lemma sample_under: "under sampleHash sampleLeaf = {}" "under sampleHash sampleBranch = {}"
proof -
  have "own sampleHash (PLeaf [2] [5]) = {}" "own sampleHash (PLeaf [4] [6]) = {}"
    by (simp_all add: own_def enc_def encodedKey_def addHexPrefix_cases rlp_prefix_def Let_def)
  then show "under sampleHash sampleBranch = {}" by (simp add: sampleBranch_def split: option.split)
qed (simp add: sampleLeaf_def)

lemma sample_no_clash: "no_clash sampleOpts (run_nodes sampleOpts sampleOps None)"
proof (rule no_clash_mono)
  show "run_nodes sampleOpts sampleOps None \<subseteq> {enc sampleHash sampleLeaf, enc sampleHash sampleBranch}"
    unfolding sampleOps_def run_nodes.simps sample_tries by (simp add: nodesO_def nodes_def sample_under sampleOpts_def)
  show "no_clash sampleOpts {enc sampleHash sampleLeaf, enc sampleHash sampleBranch}"
    unfolding sample_enc no_clash_def by (simp add: sampleOpts_def sampleHash_def ROOT_DB_KEY_def)
qed

theorem mpt_batch_is_map_witness:
  "\<exists>s. mpt_batch sampleOpts (cd_node_db rlp_noble noCache) sampleOps False (freshMPT sampleOpts True) = (Inr (), s) \<and>
    reads_as sampleOpts noCache 2 (content_run sampleOpts sampleOps (\<lambda>k. [])) s"
  by (rule mpt_batch_is_map [OF sample_good sample_no_clash])

lemma sample_first: "\<forall>x \<in> set [PutOp [0x12] [5]]. good_op sampleOpts 2 1 x"
    "\<forall>x \<in> set [PutOp [0x34] [6]]. good_op sampleOpts 2 1 x"
    "trie_run sampleOpts [PutOp [0x12] [5]] None = Some sampleLeaf"
  using sample_good(2) sample_tries(1) by (simp_all add: sampleOps_def trie_run_def)

lemma sample_mo_hash: "mo_hash sampleOpts = sampleHash"
  by (simp add: sampleOpts_def)

lemma sample_nodes: "nodes sampleHash sampleLeaf \<union> nodes sampleHash sampleBranch \<subseteq> run_nodes sampleOpts sampleOps None"
  unfolding sampleOps_def run_nodes.simps sample_tries by (auto simp: nodesO_def sample_mo_hash)

lemma sample_runs: "run_nodes sampleOpts [PutOp [0x12] [5]] None \<subseteq> run_nodes sampleOpts sampleOps None"
    "run_nodes sampleOpts [PutOp [0x34] [6]] (Some sampleLeaf) \<subseteq> run_nodes sampleOpts sampleOps None"
  using sample_nodes unfolding run_nodes.simps sample_tries by (auto simp: nodesO_def sample_mo_hash)

lemma sample_clash: "no_clash sampleOpts (run_nodes sampleOpts [PutOp [0x12] [5]] None)"
    "no_clash sampleOpts (run_nodes sampleOpts [PutOp [0x34] [6]] (Some sampleLeaf))"
    "no_clash sampleOpts (run_nodes sampleOpts sampleOps None \<union> run_nodes sampleOpts [PutOp [0x12] [5]] None)"
  using no_clash_mono [OF sample_no_clash] sample_runs by auto

theorem mpt_root_commits_witness:
  "\<exists>s s'. mpt_batch sampleOpts (cd_node_db rlp_noble noCache) sampleOps False (freshMPT sampleOpts True) = (Inr (), s) \<and>
    mpt_batch sampleOpts (cd_node_db rlp_noble noCache) [PutOp [0x12] [5]] False (freshMPT sampleOpts True) = (Inr (), s') \<and>
    (mpt_root s = mpt_root s' \<longleftrightarrow>
      content_run sampleOpts sampleOps (\<lambda>k. []) = content_run sampleOpts [PutOp [0x12] [5]] (\<lambda>k. []))"
  by (rule mpt_root_commits [OF sample_good sample_first(1) sample_clash(3)])

theorem mpt_frame_witness:
  "\<exists>s s1 s2 s3. mpt_batch sampleOpts (cd_node_db rlp_noble noCache) [PutOp [0x12] [5]] False (freshMPT sampleOpts True) = (Inr (), s) \<and>
    mpt_checkpoint (cd_node_db rlp_noble noCache) s = (Inr (), s1) \<and>
    mpt_batch sampleOpts (cd_node_db rlp_noble noCache) [PutOp [0x34] [6]] False s1 = (Inr (), s2) \<and>
    (if False then mpt_commit sampleOpts (cd_node_db rlp_noble noCache)
      else mpt_revert sampleOpts (cd_node_db rlp_noble noCache)) s2 = (Inr (), s3) \<and>
    mpt_root s3 = (if False then mpt_root s2 else mpt_root s) \<and>
    reads_as sampleOpts noCache 2 (content_run sampleOpts ([PutOp [0x12] [5]] @ (if False then [PutOp [0x34] [6]] else [])) (\<lambda>k. [])) s3"
  by (rule mpt_frame [OF sample_good(1) sample_first(1,2) sample_clash(1)]) (simp only: sample_first(3) sample_clash(2))

theorem mpt_put_refines_witness:
  "\<exists>s s'. mpt_batch sampleOpts (cd_node_db rlp_noble noCache) [PutOp [0x12] [5]] False (freshMPT sampleOpts True) = (Inr (), s) \<and>
    mpt_put sampleOpts (cd_node_db rlp_noble noCache) [0x34] (Some [6]) False s = (Inr (), s') \<and>
    mpt_holds sampleOpts s' (Some sampleBranch)"
proof -
  obtain s where s: "mpt_batch sampleOpts (cd_node_db rlp_noble noCache) [PutOp [0x12] [5]] False (freshMPT sampleOpts True) = (Inr (), s)"
    "mpt_holds sampleOpts s (Some sampleLeaf)"
    using run_holds [OF sample_good(1) sample_first(1) sample_clash(1)] unfolding sample_first(3) by blast
  have t: "pput sampleLeaf (pathOf sampleOpts [0x34]) [6] = sampleBranch"
    using sample_tries(2) by (simp add: pputO_def)
  have "plain_opts sampleOpts" using sample_good(1) by (simp add: good_opts_def)
  then have "sized sampleOpts 2 1 sampleLeaf" by (simp add: sized_def sampleLeaf_def)
  moreover have "no_clash sampleOpts (nodes (mo_hash sampleOpts) sampleLeaf)"
    "no_clash sampleOpts (nodes (mo_hash sampleOpts) sampleBranch)"
    using sample_nodes no_clash_mono [OF sample_no_clash] by (auto simp: sample_mo_hash)
  ultimately have "\<exists>s'. mpt_put sampleOpts (cd_node_db rlp_noble noCache) [0x34] (Some [6]) False s = (Inr (), s') \<and>
      mpt_holds sampleOpts s' (Some (pput sampleLeaf (pathOf sampleOpts [0x34]) [6])) \<and>
      canonical (pput sampleLeaf (pathOf sampleOpts [0x34]) [6]) \<and>
      (\<forall>k. pget (pput sampleLeaf (pathOf sampleOpts [0x34]) [6]) k = (if k = pathOf sampleOpts [0x34] then [6] else pget sampleLeaf k))"
    by (intro mpt_put_refines [OF s(2), where n = 2 and N = 1])
      (simp_all only: t, simp_all add: sampleLeaf_def appliedKey_def sampleOpts_def ROOT_DB_KEY_def)
  then show ?thesis using s(1) unfolding t by blast
qed

end
