(* ===== verification/MptProof.thy ===== *)
theory MptProof
  imports MptSpec
begin

text \<open>
  Merkle proofs: \<^verbatim>\<open>packages/mpt/src/proof/proof.ts\<close> and \<open>createMPTFromProof\<close> of
  \<^verbatim>\<open>packages/mpt/src/constructors.ts\<close>. A proof is checked in a new trie, whose empty database is
  an argument here. A walk that runs out of steps stays one; every other error is caught as in
  the code.
\<close>

section \<open>Operations\<close>

fun serializeAll :: "mpt_node list \<Rightarrow> bytes list res" where
  "serializeAll [] = Inr []"
| "serializeAll (n # ns) = and_then (serialize n) (\<lambda>b. and_then (serializeAll ns) (\<lambda>bs. Inr (b # bs)))"

definition createMerkleProof :: "mpt_opts \<Rightarrow> 'd node_db \<Rightarrow> bytes \<Rightarrow> ('d, bytes list) mpt_op" where
  "createMerkleProof opts D key = seqE (findPath opts D (appliedKey opts key) False)
     (\<lambda>path. resM (serializeAll (path_stack path)))"

definition updateMPTFromMerkleProof :: "mpt_opts \<Rightarrow> 'd node_db \<Rightarrow> bytes list \<Rightarrow> bool \<Rightarrow> ('d, bytes option) mpt_op" where
  "updateMPTFromMerkleProof opts D proof shouldVerifyRoot =
     (let opStack = map (\<lambda>nodeValue. (getDbKey opts (mo_hash opts nodeValue), nodeValue)) proof in
      seqE (getE mpt_root) (\<lambda>root.
      if shouldVerifyRoot \<and> opStack \<noteq> [] \<and> root \<noteq> fst (hd opStack)
        then throwM ''The provided proof does not have the expected trie root''
      else seqE (dbM (nd_batch D (map (\<lambda>(key, v). PutOp key v) opStack)))
        (\<lambda>_. ret (if opStack \<noteq> [] then Some (fst (hd opStack)) else None))))"

text \<open>\<open>catch\<close> of every error.\<close>

definition catchAll :: "string \<Rightarrow> ('d, 'a) mpt_op \<Rightarrow> ('d, 'a) mpt_op" where
  "catchAll msg m = seqE (tryM m) (\<lambda>r. case r of
     Inr x \<Rightarrow> ret x | Inl WalkBound \<Rightarrow> raise WalkBound | Inl (Thrown e) \<Rightarrow> throwM msg)"

text \<open>The constructor with a given root.\<close>

definition startAt :: "mpt_opts \<Rightarrow> bytes option \<Rightarrow> ('d, unit) mpt_op" where
  "startAt opts root = (case root of None \<Rightarrow> ret () | Some r \<Rightarrow> setRoot opts r)"

definition createMPTFromProof :: "mpt_opts \<Rightarrow> 'd node_db \<Rightarrow> bytes option \<Rightarrow> bytes list \<Rightarrow> ('d, unit) mpt_op" where
  "createMPTFromProof opts D root proof =
     seqE (startAt opts root) (\<lambda>_.
     seqE (updateMPTFromMerkleProof opts D proof (root \<noteq> None)) (\<lambda>r.
     seqE (startAt opts r) (\<lambda>_. persistRoot opts D)))"

definition verifyMerkleProof :: "mpt_opts \<Rightarrow> 'd node_db \<Rightarrow> 'd \<Rightarrow> bytes option \<Rightarrow> bytes \<Rightarrow> bytes list \<Rightarrow> mpt_error + nested option" where
  "verifyMerkleProof opts D d root key proof = fst (catchAll ''Invalid proof provided''
     (seqE (createMPTFromProof opts D root proof) (\<lambda>_. mpt_get opts D key True)) (newMPT opts d))"

text \<open>The options of the trie in which a proof is checked: the hash of the given one, else defaults.\<close>

definition proofOpts :: "mpt_opts \<Rightarrow> mpt_opts" where
  "proofOpts opts = \<lparr>mo_hash = mo_hash opts, mo_useKeyHashing = False, mo_keyPrefix = None,
     mo_useRootPersistence = False, mo_useNodePruning = False, mo_walkSteps = mo_walkSteps opts\<rparr>"

definition verifyMPTWithMerkleProof :: "mpt_opts \<Rightarrow> 'd node_db \<Rightarrow> 'd \<Rightarrow> bytes \<Rightarrow> bytes \<Rightarrow> bytes list \<Rightarrow> mpt_error + nested option" where
  "verifyMPTWithMerkleProof opts D d rootHash key proof =
     fst (seqE (startAt (proofOpts opts) (Some rootHash)) (\<lambda>_.
       seqE (catchAll ''Invalid proof nodes given'' (updateMPTFromMerkleProof (proofOpts opts) D proof True)) (\<lambda>_.
       seqE (tryM (mpt_get (proofOpts opts) D (appliedKey opts key) True)) (\<lambda>r. case r of
         Inr v \<Rightarrow> ret v
       | Inl e \<Rightarrow> if e = missingNode then throwM ''Invalid proof provided'' else raise e)))
     (newMPT (proofOpts opts) d))"

section \<open>Proofs of a trie\<close>

text \<open>The proof of a key: the nodes on its path.\<close>

definition proof_of :: "mpt_opts \<Rightarrow> ptrie \<Rightarrow> bytes \<Rightarrow> bytes list" where
  "proof_of opts t key = map (enc (mo_hash opts)) (ptrail t (pathOf opts key))"

lemma proofOpts_simps [simp]: "mo_hash (proofOpts opts) = mo_hash opts" "appliedKey (proofOpts opts) key = key"
    "mo_walkSteps (proofOpts opts) = mo_walkSteps opts" "getDbKey (proofOpts opts) h = h"
    "EMPTY_TRIE_ROOT (proofOpts opts) = EMPTY_TRIE_ROOT opts" "nodeKeyOf (proofOpts opts) e = mo_hash opts e"
  by (simp_all add: proofOpts_def appliedKey_def getDbKey_def EMPTY_TRIE_ROOT_def nodeKeyOf_def)

lemma proofOpts_sized: "sized opts n N t \<Longrightarrow> sized (proofOpts opts) n N t"
  by (simp add: sized_def plain_opts_def) (simp add: proofOpts_def)

lemma proofOpts_clash: "no_clash opts S \<Longrightarrow> no_clash (proofOpts opts) S"
  by (simp add: no_clash_def)

lemma proofOpts_plain: "plain_opts opts \<Longrightarrow> plain_opts (proofOpts opts)"
  by (simp add: plain_opts_def) (simp add: proofOpts_def)

lemma serializeAll_nodes: "(\<And>u. u \<in> set us \<Longrightarrow> storable opts u) \<Longrightarrow>
    serializeAll (map (nodeOf (mo_hash opts)) us) = Inr (map (enc (mo_hash opts)) us)"
  by (induction us) (simp_all add: storable_def node_serialize_eq enc_def)

lemma ptrail_sized: "sized opts n N t \<Longrightarrow> u \<in> set (ptrail t k) \<Longrightarrow> \<exists>m. sized opts m N u"
proof (induction t k arbitrary: n rule: ptrail.induct)
  case (2 p t k)
  then show ?case using sized_child(1) by (fastforce split: if_splits)
next
  case (4 f w i k)
  show ?case
  proof (cases "u = PBranch f w")
    case False
    then obtain t where "f i = Some t" "u \<in> set (ptrail t k)" using "4.prems"(2) by (cases "f i") auto
    then show ?thesis using "4.IH" sized_child(2) [OF "4.prems"(1)] by blast
  qed (use 4 in blast)
qed auto

lemma apply_puts_honest:
  assumes "no_clash opts S" and "set ops \<subseteq> putOp opts ` S" and "e \<in> S" and "w (nodeKeyOf opts e) \<in> {None, Some e}"
  shows "apply_ops ops w (nodeKeyOf opts e) \<in> {None, Some e}"
proof (cases "putOp opts e \<in> set ops \<or> w (nodeKeyOf opts e) = Some e")
  case True
  then show ?thesis using apply_puts [OF assms(1-3)] by simp
next
  case False
  have "nodeKeyOf opts e \<notin> nodeKeyOf opts ` {x \<in> S. putOp opts x \<in> set ops}"
    using False nodeKeyOf_inj [OF assms(1)] assms(3) by auto
  then have "apply_ops ops w (nodeKeyOf opts e) = w (nodeKeyOf opts e)"
    by (rule apply_puts_other [rotated]) (use assms(2) in auto)
  then show ?thesis using assms(4) by simp
qed

context node_store begin

lemma create_proof:
  assumes "plain_opts opts" "canonical t" "sized opts n N t" "2 * length (appliedKey opts key) < mo_walkSteps opts"
    and s: "inv (mpt_db s)" "holds_trie opts (view (mpt_db s)) (mpt_root s) (Some t)"
  shows "\<exists>s'. createMerkleProof opts D key s = (Inr (proof_of opts t key), s') \<and> like s s'"
proof (rule findPath_some [OF assms(1-4) s(1), of False])
  fix s' assume *: "like s s'" "findPath opts D (appliedKey opts key) False s =
    (Inr \<lparr>path_node = map_option (nodeOf (mo_hash opts)) (fst (pend t (bytesToNibbles (appliedKey opts key)))),
      path_remaining = snd (pend t (bytesToNibbles (appliedKey opts key))),
      path_stack = map (nodeOf (mo_hash opts)) (ptrail t (bytesToNibbles (appliedKey opts key)))\<rparr>, s')"
  have "serializeAll (map (nodeOf (mo_hash opts)) (ptrail t (bytesToNibbles (appliedKey opts key)))) = Inr (proof_of opts t key)"
    unfolding proof_of_def pathOf_def using ptrail_sized [OF assms(3)] sized_storable by (intro serializeAll_nodes) blast
  then show ?thesis using * by (auto simp: createMerkleProof_def seqE_run resM_def)
qed (use s(2) in auto)

text \<open>A lookup that insists on every node.\<close>

lemma get_strict:
  assumes "plain_opts opts" "canonical t" "sized opts n N t" "2 * length (appliedKey opts key) < mo_walkSteps opts"
    "inv (mpt_db s)" "mpt_root s = mo_hash opts (enc (mo_hash opts) t)"
    "\<forall>e \<in> nodes (mo_hash opts) t. view (mpt_db s) (nodeKeyOf opts e) \<in> {None, Some e}"
  shows "\<exists>s'. mpt_get opts D key True s = (Inr (read_value opts (pget t) key), s') \<or>
    (mpt_get opts D key True s = (Inl missingNode, s') \<and>
      (\<exists>e \<in> nodes (mo_hash opts) t \<inter> set (proof_of opts t key). view (mpt_db s) (nodeKeyOf opts e) = None))"
proof (rule findPath_some [OF assms, of True])
  let ?K = "bytesToNibbles (appliedKey opts key)"
  fix s' assume "findPath opts D (appliedKey opts key) True s =
    (Inr \<lparr>path_node = map_option (nodeOf (mo_hash opts)) (fst (pend t ?K)),
      path_remaining = snd (pend t ?K), path_stack = map (nodeOf (mo_hash opts)) (ptrail t ?K)\<rparr>, s')"
  then have "mpt_get opts D key True s = (Inr (case pend t ?K of (Some u, []) \<Rightarrow> nodeValue (nodeOf (mo_hash opts) u) | _ \<Rightarrow> None), s')"
    by (cases "pend t ?K") (auto simp: mpt_get_def seqE_run split: option.split list.split)
  then show ?thesis using pend_get [OF assms(2)] by (auto simp: read_value_def pathOf_def)
next
  fix s' st e assume "e \<in> nodes (mo_hash opts) t \<inter> enc (mo_hash opts) ` set (ptrail t (bytesToNibbles (appliedKey opts key)))"
    "view (mpt_db s) (nodeKeyOf opts e) = None" "findPath opts D (appliedKey opts key) True s = (if True then Inl missingNode
      else Inr \<lparr>path_node = None, path_remaining = [], path_stack = st\<rparr>, s')"
  then show ?thesis by (auto simp: mpt_get_def seqE_run proof_of_def pathOf_def)
qed

text \<open>Checking a list of nodes against the root of a trie.\<close>

lemma verify_run:
  assumes "plain_opts opts" "canonical t" "sized opts n N t" "2 * length (appliedKey opts key) < mo_walkSteps opts"
    and clash: "no_clash opts (nodes (mo_hash opts) t \<union> set ps)" and d: "inv d" "view d = (\<lambda>k. None)"
    and first: "ps = [] \<or> mo_hash opts (hd ps) = mo_hash opts (enc (mo_hash opts) t)"
  shows "verifyMPTWithMerkleProof opts D d (mo_hash opts (enc (mo_hash opts) t)) key ps = Inr (read_value opts (pget t) key) \<or>
    verifyMPTWithMerkleProof opts D d (mo_hash opts (enc (mo_hash opts) t)) key ps =
      Inl (Thrown (EthereumJSError ''Invalid proof provided'')) \<and> \<not> nodes (mo_hash opts) t \<inter> set (proof_of opts t key) \<subseteq> set ps"
proof -
  let ?H = "mo_hash opts" and ?o = "proofOpts opts"
  let ?r = "?H (enc ?H t)"
  let ?ops = "map (\<lambda>x. PutOp (?H x) x) ps"
  obtain d1 where d1: "nd_batch D ?ops d = (Inr (), d1)" "inv d1" "view d1 = apply_ops ?ops (\<lambda>k. None)"
    using batch_law [OF d(1), of ?ops] d(2) by auto
  let ?s = "\<lparr>mpt_root = ?r, mpt_db = d\<rparr>" and ?s1 = "\<lparr>mpt_root = ?r, mpt_db = d1\<rparr>"
  have root: "startAt ?o (Some ?r) (newMPT ?o d) = (Inr (), ?s)"
    using setRoot_hash [OF proofOpts_plain [OF assms(1)], of "enc ?H t" "newMPT ?o d"] by (simp add: startAt_def newMPT_def)
  have "(\<lambda>x. case x of (key, v) \<Rightarrow> PutOp key v) \<circ> (\<lambda>x. (?H x, x)) = (\<lambda>x. PutOp (?H x) x)" by auto
  then have upd: "updateMPTFromMerkleProof ?o D ps True ?s = (Inr (if ps = [] then None else Some (?H (hd ps))), ?s1)"
    using d1(1) first by (auto simp: updateMPTFromMerkleProof_def Let_def seqE_run dbM_def hd_map)
  have ops: "set ?ops \<subseteq> putOp ?o ` (nodes ?H t \<union> set ps)" by (auto simp: putOp_def)
  have honest: "\<forall>e \<in> nodes ?H t. view d1 (nodeKeyOf ?o e) \<in> {None, Some e}"
    unfolding d1(3) using apply_puts_honest [OF proofOpts_clash [OF clash] ops, where w = "\<lambda>k. None"] by auto
  have have_ps: "view d1 (nodeKeyOf ?o e) = Some e" if "e \<in> set ps" for e
    unfolding d1(3) using apply_puts [OF proofOpts_clash [OF clash] ops] that by (auto simp: putOp_def)
  have paths: "read_value ?o (pget t) (appliedKey opts key) = read_value opts (pget t) key"
    "proof_of ?o t (appliedKey opts key) = proof_of opts t key"
    by (simp_all add: read_value_def proof_of_def pathOf_def)
  obtain s' where s': "mpt_get ?o D (appliedKey opts key) True ?s1 = (Inr (read_value opts (pget t) key), s') \<or>
    (mpt_get ?o D (appliedKey opts key) True ?s1 = (Inl missingNode, s') \<and>
      (\<exists>e \<in> nodes ?H t \<inter> set (proof_of opts t key). view d1 (nodeKeyOf ?o e) = None))"
    using get_strict [OF proofOpts_plain [OF assms(1)] assms(2) proofOpts_sized [OF assms(3)], of "appliedKey opts key" ?s1]
      assms(4) d1(2) honest unfolding paths by auto
  have run: "verifyMPTWithMerkleProof opts D d ?r key ps = (case fst (mpt_get ?o D (appliedKey opts key) True ?s1) of
      Inr v \<Rightarrow> Inr v | Inl e \<Rightarrow> if e = missingNode then Inl (Thrown (EthereumJSError ''Invalid proof provided'')) else Inl e)"
    unfolding verifyMPTWithMerkleProof_def using root upd
    by (auto simp: seqE_run catchAll_def tryM_def throwM_def split: prod.split sum.split)
  from s' show ?thesis unfolding run using have_ps by (auto simp: missingNode_def)
qed

end

lemma empty_db: "cd_inv rlp_noble (newCheckpointDB [] True None)"
    "cd_store_view rlp_noble (newCheckpointDB [] True None) = (\<lambda>k. None)"
  by (auto simp: newCheckpointDB_def cd_inv_def cd_store_view_def cd_view_def by_bytes_def base_view_def)

section \<open>Properties\<close>

text \<open>
  C20. Proofs are complete: for every key, present or absent, of a trie in the database, the proof
  that \<open>createMerkleProof\<close> makes is accepted by \<open>verifyMPTWithMerkleProof\<close> against the root, in a
  new trie that has nothing else, and yields the value of the key or its absence.
\<close>

theorem mpt_proof_complete:
  assumes "mpt_holds opts s (Some t)" and "canonical t" and "sized opts n N t"
    and "2 * length (appliedKey opts key) < mo_walkSteps opts"
    and "no_clash opts (nodes (mo_hash opts) t \<union> set (proof_of opts t key))"
  shows "\<exists>s' ps. createMerkleProof opts (cd_node_db rlp_noble L) key s = (Inr ps, s') \<and>
    verifyMPTWithMerkleProof opts (cd_node_db rlp_noble L) (newCheckpointDB [] True None) (mpt_root s) key ps =
      Inr (read_value opts (pget t) key)"
proof -
  have plain: "plain_opts opts" using assms(3) by (simp add: sized_def)
  obtain s' where c: "createMerkleProof opts (cd_node_db rlp_noble L) key s = (Inr (proof_of opts t key), s')"
    using cdb.create_proof [OF plain assms(2-4)] assms(1) unfolding mpt_holds_def by blast
  have root: "mpt_root s = mo_hash opts (enc (mo_hash opts) t)" using assms(1) by (simp add: mpt_holds_def)
  have "hd (ptrail t k) = t" for k by (cases t; cases k) simp_all
  then have first: "mo_hash opts (hd (proof_of opts t key)) = mo_hash opts (enc (mo_hash opts) t)"
    by (simp add: proof_of_def hd_map)
  have "verifyMPTWithMerkleProof opts (cd_node_db rlp_noble L) (newCheckpointDB [] True None) (mpt_root s) key
      (proof_of opts t key) = Inr (read_value opts (pget t) key)"
    using cdb.verify_run [OF plain assms(2-5) empty_db disjI2 [OF first]] unfolding root by auto
  then show ?thesis using c by blast
qed

text \<open>
  C13. Proofs are sound: whatever list of byte strings is offered, when \<open>verifyMPTWithMerkleProof\<close>
  accepts it against the root of a trie then what it returns is the value of the key in that
  trie, or nothing exactly when the key is absent; no list makes it return anything else.
\<close>

theorem mpt_proof_sound:
  assumes "canonical t" and "sized opts n N t" and "2 * length (appliedKey opts key) < mo_walkSteps opts"
    and "no_clash opts (nodes (mo_hash opts) t \<union> set ps)"
    and "verifyMPTWithMerkleProof opts (cd_node_db rlp_noble L) (newCheckpointDB [] True None)
      (mo_hash opts (enc (mo_hash opts) t)) key ps = Inr v"
  shows "v = read_value opts (pget t) key"
proof -
  have plain: "plain_opts opts" using assms(2) by (simp add: sized_def)
  let ?r = "mo_hash opts (enc (mo_hash opts) t)"
  have first: "ps = [] \<or> mo_hash opts (hd ps) = ?r"
  proof (rule ccontr)
    assume "\<not> (ps = [] \<or> mo_hash opts (hd ps) = ?r)"
    then have no: "ps \<noteq> []" "?r \<noteq> mo_hash opts (hd ps)" by auto
    have "startAt (proofOpts opts) (Some ?r) s = (Inr (), s\<lparr>mpt_root := ?r\<rparr>)" for s :: "'a checkpoint_db mpt"
      using cdb.setRoot_hash [OF proofOpts_plain [OF plain], of "enc (mo_hash opts) t" s] by (simp add: startAt_def)
    then have "\<exists>e. verifyMPTWithMerkleProof opts (cd_node_db rlp_noble L) (newCheckpointDB [] True None) ?r key ps = Inl e"
      using no by (simp add: verifyMPTWithMerkleProof_def seqE_run updateMPTFromMerkleProof_def Let_def hd_map
          catchAll_def tryM_def throwM_def)
    then show False using assms(5) by simp
  qed
  show ?thesis using cdb.verify_run [OF plain assms(1-4) empty_db first, of L] assms(5) by auto
qed

text \<open>The proofs of the sample trie: of the key present and of one absent.\<close>

lemma sample_trie:
  "canonical sampleLeaf" "sized sampleOpts 2 1 sampleLeaf" "proof_of sampleOpts sampleLeaf key = [enc sampleHash sampleLeaf]"
  using sample_good(1)
  by (simp_all add: sampleLeaf_def sized_def good_opts_def proof_of_def sample_mo_hash)

lemma sample_proof_clash: "no_clash sampleOpts (nodes (mo_hash sampleOpts) sampleLeaf \<union> set [enc sampleHash sampleLeaf])"
  using sample_nodes by (intro no_clash_mono [OF sample_no_clash]) (auto simp: sample_mo_hash nodes_def)

theorem mpt_proof_complete_witness:
  "\<exists>s s' ps. mpt_batch sampleOpts (cd_node_db rlp_noble noCache) [PutOp [0x12] [5]] False (freshMPT sampleOpts True) = (Inr (), s) \<and>
    createMerkleProof sampleOpts (cd_node_db rlp_noble noCache) [0x34] s = (Inr ps, s') \<and>
    verifyMPTWithMerkleProof sampleOpts (cd_node_db rlp_noble noCache) (newCheckpointDB [] True None) (mpt_root s) [0x34] ps = Inr None"
proof -
  obtain s where s: "mpt_batch sampleOpts (cd_node_db rlp_noble noCache) [PutOp [0x12] [5]] False (freshMPT sampleOpts True) = (Inr (), s)"
    "mpt_holds sampleOpts s (Some sampleLeaf)"
    using run_holds [OF sample_good(1) sample_first(1) sample_clash(1)] unfolding sample_first(3) by blast
  have "\<exists>s' ps. createMerkleProof sampleOpts (cd_node_db rlp_noble noCache) [0x34] s = (Inr ps, s') \<and>
      verifyMPTWithMerkleProof sampleOpts (cd_node_db rlp_noble noCache) (newCheckpointDB [] True None) (mpt_root s) [0x34] ps =
        Inr (read_value sampleOpts (pget sampleLeaf) [0x34])"
    by (rule mpt_proof_complete [OF s(2) sample_trie(1,2)])
      (simp_all only: sample_trie(3) sample_proof_clash, simp add: sampleOpts_def appliedKey_def)
  moreover have "read_value sampleOpts (pget sampleLeaf) [0x34] = None"
    by (simp add: read_value_def sample_paths sampleLeaf_def)
  ultimately show ?thesis using s(1) by auto
qed

theorem mpt_proof_sound_witness:
  "\<exists>v. verifyMPTWithMerkleProof sampleOpts (cd_node_db rlp_noble noCache) (newCheckpointDB [] True None)
      (sampleHash (enc sampleHash sampleLeaf)) [0x12] [enc sampleHash sampleLeaf] = Inr v \<and>
    v = read_value sampleOpts (pget sampleLeaf) [0x12]"
proof -
  have o: "plain_opts sampleOpts" "2 * length (appliedKey sampleOpts [0x12]) < mo_walkSteps sampleOpts"
    using sample_good(1) by (simp_all add: good_opts_def sampleOpts_def appliedKey_def)
  obtain v where v: "verifyMPTWithMerkleProof sampleOpts (cd_node_db rlp_noble noCache) (newCheckpointDB [] True None)
      (mo_hash sampleOpts (enc (mo_hash sampleOpts) sampleLeaf)) [0x12] [enc sampleHash sampleLeaf] = Inr v"
    using cdb.verify_run [OF o(1) sample_trie(1,2) o(2) sample_proof_clash empty_db, of noCache]
    by (auto simp: sample_trie(3) sample_mo_hash)
  from mpt_proof_sound [OF sample_trie(1,2) o(2) sample_proof_clash v] v show ?thesis by (simp add: sample_mo_hash)
qed

end
