(* ===== verification/Signature.thy ===== *)
theory Signature
  imports Account
begin

text \<open>
  Signatures and keys: \<^verbatim>\<open>util/src/signature.ts\<close>, \<^verbatim>\<open>authorization.ts\<close> and the key functions of
  \<^verbatim>\<open>account.ts\<close> and \<^verbatim>\<open>address.ts\<close>. The curve and the hash functions come from an external library and
  are the fields of \<open>libs\<close>.
\<close>

section \<open>External libraries\<close>

text \<open>
  \<open>lb_keccak_256\<close> is that of the library, \<open>lb_keccak\<close> that of a \<open>Common\<close>, which may be replaced, as
  may \<open>lb_ecrecover\<close>. \<open>lb_recover\<close> recovers the uncompressed public key of a message from a compact signature and its recovery
  bit, \<open>lb_publicKey\<close> computes that of a private key, \<open>lb_point\<close> uncompresses a point. \<open>lb_sign\<close>
  returns recovery bit, \<open>r\<close> and \<open>s\<close> as bytes, \<open>lb_parse\<close> reads them.
\<close>

record libs =
  lb_noble :: noble
  lb_keccak_256 :: "bytes \<Rightarrow> bytes"
  lb_keccak :: "bytes \<Rightarrow> bytes"
  lb_sha256 :: "bytes \<Rightarrow> bytes"
  lb_recover :: "bytes \<Rightarrow> bytes \<Rightarrow> int \<Rightarrow> bytes res"
  lb_ecrecover :: "(bytes \<Rightarrow> int \<Rightarrow> bytes \<Rightarrow> bytes \<Rightarrow> int option \<Rightarrow> bytes res) option"
  lb_publicKey :: "bytes \<Rightarrow> bytes res"
  lb_validKey :: "bytes \<Rightarrow> bool"
  lb_point :: "bytes \<Rightarrow> bytes res"
  lb_sign :: "bytes \<Rightarrow> bytes \<Rightarrow> bytes res"
  lb_parse :: "bytes \<Rightarrow> (int option \<times> int \<times> int) res"

text \<open>The order of secp256k1.\<close>

definition SECP256K1_ORDER :: int where
  "SECP256K1_ORDER = 0xfffffffffffffffffffffffffffffffebaaedce6af48a03bbfd25e8cd0364141"

definition SECP256K1_ORDER_DIV_2 :: int where
  "SECP256K1_ORDER_DIV_2 = SECP256K1_ORDER div 2"

section \<open>Recovery\<close>

definition calculateSigRecovery :: "int \<Rightarrow> int option \<Rightarrow> int" where
  "calculateSigRecovery v chainId =
     (if v = 0 \<or> v = 1 then v
      else case chainId of None \<Rightarrow> v - 27 | Some c \<Rightarrow> v - (c * 2 + 35))"

definition isValidSigRecovery :: "int \<Rightarrow> bool" where
  "isValidSigRecovery recovery \<longleftrightarrow> recovery = 0 \<or> recovery = 1"

definition ecrecover :: "libs \<Rightarrow> bytes \<Rightarrow> int \<Rightarrow> bytes \<Rightarrow> bytes \<Rightarrow> int option \<Rightarrow> bytes res" where
  "ecrecover L msgHash v r s chainId =
     and_then (setLengthLeft r 32 False) (\<lambda>r32. and_then (setLengthLeft s 32 False) (\<lambda>s32.
     let recovery = calculateSigRecovery v chainId in
     if \<not> isValidSigRecovery recovery then Inl (EthereumJSError ''Invalid signature v value'')
     else and_then (lb_recover L msgHash (r32 @ s32) recovery) (\<lambda>key. Inr (drop 1 key))))"

section \<open>Formats\<close>






definition isValidSignature :: "noble \<Rightarrow> int \<Rightarrow> bytes \<Rightarrow> bytes \<Rightarrow> bool \<Rightarrow> int option \<Rightarrow> bool res" where
  "isValidSignature N v r s homesteadOrLater chainId =
     (if length r \<noteq> 32 \<or> length s \<noteq> 32 then Inr False
      else if \<not> isValidSigRecovery (calculateSigRecovery v chainId) then Inr False
      else and_then (bytesToBigInt N r False) (\<lambda>rBigInt. and_then (bytesToBigInt N s False) (\<lambda>sBigInt.
        if rBigInt = 0 \<or> rBigInt \<ge> SECP256K1_ORDER \<or> sBigInt = 0 \<or> sBigInt \<ge> SECP256K1_ORDER then Inr False
        else if homesteadOrLater \<and> sBigInt \<ge> SECP256K1_ORDER_DIV_2 then Inr False
        else Inr True)))"

text \<open>Decimal digits of a number, as a template string prints it.\<close>

fun decimal :: "nat \<Rightarrow> string" where
  "decimal n = (if n < 10 then [char_of (48 + n)] else decimal (n div 10) @ [char_of (48 + n mod 10)])"

declare decimal.simps [simp del]

definition asciiBytes :: "string \<Rightarrow> bytes" where
  "asciiBytes s = map (\<lambda>c. word_of_nat (of_char c)) s"

definition hashPersonalMessage :: "libs \<Rightarrow> bytes \<Rightarrow> bytes" where
  "hashPersonalMessage L message =
     (let pre = asciiBytes (char_of (0x19 :: nat) # ''Ethereum Signed Message:'' @ [char_of (10 :: nat)] @ decimal (length message)) in
      lb_keccak_256 L (pre @ message))"

section \<open>Keys and addresses\<close>

definition isValidPrivate :: "libs \<Rightarrow> bytes \<Rightarrow> bool" where
  "isValidPrivate L privateKey = lb_validKey L privateKey"

definition isValidPublic :: "libs \<Rightarrow> bytes \<Rightarrow> bool \<Rightarrow> bool" where
  "isValidPublic L publicKey sanitize =
     (if length publicKey = 64 then (case lb_point L (4 # publicKey) of Inr _ \<Rightarrow> True | Inl _ \<Rightarrow> False)
      else if \<not> sanitize then False
      else (case lb_point L publicKey of Inr _ \<Rightarrow> True | Inl _ \<Rightarrow> False))"

definition importPublic :: "libs \<Rightarrow> bytes \<Rightarrow> bytes res" where
  "importPublic L publicKey =
     (if length publicKey \<noteq> 64 then and_then (lb_point L publicKey) (\<lambda>p. Inr (drop 1 p)) else Inr publicKey)"

definition pubToAddress :: "libs \<Rightarrow> bytes \<Rightarrow> bool \<Rightarrow> bytes res" where
  "pubToAddress L pubKey0 sanitize =
     and_then (if sanitize \<and> length pubKey0 \<noteq> 64 then and_then (lb_point L pubKey0) (\<lambda>p. Inr (drop 1 p)) else Inr pubKey0) (\<lambda>pubKey.
     if length pubKey \<noteq> 64 then Inl (EthereumJSError ''Expected pubKey to be of length 64'')
     else Inr (last20 (lb_keccak_256 L pubKey)))"

definition privateToPublic :: "libs \<Rightarrow> bytes \<Rightarrow> bytes res" where
  "privateToPublic L privateKey = and_then (lb_publicKey L privateKey) (\<lambda>p. Inr (drop 1 p))"

definition privateToAddress :: "libs \<Rightarrow> bytes \<Rightarrow> bytes res" where
  "privateToAddress L privateKey = and_then (privateToPublic L privateKey) (\<lambda>p. pubToAddress L p False)"

definition createAddressFromPublicKey :: "libs \<Rightarrow> bytes \<Rightarrow> bytes res" where
  "createAddressFromPublicKey L pubKey = and_then (pubToAddress L pubKey False) newAddress"

definition createAddressFromPrivateKey :: "libs \<Rightarrow> bytes \<Rightarrow> bytes res" where
  "createAddressFromPrivateKey L privateKey = and_then (privateToAddress L privateKey) newAddress"

section \<open>Authorizations\<close>

record auth_item =
  au_chainId :: bytes
  au_address :: bytes
  au_nonce :: bytes
  au_yParity :: bytes
  au_r :: bytes
  au_s :: bytes

record auth_json =
  aj_chainId :: "string option"
  aj_address :: "string option"
  aj_nonce :: "string option"
  aj_yParity :: "string option"
  aj_r :: "string option"
  aj_s :: "string option"

definition eoaCode7702AuthorizationListBytesItemToJSON :: "noble \<Rightarrow> auth_item \<Rightarrow> auth_json" where
  "eoaCode7702AuthorizationListBytesItemToJSON N a =
     \<lparr>aj_chainId = Some (bytesToHex N (au_chainId a)), aj_address = Some (bytesToHex N (au_address a)),
      aj_nonce = Some (bytesToHex N (au_nonce a)), aj_yParity = Some (bytesToHex N (au_yParity a)),
      aj_r = Some (bytesToHex N (au_r a)), aj_s = Some (bytesToHex N (au_s a))\<rparr>"

text \<open>All fields are checked before any is read.\<close>

definition eoaCode7702AuthorizationListJSONItemToBytes :: "noble \<Rightarrow> auth_json \<Rightarrow> auth_item res" where
  "eoaCode7702AuthorizationListJSONItemToBytes N j =
     (let undefinedField = (\<lambda>f. Inl (EthereumJSError (''EIP-7702 authorization list invalid: '' @ f @ '' is not defined''))) in
      case aj_chainId j of None \<Rightarrow> undefinedField ''chainId'' | Some c \<Rightarrow>
      case aj_address j of None \<Rightarrow> undefinedField ''address'' | Some a \<Rightarrow>
      case aj_nonce j of None \<Rightarrow> undefinedField ''nonce'' | Some n \<Rightarrow>
      case aj_yParity j of None \<Rightarrow> undefinedField ''yParity'' | Some y \<Rightarrow>
      case aj_r j of None \<Rightarrow> undefinedField ''r'' | Some r \<Rightarrow>
      case aj_s j of None \<Rightarrow> undefinedField ''s'' | Some s \<Rightarrow>
      and_then (hexToBytes N c) (\<lambda>cb. and_then (hexToBytes N a) (\<lambda>ab. and_then (hexToBytes N n) (\<lambda>nb.
      and_then (hexToBytes N y) (\<lambda>yb. and_then (hexToBytes N r) (\<lambda>rb. and_then (hexToBytes N s) (\<lambda>sb.
        Inr \<lparr>au_chainId = unpadBytes cb, au_address = ab, au_nonce = unpadBytes nb, au_yParity = unpadBytes yb,
          au_r = unpadBytes rb, au_s = unpadBytes sb\<rparr>)))))))"

text \<open>What is signed, given as bytes or as hexadecimal strings.\<close>

datatype auth_unsigned = AuthBytes bytes bytes bytes | AuthJSON string string string

definition unsignedAuthorizationListToBytes :: "noble \<Rightarrow> string \<Rightarrow> string \<Rightarrow> string \<Rightarrow> (bytes \<times> bytes \<times> bytes) res" where
  "unsignedAuthorizationListToBytes N chainIdHex addressHex nonceHex =
     and_then (hexToBytes N chainIdHex) (\<lambda>c. and_then (hexToBytes N addressHex) (\<lambda>a0.
     and_then (setLengthLeft a0 20 False) (\<lambda>a. and_then (hexToBytes N nonceHex) (\<lambda>n.
       Inr (unpadBytes c, a, unpadBytes n)))))"

definition EOA_CODE_7702_AUTHORITY_SIGNING_MAGIC :: bytes where
  "EOA_CODE_7702_AUTHORITY_SIGNING_MAGIC = [0x05]"

definition eoaCode7702AuthorizationMessageToSign :: "noble \<Rightarrow> auth_unsigned \<Rightarrow> bytes res" where
  "eoaCode7702AuthorizationMessageToSign N x = (case x of
     AuthBytes chainId address nonce \<Rightarrow>
       if length address \<noteq> 20 then Inl (EthereumJSError ''Cannot sign authority: address length should be 20 bytes'')
       else and_then (encode (InArray [InBytes (unpadBytes chainId), InBytes address, InBytes (unpadBytes nonce)]))
         (\<lambda>b. Inr (EOA_CODE_7702_AUTHORITY_SIGNING_MAGIC @ b))
   | AuthJSON c a n \<Rightarrow> and_then (unsignedAuthorizationListToBytes N c a n) (\<lambda>(chainId, address, nonce).
       and_then (encode (InArray [InBytes chainId, InBytes address, InBytes nonce]))
         (\<lambda>b. Inr (EOA_CODE_7702_AUTHORITY_SIGNING_MAGIC @ b))))"

definition eoaCode7702AuthorizationHashedMessageToSign :: "libs \<Rightarrow> auth_unsigned \<Rightarrow> bytes res" where
  "eoaCode7702AuthorizationHashedMessageToSign L x =
     and_then (eoaCode7702AuthorizationMessageToSign (lb_noble L) x) (\<lambda>b. Inr (lb_keccak_256 L b))"

text \<open>A signature without recovery bit makes \<open>BigInt(undefined)\<close> throw.\<close>

definition eoaCode7702SignAuthorization :: "libs \<Rightarrow> auth_unsigned \<Rightarrow> bytes \<Rightarrow>
    (bytes \<Rightarrow> bytes \<Rightarrow> (int option \<times> int \<times> int) res) option \<Rightarrow> auth_item res" where
  "eoaCode7702SignAuthorization L x privateKey ecSign = (let N = lb_noble L in
     and_then (eoaCode7702AuthorizationHashedMessageToSign L x) (\<lambda>msgHash.
     and_then (case ecSign of Some f \<Rightarrow> f msgHash privateKey
       | None \<Rightarrow> and_then (lb_sign L msgHash privateKey) (lb_parse L)) (\<lambda>(recovery, r, s).
     and_then (case x of AuthBytes c a n \<Rightarrow> Inr (c, a, n) | AuthJSON c a n \<Rightarrow> unsignedAuthorizationListToBytes N c a n)
       (\<lambda>(chainId, address, nonce).
     case recovery of None \<Rightarrow> Inl TypeError | Some y \<Rightarrow>
     and_then (bigIntToUnpaddedBytes N y) (\<lambda>yb. and_then (bigIntToUnpaddedBytes N r) (\<lambda>rb. and_then (bigIntToUnpaddedBytes N s) (\<lambda>sb.
       Inr \<lparr>au_chainId = unpadBytes chainId, au_address = address, au_nonce = unpadBytes nonce, au_yParity = yb,
         au_r = rb, au_s = sb\<rparr>)))))))"

definition eoaCode7702RecoverAuthority :: "libs \<Rightarrow> auth_item + auth_json \<Rightarrow> bytes res" where
  "eoaCode7702RecoverAuthority L x = (let N = lb_noble L in
     and_then (case x of Inl i \<Rightarrow> Inr i | Inr j \<Rightarrow> eoaCode7702AuthorizationListJSONItemToBytes N j) (\<lambda>i.
     and_then (eoaCode7702AuthorizationHashedMessageToSign L
       (AuthBytes (unpadBytes (au_chainId i)) (au_address i) (unpadBytes (au_nonce i)))) (\<lambda>msgHash.
     and_then (bytesToBigInt N (unpadBytes (au_yParity i)) False) (\<lambda>v.
     and_then (ecrecover L msgHash v (unpadBytes (au_r i)) (unpadBytes (au_s i)) None) (\<lambda>pubKey.
     and_then (pubToAddress L pubKey False) newAddress)))))"

section \<open>Round trips of the formats\<close>







end
