(* ===== verification/Loose.thy ===== *)
theory Loose
  imports Account
begin

text \<open>
  Data from outside: \<^verbatim>\<open>toType\<close> of \<^verbatim>\<open>util/src/types.ts\<close>, defaults for absent fields, decoded RLP
  items where a constructor expects any value, and guards that throw.
\<close>

text \<open>Division of BigInts, which throws on zero.\<close>

definition bdiv :: "int \<Rightarrow> int \<Rightarrow> int res" where
  "bdiv a b = (if b = 0 then Inl RangeError else Inr (js_div a b))"

section \<open>Conversion of loose data\<close>

definition toType :: "noble \<Rightarrow> toBytes_input \<Rightarrow> bytes option res" where
  "toType N input = (case input of
     ToNull \<Rightarrow> Inr None
   | ToUndefined \<Rightarrow> Inr None
   | ToString s \<Rightarrow> if \<not> isHexString s None
       then Inl (EthereumJSError ''A string must be provided with a 0x-prefix, given: '')
       else and_then (toBytes N input) (\<lambda>b. Inr (Some b))
   | ToNumber n \<Rightarrow> if \<not> isSafeInteger n
       then Inl (EthereumJSError ''The provided number is greater than MAX_SAFE_INTEGER (please use an alternative input type)'')
       else and_then (toBytes N input) (\<lambda>b. Inr (Some b))
   | _ \<Rightarrow> and_then (toBytes N input) (\<lambda>b. Inr (Some b)))"

definition toTypeBigInt :: "noble \<Rightarrow> toBytes_input \<Rightarrow> int option res" where
  "toTypeBigInt N input = and_then (toType N input) (\<lambda>o'. case o' of
     None \<Rightarrow> Inr None
   | Some b \<Rightarrow> and_then (bytesToBigInt N b False) (\<lambda>n. Inr (Some n)))"

text \<open>\<open>toType(x, ...) ?? dflt\<close>\<close>

definition bytesOr :: "noble \<Rightarrow> toBytes_input \<Rightarrow> bytes \<Rightarrow> bytes res" where
  "bytesOr N x dflt = and_then (toType N x) (\<lambda>o'. Inr (case o' of Some b \<Rightarrow> b | None \<Rightarrow> dflt))"

definition bigIntOr :: "noble \<Rightarrow> toBytes_input \<Rightarrow> int \<Rightarrow> int res" where
  "bigIntOr N x dflt = and_then (toTypeBigInt N x) (\<lambda>o'. Inr (case o' of Some b \<Rightarrow> b | None \<Rightarrow> dflt))"

definition bytesOrElse :: "noble \<Rightarrow> toBytes_input \<Rightarrow> bytes option \<Rightarrow> bytes option res" where
  "bytesOrElse N x dflt = and_then (toType N x) (\<lambda>o'. Inr (case o' of Some b \<Rightarrow> Some b | None \<Rightarrow> dflt))"

definition bigIntOrElse :: "noble \<Rightarrow> toBytes_input \<Rightarrow> int option \<Rightarrow> int option res" where
  "bigIntOrElse N x dflt = and_then (toTypeBigInt N x) (\<lambda>o'. Inr (case o' of Some b \<Rightarrow> Some b | None \<Rightarrow> dflt))"

section \<open>Guards\<close>

abbreviation fail :: "string \<Rightarrow> 'a res" where
  "fail m \<equiv> Inl (EthereumJSError m)"

text \<open>\<open>if (c) throw\<close>\<close>

definition unless :: "bool \<Rightarrow> string \<Rightarrow> unit res \<Rightarrow> unit res" where
  "unless c msg k = (if c then fail msg else k)"

section \<open>Decoded items\<close>

text \<open>
  Decoded items as loose data. An item that is a list itself goes through \<open>Uint8Array.from\<close>, which
  turns each element into a number by way of its string.
\<close>

fun elementNumber :: "nested \<Rightarrow> int" where
  "elementNumber (NBytes [b]) = uint b"
| "elementNumber (NBytes bs) = 0"
| "elementNumber (NArray [x]) = elementNumber x"
| "elementNumber (NArray xs) = 0"

fun looseItem :: "nested \<Rightarrow> toBytes_input" where
  "looseItem (NBytes b) = ToUint8Array b"
| "looseItem (NArray xs) = ToNumberArray (map elementNumber xs)"

section \<open>Lemmas\<close>

lemma unless_Inr [simp]: "unless c m k = Inr u \<longleftrightarrow> \<not> c \<and> k = Inr u"
  by (simp add: unless_def)

lemma and_then_InrE:
  assumes "and_then m f = Inr y"
  obtains x where "m = Inr x" and "f x = Inr y"
  using assms by (cases m) auto

text \<open>A number as the bytes it is serialized to.\<close>

definition numberBytes :: "int \<Rightarrow> bytes" where
  "numberBytes n = unpadBytes (nat_be (nat n))"

end
