(* ===== verification/BlockHeader.thy ===== *)
theory BlockHeader
  imports Common Signature Loose
begin

text \<open>
  Block headers, \<^verbatim>\<open>packages/block/src/header/header.ts\<close> with \<^verbatim>\<open>header/constructors.ts\<close>, \<^verbatim>\<open>helpers.ts\<close>,
  \<^verbatim>\<open>params.ts\<close> and \<^verbatim>\<open>consensus/clique.ts\<close>: construction from loose data, validation, fees, blob gas,
  difficulty, and serialization. The libraries are the \<open>libs\<close> of \<open>Signature\<close>. Headers are frozen,
  so the cached hash is the computed one; the tail that \<open>errorStr\<close> adds to messages is left out.
\<close>

section \<open>Parameters and constants\<close>

definition paramsBlock :: params_dict where
  "paramsBlock =
    [(PEip 1, [(''minGasLimit'', Some 5000), (''gasLimitBoundDivisor'', Some 1024), (''targetBlobGasPerBlock'', Some 0),
       (''blobGasPerBlob'', Some 0), (''maxBlobGasPerBlock'', Some 0), (''maxExtraDataSize'', Some 32),
       (''minimumDifficulty'', Some 131072), (''difficultyBoundDivisor'', Some 2048), (''durationLimit'', Some 13),
       (''difficultyBombDelay'', Some 0)]),
     (PEip 609, [(''difficultyBombDelay'', Some 3000000)]),
     (PEip 1013, [(''difficultyBombDelay'', Some 5000000)]),
     (PEip 2384, [(''difficultyBombDelay'', Some 9000000)]),
     (PEip 1559, [(''baseFeeMaxChangeDenominator'', Some 8), (''elasticityMultiplier'', Some 2),
       (''initialBaseFee'', Some 1000000000)]),
     (PEip 3554, [(''difficultyBombDelay'', Some 9500000)]),
     (PEip 4345, [(''difficultyBombDelay'', Some 10700000)]),
     (PEip 4844, [(''targetBlobGasPerBlock'', Some 393216), (''blobGasPerBlob'', Some 131072),
       (''maxBlobGasPerBlock'', Some 786432), (''blobGasPriceUpdateFraction'', Some 3338477),
       (''minBlobGas'', Some 1), (''blobBaseCost'', Some 8192)]),
     (PEip 5133, [(''difficultyBombDelay'', Some 11400000)]),
     (PEip 7691, [(''targetBlobGasPerBlock'', Some 786432), (''maxBlobGasPerBlock'', Some 1179648),
       (''blobGasPriceUpdateFraction'', Some 5007716)])]"

definition KECCAK256_RLP_ARRAY :: bytes where
  "KECCAK256_RLP_ARRAY = nat_be 0x1dcc4de8dec75d7aab85b567b6ccd41ad312451b948a7413f0a142fd40d49347"

definition DEFAULT_GAS_LIMIT :: int where
  "DEFAULT_GAS_LIMIT = 0xffffffffffffff"

definition CLIQUE_EXTRA_VANITY :: nat where
  "CLIQUE_EXTRA_VANITY = 32"

definition CLIQUE_EXTRA_SEAL :: nat where
  "CLIQUE_EXTRA_SEAL = 65"

section \<open>Headers\<close>

record header =
  hd_parentHash :: bytes
  hd_uncleHash :: bytes
  hd_coinbase :: bytes
  hd_stateRoot :: bytes
  hd_transactionsTrie :: bytes
  hd_receiptTrie :: bytes
  hd_logsBloom :: bytes
  hd_difficulty :: int
  hd_number :: int
  hd_gasLimit :: int
  hd_gasUsed :: int
  hd_timestamp :: int
  hd_extraData :: bytes
  hd_mixHash :: bytes
  hd_nonce :: bytes
  hd_baseFeePerGas :: "int option"
  hd_withdrawalsRoot :: "bytes option"
  hd_blobGasUsed :: "int option"
  hd_excessBlobGas :: "int option"
  hd_parentBeaconBlockRoot :: "bytes option"
  hd_requestsHash :: "bytes option"
  hd_blockAccessListHash :: "bytes option"
  hd_slotNumber :: "int option"
  hd_common :: common

record header_data =
  da_parentHash :: toBytes_input
  da_uncleHash :: toBytes_input
  da_coinbase :: toBytes_input
  da_stateRoot :: toBytes_input
  da_transactionsTrie :: toBytes_input
  da_receiptTrie :: toBytes_input
  da_logsBloom :: toBytes_input
  da_difficulty :: toBytes_input
  da_number :: toBytes_input
  da_gasLimit :: toBytes_input
  da_gasUsed :: toBytes_input
  da_timestamp :: toBytes_input
  da_extraData :: toBytes_input
  da_mixHash :: toBytes_input
  da_nonce :: toBytes_input
  da_baseFeePerGas :: toBytes_input
  da_withdrawalsRoot :: toBytes_input
  da_blobGasUsed :: toBytes_input
  da_excessBlobGas :: toBytes_input
  da_parentBeaconBlockRoot :: toBytes_input
  da_requestsHash :: toBytes_input
  da_blockAccessListHash :: toBytes_input
  da_slotNumber :: toBytes_input

record block_opts =
  bo_common :: "common option"
  bo_params :: "params_dict option"
  bo_setHardfork :: bool
  bo_calcDifficultyFromHeader :: "header option"
  bo_skipConsensusFormatValidation :: bool
  bo_freeze :: bool

abbreviation eip :: "header \<Rightarrow> nat \<Rightarrow> bool" where
  "eip h n \<equiv> isActivatedEIP (hd_common h) n"

abbreviation hparam :: "header \<Rightarrow> string \<Rightarrow> int res" where
  "hparam h n \<equiv> param (hd_common h) n"

definition prevRandao :: "header \<Rightarrow> bytes res" where
  "prevRandao h = (if \<not> eip h 4399
     then fail ''The prevRandao parameter can only be accessed when EIP-4399 is activated'' else Inr (hd_mixHash h))"


section \<open>Clique\<close>

definition requireClique :: "header \<Rightarrow> unit res" where
  "requireClique h = and_then (consensusAlgorithm (hd_common h)) (\<lambda>a.
     if a \<noteq> ''clique'' then fail ''BlockHeader.'' else Inr ())"

text \<open>The epoch of the configuration; \<open>BigInt(undefined)\<close> throws, and so does a remainder by zero.\<close>

definition cliqueIsEpochTransition :: "header \<Rightarrow> bool res" where
  "cliqueIsEpochTransition h = and_then (requireClique h) (\<lambda>_.
     and_then (consensusConfig (hd_common h)) (\<lambda>cfg. case map_of cfg ''epoch'' of
       None \<Rightarrow> Inl TypeError
     | Some epoch \<Rightarrow> if epoch = 0 then Inl RangeError else Inr (js_rem (hd_number h) epoch = 0)))"

definition cliqueExtraVanity :: "header \<Rightarrow> bytes res" where
  "cliqueExtraVanity h = and_then (requireClique h) (\<lambda>_. Inr (take CLIQUE_EXTRA_VANITY (hd_extraData h)))"

text \<open>\<open>subarray(-65)\<close>: the last 65 bytes, or all of them.\<close>

definition cliqueExtraSeal :: "header \<Rightarrow> bytes res" where
  "cliqueExtraSeal h = and_then (requireClique h) (\<lambda>_.
     Inr (drop (length (hd_extraData h) - CLIQUE_EXTRA_SEAL) (hd_extraData h)))"

text \<open>\<open>subarray(s, length - 65)\<close>; a negative end counts from the back, once.\<close>

definition withoutSeal :: "nat \<Rightarrow> bytes \<Rightarrow> bytes" where
  "withoutSeal start d = (let l = length d;
     stop = (if l \<ge> CLIQUE_EXTRA_SEAL then l - CLIQUE_EXTRA_SEAL else l - (CLIQUE_EXTRA_SEAL - l)) in js_slice d start stop)"

fun signerChunks :: "bytes \<Rightarrow> bytes list" where
  "signerChunks d = (if length d < 20 then [] else take 20 d # signerChunks (drop 20 d))"

declare signerChunks.simps [simp del]

definition cliqueEpochTransitionSigners :: "header \<Rightarrow> bytes list res" where
  "cliqueEpochTransitionSigners h = and_then (requireClique h) (\<lambda>_.
     and_then (cliqueIsEpochTransition h) (\<lambda>t.
       if \<not> t then fail ''Signers are only included in epoch transition blocks (clique)''
       else Inr (signerChunks (withoutSeal CLIQUE_EXTRA_VANITY (hd_extraData h)))))"

section \<open>Validation\<close>

definition genericFormatValidation :: "header \<Rightarrow> unit res" where
  "genericFormatValidation h =
     unless (length (hd_parentHash h) \<noteq> 32) ''parentHash must be 32 bytes, received '' (
     unless (length (hd_stateRoot h) \<noteq> 32) ''stateRoot must be 32 bytes, received '' (
     unless (length (hd_transactionsTrie h) \<noteq> 32) ''transactionsTrie must be 32 bytes, received '' (
     unless (length (hd_receiptTrie h) \<noteq> 32) ''receiptTrie must be 32 bytes, received '' (
     unless (length (hd_mixHash h) \<noteq> 32) ''mixHash must be 32 bytes, received '' (
     unless (length (hd_nonce h) \<noteq> 8) ''nonce must be 8 bytes, received '' (
     unless (hd_gasUsed h > hd_gasLimit h) ''Invalid block: too much gas used. Used: '' (
     and_then (if eip h 1559 then
         (case hd_baseFeePerGas h of
            None \<Rightarrow> fail ''EIP1559 block has no base fee field''
          | Some fee \<Rightarrow> (case hardforkBlock (hd_common h) (Some ''london'') of
              Some b \<Rightarrow> if b \<noteq> 0 \<and> hd_number h = b then and_then (hparam h ''initialBaseFee'') (\<lambda>i.
                  unless (fee \<noteq> i) ''Initial EIP1559 block does not have initial base fee'' (Inr ()))
                else Inr ()
            | None \<Rightarrow> Inr ()))
       else Inr ()) (\<lambda>_.
     unless (eip h 4895 \<and> hd_withdrawalsRoot h = None) ''EIP4895 block has no withdrawalsRoot field'' (
     unless (eip h 4895 \<and> map_option length (hd_withdrawalsRoot h) \<noteq> Some 32) ''withdrawalsRoot must be 32 bytes, received '' (
     unless (eip h 4788 \<and> hd_parentBeaconBlockRoot h = None) ''EIP4788 block has no parentBeaconBlockRoot field'' (
     unless (eip h 4788 \<and> map_option length (hd_parentBeaconBlockRoot h) \<noteq> Some 32) ''parentBeaconBlockRoot must be 32 bytes, received '' (
     unless (eip h 7685 \<and> hd_requestsHash h = None) ''EIP7685 block has no requestsHash field'' (
     unless (eip h 7928 \<and> hd_blockAccessListHash h = None) ''EIP7928 block has no blockAccessListHash field'' (
     unless (eip h 7928 \<and> map_option length (hd_blockAccessListHash h) \<noteq> Some 32) ''blockAccessListHash must be 32 bytes, received '' (
     unless (eip h 7843 \<and> hd_slotNumber h = None) ''EIP7843 block has no slotNumber field'' (Inr ()))))))))))))))))"

text \<open>On an epoch block the signer list is what is left beside vanity and seal; it may be negative.\<close>

definition cliqueFormatValidation :: "header \<Rightarrow> unit res" where
  "cliqueFormatValidation h =
     (let minLength = int CLIQUE_EXTRA_VANITY + int CLIQUE_EXTRA_SEAL; l = int (length (hd_extraData h)) in
      and_then (cliqueIsEpochTransition h) (\<lambda>t.
      and_then (if \<not> t then unless (l \<noteq> minLength) ''extraData must be '' (Inr ())
        else unless (js_rem (l - minLength) 20 \<noteq> 0) ''invalid signer list length in extraData, received signer length of '' (
          unless (\<not> addressIsZero (hd_coinbase h)) ''coinbase must be filled with zeros on epoch transition blocks, received '' (Inr ()))) (\<lambda>_.
      unless (\<not> equalsBytes (hd_mixHash h) (replicate 32 0)) ''mixHash must be filled with zeros, received '' (Inr ()))))"

definition consensusFormatValidation :: "header \<Rightarrow> unit res" where
  "consensusFormatValidation h =
     and_then (consensusAlgorithm (hd_common h)) (\<lambda>algorithm.
     and_then (if algorithm = ''ethash'' \<and> hd_number h > 0 then and_then (hparam h ''maxExtraDataSize'') (\<lambda>m.
         unless (int (length (hd_extraData h)) > m) ''invalid amount of extra data'' (Inr ())) else Inr ()) (\<lambda>_.
     and_then (if algorithm = ''clique'' then cliqueFormatValidation h else Inr ()) (\<lambda>_.
     and_then (consensusType (hd_common h)) (\<lambda>ty.
     if ty = ''pos'' then
       unless (\<not> equalsBytes (hd_uncleHash h) KECCAK256_RLP_ARRAY \<or>
         (hd_number h \<noteq> 0 \<and> (hd_difficulty h \<noteq> 0 \<or> length (hd_extraData h) > 32 \<or>
            \<not> equalsBytes (hd_nonce h) (replicate 8 0)))) ''Invalid PoS block: '' (Inr ())
     else Inr ()))))"

definition validateDAOExtraData :: "header \<Rightarrow> unit res" where
  "validateDAOExtraData h =
     (if \<not> hardforkIsActiveOnBlock (hd_common h) (Some ''dao'') (hd_number h) then Inr ()
      else case hardforkBlock (hd_common h) (Some ''dao'') of
        None \<Rightarrow> Inr ()
      | Some activation \<Rightarrow> if hd_number h < activation then Inr ()
          else unless (hd_number h - activation \<le> 9 \<and>
              \<not> equalsBytes (hd_extraData h) (nat_be 0x64616f2d686172642d666f726b))
            ''extraData should be 'dao-hard-fork', got '' (Inr ()))"

definition validateGasLimit :: "header \<Rightarrow> header \<Rightarrow> unit res" where
  "validateGasLimit h parent =
     and_then (case hardforkBlock (hd_common h) (Some ''london'') of
         Some b \<Rightarrow> if b \<noteq> 0 \<and> hd_number h = b
           then and_then (hparam h ''elasticityMultiplier'') (\<lambda>e. Inr (hd_gasLimit parent * e))
           else Inr (hd_gasLimit parent)
       | None \<Rightarrow> Inr (hd_gasLimit parent)) (\<lambda>parentGasLimit.
     and_then (hparam h ''gasLimitBoundDivisor'') (\<lambda>d. and_then (bdiv parentGasLimit d) (\<lambda>a.
     unless (hd_gasLimit h \<ge> parentGasLimit + a) ''gas limit increased too much. Gas limit: '' (
     unless (hd_gasLimit h \<le> parentGasLimit - a) ''gas limit decreased too much. Gas limit: '' (
     and_then (hparam h ''minGasLimit'') (\<lambda>m.
     unless (hd_gasLimit h < m) ''gas limit decreased below minimum gas limit. Gas limit: '' (Inr ())))))))"

section \<open>Fees\<close>

definition calcNextBaseFee :: "header \<Rightarrow> int res" where
  "calcNextBaseFee h =
     (if \<not> eip h 1559 then fail ''calcNextBaseFee() can only be called with EIP1559 being activated''
      else and_then (hparam h ''elasticityMultiplier'') (\<lambda>elasticity.
        and_then (bdiv (hd_gasLimit h) elasticity) (\<lambda>parentGasTarget.
        case hd_baseFeePerGas h of None \<Rightarrow> Inl TypeError | Some baseFee \<Rightarrow>
        if parentGasTarget = hd_gasUsed h then Inr baseFee
        else if hd_gasUsed h > parentGasTarget then
          and_then (hparam h ''baseFeeMaxChangeDenominator'') (\<lambda>d.
          and_then (bdiv (baseFee * (hd_gasUsed h - parentGasTarget)) parentGasTarget) (\<lambda>q.
          and_then (bdiv q d) (\<lambda>calculatedDelta.
            Inr ((if calculatedDelta > 1 then calculatedDelta else 1) + baseFee))))
        else
          and_then (hparam h ''baseFeeMaxChangeDenominator'') (\<lambda>d.
          and_then (bdiv (baseFee * (parentGasTarget - hd_gasUsed h)) parentGasTarget) (\<lambda>q.
          and_then (bdiv q d) (\<lambda>calculatedDelta.
            Inr (if baseFee - calculatedDelta > 0 then baseFee - calculatedDelta else 0)))))))"

lemma div_below: "0 < m \<Longrightarrow> x < m * y \<Longrightarrow> x div m < y" for x m y :: int
proof (rule ccontr)
  assume m: "0 < m" and x: "x < m * y" and "\<not> x div m < y"
  then have "m * y \<le> m * (x div m)" by simp
  also have "\<dots> \<le> x" using m by (simp add: minus_mod_eq_mult_div [symmetric])
  finally show False using x by simp
qed

lemma expLoop_decreases:
  assumes "0 < acc" and "\<not> int i \<le> \<bar>n\<bar>"
  shows "js_div (acc * n) (d * int i) < acc"
proof (cases "d = 0")
  case False
  have "\<bar>n\<bar> < int i" "1 \<le> \<bar>d\<bar>" using assms(2) False by auto
  then have "\<bar>n\<bar> < \<bar>d\<bar> * int i" by (meson dual_order.strict_trans2 le_add_same_cancel1 mult_le_cancel_right1 not_less of_nat_less_0_iff)
  then have "acc * \<bar>n\<bar> < \<bar>d * int i\<bar> * acc" using assms(1) by (simp add: abs_mult mult.commute)
  moreover have "0 < \<bar>d * int i\<bar>" using False assms(2) by auto
  ultimately have "acc * \<bar>n\<bar> div \<bar>d * int i\<bar> < acc" using div_below by blast
  moreover have "js_div (acc * n) (d * int i) \<le> acc * \<bar>n\<bar> div \<bar>d * int i\<bar>"
    using assms(1) pos_imp_zdiv_nonneg_iff [of "\<bar>d * int i\<bar>" "acc * \<bar>n\<bar>"] \<open>0 < \<bar>d * int i\<bar>\<close>
    by (auto simp: js_div_def abs_mult)
  ultimately show ?thesis by simp
qed (use assms in \<open>simp add: js_div_def\<close>)

text \<open>The loop of \<open>fakeExponential\<close>: \<open>i\<close>, \<open>output\<close> and \<open>numerator_accumulator\<close>.\<close>

function expLoop :: "int \<Rightarrow> int \<Rightarrow> nat \<Rightarrow> int \<Rightarrow> int \<Rightarrow> int" where
  "expLoop numerator denominator i output acc =
     (if acc > 0 then expLoop numerator denominator (i + 1) (output + acc) (js_div (acc * numerator) (denominator * int i))
      else output)"
  by pat_completeness auto

termination
proof (relation "(\<lambda>(n, d, i, out, acc). nat (\<bar>n\<bar> + 1) - i) <*mlex*> measure (\<lambda>(n, d, i, out, acc). nat acc)")
  fix n d :: int and i :: nat and out acc :: int
  assume acc: "acc > 0"
  let ?args = "(n, d, i + 1, out + acc, js_div (acc * n) (d * int i))"
  show "(?args, n, d, i, out, acc) \<in> (\<lambda>(n, d, i, out, acc). nat (\<bar>n\<bar> + 1) - i) <*mlex*> measure (\<lambda>(n, d, i, out, acc). nat acc)"
  proof (cases "int i \<le> \<bar>n\<bar>")
    case True
    then show ?thesis by (intro mlex_less) auto
  next
    case False
    then show ?thesis using acc expLoop_decreases [OF acc False, of d] by (intro mlex_leq) auto
  qed
qed (simp add: wf_mlex)

declare expLoop.simps [simp del]

definition fakeExponential :: "int \<Rightarrow> int \<Rightarrow> int \<Rightarrow> int res" where
  "fakeExponential factor numerator denominator =
     bdiv (expLoop numerator denominator 1 0 (factor * denominator)) denominator"

definition computeBlobGasPrice :: "int \<Rightarrow> common \<Rightarrow> int res" where
  "computeBlobGasPrice excessBlobGas c = and_then (param c ''minBlobGas'') (\<lambda>m.
     and_then (param c ''blobGasPriceUpdateFraction'') (\<lambda>f. fakeExponential m excessBlobGas f))"

definition getBlobGasPrice :: "header \<Rightarrow> int res" where
  "getBlobGasPrice h = (case hd_excessBlobGas h of
     None \<Rightarrow> fail ''header must have excessBlobGas field populated''
   | Some e \<Rightarrow> computeBlobGasPrice e (hd_common h))"

definition calcDataFee :: "header \<Rightarrow> nat \<Rightarrow> int res" where
  "calcDataFee h numBlobs = and_then (hparam h ''blobGasPerBlob'') (\<lambda>g.
     and_then (getBlobGasPrice h) (\<lambda>p. Inr (g * int numBlobs * p)))"

definition calcNextExcessBlobGas :: "header \<Rightarrow> common \<Rightarrow> int res" where
  "calcNextExcessBlobGas h childCommon =
     (let excess = (case hd_excessBlobGas h of Some e \<Rightarrow> e | None \<Rightarrow> 0);
          used = (case hd_blobGasUsed h of Some u \<Rightarrow> u | None \<Rightarrow> 0) in
      and_then (getBlobGasSchedule childCommon) (\<lambda>sched.
      let target = targetBlobGasPerBlock sched; maxPer = maxBlobGasPerBlock sched in
      if excess + used < target then Inr 0
      else if isActivatedEIP childCommon 7918 then
        and_then (param childCommon ''blobBaseCost'') (\<lambda>blobBaseCost.
        and_then (param childCommon ''blobGasPerBlob'') (\<lambda>gasPerBlob.
        and_then (computeBlobGasPrice excess childCommon) (\<lambda>blobFee.
          let baseFee = (case hd_baseFeePerGas h of Some b \<Rightarrow> b | None \<Rightarrow> 0) in
          if blobBaseCost * baseFee > gasPerBlob * blobFee
          then and_then (bdiv (used * (maxPer - target)) maxPer) (\<lambda>increase. Inr (excess + increase))
          else Inr (excess + used - target))))
      else Inr (excess + used - target)))"

definition calcNextBlobGasPrice :: "header \<Rightarrow> common \<Rightarrow> int res" where
  "calcNextBlobGasPrice h childCommon = and_then (calcNextExcessBlobGas h childCommon) (\<lambda>e. computeBlobGasPrice e childCommon)"


section \<open>Difficulty\<close>

text \<open>The adjustment by the time since the parent, in units of \<open>step\<close> seconds, at least -99.\<close>

definition timeFactor :: "int \<Rightarrow> int \<Rightarrow> int \<Rightarrow> int" where
  "timeFactor base seconds step = (let a = base - js_div seconds step in if - 99 > a then - 99 else a)"

definition ethashCanonicalDifficulty :: "header \<Rightarrow> header \<Rightarrow> int res" where
  "ethashCanonicalDifficulty h parent =
     and_then (consensusType (hd_common h)) (\<lambda>ty.
     if ty \<noteq> ''pow'' then fail ''difficulty calculation is only supported on PoW chains''
     else and_then (consensusAlgorithm (hd_common h)) (\<lambda>algorithm.
     if algorithm \<noteq> ''ethash'' then fail ''difficulty calculation currently only supports the ethash algorithm''
     else and_then (hparam h ''minimumDifficulty'') (\<lambda>minimumDifficulty.
     and_then (hparam h ''difficultyBoundDivisor'') (\<lambda>divisor.
     and_then (bdiv (hd_difficulty parent) divisor) (\<lambda>offset.
     let parentDif = hd_difficulty parent; seconds = hd_timestamp h - hd_timestamp parent in
     and_then
       (if gteHardfork (hd_common h) ''byzantium'' then
          and_then (hparam h ''difficultyBombDelay'') (\<lambda>delay.
            let uncleAddend = (if equalsBytes (hd_uncleHash parent) KECCAK256_RLP_ARRAY then 1 else 2);
                num = hd_number h - delay in
            Inr (parentDif + offset * timeFactor uncleAddend seconds 9, if num < 0 then 0 else num))
        else if gteHardfork (hd_common h) ''homestead'' then
          Inr (parentDif + offset * timeFactor 1 seconds 10, hd_number h)
        else and_then (hparam h ''durationLimit'') (\<lambda>limit.
          Inr (if hd_timestamp parent + limit > hd_timestamp h then offset + parentDif else parentDif - offset, hd_number h)))
       (\<lambda>(dif0, num).
     let bomb = js_div num 100000 - 2;
         dif = (if bomb \<ge> 0 then dif0 + 2 ^ nat bomb else dif0) in
     Inr (if dif < minimumDifficulty then minimumDifficulty else dif)))))))"

section \<open>Construction\<close>

definition commonOf :: "block_opts \<Rightarrow> common res" where
  "commonOf opts = and_then (case bo_common opts of Some c \<Rightarrow> Inr c | None \<Rightarrow> newCommon Mainnet None None None) (\<lambda>c0.
     case updateParams (case bo_params opts of Some p \<Rightarrow> p | None \<Rightarrow> paramsBlock) c0 of
       (Inl e, _) \<Rightarrow> Inl e | (Inr _, c) \<Rightarrow> Inr c)"

definition nullish :: "toBytes_input \<Rightarrow> bool" where
  "nullish x \<longleftrightarrow> x = ToNull \<or> x = ToUndefined"

text \<open>The fields with defaults that do not depend on the hardfork.\<close>

definition readBase :: "noble \<Rightarrow> common \<Rightarrow> header_data \<Rightarrow> header res" where
  "readBase N c d =
     and_then (bytesOr N (da_parentHash d) (replicate 32 0)) (\<lambda>parentHash.
     and_then (bytesOr N (da_uncleHash d) KECCAK256_RLP_ARRAY) (\<lambda>uncleHash.
     and_then (bytesOr N (if nullish (da_coinbase d) then ToObject (Some (replicate 20 0)) else da_coinbase d) []) (\<lambda>coinbase0.
     and_then (newAddress coinbase0) (\<lambda>coinbase.
     and_then (bytesOr N (da_stateRoot d) (replicate 32 0)) (\<lambda>stateRoot.
     and_then (bytesOr N (da_transactionsTrie d) KECCAK256_RLP) (\<lambda>transactionsTrie.
     and_then (bytesOr N (da_receiptTrie d) KECCAK256_RLP) (\<lambda>receiptTrie.
     and_then (bytesOr N (da_logsBloom d) (replicate 256 0)) (\<lambda>logsBloom.
     and_then (bigIntOr N (da_difficulty d) 0) (\<lambda>difficulty.
     and_then (bigIntOr N (da_number d) 0) (\<lambda>number.
     and_then (bigIntOr N (da_gasLimit d) DEFAULT_GAS_LIMIT) (\<lambda>gasLimit.
     and_then (bigIntOr N (da_gasUsed d) 0) (\<lambda>gasUsed.
     and_then (bigIntOr N (da_timestamp d) 0) (\<lambda>timestamp.
     and_then (bytesOr N (da_extraData d) []) (\<lambda>extraData.
     and_then (bytesOr N (da_mixHash d) (replicate 32 0)) (\<lambda>mixHash.
     and_then (bytesOr N (da_nonce d) (replicate 8 0)) (\<lambda>nonce.
     Inr \<lparr>hd_parentHash = parentHash, hd_uncleHash = uncleHash, hd_coinbase = coinbase, hd_stateRoot = stateRoot,
       hd_transactionsTrie = transactionsTrie, hd_receiptTrie = receiptTrie, hd_logsBloom = logsBloom,
       hd_difficulty = difficulty, hd_number = number, hd_gasLimit = gasLimit, hd_gasUsed = gasUsed,
       hd_timestamp = timestamp, hd_extraData = extraData, hd_mixHash = mixHash, hd_nonce = nonce,
       hd_baseFeePerGas = None, hd_withdrawalsRoot = None, hd_blobGasUsed = None, hd_excessBlobGas = None,
       hd_parentBeaconBlockRoot = None, hd_requestsHash = None, hd_blockAccessListHash = None,
       hd_slotNumber = None, hd_common = c\<rparr>))))))))))))))))"

text \<open>The fields of later hardforks, with their defaults.\<close>

definition given :: "bool \<Rightarrow> 'a \<Rightarrow> 'a option" where
  "given c x = (if c then Some x else None)"

definition defaultBaseFee :: "header \<Rightarrow> int option res" where
  "defaultBaseFee h =
     (if \<not> eip h 1559 then Inr None
      else if Some (hd_number h) = hardforkBlock (hd_common h) (Some ''london'')
      then and_then (hparam h ''initialBaseFee'') (\<lambda>f. Inr (Some f))
      else Inr (Some 7))"

definition readForks :: "libs \<Rightarrow> header_data \<Rightarrow> header \<Rightarrow> header res" where
  "readForks L d h = (let N = lb_noble L in
     and_then (defaultBaseFee h) (\<lambda>fee0.
     and_then (bigIntOrElse N (da_baseFeePerGas d) fee0) (\<lambda>baseFeePerGas.
     and_then (bytesOrElse N (da_withdrawalsRoot d) (given (eip h 4895) KECCAK256_RLP)) (\<lambda>withdrawalsRoot.
     and_then (bigIntOrElse N (da_blobGasUsed d) (given (eip h 4844) 0)) (\<lambda>blobGasUsed.
     and_then (bigIntOrElse N (da_excessBlobGas d) (given (eip h 4844) 0)) (\<lambda>excessBlobGas.
     and_then (bytesOrElse N (da_parentBeaconBlockRoot d) (given (eip h 4788) (replicate 32 0))) (\<lambda>parentBeaconBlockRoot.
     and_then (bytesOrElse N (da_requestsHash d) (given (eip h 7685) (lb_sha256 L []))) (\<lambda>requestsHash.
     and_then (bytesOrElse N (da_blockAccessListHash d) (given (eip h 7928) (replicate 32 0))) (\<lambda>blockAccessListHash.
     and_then (bigIntOrElse N (da_slotNumber d) (given (eip h 7843) 0)) (\<lambda>slotNumber.
     Inr (h\<lparr>hd_baseFeePerGas := baseFeePerGas, hd_withdrawalsRoot := withdrawalsRoot, hd_blobGasUsed := blobGasUsed,
       hd_excessBlobGas := excessBlobGas, hd_parentBeaconBlockRoot := parentBeaconBlockRoot,
       hd_requestsHash := requestsHash, hd_blockAccessListHash := blockAccessListHash,
       hd_slotNumber := slotNumber\<rparr>)))))))))))"

definition checkForks :: "header \<Rightarrow> unit res" where
  "checkForks h =
     unless (\<not> eip h 1559 \<and> hd_baseFeePerGas h \<noteq> None) ''A base fee for a block can only be set with EIP1559 being activated'' (
     unless (\<not> eip h 4895 \<and> hd_withdrawalsRoot h \<noteq> None) ''A withdrawalsRoot for a header can only be provided with EIP4895 being activated'' (
     unless (\<not> eip h 4844 \<and> hd_blobGasUsed h \<noteq> None) ''blob gas used can only be provided with EIP4844 activated'' (
     unless (\<not> eip h 4844 \<and> hd_excessBlobGas h \<noteq> None) ''excess blob gas can only be provided with EIP4844 activated'' (
     unless (\<not> eip h 4788 \<and> hd_parentBeaconBlockRoot h \<noteq> None) ''A parentBeaconBlockRoot for a header can only be provided with EIP4788 being activated'' (
     unless (\<not> eip h 7685 \<and> hd_requestsHash h \<noteq> None) ''requestsHash can only be provided with EIP 7685 activated'' (
     unless (\<not> eip h 7928 \<and> hd_blockAccessListHash h \<noteq> None) ''blockAccessListHash can only be provided with EIP 7928 activated'' (
     unless (\<not> eip h 7843 \<and> hd_slotNumber h \<noteq> None) ''slotNumber can only be provided with EIP 7843 activated'' (
     Inr ()))))))))"

definition newBlockHeader :: "libs \<Rightarrow> header_data \<Rightarrow> block_opts \<Rightarrow> header res" where
  "newBlockHeader L d opts =
     and_then (commonOf opts) (\<lambda>c0.
     and_then (readBase (lb_noble L) c0 d) (\<lambda>h0.
     and_then (if bo_setHardfork opts
         then (case setHardforkBy (Some (hd_number h0)) (Some (hd_timestamp h0)) c0 of (Inl e, _) \<Rightarrow> Inl e | (Inr _, c) \<Rightarrow> Inr c)
         else Inr c0) (\<lambda>c.
     and_then (readForks L d (h0\<lparr>hd_common := c\<rparr>)) (\<lambda>h1.
     and_then (checkForks h1) (\<lambda>_.
     and_then (genericFormatValidation h1) (\<lambda>_.
     and_then (validateDAOExtraData h1) (\<lambda>_.
     and_then (case bo_calcDifficultyFromHeader opts of
         Some parent \<Rightarrow> and_then (consensusAlgorithm (hd_common h1)) (\<lambda>a.
           if a = ''ethash'' then and_then (ethashCanonicalDifficulty h1 parent) (\<lambda>x. Inr (h1\<lparr>hd_difficulty := x\<rparr>)) else Inr h1)
       | None \<Rightarrow> Inr h1) (\<lambda>h2.
     and_then (if bo_skipConsensusFormatValidation opts then Inr () else consensusFormatValidation h2) (\<lambda>_.
     Inr h2)))))))))"

section \<open>Serialization\<close>

text \<open>A number of a field that is missing has no \<open>toString\<close>; a missing byte string is pushed as \<open>undefined\<close>.\<close>

definition rawNumber :: "noble \<Rightarrow> int option \<Rightarrow> rlp_input res" where
  "rawNumber N x = (case x of None \<Rightarrow> Inl TypeError
     | Some n \<Rightarrow> and_then (bigIntToUnpaddedBytes N n) (\<lambda>b. Inr (InBytes b)))"

definition rawBytes :: "bytes option \<Rightarrow> rlp_input res" where
  "rawBytes x = Inr (case x of None \<Rightarrow> InUndefined | Some b \<Rightarrow> InBytes b)"

fun collect :: "'a res list \<Rightarrow> 'a list res" where
  "collect [] = Inr []"
| "collect (r # rs) = and_then r (\<lambda>x. and_then (collect rs) (\<lambda>xs. Inr (x # xs)))"

definition rawItems :: "noble \<Rightarrow> header \<Rightarrow> rlp_input res list" where
  "rawItems N h =
     [rawBytes (Some (hd_parentHash h)), rawBytes (Some (hd_uncleHash h)), rawBytes (Some (hd_coinbase h)),
      rawBytes (Some (hd_stateRoot h)), rawBytes (Some (hd_transactionsTrie h)), rawBytes (Some (hd_receiptTrie h)),
      rawBytes (Some (hd_logsBloom h)), rawNumber N (Some (hd_difficulty h)), rawNumber N (Some (hd_number h)),
      rawNumber N (Some (hd_gasLimit h)), rawNumber N (Some (hd_gasUsed h)), rawNumber N (Some (hd_timestamp h)),
      rawBytes (Some (hd_extraData h)), rawBytes (Some (hd_mixHash h)), rawBytes (Some (hd_nonce h))] @
     (if eip h 1559 then [rawNumber N (hd_baseFeePerGas h)] else []) @
     (if eip h 4895 then [rawBytes (hd_withdrawalsRoot h)] else []) @
     (if eip h 4844 then [rawNumber N (hd_blobGasUsed h), rawNumber N (hd_excessBlobGas h)] else []) @
     (if eip h 4788 then [rawBytes (hd_parentBeaconBlockRoot h)] else []) @
     (if eip h 7685 then [rawBytes (hd_requestsHash h)] else []) @
     (if eip h 7928 then [rawBytes (hd_blockAccessListHash h)] else []) @
     (if eip h 7843 then [rawNumber N (hd_slotNumber h)] else [])"

definition header_raw :: "noble \<Rightarrow> header \<Rightarrow> rlp_input list res" where
  "header_raw N h = collect (rawItems N h)"

definition header_serialize :: "noble \<Rightarrow> header \<Rightarrow> bytes res" where
  "header_serialize N h = and_then (header_raw N h) (\<lambda>r. encode (InArray r))"

definition header_hash :: "libs \<Rightarrow> header \<Rightarrow> bytes res" where
  "header_hash L h = and_then (header_raw (lb_noble L) h) (\<lambda>r. and_then (encode (InArray r)) (\<lambda>b. Inr (lb_keccak L b)))"

definition isGenesis :: "header \<Rightarrow> bool" where
  "isGenesis h \<longleftrightarrow> hd_number h = 0"

definition valuesArrayToHeaderData :: "toBytes_input list \<Rightarrow> header_data res" where
  "valuesArrayToHeaderData vs =
     (if length vs > 23 then fail ''invalid header. More values than expected were received. Max: 23, got: ''
      else if length vs < 15 then fail ''invalid header. Less values than expected were received. Min: 15, got: ''
      else let v = (\<lambda>i. if i < length vs then vs ! i else ToUndefined) in
        Inr \<lparr>da_parentHash = v 0, da_uncleHash = v 1, da_coinbase = v 2, da_stateRoot = v 3, da_transactionsTrie = v 4,
          da_receiptTrie = v 5, da_logsBloom = v 6, da_difficulty = v 7, da_number = v 8, da_gasLimit = v 9,
          da_gasUsed = v 10, da_timestamp = v 11, da_extraData = v 12, da_mixHash = v 13, da_nonce = v 14,
          da_baseFeePerGas = v 15, da_withdrawalsRoot = v 16, da_blobGasUsed = v 17, da_excessBlobGas = v 18,
          da_parentBeaconBlockRoot = v 19, da_requestsHash = v 20, da_blockAccessListHash = v 21, da_slotNumber = v 22\<rparr>)"

definition getDifficulty :: "noble \<Rightarrow> header_data \<Rightarrow> int option res" where
  "getDifficulty N d = (if da_difficulty d \<noteq> ToUndefined then toTypeBigInt N (da_difficulty d) else Inr None)"

text \<open>What the checks after construction ask of the values that were given.\<close>

definition sameBytes :: "bytes \<Rightarrow> toBytes_input \<Rightarrow> bool" where
  "sameBytes b x = (case x of ToUint8Array y \<Rightarrow> equalsBytes b y | _ \<Rightarrow> False)"

definition createBlockHeaderFromBytesArray :: "libs \<Rightarrow> toBytes_input list \<Rightarrow> block_opts \<Rightarrow> header res" where
  "createBlockHeaderFromBytesArray L vs opts =
     and_then (valuesArrayToHeaderData vs) (\<lambda>d.
     and_then (newBlockHeader L d opts) (\<lambda>h.
     and_then (if eip h 1559 \<and> da_baseFeePerGas d = ToUndefined then
         and_then (eipBlock (hd_common h) 1559) (\<lambda>b. case b of None \<Rightarrow> Inl TypeError
           | Some n \<Rightarrow> and_then (bigIntToBytes (lb_noble L) n False) (\<lambda>a.
               unless (sameBytes a (da_number d)) ''invalid header. baseFeePerGas should be provided'' (Inr ())))
       else Inr ()) (\<lambda>_.
     and_then (unless (eip h 4844 \<and> da_excessBlobGas d = ToUndefined) ''invalid header. excessBlobGas should be provided'' (
       unless (eip h 4844 \<and> da_blobGasUsed d = ToUndefined) ''invalid header. blobGasUsed should be provided'' (
       unless (eip h 4788 \<and> da_parentBeaconBlockRoot d = ToUndefined) ''invalid header. parentBeaconBlockRoot should be provided'' (
       unless (eip h 7685 \<and> da_requestsHash d = ToUndefined) ''invalid header. requestsHash should be provided'' (
       unless (eip h 7928 \<and> hd_blockAccessListHash h = None) ''invalid header. blockAccessListHash should be provided'' (
       unless (eip h 7843 \<and> hd_slotNumber h = None) ''invalid header. slotNumber should be provided'' (Inr ()))))))) (\<lambda>_.
     Inr h))))"

definition createBlockHeaderFromRLP :: "libs \<Rightarrow> bytes \<Rightarrow> block_opts \<Rightarrow> header res" where
  "createBlockHeaderFromRLP L b opts = and_then (decode (InBytes b) False) (\<lambda>out. case out of
     Data (NArray values) \<Rightarrow> createBlockHeaderFromBytesArray L (map looseItem values) opts
   | _ \<Rightarrow> fail ''Invalid serialized header input. Must be array'')"

definition jsonField :: "bool \<Rightarrow> string \<Rightarrow> ('a \<Rightarrow> string) \<Rightarrow> 'a option \<Rightarrow> (string \<times> string) res list" where
  "jsonField c k f x = (if c then (case x of None \<Rightarrow> [Inl TypeError] | Some v \<Rightarrow> [Inr (k, f v)]) else [])"

definition header_toJSON :: "noble \<Rightarrow> header \<Rightarrow> (string \<times> string) list res" where
  "header_toJSON N h =
     (let hex = Bytes.bytesToHex N in
      collect (map Inr ([(''parentHash'', hex (hd_parentHash h)), (''uncleHash'', hex (hd_uncleHash h)),
         (''coinbase'', hex (hd_coinbase h)), (''stateRoot'', hex (hd_stateRoot h)),
         (''transactionsTrie'', hex (hd_transactionsTrie h))] @
        (case hd_withdrawalsRoot h of Some w \<Rightarrow> [(''withdrawalsRoot'', hex w)] | None \<Rightarrow> []) @
        [(''receiptTrie'', hex (hd_receiptTrie h)), (''logsBloom'', hex (hd_logsBloom h)),
         (''difficulty'', bigIntToHex (hd_difficulty h)), (''number'', bigIntToHex (hd_number h)),
         (''gasLimit'', bigIntToHex (hd_gasLimit h)), (''gasUsed'', bigIntToHex (hd_gasUsed h)),
         (''timestamp'', bigIntToHex (hd_timestamp h)), (''extraData'', hex (hd_extraData h)),
         (''mixHash'', hex (hd_mixHash h)), (''nonce'', hex (hd_nonce h))]) @
        jsonField (eip h 1559) ''baseFeePerGas'' bigIntToHex (hd_baseFeePerGas h) @
        jsonField (eip h 4844) ''blobGasUsed'' bigIntToHex (hd_blobGasUsed h) @
        jsonField (eip h 4844) ''excessBlobGas'' bigIntToHex (hd_excessBlobGas h) @
        jsonField (eip h 4788) ''parentBeaconBlockRoot'' hex (hd_parentBeaconBlockRoot h) @
        jsonField (eip h 7685) ''requestsHash'' hex (hd_requestsHash h) @
        jsonField (eip h 7928) ''blockAccessListHash'' hex (hd_blockAccessListHash h) @
        jsonField (eip h 7843) ''slotNumber'' bigIntToHex (hd_slotNumber h)))"

section \<open>Seals\<close>

definition cliqueSigHash :: "libs \<Rightarrow> header \<Rightarrow> bytes res" where
  "cliqueSigHash L h = and_then (requireClique h) (\<lambda>_.
     and_then (header_raw (lb_noble L) h) (\<lambda>r.
     and_then (encode (InArray (r[12 := InBytes (withoutSeal 0 (hd_extraData h))]))) (\<lambda>b.
     Inr (lb_keccak L b))))"

definition cliqueSigner :: "libs \<Rightarrow> header \<Rightarrow> bytes res" where
  "cliqueSigner L h = and_then (requireClique h) (\<lambda>_. and_then (cliqueExtraSeal h) (\<lambda>seal.
     if seal = [] \<or> equalsBytes seal (replicate 65 0) then createZeroAddress
     else and_then (bytesToBigInt (lb_noble L) (js_slice seal 64 65) False) (\<lambda>v.
       and_then (cliqueSigHash L h) (\<lambda>msgHash.
       and_then (ecrecover L msgHash (v + 27) (js_slice seal 0 32) (js_slice seal 32 64) None) (createAddressFromPublicKey L)))))"

definition cliqueVerifySignature :: "libs \<Rightarrow> header \<Rightarrow> bytes list \<Rightarrow> bool res" where
  "cliqueVerifySignature L h signerList = and_then (requireClique h) (\<lambda>_.
     and_then (cliqueSigner L h) (\<lambda>signerAddress. Inr (list_ex (\<lambda>signer. addressEquals signer signerAddress) signerList)))"

text \<open>The header with its extra data padded, and the sealed extra data.\<close>

definition paddedExtraData :: "header \<Rightarrow> header" where
  "paddedExtraData h = (let m = CLIQUE_EXTRA_VANITY + CLIQUE_EXTRA_SEAL in
     if length (hd_extraData h) < m then h\<lparr>hd_extraData := hd_extraData h @ replicate (m - length (hd_extraData h)) 0\<rparr> else h)"

definition generateCliqueBlockExtraData :: "libs \<Rightarrow> header \<Rightarrow> bytes \<Rightarrow> bytes res" where
  "generateCliqueBlockExtraData L h0 signKey = (let h = paddedExtraData h0 in
     and_then (requireClique h) (\<lambda>_. and_then (cliqueSigHash L h) (\<lambda>msgHash.
       and_then (lb_sign L msgHash signKey) (\<lambda>sig.
       Inr (withoutSeal 0 (hd_extraData h) @ drop 1 sig @ take 1 sig)))))"

text \<open>
  The options of a sealed header skip the consensus checks, which are run after sealing when asked for.
  A frozen header refuses the assignments of its extra data.
\<close>

definition createSealedCliqueBlockHeader :: "libs \<Rightarrow> header_data \<Rightarrow> bytes \<Rightarrow> block_opts \<Rightarrow> bool \<Rightarrow> header res" where
  "createSealedCliqueBlockHeader L d signKey opts explicitFalse =
     and_then (newBlockHeader L d (opts\<lparr>bo_skipConsensusFormatValidation := True\<rparr>)) (\<lambda>h.
     and_then (if bo_freeze opts \<and> length (hd_extraData h) < CLIQUE_EXTRA_VANITY + CLIQUE_EXTRA_SEAL then Inl TypeError
       else generateCliqueBlockExtraData L h signKey) (\<lambda>x. if bo_freeze opts then Inl TypeError else
     let sealed = h\<lparr>hd_extraData := x\<rparr> in
     and_then (if explicitFalse then consensusFormatValidation sealed else Inr ()) (\<lambda>_. Inr sealed)))"

section \<open>Requests\<close>

fun sortedTypes :: "(nat \<times> bytes) list \<Rightarrow> bool" where
  "sortedTypes ((a, x) # (b, y) # rs) = (\<not> b < a \<and> sortedTypes ((b, y) # rs))"
| "sortedTypes rs = True"

definition genRequestsRoot :: "(nat \<times> bytes) list \<Rightarrow> (bytes \<Rightarrow> bytes) \<Rightarrow> bytes res" where
  "genRequestsRoot requests sha =
     (if \<not> sortedTypes requests then fail ''requests are not sorted in ascending order''
      else Inr (sha (concat (map (\<lambda>(_, b). if length b > 1 then sha b else []) requests))))"

end
