(* ===== verification/HeaderFees.thy ===== *)
theory HeaderFees
  imports BlockHeader Complex_Main
begin

text \<open>
  What headers promise about fees, limits and difficulty: the step of the base fee, the blob price
  as an approximation of an exponential, the bounds of the gas limit, the lower bound of the
  difficulty.
\<close>

section \<open>The price of blob gas\<close>

lemma expLoop_grows: "0 \<le> n \<Longrightarrow> 0 < d \<Longrightarrow> out \<le> expLoop n d i out acc"
proof (induction n d i out acc rule: expLoop.induct)
  case (1 n d i out acc)
  show ?case
  proof (cases "acc > 0")
    case True
    then have "out + acc \<le> expLoop n d i out acc" using 1 by (subst expLoop.simps) simp
    then show ?thesis using True by simp
  qed (subst expLoop.simps, simp)
qed

lemma expLoop_first: "0 \<le> n \<Longrightarrow> 0 < d \<Longrightarrow> 0 < acc \<Longrightarrow> out + acc \<le> expLoop n d i out acc"
  using expLoop_grows [of n d "out + acc" "i + 1"] by (subst expLoop.simps) simp

text \<open>Every partial sum stays below that of the exponential series.\<close>

lemma partial_exp: "0 \<le> r \<Longrightarrow> (\<Sum>j<k. r ^ j / fact j) \<le> exp (r :: real)"
proof -
  assume r: "0 \<le> r"
  have "summable (\<lambda>j. r ^ j /\<^sub>R fact j)" by (rule summable_exp_generic)
  then have s: "summable (\<lambda>j. r ^ j / fact j)" by (simp add: divide_inverse mult.commute scaleR_conv_of_real)
  have "(\<Sum>j<k. r ^ j / fact j) \<le> (\<Sum>j. r ^ j / fact j)"
    by (rule sum_le_suminf [OF s]) (auto simp: r)
  also have "\<dots> = exp r" by (simp add: exp_def divide_inverse mult.commute scaleR_conv_of_real)
  finally show ?thesis .
qed

lemma expLoop_below:
  fixes F r :: real
  assumes F: "0 \<le> F"
  shows "1 \<le> i \<Longrightarrow> real_of_int acc \<le> F * (r ^ (i - 1) / fact (i - 1)) \<Longrightarrow>
    real_of_int out \<le> F * (\<Sum>j<i - 1. r ^ j / fact j) \<Longrightarrow> 0 \<le> n \<Longrightarrow> 0 < d \<Longrightarrow>
    r = real_of_int n / real_of_int d \<Longrightarrow> real_of_int (expLoop n d i out acc) \<le> F * exp r"
proof (induction n d i out acc rule: expLoop.induct)
  case (1 n d i out acc)
  have r0: "0 \<le> r" using 1 by simp
  show ?case
  proof (cases "acc > 0")
    case True
    obtain k where k: "i = Suc k" using 1 by (cases i) auto
    let ?next = "js_div (acc * n) (d * int i)"
    have "?next = acc * n div (d * int i)" using True 1 by (simp add: js_div_nonneg)
    then have "real_of_int ?next \<le> real_of_int (acc * n) / real_of_int (d * int i)"
      by (metis of_int_floor_le floor_divide_of_int_eq)
    also have "\<dots> = real_of_int acc * (r / real i)" using 1 by simp
    also have "\<dots> \<le> F * (r ^ k / fact k) * (r / real i)"
      using 1 r0 k by (intro mult_right_mono) auto
    also have "\<dots> = F * (r ^ i / fact i)" by (simp add: k field_simps)
    finally have step: "real_of_int ?next \<le> F * (r ^ i / fact i)" .
    have "real_of_int (out + acc) \<le> F * (\<Sum>j<k. r ^ j / fact j) + F * (r ^ k / fact k)"
      using 1 k by (simp add: add_mono)
    also have "\<dots> = F * (\<Sum>j<i. r ^ j / fact j)" by (simp add: k distrib_left)
    finally have sum: "real_of_int (out + acc) \<le> F * (\<Sum>j<i. r ^ j / fact j)" .
    have "real_of_int (expLoop n d (i + 1) (out + acc) ?next) \<le> F * exp r"
      by (rule "1.IH" [OF True]) (use 1 step sum in auto)
    then show ?thesis using True by (subst expLoop.simps) simp
  next
    case False
    have "F * (\<Sum>j<i - 1. r ^ j / fact j) \<le> F * exp r"
      by (rule mult_left_mono [OF partial_exp [OF r0] F])
    then show ?thesis using False 1 by (subst expLoop.simps) simp
  qed
qed

lemma fakeExponential_eq: "0 \<le> n \<Longrightarrow> 0 < d \<Longrightarrow> 0 \<le> f \<Longrightarrow>
    fakeExponential f n d = Inr (expLoop n d 1 0 (f * d) div d)"
  using expLoop_grows [of n d 0 1 "f * d"] by (simp add: fakeExponential_def bdiv_def js_div_nonneg)

text \<open>
  C7. \<open>fakeExponential\<close> returns for every input with a positive denominator, and the result lies
  between the factor and the true value of the exponential; the blob price never rounds up.
\<close>

theorem fakeExponential_spec:
  assumes "0 \<le> numerator" and "0 < denominator" and "0 \<le> factor"
  shows "\<exists>p. fakeExponential factor numerator denominator = Inr p \<and> factor \<le> p \<and>
    real_of_int p \<le> real_of_int factor * exp (real_of_int numerator / real_of_int denominator)"
proof -
  let ?e = "expLoop numerator denominator 1 0 (factor * denominator)" and ?d = "denominator"
  let ?r = "real_of_int numerator / real_of_int denominator"
  have up: "real_of_int ?e \<le> real_of_int (factor * ?d) * exp ?r"
    by (rule expLoop_below) (use assms in auto)
  have "factor * ?d \<le> ?e"
    using expLoop_first [OF assms(1,2), of "factor * ?d" 0 1] expLoop_grows [OF assms(1,2), of 0 1 "factor * ?d"] assms(2,3)
    by (cases "factor = 0") (auto simp: zero_less_mult_iff)
  then have low: "factor \<le> ?e div ?d"
    using zdiv_mono1 [of "factor * ?d" ?e ?d] assms(2) by simp
  have "real_of_int (?e div ?d) \<le> real_of_int ?e / real_of_int ?d"
    by (metis of_int_floor_le floor_divide_of_int_eq)
  also have "\<dots> \<le> real_of_int (factor * ?d) * exp ?r / real_of_int ?d"
    using up assms(2) by (intro divide_right_mono) auto
  also have "\<dots> = real_of_int factor * exp ?r" using assms(2) by simp
  finally show ?thesis using low fakeExponential_eq [OF assms] by blast
qed

theorem fakeExponential_spec_witness:
  "fakeExponential 1 6 2 = Inr 18 \<and> real_of_int 18 \<le> exp 3"
proof -
  have "fakeExponential 1 6 2 = Inr 18"
    by (simp add: fakeExponential_def expLoop.simps bdiv_def js_div_def)
  then show ?thesis using fakeExponential_spec [of 6 2 1] by simp
qed

section \<open>The base fee\<close>

lemma scaled_down: "0 \<le> b \<Longrightarrow> 0 < t \<Longrightarrow> x \<le> t \<Longrightarrow> 0 < d \<Longrightarrow> b * x div t div d \<le> b div d" for b t x d :: int
proof -
  assume b: "0 \<le> b" and t: "0 < t" and x: "x \<le> t" and d: "0 < d"
  have "b * x div t \<le> b * t div t" using b x t by (intro zdiv_mono1 mult_left_mono) auto
  then show ?thesis using t d by (intro zdiv_mono1) auto
qed

lemma scaled_mono: "0 \<le> b \<Longrightarrow> 0 < t \<Longrightarrow> 0 < d \<Longrightarrow> x \<le> y \<Longrightarrow> b * x div t div d \<le> b * y div t div d"
  for b t x y d :: int
  by (intro zdiv_mono1 mult_left_mono)

text \<open>How far gas used can exceed the target: the limit is below \<open>e\<close> times the target and one.\<close>

lemma above_target:
  fixes L e t u :: int
  assumes "0 < e" and "t = L div e" and "u \<le> L"
  shows "u - t \<le> (e - 1) * (t + 1)" and "e dvd L \<Longrightarrow> u - t \<le> (e - 1) * t"
proof -
  have L: "L = e * t + L mod e" using assms(2) by simp
  have "L mod e \<le> e - 1" using assms(1) pos_mod_bound [of e L] by linarith
  then show "u - t \<le> (e - 1) * (t + 1)" using L assms(3) by (simp add: algebra_simps)
  show "u - t \<le> (e - 1) * t" if "e dvd L"
    using that L assms(3) by (simp add: algebra_simps dvd_eq_mod_eq_0)
qed

text \<open>
  C6. The next base fee. At the target it is unchanged. Above the target it rises by the excess's
  share of the target over the denominator, at least by 1; when the block kept its gas limit, the
  share is at most \<open>(e - 1) (t + 1) / t\<close>, because the target \<open>t\<close> is the limit divided by the
  elasticity \<open>e\<close> and rounded down, and at most \<open>e - 1\<close> when the limit is a multiple of \<open>e\<close>
  (for the main network: an eighth of the fee for an even limit, and a little more than an eighth
  for an odd one). Below the target it falls by the shortfall's share, at most by a \<open>d\<close>th, and
  never below zero.
\<close>

theorem calcNextBaseFee_spec:
  assumes "eip h 1559" and "hd_baseFeePerGas h = Some b" and "0 \<le> b"
    and "hparam h ''elasticityMultiplier'' = Inr e" and "hparam h ''baseFeeMaxChangeDenominator'' = Inr d"
    and "0 < e" and "0 < d" and "e \<le> hd_gasLimit h" and "0 \<le> hd_gasUsed h"
    and "t = hd_gasLimit h div e" and "u = hd_gasUsed h"
  shows "\<exists>b'. calcNextBaseFee h = Inr b' \<and> 0 \<le> b' \<and> (u = t \<longrightarrow> b' = b) \<and>
    (u > t \<longrightarrow> b' = b + max 1 (b * (u - t) div t div d) \<and>
      (u \<le> hd_gasLimit h \<longrightarrow> b' \<le> b + max 1 (b * ((e - 1) * (t + 1)) div t div d) \<and>
        (e dvd hd_gasLimit h \<longrightarrow> b' \<le> b + max 1 (b * (e - 1) div d)))) \<and>
    (u < t \<longrightarrow> b' = b - b * (t - u) div t div d \<and> b - b div d \<le> b')"
proof -
  have t: "1 \<le> t" using assms(6,8,10) by (metis zdiv_mono1 div_self less_irrefl)
  have target: "bdiv (hd_gasLimit h) e = Inr t" using assms(6,8,10) by (simp add: bdiv_def js_div_nonneg)
  have step: "bdiv (b * x) t = Inr (b * x div t)" "bdiv (b * x div t) d = Inr (b * x div t div d)" if "0 \<le> x" for x
    using that assms(3,7) t by (simp_all add: bdiv_def js_div_nonneg pos_imp_zdiv_nonneg_iff)
  have mono: "b * x div t div d \<le> b * y div t div d" if "x \<le> y" for x y
    using scaled_mono [OF assms(3) _ assms(7) that, of t] t by simp
  consider "u = t" | "u > t" | "u < t" by linarith
  then show ?thesis
  proof cases
    case 1
    then show ?thesis using assms target by (simp add: calcNextBaseFee_def)
  next
    case 2
    then have eq: "calcNextBaseFee h = Inr (b + max 1 (b * (u - t) div t div d))"
      using assms target step [of "u - t"] by (simp add: calcNextBaseFee_def max_def)
    have "b * (u - t) div t div d \<le> b * ((e - 1) * (t + 1)) div t div d" if "u \<le> hd_gasLimit h"
      by (rule mono [OF above_target(1) [OF assms(6,10) that]])
    moreover have "b * (u - t) div t div d \<le> b * (e - 1) div d" if "u \<le> hd_gasLimit h" "e dvd hd_gasLimit h"
    proof -
      have "b * ((e - 1) * t) div t = b * (e - 1)" using t by (simp flip: mult.assoc)
      then show ?thesis using mono [OF above_target(2) [OF assms(6,10) that]] by simp
    qed
    ultimately show ?thesis using eq 2 assms(3) by (auto intro: max.mono)
  next
    case 3
    have "b * (t - u) div t div d \<le> b div d"
      using scaled_down [OF assms(3) _ _ assms(7), of t "t - u"] t assms(9,11) by simp
    moreover have "b div d \<le> b"
      using assms(3,7) zdiv_mono2 [of b 1 d] by simp
    moreover have "calcNextBaseFee h = Inr (b - b * (t - u) div t div d)"
      using 3 assms target step [of "t - u"] calculation by (simp add: calcNextBaseFee_def)
    ultimately show ?thesis using 3 by auto
  qed
qed

section \<open>Limits\<close>

text \<open>
  C8. A gas limit is accepted exactly when it differs from the parent's by less than a 1024th and is
  not below the minimum; at the London block the parent's counts with the elasticity multiplied in.
\<close>

theorem validateGasLimit_spec:
  assumes "hparam h ''gasLimitBoundDivisor'' = Inr d" and "0 < d" and "hparam h ''minGasLimit'' = Inr m"
    and "hparam h ''elasticityMultiplier'' = Inr e" and "0 \<le> e" and "0 \<le> hd_gasLimit p"
    and "base = (if hardforkBlock (hd_common h) (Some ''london'') = Some (hd_number h) \<and> hd_number h \<noteq> 0
      then hd_gasLimit p * e else hd_gasLimit p)"
  shows "validateGasLimit h p = Inr () \<longleftrightarrow> \<bar>hd_gasLimit h - base\<bar> < base div d \<and> m \<le> hd_gasLimit h"
proof -
  have "0 \<le> base" using assms(5,6,7) by simp
  then have div: "bdiv base d = Inr (base div d)" using assms(2) by (simp add: bdiv_def js_div_nonneg)
  have "(case hardforkBlock (hd_common h) (Some ''london'') of
         Some b \<Rightarrow> if b \<noteq> 0 \<and> hd_number h = b
           then and_then (hparam h ''elasticityMultiplier'') (\<lambda>e. Inr (hd_gasLimit p * e))
           else Inr (hd_gasLimit p)
       | None \<Rightarrow> Inr (hd_gasLimit p)) = Inr base"
    using assms(4,7) by (auto split: option.split)
  then show ?thesis using assms(1,3) div by (auto simp: validateGasLimit_def)
qed

text \<open>
  C9. The excess blob gas of the next block, with \<open>e\<close> and \<open>u\<close> what this block had and used
  (0 where absent), \<open>T\<close> the target and \<open>M\<close> the maximum of the child: below the target it is 0.
  Otherwise, when EIP-7918 is active and the blob base cost times the base fee exceeds the price
  of a blob, it is \<open>e\<close> plus the part \<open>(M - T) / M\<close> of \<open>u\<close>, so it never falls, and is no lower
  than without the reserve price for a block within the maximum; and in all other cases it is
  what is left of \<open>e + u\<close> above the target.
\<close>

theorem calcNextExcessBlobGas_spec:
  assumes "getBlobGasSchedule c = Inr sched" and "T = targetBlobGasPerBlock sched" and "M = maxBlobGasPerBlock sched"
    and "0 \<le> T" and "T \<le> M" and "0 < M"
    and "e = (case hd_excessBlobGas h of None \<Rightarrow> 0 | Some n \<Rightarrow> n)" and "0 \<le> e"
    and "u = (case hd_blobGasUsed h of None \<Rightarrow> 0 | Some n \<Rightarrow> n)" and "0 \<le> u"
    and "base = (case hd_baseFeePerGas h of None \<Rightarrow> 0 | Some n \<Rightarrow> n)"
    and "isActivatedEIP c 7918 \<Longrightarrow> param c ''blobBaseCost'' = Inr cost \<and>
      param c ''blobGasPerBlob'' = Inr perBlob \<and> computeBlobGasPrice e c = Inr price"
    and "reserve \<longleftrightarrow> isActivatedEIP c 7918 \<and> cost * base > perBlob * price"
  shows "\<exists>x. calcNextExcessBlobGas h c = Inr x \<and> 0 \<le> x \<and> x \<le> e + u \<and>
    (e + u < T \<longrightarrow> x = 0) \<and>
    (T \<le> e + u \<and> reserve \<longrightarrow> x = e + u * (M - T) div M \<and> e \<le> x \<and> (u \<le> M \<longrightarrow> e + u - T \<le> x)) \<and>
    (T \<le> e + u \<and> \<not> reserve \<longrightarrow> x = e + u - T)"
proof -
  let ?x = "if e + u < T then 0 else if reserve then e + u * (M - T) div M else e + u - T"
  have inc: "bdiv (u * (M - T)) M = Inr (u * (M - T) div M)"
    using assms(5,6,10) by (simp add: bdiv_def js_div_nonneg)
  have calc: "calcNextExcessBlobGas h c = Inr ?x"
    using assms(12) unfolding calcNextExcessBlobGas_def Let_def
    by (cases "isActivatedEIP c 7918")
      (simp_all add: assms(1) assms(13) inc flip: assms(2,3,7,9,11))
  have "0 \<le> u * (M - T) div M" using assms(5,6,10) by (simp add: pos_imp_zdiv_nonneg_iff)
  moreover have "u * (M - T) div M \<le> u"
    using zdiv_mono1 [of "u * (M - T)" "u * M" M] assms(4,6,10) by (simp add: mult_left_mono)
  moreover have "u - T \<le> u * (M - T) div M" if "u \<le> M"
  proof -
    have "T * u \<le> T * M" using that assms(4) by (rule mult_left_mono)
    then have "(u - T) * M \<le> u * (M - T)" by (simp add: algebra_simps)
    then have "(u - T) * M div M \<le> u * (M - T) div M" using assms(6) by (rule zdiv_mono1)
    then show ?thesis using assms(6) by simp
  qed
  ultimately show ?thesis unfolding calc using assms(4,8,10) by (cases "e + u < T"; cases reserve) auto
qed

text \<open>No calculated difficulty is below the minimum of the chain.\<close>

theorem difficulty_minimum:
  assumes "ethashCanonicalDifficulty h p = Inr d" and "hparam h ''minimumDifficulty'' = Inr m"
  shows "m \<le> d"
proof -
  have "\<exists>m' x. hparam h ''minimumDifficulty'' = Inr m' \<and> d = (if x < m' then m' else x)"
    using assms(1) unfolding ethashCanonicalDifficulty_def Let_def
    apply (elim and_then_InrE)
    apply (split if_split_asm, simp)
    apply (elim and_then_InrE)
    apply (split if_split_asm, simp)
    apply (elim and_then_InrE)
    apply (simp only: split_beta sum.inject)
    apply (rule exI)+
    apply (rule conjI, rule refl)
    apply (erule sym)
    done
  then show ?thesis using assms(2) by auto
qed

section \<open>A header\<close>

definition fee_common :: common where
  "fee_common = small_common\<lparr>paramsCache := [(''elasticityMultiplier'', Some 2), (''baseFeeMaxChangeDenominator'', Some 8),
     (''gasLimitBoundDivisor'', Some 1024), (''minGasLimit'', Some 5000), (''targetBlobGasPerBlock'', Some 393216),
     (''maxBlobGasPerBlock'', Some 786432), (''blobGasPriceUpdateFraction'', Some 3338477), (''minBlobGas'', Some 1),
     (''minimumDifficulty'', Some 131072), (''difficultyBoundDivisor'', Some 2048), (''durationLimit'', Some 13)],
     activatedEIPsCache := [1, 1559, 4844]\<rparr>"

definition fee_header :: header where
  "fee_header = \<lparr>hd_parentHash = replicate 32 0, hd_uncleHash = KECCAK256_RLP_ARRAY, hd_coinbase = replicate 20 0,
     hd_stateRoot = replicate 32 0, hd_transactionsTrie = replicate 32 0, hd_receiptTrie = replicate 32 0,
     hd_logsBloom = replicate 256 0, hd_difficulty = 200000, hd_number = 5, hd_gasLimit = 10240, hd_gasUsed = 7680,
     hd_timestamp = 100, hd_extraData = [], hd_mixHash = replicate 32 0, hd_nonce = replicate 8 0,
     hd_baseFeePerGas = Some 1000, hd_withdrawalsRoot = None, hd_blobGasUsed = Some 400000,
     hd_excessBlobGas = Some 10, hd_parentBeaconBlockRoot = None, hd_requestsHash = None,
     hd_blockAccessListHash = None, hd_slotNumber = None, hd_common = fee_common\<rparr>"

lemma fee_params:
  "hparam fee_header ''elasticityMultiplier'' = Inr 2" "hparam fee_header ''baseFeeMaxChangeDenominator'' = Inr 8"
  "hparam fee_header ''gasLimitBoundDivisor'' = Inr 1024" "hparam fee_header ''minGasLimit'' = Inr 5000"
  "hparam fee_header ''minimumDifficulty'' = Inr 131072" "eip fee_header 1559"
  by (simp_all add: fee_header_def fee_common_def param_def isActivatedEIP_def small_common_def)

lemma fee_fields: "hd_common fee_header = fee_common" "hd_gasLimit fee_header = 10240" "hd_number fee_header = 5"
  "hd_gasUsed fee_header = 7680" "hd_baseFeePerGas fee_header = Some 1000" "hd_excessBlobGas fee_header = Some 10"
  "hd_blobGasUsed fee_header = Some 400000"
  by (simp_all add: fee_header_def)

theorem calcNextBaseFee_spec_witness:
  "calcNextBaseFee fee_header = Inr 1062 \<and> calcNextBaseFee (fee_header\<lparr>hd_gasUsed := 2560\<rparr>) = Inr 938"
proof -
  let ?h = "fee_header\<lparr>hd_gasUsed := 2560\<rparr>"
  have p: "eip ?h 1559" "hd_baseFeePerGas ?h = Some 1000" "hparam ?h ''elasticityMultiplier'' = Inr 2"
    "hparam ?h ''baseFeeMaxChangeDenominator'' = Inr 8"
    using fee_params by (simp_all add: fee_fields)
  have "calcNextBaseFee fee_header = Inr 1062"
    using calcNextBaseFee_spec [OF fee_params(6) fee_fields(5) _ fee_params(1,2) _ _ _ _ refl refl]
    by (simp add: fee_fields)
  moreover have "calcNextBaseFee ?h = Inr 938"
    using calcNextBaseFee_spec [OF p(1,2) _ p(3,4) _ _ _ _ refl refl] by (simp add: fee_fields)
  ultimately show ?thesis ..
qed

lemma fee_london: "hardforkBlock fee_common (Some ''london'') = None"
  by (simp add: hardforkBlock_def getHardfork_def hardforks_def hardforks_of_def fee_common_def small_common_def)
    (simp add: small_chain_def)

theorem validateGasLimit_spec_witness:
  "validateGasLimit (fee_header\<lparr>hd_gasLimit := 10245\<rparr>) fee_header = Inr ()"
proof -
  let ?h = "fee_header\<lparr>hd_gasLimit := 10245\<rparr>"
  have c: "hd_common ?h = fee_common" by (simp add: fee_fields)
  have p: "hparam ?h ''gasLimitBoundDivisor'' = Inr 1024" "hparam ?h ''minGasLimit'' = Inr 5000" "hparam ?h ''elasticityMultiplier'' = Inr 2"
    using fee_params(1,3,4) by (simp_all only: c fee_fields)
  have "(10240 :: int) = (if hardforkBlock (hd_common ?h) (Some ''london'') = Some (hd_number ?h) \<and> hd_number ?h \<noteq> 0
      then hd_gasLimit fee_header * 2 else hd_gasLimit fee_header)"
    by (simp only: c fee_london fee_fields) simp
  from validateGasLimit_spec [OF p(1) _ p(2,3) _ _ this] show ?thesis by (simp add: fee_fields)
qed

lemma fee_schedule: "getBlobGasSchedule fee_common =
    Inr \<lparr>targetBlobGasPerBlock = 393216, maxBlobGasPerBlock = 786432, blobGasPriceUpdateFraction = 3338477\<rparr>"
  by (simp add: getBlobGasSchedule_def fee_common_def small_common_def param_def gteHardfork_def hardforkGteHardfork_def
      hardforks_def hardforks_of_def small_chain_def)

definition reserve_common :: common where
  "reserve_common = fee_common\<lparr>activatedEIPsCache := [1, 1559, 4844, 7918],
     paramsCache := [(''blobBaseCost'', Some 8192), (''blobGasPerBlob'', Some 131072)] @ paramsCache fee_common\<rparr>"

lemma reserve_schedule: "getBlobGasSchedule reserve_common =
    Inr \<lparr>targetBlobGasPerBlock = 393216, maxBlobGasPerBlock = 786432, blobGasPriceUpdateFraction = 3338477\<rparr>"
  by (simp add: reserve_common_def getBlobGasSchedule_def fee_common_def small_common_def param_def gteHardfork_def
      hardforkGteHardfork_def hardforks_def hardforks_of_def small_chain_def)

lemma reserve_price: "computeBlobGasPrice 10 reserve_common = Inr 1"
  by (simp add: computeBlobGasPrice_def reserve_common_def fee_common_def param_def)
    (simp add: fakeExponential_def expLoop.simps bdiv_def js_div_def)

text \<open>A block with blobs, at the same fee without and with the reserve price.\<close>

theorem calcNextExcessBlobGas_spec_witness:
  "calcNextExcessBlobGas fee_header fee_common = Inr 6794 \<and>
   calcNextExcessBlobGas fee_header reserve_common = Inr 200010"
proof -
  have off: "\<not> isActivatedEIP fee_common 7918" by (simp add: fee_common_def isActivatedEIP_def)
  have "calcNextExcessBlobGas fee_header fee_common = Inr 6794"
    using calcNextExcessBlobGas_spec [OF fee_schedule refl refl _ _ _ refl _ refl _ refl,
        where h = fee_header and cost = 0 and perBlob = 0 and price = 0 and reserve = False] off
    by (simp add: fee_fields)
  moreover have on: "isActivatedEIP reserve_common 7918" "param reserve_common ''blobBaseCost'' = Inr 8192"
    "param reserve_common ''blobGasPerBlob'' = Inr 131072"
    by (simp_all add: reserve_common_def isActivatedEIP_def param_def)
  have "calcNextExcessBlobGas fee_header reserve_common = Inr 200010"
    using calcNextExcessBlobGas_spec [OF reserve_schedule refl refl _ _ _ refl _ refl _ refl,
        where h = fee_header and cost = 8192 and perBlob = 131072 and price = 1 and reserve = True] on reserve_price
    by (simp add: fee_fields)
  ultimately show ?thesis by blast
qed

lemma fee_consensus: "consensusType fee_common = Inr ''pow''" "consensusAlgorithm fee_common = Inr ''ethash''"
    "\<not> gteHardfork fee_common ''byzantium''" "\<not> gteHardfork fee_common ''homestead''"
  by (simp_all add: consensusType_def consensusAlgorithm_def gteHardfork_def hardforkGteHardfork_def hardforks_def
      hardforks_of_def fee_common_def small_common_def small_changes eips_only_def)
    (simp_all add: small_chain_def)

theorem difficulty_minimum_witness:
  "\<exists>d. ethashCanonicalDifficulty fee_header fee_header = Inr d \<and> 131072 \<le> d"
proof -
  have c: "hd_common fee_header = fee_common" by (simp add: fee_header_def)
  have "hparam fee_header ''difficultyBoundDivisor'' = Inr 2048" "hparam fee_header ''durationLimit'' = Inr 13"
    by (simp_all add: c fee_common_def param_def)
  then have "\<exists>d. ethashCanonicalDifficulty fee_header fee_header = Inr d"
    using fee_params(5) by (simp add: ethashCanonicalDifficulty_def c fee_consensus bdiv_def Let_def)
  then show ?thesis using difficulty_minimum fee_params(5) by blast
qed

end
