(* ===== verification/HeaderRlp.thy ===== *)
theory HeaderRlp
  imports HeaderFees
begin

text \<open>
  The round trip of headers through RLP. The position of a field in the list depends on which EIPs
  are active, so a header comes back only when the EIPs that add fields are nested, as they are in
  every hardfork.
\<close>

definition forks_nested :: "common \<Rightarrow> bool" where
  "forks_nested c \<longleftrightarrow> (isActivatedEIP c 4895 \<longrightarrow> isActivatedEIP c 1559) \<and> (isActivatedEIP c 4844 \<longrightarrow> isActivatedEIP c 4895) \<and>
     (isActivatedEIP c 4788 \<longrightarrow> isActivatedEIP c 4844) \<and> (isActivatedEIP c 7685 \<longrightarrow> isActivatedEIP c 4788) \<and>
     (isActivatedEIP c 7928 \<longrightarrow> isActivatedEIP c 7685) \<and> (isActivatedEIP c 7843 \<longrightarrow> isActivatedEIP c 7928)"

text \<open>The items of a header as byte strings.\<close>

definition headerItems :: "header \<Rightarrow> bytes list" where
  "headerItems h =
     [hd_parentHash h, hd_uncleHash h, hd_coinbase h, hd_stateRoot h, hd_transactionsTrie h, hd_receiptTrie h, hd_logsBloom h,
      numberBytes (hd_difficulty h), numberBytes (hd_number h), numberBytes (hd_gasLimit h), numberBytes (hd_gasUsed h),
      numberBytes (hd_timestamp h), hd_extraData h, hd_mixHash h, hd_nonce h] @
     (if eip h 1559 then [numberBytes (the (hd_baseFeePerGas h))] else []) @
     (if eip h 4895 then [the (hd_withdrawalsRoot h)] else []) @
     (if eip h 4844 then [numberBytes (the (hd_blobGasUsed h)), numberBytes (the (hd_excessBlobGas h))] else []) @
     (if eip h 4788 then [the (hd_parentBeaconBlockRoot h)] else []) @
     (if eip h 7685 then [the (hd_requestsHash h)] else []) @
     (if eip h 7928 then [the (hd_blockAccessListHash h)] else []) @
     (if eip h 7843 then [numberBytes (the (hd_slotNumber h))] else [])"

text \<open>The fields that are there, and numbers that are not negative.\<close>

definition fields_present :: "header \<Rightarrow> bool" where
  "fields_present h \<longleftrightarrow>
     ((hd_baseFeePerGas h \<noteq> None) = eip h 1559) \<and> ((hd_withdrawalsRoot h \<noteq> None) = eip h 4895) \<and>
     ((hd_blobGasUsed h \<noteq> None) = eip h 4844) \<and> ((hd_excessBlobGas h \<noteq> None) = eip h 4844) \<and>
     ((hd_parentBeaconBlockRoot h \<noteq> None) = eip h 4788) \<and> ((hd_requestsHash h \<noteq> None) = eip h 7685) \<and>
     ((hd_blockAccessListHash h \<noteq> None) = eip h 7928) \<and> ((hd_slotNumber h \<noteq> None) = eip h 7843)"

definition numbers_ok :: "header \<Rightarrow> bool" where
  "numbers_ok h \<longleftrightarrow> 0 \<le> hd_difficulty h \<and> 0 \<le> hd_number h \<and> 0 \<le> hd_gasLimit h \<and> 0 \<le> hd_gasUsed h \<and> 0 \<le> hd_timestamp h \<and>
     (\<forall>n. hd_baseFeePerGas h = Some n \<or> hd_blobGasUsed h = Some n \<or> hd_excessBlobGas h = Some n \<or> hd_slotNumber h = Some n \<longrightarrow> 0 \<le> n)"

lemma collect_Inr: "collect (map Inr xs) = Inr xs"
  by (induction xs) simp_all

context noble_hex begin

lemma rawNumber_eq: "0 \<le> n \<Longrightarrow> rawNumber N (Some n) = Inr (InBytes (numberBytes n))"
  by (simp add: rawNumber_def unpadded_eq numberBytes_def)

lemma rawItems_eq:
  assumes "fields_present h" and "numbers_ok h"
  shows "rawItems N h = map Inr (map InBytes (headerItems h))"
proof -
  have "rawNumber N x = Inr (InBytes (numberBytes (the x)))" if "x \<noteq> None" "\<forall>n. x = Some n \<longrightarrow> 0 \<le> n" for x
    using that rawNumber_eq by auto
  then have num: "eip h 1559 \<Longrightarrow> rawNumber N (hd_baseFeePerGas h) = Inr (InBytes (numberBytes (the (hd_baseFeePerGas h))))"
    "eip h 4844 \<Longrightarrow> rawNumber N (hd_blobGasUsed h) = Inr (InBytes (numberBytes (the (hd_blobGasUsed h))))"
    "eip h 4844 \<Longrightarrow> rawNumber N (hd_excessBlobGas h) = Inr (InBytes (numberBytes (the (hd_excessBlobGas h))))"
    "eip h 7843 \<Longrightarrow> rawNumber N (hd_slotNumber h) = Inr (InBytes (numberBytes (the (hd_slotNumber h))))"
    using assms by (simp_all add: fields_present_def numbers_ok_def)
  have "rawBytes x = Inr (InBytes (the x))" if "x \<noteq> None" for x
    using that by (auto simp: rawBytes_def)
  then have byt: "eip h 4895 \<Longrightarrow> rawBytes (hd_withdrawalsRoot h) = Inr (InBytes (the (hd_withdrawalsRoot h)))"
    "eip h 4788 \<Longrightarrow> rawBytes (hd_parentBeaconBlockRoot h) = Inr (InBytes (the (hd_parentBeaconBlockRoot h)))"
    "eip h 7685 \<Longrightarrow> rawBytes (hd_requestsHash h) = Inr (InBytes (the (hd_requestsHash h)))"
    "eip h 7928 \<Longrightarrow> rawBytes (hd_blockAccessListHash h) = Inr (InBytes (the (hd_blockAccessListHash h)))"
    using assms(1) by (simp_all add: fields_present_def)
  have "0 \<le> hd_difficulty h" "0 \<le> hd_number h" "0 \<le> hd_gasLimit h" "0 \<le> hd_gasUsed h" "0 \<le> hd_timestamp h"
    using assms(2) by (simp_all add: numbers_ok_def)
  then show ?thesis
    using num byt by (simp add: rawItems_def headerItems_def rawNumber_eq rawBytes_def [of "Some _"])
qed

lemma header_serialize_eq:
  assumes "fields_present h" and "numbers_ok h" and "encodable (NArray (map NBytes (headerItems h)))"
  shows "header_serialize N h = Inr (rlp (NArray (map NBytes (headerItems h))))"
proof -
  have "header_raw N h = Inr (map InBytes (headerItems h))"
    using rawItems_eq [OF assms(1,2)] by (simp add: header_raw_def collect_Inr del: map_map)
  moreover have "InArray (map InBytes (headerItems h)) = inputOf (NArray (map NBytes (headerItems h)))"
    by (simp add: comp_def)
  ultimately show ?thesis using encode_rlp [OF assms(3)] unfolding header_serialize_def by (simp only: and_then.simps)
qed

lemma loose_bytes: "bytesOr N (ToUint8Array b) x = Inr b" "bytesOrElse N (ToUint8Array b) y = Inr (Some b)"
  by (simp_all add: bytesOr_def bytesOrElse_def toType_def)

lemma loose_number: "0 \<le> n \<Longrightarrow> bigIntOr N (ToUint8Array (numberBytes n)) x = Inr n"
    "0 \<le> n \<Longrightarrow> bigIntOrElse N (ToUint8Array (numberBytes n)) y = Inr (Some n)"
  by (simp_all add: bigIntOr_def bigIntOrElse_def toTypeBigInt_def toType_def bytesToBigInt_eq numberBytes_def)

lemma loose_undefined: "bytesOrElse N ToUndefined y = Inr y" "bigIntOrElse N ToUndefined z = Inr z"
  by (simp_all add: bytesOrElse_def bigIntOrElse_def toTypeBigInt_def toType_def split: option.split)

end

text \<open>The data read back from the items.\<close>

definition optionalItem :: "bool \<Rightarrow> bytes \<Rightarrow> toBytes_input" where
  "optionalItem c b = (if c then ToUint8Array b else ToUndefined)"

definition dataOf :: "header \<Rightarrow> header_data" where
  "dataOf h = \<lparr>da_parentHash = ToUint8Array (hd_parentHash h), da_uncleHash = ToUint8Array (hd_uncleHash h),
     da_coinbase = ToUint8Array (hd_coinbase h), da_stateRoot = ToUint8Array (hd_stateRoot h),
     da_transactionsTrie = ToUint8Array (hd_transactionsTrie h), da_receiptTrie = ToUint8Array (hd_receiptTrie h),
     da_logsBloom = ToUint8Array (hd_logsBloom h), da_difficulty = ToUint8Array (numberBytes (hd_difficulty h)),
     da_number = ToUint8Array (numberBytes (hd_number h)), da_gasLimit = ToUint8Array (numberBytes (hd_gasLimit h)),
     da_gasUsed = ToUint8Array (numberBytes (hd_gasUsed h)), da_timestamp = ToUint8Array (numberBytes (hd_timestamp h)),
     da_extraData = ToUint8Array (hd_extraData h), da_mixHash = ToUint8Array (hd_mixHash h), da_nonce = ToUint8Array (hd_nonce h),
     da_baseFeePerGas = optionalItem (eip h 1559) (numberBytes (the (hd_baseFeePerGas h))),
     da_withdrawalsRoot = optionalItem (eip h 4895) (the (hd_withdrawalsRoot h)),
     da_blobGasUsed = optionalItem (eip h 4844) (numberBytes (the (hd_blobGasUsed h))),
     da_excessBlobGas = optionalItem (eip h 4844) (numberBytes (the (hd_excessBlobGas h))),
     da_parentBeaconBlockRoot = optionalItem (eip h 4788) (the (hd_parentBeaconBlockRoot h)),
     da_requestsHash = optionalItem (eip h 7685) (the (hd_requestsHash h)),
     da_blockAccessListHash = optionalItem (eip h 7928) (the (hd_blockAccessListHash h)),
     da_slotNumber = optionalItem (eip h 7843) (numberBytes (the (hd_slotNumber h)))\<rparr>"

lemma values_of_items:
  assumes "forks_nested (hd_common h)"
  shows "valuesArrayToHeaderData (map ToUint8Array (headerItems h)) = Inr (dataOf h)"
proof -
  have n: "eip h 4895 \<Longrightarrow> eip h 1559" "eip h 4844 \<Longrightarrow> eip h 4895" "eip h 4788 \<Longrightarrow> eip h 4844"
    "eip h 7685 \<Longrightarrow> eip h 4788" "eip h 7928 \<Longrightarrow> eip h 7685" "eip h 7843 \<Longrightarrow> eip h 7928"
    using assms by (simp_all add: forks_nested_def)
  consider "\<not> eip h 1559" | "eip h 1559" "\<not> eip h 4895" | "eip h 4895" "\<not> eip h 4844" | "eip h 4844" "\<not> eip h 4788"
    | "eip h 4788" "\<not> eip h 7685" | "eip h 7685" "\<not> eip h 7928" | "eip h 7928" "\<not> eip h 7843" | "eip h 7843"
    by blast
  then show ?thesis
    by cases (use n in \<open>auto simp: valuesArrayToHeaderData_def headerItems_def dataOf_def optionalItem_def Let_def\<close>)
qed

context noble_hex begin

lemma read_base:
  assumes "numbers_ok h" and "length (hd_coinbase h) = 20"
  shows "readBase N c (dataOf h) = Inr (h\<lparr>hd_baseFeePerGas := None, hd_withdrawalsRoot := None, hd_blobGasUsed := None,
     hd_excessBlobGas := None, hd_parentBeaconBlockRoot := None, hd_requestsHash := None, hd_blockAccessListHash := None,
     hd_slotNumber := None, hd_common := c\<rparr>)"
  using assms by (simp add: readBase_def dataOf_def loose_bytes loose_number numbers_ok_def newAddress_def nullish_def)

lemma read_forks:
  assumes "fields_present h" and "numbers_ok h" and "defaultBaseFee h = Inr fee" and "lb_noble L = N"
    and "h' = h\<lparr>hd_baseFeePerGas := None, hd_withdrawalsRoot := None, hd_blobGasUsed := None,
     hd_excessBlobGas := None, hd_parentBeaconBlockRoot := None, hd_requestsHash := None, hd_blockAccessListHash := None,
     hd_slotNumber := None\<rparr>"
  shows "readForks L (dataOf h) h' = Inr h"
proof -
  have "defaultBaseFee h' = defaultBaseFee h" by (simp add: defaultBaseFee_def assms(5))
  then have fee: "defaultBaseFee h' = Inr fee" using assms(3) by simp
  have none: "\<not> eip h 1559 \<Longrightarrow> fee = None" using assms(3) by (simp add: defaultBaseFee_def)
  have num: "bigIntOrElse N (optionalItem c (numberBytes (the x))) y = Inr x"
    if "(x \<noteq> None) = c" "\<forall>n. x = Some n \<longrightarrow> 0 \<le> n" "\<not> c \<Longrightarrow> y = None" for c x y
    using that by (auto simp: optionalItem_def loose_number loose_undefined)
  have byt: "bytesOrElse N (optionalItem c (the x)) (given c y) = Inr x" if "(x \<noteq> None) = c" for c x y
    using that by (auto simp: optionalItem_def loose_bytes loose_undefined given_def)
  have given: "\<not> c \<Longrightarrow> given c y = None" for c and y :: int by (simp add: given_def)
  have "bigIntOrElse N (da_baseFeePerGas (dataOf h)) fee = Inr (hd_baseFeePerGas h)"
    "bytesOrElse N (da_withdrawalsRoot (dataOf h)) (given (eip h 4895) KECCAK256_RLP) = Inr (hd_withdrawalsRoot h)"
    "bigIntOrElse N (da_blobGasUsed (dataOf h)) (given (eip h 4844) 0) = Inr (hd_blobGasUsed h)"
    "bigIntOrElse N (da_excessBlobGas (dataOf h)) (given (eip h 4844) 0) = Inr (hd_excessBlobGas h)"
    "bytesOrElse N (da_parentBeaconBlockRoot (dataOf h)) (given (eip h 4788) (replicate 32 0)) = Inr (hd_parentBeaconBlockRoot h)"
    "bytesOrElse N (da_requestsHash (dataOf h)) (given (eip h 7685) (lb_sha256 L [])) = Inr (hd_requestsHash h)"
    "bytesOrElse N (da_blockAccessListHash (dataOf h)) (given (eip h 7928) (replicate 32 0)) = Inr (hd_blockAccessListHash h)"
    "bigIntOrElse N (da_slotNumber (dataOf h)) (given (eip h 7843) 0) = Inr (hd_slotNumber h)"
    unfolding dataOf_def header_data.simps
    by (rule num byt, use assms(1,2) none given in \<open>simp_all add: fields_present_def numbers_ok_def\<close>)+
  moreover have "eip h' n = eip h n" for n by (simp add: assms(5))
  ultimately show ?thesis using fee by (simp add: readForks_def assms(4,5))
qed

text \<open>What construction guarantees.\<close>

lemma bigIntOr_nonneg: "bigIntOr N x y = Inr n \<Longrightarrow> 0 \<le> y \<Longrightarrow> 0 \<le> n"
  by (auto simp: bigIntOr_def toTypeBigInt_def bytesToBigInt_eq res_simps split: option.splits)

lemma bigIntOrElse_nonneg: "bigIntOrElse N x y = Inr r \<Longrightarrow> \<forall>n. y = Some n \<longrightarrow> 0 \<le> n \<Longrightarrow> r = Some n \<Longrightarrow> 0 \<le> n"
  by (auto simp: bigIntOrElse_def toTypeBigInt_def bytesToBigInt_eq res_simps split: option.splits)

lemma orElse_present: "bigIntOrElse N x (Some y) = Inr r \<Longrightarrow> r \<noteq> None" "bytesOrElse N x (Some z) = Inr r' \<Longrightarrow> r' \<noteq> None"
  by (auto simp: bigIntOrElse_def bytesOrElse_def res_simps split: option.splits)

lemma base_numbers:
  assumes "readBase N c d = Inr h0"
  shows "0 \<le> hd_difficulty h0" "0 \<le> hd_number h0" "0 \<le> hd_gasLimit h0" "0 \<le> hd_gasUsed h0" "0 \<le> hd_timestamp h0"
    "length (hd_coinbase h0) = 20" "hd_common h0 = c"
  using assms unfolding readBase_def
  by (auto elim!: and_then_InrE dest!: bigIntOr_nonneg simp: newAddress_def DEFAULT_GAS_LIMIT_def split: if_splits)

end

text \<open>The fields that forks add leave the others alone.\<close>

lemma readForks_base:
  assumes "readForks L d h = Inr h'"
  shows "hd_difficulty h' = hd_difficulty h" "hd_number h' = hd_number h" "hd_gasLimit h' = hd_gasLimit h"
    "hd_gasUsed h' = hd_gasUsed h" "hd_timestamp h' = hd_timestamp h" "hd_coinbase h' = hd_coinbase h"
    "hd_common h' = hd_common h"
    "h' \<lparr>hd_baseFeePerGas := None, hd_withdrawalsRoot := None, hd_blobGasUsed := None,
     hd_excessBlobGas := None, hd_parentBeaconBlockRoot := None, hd_requestsHash := None, hd_blockAccessListHash := None,
     hd_slotNumber := None\<rparr> = h \<lparr>hd_baseFeePerGas := None, hd_withdrawalsRoot := None, hd_blobGasUsed := None,
     hd_excessBlobGas := None, hd_parentBeaconBlockRoot := None, hd_requestsHash := None, hd_blockAccessListHash := None,
     hd_slotNumber := None\<rparr>"
    "defaultBaseFee h' = defaultBaseFee h"
  using assms unfolding readForks_def Let_def
  by (auto elim!: and_then_InrE simp: defaultBaseFee_def)

lemma readForks_fields:
  assumes "readForks L d h = Inr h'"
  shows "\<exists>fee. defaultBaseFee h = Inr fee \<and> bigIntOrElse (lb_noble L) (da_baseFeePerGas d) fee = Inr (hd_baseFeePerGas h')"
    "bytesOrElse (lb_noble L) (da_withdrawalsRoot d) (given (eip h 4895) KECCAK256_RLP) = Inr (hd_withdrawalsRoot h')"
    "bigIntOrElse (lb_noble L) (da_blobGasUsed d) (given (eip h 4844) 0) = Inr (hd_blobGasUsed h')"
    "bigIntOrElse (lb_noble L) (da_excessBlobGas d) (given (eip h 4844) 0) = Inr (hd_excessBlobGas h')"
    "bytesOrElse (lb_noble L) (da_parentBeaconBlockRoot d) (given (eip h 4788) (replicate 32 0)) = Inr (hd_parentBeaconBlockRoot h')"
    "bytesOrElse (lb_noble L) (da_requestsHash d) (given (eip h 7685) (lb_sha256 L [])) = Inr (hd_requestsHash h')"
    "bytesOrElse (lb_noble L) (da_blockAccessListHash d) (given (eip h 7928) (replicate 32 0)) = Inr (hd_blockAccessListHash h')"
    "bigIntOrElse (lb_noble L) (da_slotNumber d) (given (eip h 7843) 0) = Inr (hd_slotNumber h')"
  using assms unfolding readForks_def Let_def by (auto elim!: and_then_InrE)

lemma newBlockHeader_steps:
  assumes "newBlockHeader L d opts = Inr h" and "bo_calcDifficultyFromHeader opts = None"
  obtains c0 h0 where "commonOf opts = Inr c0" "readBase (lb_noble L) c0 d = Inr h0"
    "(if bo_setHardfork opts
         then (case setHardforkBy (Some (hd_number h0)) (Some (hd_timestamp h0)) c0 of (Inl e, _) \<Rightarrow> Inl e | (Inr _, c) \<Rightarrow> Inr c)
         else Inr c0) = Inr (hd_common h)"
    "readForks L d (h0\<lparr>hd_common := hd_common h\<rparr>) = Inr h" "checkForks h = Inr ()" "genericFormatValidation h = Inr ()"
    "validateDAOExtraData h = Inr ()"
    "(if bo_skipConsensusFormatValidation opts then Inr () else consensusFormatValidation h) = Inr ()"
  using assms(1) unfolding newBlockHeader_def assms(2) option.case
proof (elim and_then_InrE, goal_cases)
  case (1 c0 h0 c h1 u v w h2 x)
  then have eqs: "h1 = h" "h2 = h" "c = hd_common h" using readForks_base(7) [of L d "h0\<lparr>hd_common := c\<rparr>" h1] by simp_all
  show ?case using that [OF 1(2,3) _ _ _ _ _] 1(4-) [unfolded eqs] by simp
qed


context noble_hex begin

lemma constructed_header:
  assumes "newBlockHeader L d opts = Inr h" and "lb_noble L = N" and "bo_calcDifficultyFromHeader opts = None"
    and "\<forall>n. hd_baseFeePerGas h = Some n \<longrightarrow> 0 \<le> n"
  shows "fields_present h" and "numbers_ok h" and "length (hd_coinbase h) = 20" and "\<exists>fee. defaultBaseFee h = Inr fee"
proof -
  obtain c0 h0 where base: "readBase N c0 d = Inr h0"
      and forks: "readForks L d (h0\<lparr>hd_common := hd_common h\<rparr>) = Inr h" and check: "checkForks h = Inr ()"
    using assms(2) by (blast intro: newBlockHeader_steps [OF assms(1,3)])
  note kept = readForks_base [OF forks, simplified] and nums = base_numbers [OF base]
  have eips: "eip (h0\<lparr>hd_common := hd_common h\<rparr>) n = eip h n" for n by simp
  show "length (hd_coinbase h) = 20" using kept(6) nums(6) by simp
  show fee: "\<exists>fee. defaultBaseFee h = Inr fee"
    using forks kept(9) unfolding readForks_def Let_def by (auto elim!: and_then_InrE)
  note fields = readForks_fields [OF forks, unfolded assms(2), simplified]
  have "eip h 1559 \<Longrightarrow> hd_baseFeePerGas h \<noteq> None"
    using fields(1) by (auto simp: defaultBaseFee_def dest!: orElse_present(1) elim!: and_then_InrE split: if_splits)
  moreover have "c \<Longrightarrow> bigIntOrElse N y (given c z) = Inr r \<Longrightarrow> r \<noteq> None"
      "c \<Longrightarrow> bytesOrElse N y (given c z') = Inr r' \<Longrightarrow> r' \<noteq> None" for c y z z' r r'
    by (auto simp: given_def dest: orElse_present)
  ultimately have present: "eip h 1559 \<Longrightarrow> hd_baseFeePerGas h \<noteq> None" "eip h 4895 \<Longrightarrow> hd_withdrawalsRoot h \<noteq> None"
    "eip h 4844 \<Longrightarrow> hd_blobGasUsed h \<noteq> None" "eip h 4844 \<Longrightarrow> hd_excessBlobGas h \<noteq> None"
    "eip h 4788 \<Longrightarrow> hd_parentBeaconBlockRoot h \<noteq> None" "eip h 7685 \<Longrightarrow> hd_requestsHash h \<noteq> None"
    "eip h 7928 \<Longrightarrow> hd_blockAccessListHash h \<noteq> None" "eip h 7843 \<Longrightarrow> hd_slotNumber h \<noteq> None"
    using fields by blast+
  have absent: "hd_baseFeePerGas h \<noteq> None \<Longrightarrow> eip h 1559" "hd_withdrawalsRoot h \<noteq> None \<Longrightarrow> eip h 4895"
    "hd_blobGasUsed h \<noteq> None \<Longrightarrow> eip h 4844" "hd_excessBlobGas h \<noteq> None \<Longrightarrow> eip h 4844"
    "hd_parentBeaconBlockRoot h \<noteq> None \<Longrightarrow> eip h 4788" "hd_requestsHash h \<noteq> None \<Longrightarrow> eip h 7685"
    "hd_blockAccessListHash h \<noteq> None \<Longrightarrow> eip h 7928" "hd_slotNumber h \<noteq> None \<Longrightarrow> eip h 7843"
    using check unfolding checkForks_def unless_Inr by blast+
  show "fields_present h"
    unfolding fields_present_def by (intro conjI iffI) (erule present absent)+
  have "\<forall>n. y = Some n \<longrightarrow> 0 \<le> n" if "bigIntOrElse N x (given c (0 :: int)) = Inr y" for x c y
  proof (intro allI impI)
    fix n assume "y = Some n"
    then show "0 \<le> n" by (rule bigIntOrElse_nonneg [OF that, rotated]) (simp add: given_def)
  qed
  note later = this [OF fields(3)] this [OF fields(4)] this [OF fields(8)]
  have "\<forall>n. hd_baseFeePerGas h = Some n \<or> hd_blobGasUsed h = Some n \<or> hd_excessBlobGas h = Some n \<or> hd_slotNumber h = Some n \<longrightarrow> 0 \<le> n"
    by (intro allI impI) (elim disjE, (erule assms(4) [rule_format] later [rule_format])+)
  then show "numbers_ok h" unfolding numbers_ok_def using nums(1-5) by (simp only: kept(1-5))
qed

end


text \<open>
  C5. A header that the constructor accepts comes back from its RLP serialization unchanged, under
  the same options, when the active EIPs are nested.
\<close>

theorem header_rlp_roundtrip:
  assumes "noble_hex (lb_noble L)" and "newBlockHeader L d opts = Inr h" and "bo_calcDifficultyFromHeader opts = None"
    and "forks_nested (hd_common h)" and "\<forall>n. hd_baseFeePerGas h = Some n \<longrightarrow> 0 \<le> n"
    and "encodable (NArray (map NBytes (headerItems h)))"
  shows "\<exists>b. header_serialize (lb_noble L) h = Inr b \<and> createBlockHeaderFromRLP L b opts = Inr h"
proof -
  note hex = assms(1) and made = noble_hex.constructed_header [OF assms(1,2) refl assms(3,5)]
  let ?b = "rlp (NArray (map NBytes (headerItems h)))"
  have s: "header_serialize (lb_noble L) h = Inr ?b"
    by (rule noble_hex.header_serialize_eq [OF hex made(1,2) assms(6)])
  obtain c0 h0 where steps: "commonOf opts = Inr c0" "readBase (lb_noble L) c0 d = Inr h0"
    "(if bo_setHardfork opts
         then (case setHardforkBy (Some (hd_number h0)) (Some (hd_timestamp h0)) c0 of (Inl e, _) \<Rightarrow> Inl e | (Inr _, c) \<Rightarrow> Inr c)
         else Inr c0) = Inr (hd_common h)"
    "readForks L d (h0\<lparr>hd_common := hd_common h\<rparr>) = Inr h" "checkForks h = Inr ()" "genericFormatValidation h = Inr ()"
    "validateDAOExtraData h = Inr ()"
    "(if bo_skipConsensusFormatValidation opts then Inr () else consensusFormatValidation h) = Inr ()"
    by (rule newBlockHeader_steps [OF assms(2,3)])
  define h1 where "h1 = h\<lparr>hd_baseFeePerGas := None, hd_withdrawalsRoot := None, hd_blobGasUsed := None,
     hd_excessBlobGas := None, hd_parentBeaconBlockRoot := None, hd_requestsHash := None, hd_blockAccessListHash := None,
     hd_slotNumber := None\<rparr>"
  have base: "readBase (lb_noble L) c0 (dataOf h) = Inr (h1\<lparr>hd_common := c0\<rparr>)"
    using noble_hex.read_base [OF hex made(2,3)] by (simp add: h1_def)
  obtain fee where fee: "defaultBaseFee h = Inr fee" using made(4) by blast
  have forks: "readForks L (dataOf h) h1 = Inr h"
    by (rule noble_hex.read_forks [OF hex made(1,2) fee refl h1_def])
  have same: "hd_number h1 = hd_number h0" "hd_timestamp h1 = hd_timestamp h0" "h1\<lparr>hd_common := hd_common h\<rparr> = h1"
    using readForks_base [OF steps(4)] by (simp_all add: h1_def)
  have changed: "hd_number (h1\<lparr>hd_common := c0\<rparr>) = hd_number h0" "hd_timestamp (h1\<lparr>hd_common := c0\<rparr>) = hd_timestamp h0"
    "h1\<lparr>hd_common := c0, hd_common := c\<rparr> = h1\<lparr>hd_common := c\<rparr>" for c
    by (simp_all add: same)
  have "newBlockHeader L (dataOf h) opts = Inr h"
    unfolding newBlockHeader_def assms(3) steps(1) base and_then.simps changed steps(3,5-8) same(3) forks option.case
    by (rule refl)
  moreover have present: "eip h 7928 \<longrightarrow> hd_blockAccessListHash h \<noteq> None" "eip h 7843 \<longrightarrow> hd_slotNumber h \<noteq> None"
    using made(1) by (simp_all add: fields_present_def)
  ultimately have "createBlockHeaderFromBytesArray L (map ToUint8Array (headerItems h)) opts = Inr h"
    using values_of_items [OF assms(4)] present
    by (simp add: createBlockHeaderFromBytesArray_def dataOf_def optionalItem_def unless_def)
  then have "createBlockHeaderFromRLP L ?b opts = Inr h"
    using decode_rlp [OF assms(6)] by (simp add: createBlockHeaderFromRLP_def comp_def)
  with s show ?thesis by blast
qed

text \<open>The empty header of a chain with EIP 1559.\<close>

definition plain_common :: common where
  "plain_common = small_common\<lparr>activatedEIPsCache := [1, 1559]\<rparr>"

definition plain_libs :: libs where
  "plain_libs = \<lparr>lb_noble = rlp_noble, lb_keccak_256 = (\<lambda>b. b), lb_keccak = (\<lambda>b. b), lb_sha256 = (\<lambda>b. b),
     lb_recover = (\<lambda>m s v. Inr []), lb_ecrecover = None, lb_publicKey = Inr, lb_validKey = (\<lambda>k. True), lb_point = Inr,
     lb_sign = (\<lambda>m k. Inr []), lb_parse = (\<lambda>b. Inr (None, 0, 0))\<rparr>"

definition plain_opts :: block_opts where
  "plain_opts = \<lparr>bo_common = Some plain_common, bo_params = Some [], bo_setHardfork = False,
     bo_calcDifficultyFromHeader = None, bo_skipConsensusFormatValidation = False, bo_freeze = True\<rparr>"

definition no_data :: header_data where
  "no_data = \<lparr>da_parentHash = ToUndefined, da_uncleHash = ToUndefined, da_coinbase = ToUndefined, da_stateRoot = ToUndefined,
     da_transactionsTrie = ToUndefined, da_receiptTrie = ToUndefined, da_logsBloom = ToUndefined, da_difficulty = ToUndefined,
     da_number = ToUndefined, da_gasLimit = ToUndefined, da_gasUsed = ToUndefined, da_timestamp = ToUndefined,
     da_extraData = ToUndefined, da_mixHash = ToUndefined, da_nonce = ToUndefined, da_baseFeePerGas = ToUndefined,
     da_withdrawalsRoot = ToUndefined, da_blobGasUsed = ToUndefined, da_excessBlobGas = ToUndefined,
     da_parentBeaconBlockRoot = ToUndefined, da_requestsHash = ToUndefined, da_blockAccessListHash = ToUndefined,
     da_slotNumber = ToUndefined\<rparr>"

definition plain_header :: header where
  "plain_header = \<lparr>hd_parentHash = replicate 32 0, hd_uncleHash = KECCAK256_RLP_ARRAY, hd_coinbase = replicate 20 0,
     hd_stateRoot = replicate 32 0, hd_transactionsTrie = KECCAK256_RLP, hd_receiptTrie = KECCAK256_RLP,
     hd_logsBloom = replicate 256 0, hd_difficulty = 0, hd_number = 0, hd_gasLimit = DEFAULT_GAS_LIMIT, hd_gasUsed = 0,
     hd_timestamp = 0, hd_extraData = [], hd_mixHash = replicate 32 0, hd_nonce = replicate 8 0,
     hd_baseFeePerGas = Some 7, hd_withdrawalsRoot = None, hd_blobGasUsed = None,
     hd_excessBlobGas = None, hd_parentBeaconBlockRoot = None, hd_requestsHash = None,
     hd_blockAccessListHash = None, hd_slotNumber = None, hd_common = plain_common\<rparr>"

lemma plain_facts: "hardforkBlock plain_common (Some ''london'') = None" "hardforkBlock plain_common (Some ''dao'') = None"
    "consensusType plain_common = Inr ''pow''" "consensusAlgorithm plain_common = Inr ''ethash''"
    "updateParams [] plain_common = (Inr (), plain_common)"
    "isActivatedEIP plain_common n \<longleftrightarrow> n = 1 \<or> n = 1559"
  by (simp_all add: consensusType_def consensusAlgorithm_def gteHardfork_def hardforkGteHardfork_def hardforks_def
      hardforkBlock_def getHardfork_def hardforks_of_def plain_common_def small_common_def small_changes eips_only_def
      isActivatedEIP_def updateParams_def buildParamsCache_def builtParams_def seqE_run merge_key_def)
    (simp_all add: small_chain_def)

lemma plain_dao: "hardforkIsActiveOnBlock plain_common (Some ''dao'') n = False"
  by (simp add: hardforkIsActiveOnBlock_def plain_facts)

lemma plain_constructed: "newBlockHeader plain_libs no_data plain_opts = Inr plain_header"
proof -
  note undef = bytesOr_def bigIntOr_def bytesOrElse_def bigIntOrElse_def toTypeBigInt_def toType_def
  have c: "commonOf plain_opts = Inr plain_common" by (simp add: commonOf_def plain_opts_def plain_facts)
  have base: "readBase rlp_noble plain_common no_data = Inr (plain_header\<lparr>hd_baseFeePerGas := None\<rparr>)"
    by (simp add: readBase_def no_data_def undef nullish_def newAddress_def plain_header_def)
  have forks: "readForks plain_libs no_data (plain_header\<lparr>hd_baseFeePerGas := None, hd_common := plain_common\<rparr>) = Inr plain_header"
    by (simp add: readForks_def no_data_def undef given_def defaultBaseFee_def plain_header_def plain_facts plain_libs_def)
  have checks: "checkForks plain_header = Inr ()" "genericFormatValidation plain_header = Inr ()"
      "validateDAOExtraData plain_header = Inr ()" "consensusFormatValidation plain_header = Inr ()"
    by (simp_all add: checkForks_def genericFormatValidation_def validateDAOExtraData_def consensusFormatValidation_def
        plain_header_def plain_facts plain_dao DEFAULT_GAS_LIMIT_def)
  show ?thesis
    using c base forks checks by (simp add: newBlockHeader_def plain_opts_def plain_libs_def)
qed

lemma items_encodable:
  assumes "\<forall>b \<in> set bs. length b \<le> 256" and "length bs \<le> 64"
  shows "encodable (NArray (map NBytes bs))"
proof -
  have one: "length (rlp (NBytes b)) \<le> 265" if "length b \<le> 256" for b
    using that length_nat_be_8 [of "length b"] by (simp add: rlp_prefix_def)
  have "length (payload (NArray (map NBytes bs))) \<le> 265 * length bs"
    using assms(1) by (induction bs) (use one in fastforce)+
  then show ?thesis using assms(2) by (simp add: encodable_def)
qed

lemma plain_items: "\<forall>b \<in> set (headerItems plain_header). length b \<le> 256"
proof -
  have "length (numberBytes n) \<le> 32" if "0 \<le> n" "n < 2 ^ 256" for n
    using that length_nat_be_le [of "nat n" 32] unpadBytes_length [of "nat_be (nat n)"] by (force simp: numberBytes_def)
  moreover have "length KECCAK256_RLP_ARRAY \<le> 32"
    unfolding KECCAK256_RLP_ARRAY_def by (rule length_nat_be_le) simp_all
  ultimately show ?thesis
    by (simp add: headerItems_def plain_header_def plain_facts DEFAULT_GAS_LIMIT_def order.trans [of _ 32])
qed

theorem header_rlp_roundtrip_witness:
  "\<exists>b. header_serialize rlp_noble plain_header = Inr b \<and> createBlockHeaderFromRLP plain_libs b plain_opts = Inr plain_header"
proof -
  have fields: "lb_noble plain_libs = rlp_noble" "bo_calcDifficultyFromHeader plain_opts = None" "hd_common plain_header = plain_common"
    "hd_baseFeePerGas plain_header = Some 7"
    by (simp_all add: plain_libs_def plain_opts_def plain_header_def)
  have "forks_nested (hd_common plain_header)" by (simp add: fields forks_nested_def plain_facts)
  moreover have "encodable (NArray (map NBytes (headerItems plain_header)))"
    by (rule items_encodable [OF plain_items]) (simp add: headerItems_def)
  ultimately show ?thesis
    using header_rlp_roundtrip [of plain_libs no_data plain_opts plain_header] plain_constructed rlp_hex.noble_hex_axioms
    by (simp add: fields)
qed

end
