(* ===== verification/Spec2Isabelle.thy ===== *)
theory Spec2Isabelle
  imports Rlp Bytes Common EvmStack EvmMemory TransientStorage SimpleState Journal EvmWords EvmSafety
    EvmGasBound MptProof HeaderRlp
begin

text \<open>
  A verification library for the EthereumJS monorepo, a TypeScript implementation of Ethereum in
  packages under \<^verbatim>\<open>src/packages\<close>. The packages build on each other: \<^verbatim>\<open>rlp\<close> serializes, \<^verbatim>\<open>util\<close>
  has bytes, addresses and accounts, \<^verbatim>\<open>common\<close> says which rules hold at which block, \<^verbatim>\<open>statemanager\<close>
  keeps accounts and storage under checkpoints, \<^verbatim>\<open>evm\<close> runs code, and \<^verbatim>\<open>mpt\<close>, \<^verbatim>\<open>tx\<close>, \<^verbatim>\<open>block\<close>,
  \<^verbatim>\<open>blockchain\<close>, \<^verbatim>\<open>vm\<close> and \<^verbatim>\<open>client\<close> process transactions, blocks and the chain. Modelled here are
  the lower layers up to a message of the EVM with all the messages below it, the Merkle
  Patricia trie, and block headers.

  \<^bold>\<open>Theories and the code they model.\<close>

  \<^item> \<open>Prelude\<close>, \<open>Effects\<close>: byte strings, numbers in base 256, results with an error
    (\<open>js_error + 'a\<close>), computations that change an object and may throw (\<open>seqE\<close> is the semicolon).
    A throw keeps the changes made before it.
  \<^item> \<open>Rlp\<close>: \<^verbatim>\<open>rlp/src/index.ts\<close>. \<open>Bytes\<close>: \<^verbatim>\<open>util/src/bytes.ts\<close>, \<^verbatim>\<open>internal.ts\<close>, \<^verbatim>\<open>address.ts\<close>.
    \<open>Account\<close>: \<^verbatim>\<open>util/src/account.ts\<close>. \<open>Signature\<close>: \<^verbatim>\<open>util/src/signature.ts\<close>, \<^verbatim>\<open>authorization.ts\<close> and
    the functions of keys. \<open>Loose\<close>: the inputs of many types that constructors accept
    (\<open>toType\<close> of \<^verbatim>\<open>util/src/types.ts\<close>).
  \<^item> \<open>CommonData\<close>, \<open>Crc\<close>, \<open>Common\<close>: the chain rules of \<^verbatim>\<open>common/src\<close>, an instance with its
    parameter and EIP caches as a state, its methods as computations on it.
  \<^item> \<open>SimpleState\<close>: \<^verbatim>\<open>statemanager/src/simpleStateManager.ts\<close> and \<^verbatim>\<open>cache/originalStorageCache.ts\<close>.
    \<open>Journal\<close>: \<^verbatim>\<open>evm/src/journal.ts\<close>, warm addresses and slots and touched accounts over any manager.
  \<^item> \<open>EvmStack\<close>, \<open>EvmMemory\<close>, \<open>TransientStorage\<close>: the files of \<^verbatim>\<open>evm/src\<close> of the same names.
  \<^item> \<open>EvmRun\<close>: the state of a frame and the methods of the interpreter the opcodes call.
    \<open>EvmUtil\<close>, \<open>EvmGas\<close>, \<open>EvmDynGas\<close>: \<^verbatim>\<open>evm/src/opcodes/util.ts\<close>, the EIP files and \<^verbatim>\<open>gas.ts\<close>.
    \<open>EvmOps\<close>, \<open>EvmCalls\<close>: the handlers of \<^verbatim>\<open>opcodes/functions.ts\<close>, \<open>op_X\<close> for opcode X, the
    second for those that leave the frame. \<open>EvmCodes\<close>: the tables of \<^verbatim>\<open>opcodes/codes.ts\<close>.
    \<open>EvmLoop\<close>: \<open>run\<close>, \<open>runStep\<close> and the jump analysis of \<^verbatim>\<open>evm/src/interpreter.ts\<close>.
    \<open>Evm\<close>: messages, calls and creations, of \<^verbatim>\<open>evm/src/evm.ts\<close>; \<open>runMessage\<close> closes the circle
    between them and the interpreter.
  \<^item> \<open>MptNode\<close>: the nodes of the trie, nibbles and hex prefixes (\<^verbatim>\<open>mpt/src/node/\<close>, \<^verbatim>\<open>util/\<close>).
    \<open>CheckpointDb\<close>: \<^verbatim>\<open>mpt/src/db/checkpointDB.ts\<close> over \<^verbatim>\<open>util/src/mapDB.ts\<close>. \<open>Mpt\<close>: the class of
    \<^verbatim>\<open>mpt/src/mpt.ts\<close>, a root and a database. \<open>MptTrie\<close> is the abstract trie, with one canonical
    form for every finite map; \<open>MptRefine\<close> relates it to nodes and their hashes, \<open>MptStore\<close> to the
    database, \<open>MptMap\<close> and \<open>MptDel\<close> prove a put and a deletion, \<open>MptSpec\<close> what runs of them give.
    \<open>MptProof\<close>: \<^verbatim>\<open>mpt/src/proof/proof.ts\<close>.
  \<^item> \<open>BlockHeader\<close>: \<^verbatim>\<open>block/src/header/header.ts\<close>, \<^verbatim>\<open>header/constructors.ts\<close>, \<^verbatim>\<open>helpers.ts\<close> and
    \<^verbatim>\<open>consensus/clique.ts\<close>. A header is a record with the fields of the class (\<open>hd_\<close>); the loose data
    it is built from is another (\<open>da_\<close>). \<open>HeaderFees\<close> and \<open>HeaderRlp\<close> hold its theorems.
  \<^item> \<open>EvmSample\<close>: a concrete context in which the witnesses run.

  \<^bold>\<open>Interfaces.\<close> \<open>noble_hex\<close> (\<open>Bytes\<close>) states what the code relies on of the hexadecimal routines
  of an external library; it is interpreted on the package's own routines. \<open>checkpointed\<close>
  (\<open>Checkpoints\<close>) is the contract of a store with nested checkpoints, interpreted on transient
  storage, the journal and the state manager; \<open>account_store\<close> (\<open>SimpleState\<close>) is what the journal
  needs of a manager. \<open>frame_relation\<close> (\<open>EvmFrame\<close>) is a relation between the states of a frame
  that the primitive steps respect: every opcode handler and gas handler then respects it. It is
  interpreted on the parts of the frame that never change and on the program counter.
  \<open>node_store\<close> (\<open>CheckpointDb\<close>) is what a trie relies on of its database, a map with nested
  checkpoints; the lemmas of the trie are proved in it, and it is interpreted on \<open>CheckpointDB\<close>
  without a cache.

  \<^bold>\<open>What the lemmas show.\<close> Round trips and canonical forms of RLP, bytes, bits and accounts; the
  hardfork chosen for a block and the caches of the chain rules; refinement of the stack to a
  list, of the memory to an array, of the state manager to three maps under scripts of nested
  frames (\<open>plays_refine\<close>); the meaning of
  the arithmetic opcodes on 256-bit words (\<open>EvmWords\<close>); the jump analysis, the program counter
  along the loop, and that code without jumps returns (\<open>EvmControl\<close>); that no opcode that
  writes completes in a static frame, whatever the hardfork (\<open>EvmSafety\<close>); that a message that fails leaves no trace in the state, that the transfer of a
  call moves exactly its value (\<open>EvmRevert\<close>) and that no message uses more gas than its limit
  (\<open>EvmGasBound\<close>); the trie as a map, its root as a commitment to the contents, the frames of its
  database and its proofs (\<open>MptSpec\<close>, \<open>MptProof\<close>), under the hypothesis that the hash has no
  collision on the nodes that occur; the formats of signatures (\<open>Signature\<close>); the base fee and the
  excess blob gas of the next block, the blob price against the real
  exponential, the bounds of gas limits (\<open>HeaderFees\<close>), and that a header survives its
  serialization (\<open>HeaderRlp\<close>).

  \<^bold>\<open>Fuel.\<close> The RLP decoder has fuel linear in its input, enough for every input
  (\<open>decode_terminates\<close>). The loop of the interpreter has fuel, one unit per opcode: for code
  without jumps one more than its bytes is enough (\<open>straight_line_returns\<close>). \<open>runMessage\<close> bounds the nesting of
  messages and the opcodes of each frame; running out is the error \<open>OutOfFuel\<close>, a throw, and the theorems
  about messages that return hold for every bound. A walk of the trie counts its nodes; one
  more than the nibbles of the key is enough for every trie that a run leaves (\<open>mpt_batch_is_map\<close>). Other loops are
  recursions with a measure.

  \<^bold>\<open>Not modelled.\<close> Hash functions, elliptic curves and the database are parameters, since they are
  external libraries. Debug output, events and timers have no effect on results. Left out of the
  modelled packages: RETURNCONTRACT and the parsing of EOF containers (an experimental
  format; a container that has been parsed is a parameter), custom opcodes and
  precompiles, which are a parameter of the EVM. Of the trie the theorems are about
  tries without pruning (which is modelled), and locks, walks of the whole trie, range proofs and
  copies are left out. Of the block package blocks, the roots of their lists and headers from
  RPC are left out. The rest would follow in this order: transactions, the caching state manager,
  blocks, the blockchain, the data structures of the client.
\<close>

end
